(* ===== verification/Prelude.thy ===== *)
theory Prelude
  imports Main "HOL-Library.Word" "HOL-Library.Monad_Syntax"
begin

text \<open>
  Shared vocabulary of the development: the integer types of include/linux/types.h, byte
  buffers and their slices, little-endian integers, on-disk structures stored in a buffer (the
  locale packed), bits of a bitmap, and the static buffer pools that every file of fs/ext4 uses
  as its malloc.
\<close>

unbundle bit_operations_syntax

section \<open>Machine integers\<close>

type_synonym u8 = "8 word"
type_synonym u16 = "16 word"
type_synonym u32 = "32 word"
type_synonym u64 = "64 word"
type_synonym bytes = "u8 list"

text \<open>
  The named collections: slice_simps rewrites reads of a buffer after a write of it,
  frame_simps holds the state-unchanged facts of operations that only look at the state.
\<close>

named_theorems slice_simps
named_theorems frame_simps

lemma unat_less_pow [simp]: "unat (x :: 'a::len word) < 2 ^ LENGTH('a)"
  by (rule unsigned_less)

lemma unat_u32_bound: "unat (x :: u32) < 4294967296"
  using unsigned_less [of x] by simp

lemma unat_u16_bound: "unat (x :: u16) < 65536"
  using unsigned_less [of x] by simp

lemma unat_u8_bound: "unat (x :: u8) < 256"
  using unsigned_less [of x] by simp

lemma unat_u64_bound: "unat (x :: u64) < 18446744073709551616"
  using unsigned_less [of x] by simp

lemma word_eq_by_unat: "unat (x :: 'a::len word) = unat y \<Longrightarrow> x = y"
  by (simp add: word_eq_iff_unsigned [where ?'a = nat])

lemma unat_ucast_fit: "unat (x :: 'a::len word) < 2 ^ LENGTH('b) \<Longrightarrow> unat (ucast x :: 'b::len word) = unat x"
  by (simp add: unsigned_ucast_eq take_bit_nat_eq_self)

lemma unat_of_nat_fit: "n < 2 ^ LENGTH('a) \<Longrightarrow> unat (of_nat n :: 'a::len word) = n"
  by (simp add: unat_of_nat)

lemma sint_small:
  assumes "unat (x :: 64 word) < 2 ^ 63"
  shows "sint x = int (unat x)"
proof -
  have u: "uint x = int (unat x)" by simp
  have "sint x = signed_take_bit 63 (uint x)" by (simp only: sint_uint) simp
  also have "\<dots> = uint x"
  proof (rule signed_take_bit_int_eq_self)
    have "int (unat x) < int (2 ^ 63)" using assms by (simp only: of_nat_less_iff)
    then show "uint x < 2 ^ 63" unfolding u by (simp only: of_nat_power of_nat_numeral)
    show "- (2 ^ 63) \<le> uint x" by (rule order_trans [of _ 0]) simp_all
  qed
  finally show ?thesis using u by (rule trans)
qed

lemma of_nat_inj_fit:
  "m < 2 ^ LENGTH('a) \<Longrightarrow> n < 2 ^ LENGTH('a) \<Longrightarrow>
   (of_nat m :: 'a::len word) = of_nat n \<longleftrightarrow> m = n"
  by (metis unat_of_nat_fit)

lemma unat_add_nowrap:
  "unat (x :: 'a::len word) + unat y < 2 ^ LENGTH('a) \<Longrightarrow> unat (x + y) = unat x + unat y"
  by (simp add: unat_word_ariths)

lemma unat_mult_nowrap:
  "unat (x :: 'a::len word) * unat y < 2 ^ LENGTH('a) \<Longrightarrow> unat (x * y) = unat x * unat y"
  by (simp add: unat_word_ariths)

lemma unat_sub_le:
  "y \<le> x \<Longrightarrow> unat (x - y) = unat (x :: 'a::len word) - unat y"
  by (rule unat_sub)

section \<open>Slices of a buffer\<close>

definition bslice :: "nat \<Rightarrow> nat \<Rightarrow> 'a list \<Rightarrow> 'a list" where
  "bslice off n buf = take n (drop off buf)"

definition bsplice :: "nat \<Rightarrow> 'a list \<Rightarrow> 'a list \<Rightarrow> 'a list" where
  "bsplice off xs buf = take off buf @ xs @ drop (off + length xs) buf"

lemma length_bslice [simp]: "length (bslice off n buf) = min n (length buf - off)"
  by (simp add: bslice_def)

lemma length_bsplice [simp]:
  "off + length xs \<le> length buf \<Longrightarrow> length (bsplice off xs buf) = length buf"
  by (simp add: bsplice_def)

lemma nth_bslice: "i < n \<Longrightarrow> off + i < length buf \<Longrightarrow> bslice off n buf ! i = buf ! (off + i)"
  by (simp add: bslice_def)

lemma nth_bsplice:
  "off + length xs \<le> length buf \<Longrightarrow> i < length buf \<Longrightarrow>
   bsplice off xs buf ! i = (if off \<le> i \<and> i < off + length xs then xs ! (i - off) else buf ! i)"
  by (auto simp: bsplice_def nth_append min_def)

lemma slice_splice_same [slice_simps]:
  "off + length xs \<le> length buf \<Longrightarrow> n = length xs \<Longrightarrow> bslice off n (bsplice off xs buf) = xs"
  by (simp add: bslice_def bsplice_def)

lemma slice_splice_other:
  assumes "off + length xs \<le> length buf"
    and "off' + n \<le> off \<or> off + length xs \<le> off'"
  shows "bslice off' n (bsplice off xs buf) = bslice off' n buf"
proof (rule nth_equalityI)
  show "length (bslice off' n (bsplice off xs buf)) = length (bslice off' n buf)"
    using assms by simp
next
  fix i assume "i < length (bslice off' n (bsplice off xs buf))"
  with assms(1) have i: "i < n" "off' + i < length buf" by auto
  then show "bslice off' n (bsplice off xs buf) ! i = bslice off' n buf ! i"
    using assms by (auto simp: nth_bslice nth_bsplice)
qed

lemma splice_slice_id [slice_simps]:
  "off + n \<le> length buf \<Longrightarrow> bsplice off (bslice off n buf) buf = buf"
  by (rule nth_equalityI) (auto simp: nth_bsplice nth_bslice)

lemma splice_splice_same:
  "off + length xs \<le> length buf \<Longrightarrow> length ys = length xs \<Longrightarrow>
   bsplice off ys (bsplice off xs buf) = bsplice off ys buf"
  by (rule nth_equalityI) (auto simp: nth_bsplice)

section \<open>Little-endian integers\<close>

text \<open>
  The kernel runs on x86 and stores the __le16, __le32 and __le64 fields of the packed
  structures as they are: least significant byte first.
\<close>

fun nat_of_le :: "bytes \<Rightarrow> nat" where
  "nat_of_le [] = 0"
| "nat_of_le (b # bs) = unat b + 256 * nat_of_le bs"

fun le_of_nat :: "nat \<Rightarrow> nat \<Rightarrow> bytes" where
  "le_of_nat 0 n = []"
| "le_of_nat (Suc k) n = word_of_nat (n mod 256) # le_of_nat k (n div 256)"

lemma length_le_of_nat [simp]: "length (le_of_nat k n) = k"
  by (induction k arbitrary: n) auto

lemma nat_of_le_bound: "nat_of_le bs < 256 ^ length bs"
proof (induction bs)
  case (Cons b bs)
  from Cons.IH have "nat_of_le bs + 1 \<le> 256 ^ length bs" by simp
  then have "256 * (nat_of_le bs + 1) \<le> 256 * 256 ^ length bs" by (rule mult_le_mono2)
  with unat_u8_bound [of b] show ?case by simp
qed simp

lemma nat_of_le_of_nat: "nat_of_le (le_of_nat k n) = n mod 256 ^ k"
proof (induction k arbitrary: n)
  case (Suc k)
  then show ?case
    by (simp add: unat_of_nat mod_mult2_eq)
qed simp

lemma le_of_nat_of_le: "le_of_nat (length bs) (nat_of_le bs) = bs"
proof (induction bs)
  case (Cons b bs)
  have "(unat b + 256 * nat_of_le bs) div 256 = nat_of_le bs"
    using unat_u8_bound [of b] by simp
  moreover have "(unat b + 256 * nat_of_le bs) mod 256 = unat b"
    using unat_u8_bound [of b] by simp
  ultimately show ?case using Cons.IH by simp
qed simp

definition dec16 :: "bytes \<Rightarrow> u16" where
  "dec16 bs = word_of_nat (nat_of_le bs)"

definition enc16 :: "u16 \<Rightarrow> bytes" where
  "enc16 x = le_of_nat 2 (unat x)"

definition dec32 :: "bytes \<Rightarrow> u32" where
  "dec32 bs = word_of_nat (nat_of_le bs)"

definition enc32 :: "u32 \<Rightarrow> bytes" where
  "enc32 x = le_of_nat 4 (unat x)"

definition dec64 :: "bytes \<Rightarrow> u64" where
  "dec64 bs = word_of_nat (nat_of_le bs)"

definition enc64 :: "u64 \<Rightarrow> bytes" where
  "enc64 x = le_of_nat 8 (unat x)"

lemma length_enc [simp]: "length (enc16 x) = 2" "length (enc32 y) = 4" "length (enc64 z) = 8"
  by (simp_all add: enc16_def enc32_def enc64_def)

lemma dec16_enc16 [simp]: "dec16 (enc16 x) = x"
  using unat_u16_bound [of x] by (simp add: dec16_def enc16_def nat_of_le_of_nat)

lemma dec32_enc32 [simp]: "dec32 (enc32 x) = x"
  using unat_u32_bound [of x] by (simp add: dec32_def enc32_def nat_of_le_of_nat)

lemma dec64_enc64 [simp]: "dec64 (enc64 x) = x"
  using unat_u64_bound [of x] by (simp add: dec64_def enc64_def nat_of_le_of_nat)

lemma enc16_dec16: "length bs = 2 \<Longrightarrow> enc16 (dec16 bs) = bs"
  using nat_of_le_bound [of bs] le_of_nat_of_le [of bs]
  by (simp add: enc16_def dec16_def unat_of_nat)

lemma enc32_dec32: "length bs = 4 \<Longrightarrow> enc32 (dec32 bs) = bs"
  using nat_of_le_bound [of bs] le_of_nat_of_le [of bs]
  by (simp add: enc32_def dec32_def unat_of_nat)

lemma enc64_dec64: "length bs = 8 \<Longrightarrow> enc64 (dec64 bs) = bs"
  using nat_of_le_bound [of bs] le_of_nat_of_le [of bs]
  by (simp add: enc64_def dec64_def unat_of_nat)


section \<open>Packed structures in a buffer\<close>

text \<open>
  The code casts a position in a block buffer to a pointer to a packed structure and reads or
  assigns the structure. get_struct and put_struct are that cast, for a structure given by
  its size and the two directions of its layout.
\<close>

definition get_struct :: "nat \<Rightarrow> (bytes \<Rightarrow> 'r) \<Rightarrow> bytes \<Rightarrow> nat \<Rightarrow> 'r" where
  "get_struct sz dec buf off = dec (bslice off sz buf)"

definition put_struct :: "('r \<Rightarrow> bytes) \<Rightarrow> bytes \<Rightarrow> nat \<Rightarrow> 'r \<Rightarrow> bytes" where
  "put_struct enc buf off r = bsplice off (enc r) buf"

abbreviation get16 :: "bytes \<Rightarrow> nat \<Rightarrow> u16" where
  "get16 \<equiv> get_struct 2 dec16"

abbreviation put16 :: "bytes \<Rightarrow> nat \<Rightarrow> u16 \<Rightarrow> bytes" where
  "put16 \<equiv> put_struct enc16"

abbreviation get32 :: "bytes \<Rightarrow> nat \<Rightarrow> u32" where
  "get32 \<equiv> get_struct 4 dec32"

abbreviation put32 :: "bytes \<Rightarrow> nat \<Rightarrow> u32 \<Rightarrow> bytes" where
  "put32 \<equiv> put_struct enc32"

text \<open>
  The layout interface: an encoding of fixed size with its inverse. What every structure of
  include/fs/ext4/ext4.h must promise so that reads and writes of structures at disjoint places
  of one buffer do not disturb each other.
\<close>

locale packed =
  fixes sz :: nat
    and dec :: "bytes \<Rightarrow> 'r"
    and enc :: "'r \<Rightarrow> bytes"
  assumes len_enc: "length (enc r) = sz"
    and dec_enc: "dec (enc r) = r"
    and enc_dec: "length bs = sz \<Longrightarrow> enc (dec bs) = bs"
begin

lemma length_put:
  "off + sz \<le> length buf \<Longrightarrow> length (put_struct enc buf off r) = length buf"
  by (simp add: put_struct_def len_enc)

lemma get_put_same:
  "off + sz \<le> length buf \<Longrightarrow> get_struct sz dec (put_struct enc buf off r) off = r"
  by (simp add: put_struct_def get_struct_def slice_splice_same len_enc dec_enc)

lemma slice_put_other:
  "off + sz \<le> length buf \<Longrightarrow> off' + n \<le> off \<or> off + sz \<le> off' \<Longrightarrow>
   bslice off' n (put_struct enc buf off r) = bslice off' n buf"
  by (simp add: put_struct_def slice_splice_other len_enc)

lemma get_put_other:
  "off + sz \<le> length buf \<Longrightarrow> off' + n \<le> off \<or> off + sz \<le> off' \<Longrightarrow>
   get_struct n dec' (put_struct enc buf off r) off' = get_struct n dec' buf off'"
  by (simp add: get_struct_def slice_put_other)

lemma put_get_id:
  "off + sz \<le> length buf \<Longrightarrow> put_struct enc buf off (get_struct sz dec buf off) = buf"
  by (simp add: put_struct_def get_struct_def enc_dec splice_slice_id)

lemma put_put_same:
  "off + sz \<le> length buf \<Longrightarrow>
   put_struct enc (put_struct enc buf off q) off r = put_struct enc buf off r"
  by (simp add: put_struct_def splice_splice_same len_enc)

lemma nth_put_other:
  "off + sz \<le> length buf \<Longrightarrow> i < off \<or> off + sz \<le> i \<Longrightarrow> i < length buf \<Longrightarrow>
   put_struct enc buf off r ! i = buf ! i"
  by (auto simp: put_struct_def nth_bsplice len_enc)

lemma dec_inj: "length a = sz \<Longrightarrow> length b = sz \<Longrightarrow> dec a = dec b \<Longrightarrow> a = b"
  by (metis enc_dec)

end

interpretation le16: packed 2 dec16 enc16
  by unfold_locales (simp_all add: enc16_dec16)

interpretation le32: packed 4 dec32 enc32
  by unfold_locales (simp_all add: enc32_dec32)

interpretation le64: packed 8 dec64 enc64
  by unfold_locales (simp_all add: enc64_dec64)

text \<open>Rules that reassemble a buffer from its consecutive slices (layout proofs).\<close>

lemma slice_append_drop:
  "m = off + n \<Longrightarrow> bslice off n bs @ drop m bs = drop off bs"
  by (metis add.commute append_take_drop_id drop_drop bslice_def)

lemma slice_to_end:
  "length bs \<le> off + n \<Longrightarrow> bslice off n bs = drop off bs"
  by (simp add: bslice_def)

lemma slice_append_left:
  "off + n \<le> length xs \<Longrightarrow> bslice off n (xs @ ys) = bslice off n xs"
  by (simp add: bslice_def)

lemma slice_append_right:
  "length xs \<le> off \<Longrightarrow> bslice off n (xs @ ys) = bslice (off - length xs) n ys"
  by (simp add: bslice_def)

lemma slice_0_all: "n = length xs \<Longrightarrow> bslice 0 n xs = xs"
  by (simp add: bslice_def)

lemmas layout_simps = slice_append_drop slice_to_end slice_append_left slice_append_right
  slice_0_all

section \<open>Bits of a bitmap block\<close>

text \<open>
  The allocators test, set and clear bit k of a bitmap as buf[k / 8] and 1 << (k % 8).
\<close>

definition bm_free :: "bytes \<Rightarrow> nat \<Rightarrow> bool" where
  "bm_free buf k \<longleftrightarrow> buf ! (k div 8) AND push_bit (k mod 8) 1 = 0"

definition bm_mark :: "bytes \<Rightarrow> nat \<Rightarrow> bytes" where
  "bm_mark buf k = buf [k div 8 := buf ! (k div 8) OR push_bit (k mod 8) 1]"

definition bm_clear :: "bytes \<Rightarrow> nat \<Rightarrow> bytes" where
  "bm_clear buf k = buf [k div 8 := buf ! (k div 8) AND NOT (push_bit (k mod 8) 1)]"

lemma and_bit_zero_iff:
  assumes n: "n < LENGTH('a)"
  shows "(x :: 'a::len word) AND push_bit n 1 = 0 \<longleftrightarrow> \<not> bit x n"
proof
  have "bit (x AND push_bit n 1) n \<longleftrightarrow> bit x n"
    using n by (simp add: bit_simps)
  then show "x AND push_bit n 1 = 0 \<Longrightarrow> \<not> bit x n" by auto
  assume "\<not> bit x n"
  then show "x AND push_bit n 1 = 0"
    by (intro bit_word_eqI) (auto simp: bit_simps)
qed

lemma or_set_bit: "bit x n \<Longrightarrow> (x :: 'a::len word) OR push_bit n 1 = x"
  by (intro bit_word_eqI) (auto simp: bit_simps)

lemma bm_free_bit: "bm_free buf k \<longleftrightarrow> \<not> bit (buf ! (k div 8)) (k mod 8)"
  unfolding bm_free_def by (rule and_bit_zero_iff) simp

lemma length_bm_mark [simp]: "length (bm_mark buf k) = length buf"
  by (simp add: bm_mark_def)

lemma length_bm_clear [simp]: "length (bm_clear buf k) = length buf"
  by (simp add: bm_clear_def)

lemma div_mod8_eq: "k div 8 = l div 8 \<Longrightarrow> k mod 8 = l mod 8 \<Longrightarrow> k = (l::nat)"
  by (metis div_mult_mod_eq)

lemma bm_free_mark:
  "k < 8 * length buf \<Longrightarrow> bm_free (bm_mark buf k) l \<longleftrightarrow> l \<noteq> k \<and> bm_free buf l"
  by (cases "l div 8 = k div 8")
    (auto simp: bm_free_bit bm_mark_def bit_simps nth_list_update dest: div_mod8_eq)

lemma bm_free_clear:
  "k < 8 * length buf \<Longrightarrow> bm_free (bm_clear buf k) l \<longleftrightarrow> l = k \<or> bm_free buf l"
  by (cases "l div 8 = k div 8")
    (auto simp: bm_free_bit bm_clear_def bit_simps nth_list_update dest: div_mod8_eq)

lemma bm_eqI:
  assumes "length a = length b" and "\<And>k. k < 8 * length a \<Longrightarrow> bm_free a k \<longleftrightarrow> bm_free b k"
  shows "a = b"
proof (rule nth_equalityI)
  show "length a = length b" by (rule assms(1))
next
  fix i assume i: "i < length a"
  show "a ! i = b ! i"
  proof (rule bit_word_eqI)
    fix n assume n: "n < LENGTH(8)"
    then have "8 * i + n < 8 * length a" using i by simp
    then have "bm_free a (8 * i + n) \<longleftrightarrow> bm_free b (8 * i + n)" by (rule assms(2))
    then show "bit (a ! i) n \<longleftrightarrow> bit (b ! i) n" using n by (simp add: bm_free_bit)
  qed
qed

lemma bm_clear_mark:
  "k < 8 * length buf \<Longrightarrow> bm_free buf k \<Longrightarrow> bm_clear (bm_mark buf k) k = buf"
  by (rule bm_eqI) (auto simp: bm_free_clear bm_free_mark)

section \<open>Static buffer pools\<close>

text \<open>
  Each file of fs/ext4 defines malloc as simple_malloc over a static array of buffers and
  a used flag for each. The pool is the list of used flags; a buffer is named by its index. The
  contents of a buffer are a local value of the function that holds it.
\<close>

type_synonym pool = "bool list"

fun first_unused :: "pool \<Rightarrow> nat option" where
  "first_unused [] = None"
| "first_unused (u # us) = (if \<not> u then Some 0 else map_option Suc (first_unused us))"

definition simple_malloc :: "nat \<Rightarrow> nat \<Rightarrow> pool \<Rightarrow> nat option \<times> pool" where
  "simple_malloc max_size n p =
     (if n > max_size then (None, p)
      else case first_unused p of
        None \<Rightarrow> (None, p)
      | Some i \<Rightarrow> (Some i, p[i := True]))"

definition simple_free :: "nat \<Rightarrow> pool \<Rightarrow> pool" where
  "simple_free i p = p[i := False]"

definition pool_free_count :: "pool \<Rightarrow> nat" where
  "pool_free_count p = length (filter Not p)"

lemma first_unused_SomeD:
  "first_unused p = Some i \<Longrightarrow> i < length p \<and> \<not> p ! i \<and> (\<forall>j<i. p ! j)"
proof (induction p arbitrary: i)
  case (Cons u us)
  then show ?case
    by (auto simp: less_Suc_eq_0_disj nth_Cons split: if_splits nat.splits)
qed simp

lemma first_unused_None_iff: "first_unused p = None \<longleftrightarrow> (\<forall>u \<in> set p. u)"
  by (induction p) auto

lemma simple_free_malloc [frame_simps]:
  "simple_malloc m n p = (Some i, p') \<Longrightarrow> simple_free i p' = p"
  by (auto simp: simple_malloc_def simple_free_def list_update_same_conv
      split: if_splits option.splits dest!: first_unused_SomeD)

lemma simple_malloc_None: "simple_malloc m n p = (None, p') \<Longrightarrow> p' = p"
  by (auto simp: simple_malloc_def split: if_splits option.splits)

lemma simple_malloc_Some_iff:
  "(\<exists>i p'. simple_malloc m n p = (Some i, p')) \<longleftrightarrow> n \<le> m \<and> 0 < pool_free_count p"
proof -
  have "first_unused p = None \<longleftrightarrow> pool_free_count p = 0"
    by (induction p) (auto simp: pool_free_count_def)
  then show ?thesis
    by (cases "first_unused p") (auto simp: simple_malloc_def)
qed

lemma pool_free_count_malloc:
  "simple_malloc m n p = (Some i, p') \<Longrightarrow> Suc (pool_free_count p') = pool_free_count p"
proof -
  have "first_unused p = Some i \<Longrightarrow> Suc (pool_free_count (p[i := True])) = pool_free_count p" for i
    by (induction p arbitrary: i) (auto simp: pool_free_count_def split: if_splits)
  then show "simple_malloc m n p = (Some i, p') \<Longrightarrow> Suc (pool_free_count p') = pool_free_count p"
    by (auto simp: simple_malloc_def split: if_splits option.splits)
qed

end
