(* ===== verification/Layout.thy ===== *)
theory Layout
  imports Prelude
begin

text \<open>
  The on-disk structures of include/fs/ext4/ext4.h as records, each with its packed
  little-endian layout and an interpretation of the locale packed, which gives the read and
  write laws of the structure inside a block buffer; and the constants of that header.
\<close>

section \<open>Single bytes\<close>

definition dec8 :: "bytes \<Rightarrow> u8" where
  "dec8 bs = (case bs of [] \<Rightarrow> 0 | b # _ \<Rightarrow> b)"

definition enc8 :: "u8 \<Rightarrow> bytes" where
  "enc8 x = [x]"

lemma length_enc8 [simp]: "length (enc8 x) = 1"
  by (simp add: enc8_def)

lemma dec8_enc8 [simp]: "dec8 (enc8 x) = x"
  by (simp add: dec8_def enc8_def)

lemma enc8_dec8: "length bs = 1 \<Longrightarrow> enc8 (dec8 bs) = bs"
  by (cases bs) (simp_all add: dec8_def enc8_def)

interpretation le8: packed 1 dec8 enc8
  by unfold_locales (simp_all add: enc8_dec8)

lemmas enc_dec_raw = enc8_dec8 enc16_dec16 enc32_dec32 enc64_dec64

section \<open>Structures\<close>

text \<open>struct ext4_group_desc, one block group.\<close>

record ext4_group_desc =
  bg_block_bitmap_lo :: u32
  bg_inode_bitmap_lo :: u32
  bg_inode_table_lo :: u32
  bg_free_blocks_count_lo :: u16
  bg_free_inodes_count_lo :: u16
  bg_used_dirs_count_lo :: u16
  bg_flags :: u16
  bg_exclude_bitmap_lo :: u32
  bg_block_bitmap_csum_lo :: u16
  bg_inode_bitmap_csum_lo :: u16
  bg_itable_unused_lo :: u16
  bg_checksum :: u16
  bg_block_bitmap_hi :: u32
  bg_inode_bitmap_hi :: u32
  bg_inode_table_hi :: u32
  bg_free_blocks_count_hi :: u16
  bg_free_inodes_count_hi :: u16
  bg_used_dirs_count_hi :: u16
  bg_itable_unused_hi :: u16
  bg_exclude_bitmap_hi :: u32
  bg_block_bitmap_csum_hi :: u16
  bg_inode_bitmap_csum_hi :: u16
  bg_reserved :: u32

definition gd_dec :: "bytes \<Rightarrow> ext4_group_desc" where
  "gd_dec bs =
     \<lparr>bg_block_bitmap_lo = dec32 (bslice 0 4 bs),
      bg_inode_bitmap_lo = dec32 (bslice 4 4 bs),
      bg_inode_table_lo = dec32 (bslice 8 4 bs),
      bg_free_blocks_count_lo = dec16 (bslice 12 2 bs),
      bg_free_inodes_count_lo = dec16 (bslice 14 2 bs),
      bg_used_dirs_count_lo = dec16 (bslice 16 2 bs),
      bg_flags = dec16 (bslice 18 2 bs),
      bg_exclude_bitmap_lo = dec32 (bslice 20 4 bs),
      bg_block_bitmap_csum_lo = dec16 (bslice 24 2 bs),
      bg_inode_bitmap_csum_lo = dec16 (bslice 26 2 bs),
      bg_itable_unused_lo = dec16 (bslice 28 2 bs),
      bg_checksum = dec16 (bslice 30 2 bs),
      bg_block_bitmap_hi = dec32 (bslice 32 4 bs),
      bg_inode_bitmap_hi = dec32 (bslice 36 4 bs),
      bg_inode_table_hi = dec32 (bslice 40 4 bs),
      bg_free_blocks_count_hi = dec16 (bslice 44 2 bs),
      bg_free_inodes_count_hi = dec16 (bslice 46 2 bs),
      bg_used_dirs_count_hi = dec16 (bslice 48 2 bs),
      bg_itable_unused_hi = dec16 (bslice 50 2 bs),
      bg_exclude_bitmap_hi = dec32 (bslice 52 4 bs),
      bg_block_bitmap_csum_hi = dec16 (bslice 56 2 bs),
      bg_inode_bitmap_csum_hi = dec16 (bslice 58 2 bs),
      bg_reserved = dec32 (bslice 60 4 bs)\<rparr>"

definition gd_enc :: "ext4_group_desc \<Rightarrow> bytes" where
  "gd_enc r =
     enc32 (bg_block_bitmap_lo r) @ enc32 (bg_inode_bitmap_lo r) @
     enc32 (bg_inode_table_lo r) @ enc16 (bg_free_blocks_count_lo r) @
     enc16 (bg_free_inodes_count_lo r) @ enc16 (bg_used_dirs_count_lo r) @
     enc16 (bg_flags r) @ enc32 (bg_exclude_bitmap_lo r) @
     enc16 (bg_block_bitmap_csum_lo r) @ enc16 (bg_inode_bitmap_csum_lo r) @
     enc16 (bg_itable_unused_lo r) @ enc16 (bg_checksum r) @
     enc32 (bg_block_bitmap_hi r) @ enc32 (bg_inode_bitmap_hi r) @
     enc32 (bg_inode_table_hi r) @ enc16 (bg_free_blocks_count_hi r) @
     enc16 (bg_free_inodes_count_hi r) @ enc16 (bg_used_dirs_count_hi r) @
     enc16 (bg_itable_unused_hi r) @ enc32 (bg_exclude_bitmap_hi r) @
     enc16 (bg_block_bitmap_csum_hi r) @ enc16 (bg_inode_bitmap_csum_hi r) @
     enc32 (bg_reserved r)"

lemma gd_enc_dec: "length bs = 64 \<Longrightarrow> gd_enc (gd_dec bs) = bs"
  by (simp add: gd_enc_def gd_dec_def enc_dec_raw layout_simps)

interpretation pk_gd: packed 64 gd_dec gd_enc
  by (rule packed.intro, simp add: gd_enc_def, simp add: gd_enc_def gd_dec_def layout_simps,
      erule gd_enc_dec)

text \<open>struct ext4_dir_entry up to its name: the fixed header of EXT4_DIR_ENTRY_HEADER_LEN bytes. The name bytes follow it in the block.\<close>

record ext4_dir_entry =
  de_inode :: u32
  de_rec_len :: u16
  de_name_len :: u8
  de_file_type :: u8

definition de_dec :: "bytes \<Rightarrow> ext4_dir_entry" where
  "de_dec bs =
     \<lparr>de_inode = dec32 (bslice 0 4 bs),
      de_rec_len = dec16 (bslice 4 2 bs),
      de_name_len = dec8 (bslice 6 1 bs),
      de_file_type = dec8 (bslice 7 1 bs)\<rparr>"

definition de_enc :: "ext4_dir_entry \<Rightarrow> bytes" where
  "de_enc r =
     enc32 (de_inode r) @ enc16 (de_rec_len r) @ enc8 (de_name_len r) @
     enc8 (de_file_type r)"

lemma de_enc_dec: "length bs = 8 \<Longrightarrow> de_enc (de_dec bs) = bs"
  by (simp add: de_enc_def de_dec_def enc_dec_raw layout_simps)

interpretation pk_de: packed 8 de_dec de_enc
  by (rule packed.intro, simp add: de_enc_def, simp add: de_enc_def de_dec_def layout_simps,
      erule de_enc_dec)

text \<open>struct ext4_extent_header, the head of every extent tree node.\<close>

record ext4_extent_header =
  eh_magic :: u16
  eh_entries :: u16
  eh_max :: u16
  eh_depth :: u16
  eh_generation :: u32

definition eh_dec :: "bytes \<Rightarrow> ext4_extent_header" where
  "eh_dec bs =
     \<lparr>eh_magic = dec16 (bslice 0 2 bs),
      eh_entries = dec16 (bslice 2 2 bs),
      eh_max = dec16 (bslice 4 2 bs),
      eh_depth = dec16 (bslice 6 2 bs),
      eh_generation = dec32 (bslice 8 4 bs)\<rparr>"

definition eh_enc :: "ext4_extent_header \<Rightarrow> bytes" where
  "eh_enc r =
     enc16 (eh_magic r) @ enc16 (eh_entries r) @ enc16 (eh_max r) @ enc16 (eh_depth r) @
     enc32 (eh_generation r)"

lemma eh_enc_dec: "length bs = 12 \<Longrightarrow> eh_enc (eh_dec bs) = bs"
  by (simp add: eh_enc_def eh_dec_def enc_dec_raw layout_simps)

interpretation pk_eh: packed 12 eh_dec eh_enc
  by (rule packed.intro, simp add: eh_enc_def, simp add: eh_enc_def eh_dec_def layout_simps,
      erule eh_enc_dec)

text \<open>struct ext4_extent, an entry of a leaf node.\<close>

record ext4_extent =
  ee_block :: u32
  ee_len :: u16
  ee_start_hi :: u16
  ee_start_lo :: u32

definition ex_dec :: "bytes \<Rightarrow> ext4_extent" where
  "ex_dec bs =
     \<lparr>ee_block = dec32 (bslice 0 4 bs),
      ee_len = dec16 (bslice 4 2 bs),
      ee_start_hi = dec16 (bslice 6 2 bs),
      ee_start_lo = dec32 (bslice 8 4 bs)\<rparr>"

definition ex_enc :: "ext4_extent \<Rightarrow> bytes" where
  "ex_enc r =
     enc32 (ee_block r) @ enc16 (ee_len r) @ enc16 (ee_start_hi r) @ enc32 (ee_start_lo r)"

lemma ex_enc_dec: "length bs = 12 \<Longrightarrow> ex_enc (ex_dec bs) = bs"
  by (simp add: ex_enc_def ex_dec_def enc_dec_raw layout_simps)

interpretation pk_ex: packed 12 ex_dec ex_enc
  by (rule packed.intro, simp add: ex_enc_def, simp add: ex_enc_def ex_dec_def layout_simps,
      erule ex_enc_dec)

text \<open>struct ext4_extent_idx, an entry of an index node.\<close>

record ext4_extent_idx =
  ei_block :: u32
  ei_leaf_lo :: u32
  ei_leaf_hi :: u16
  ei_unused :: u16

definition ix_dec :: "bytes \<Rightarrow> ext4_extent_idx" where
  "ix_dec bs =
     \<lparr>ei_block = dec32 (bslice 0 4 bs),
      ei_leaf_lo = dec32 (bslice 4 4 bs),
      ei_leaf_hi = dec16 (bslice 8 2 bs),
      ei_unused = dec16 (bslice 10 2 bs)\<rparr>"

definition ix_enc :: "ext4_extent_idx \<Rightarrow> bytes" where
  "ix_enc r =
     enc32 (ei_block r) @ enc32 (ei_leaf_lo r) @ enc16 (ei_leaf_hi r) @
     enc16 (ei_unused r)"

lemma ix_enc_dec: "length bs = 12 \<Longrightarrow> ix_enc (ix_dec bs) = bs"
  by (simp add: ix_enc_def ix_dec_def enc_dec_raw layout_simps)

interpretation pk_ix: packed 12 ix_dec ix_enc
  by (rule packed.intro, simp add: ix_enc_def, simp add: ix_enc_def ix_dec_def layout_simps,
      erule ix_enc_dec)

text \<open>struct ext4_dx_root_info, behind the dot and dotdot entries of an HTree root.\<close>

record ext4_dx_root_info =
  dxi_reserved_zero :: u32
  dxi_hash_version :: u8
  dxi_info_length :: u8
  dxi_indirect_levels :: u8
  dxi_unused_flags :: u8

definition dx_info_dec :: "bytes \<Rightarrow> ext4_dx_root_info" where
  "dx_info_dec bs =
     \<lparr>dxi_reserved_zero = dec32 (bslice 0 4 bs),
      dxi_hash_version = dec8 (bslice 4 1 bs),
      dxi_info_length = dec8 (bslice 5 1 bs),
      dxi_indirect_levels = dec8 (bslice 6 1 bs),
      dxi_unused_flags = dec8 (bslice 7 1 bs)\<rparr>"

definition dx_info_enc :: "ext4_dx_root_info \<Rightarrow> bytes" where
  "dx_info_enc r =
     enc32 (dxi_reserved_zero r) @ enc8 (dxi_hash_version r) @ enc8 (dxi_info_length r) @
     enc8 (dxi_indirect_levels r) @ enc8 (dxi_unused_flags r)"

lemma dx_info_enc_dec: "length bs = 8 \<Longrightarrow> dx_info_enc (dx_info_dec bs) = bs"
  by (simp add: dx_info_enc_def dx_info_dec_def enc_dec_raw layout_simps)

interpretation pk_dx_info: packed 8 dx_info_dec dx_info_enc
  by (rule packed.intro, simp add: dx_info_enc_def, simp add: dx_info_enc_def dx_info_dec_def layout_simps,
      erule dx_info_enc_dec)

text \<open>struct ext4_dx_countlimit; it shares its place with the hash of entry 0.\<close>

record ext4_dx_countlimit =
  dx_limit :: u16
  dx_count :: u16

definition dx_cl_dec :: "bytes \<Rightarrow> ext4_dx_countlimit" where
  "dx_cl_dec bs =
     \<lparr>dx_limit = dec16 (bslice 0 2 bs),
      dx_count = dec16 (bslice 2 2 bs)\<rparr>"

definition dx_cl_enc :: "ext4_dx_countlimit \<Rightarrow> bytes" where
  "dx_cl_enc r =
     enc16 (dx_limit r) @ enc16 (dx_count r)"

lemma dx_cl_enc_dec: "length bs = 4 \<Longrightarrow> dx_cl_enc (dx_cl_dec bs) = bs"
  by (simp add: dx_cl_enc_def dx_cl_dec_def enc_dec_raw layout_simps)

interpretation pk_dx_cl: packed 4 dx_cl_dec dx_cl_enc
  by (rule packed.intro, simp add: dx_cl_enc_def, simp add: dx_cl_enc_def dx_cl_dec_def layout_simps,
      erule dx_cl_enc_dec)

text \<open>struct ext4_dx_entry, a range of hashes and its block.\<close>

record ext4_dx_entry =
  dx_hash :: u32
  dx_block :: u32

definition dx_dec :: "bytes \<Rightarrow> ext4_dx_entry" where
  "dx_dec bs =
     \<lparr>dx_hash = dec32 (bslice 0 4 bs),
      dx_block = dec32 (bslice 4 4 bs)\<rparr>"

definition dx_enc :: "ext4_dx_entry \<Rightarrow> bytes" where
  "dx_enc r =
     enc32 (dx_hash r) @ enc32 (dx_block r)"

lemma dx_enc_dec: "length bs = 8 \<Longrightarrow> dx_enc (dx_dec bs) = bs"
  by (simp add: dx_enc_def dx_dec_def enc_dec_raw layout_simps)

interpretation pk_dx: packed 8 dx_dec dx_enc
  by (rule packed.intro, simp add: dx_enc_def, simp add: dx_enc_def dx_dec_def layout_simps,
      erule dx_enc_dec)

section \<open>Constants\<close>

abbreviation (input) BLOCK_SIZE :: nat where "BLOCK_SIZE \<equiv> 4096"
abbreviation (input) EXT4_SUPER_MAGIC :: u16 where "EXT4_SUPER_MAGIC \<equiv> 0xEF53"
abbreviation (input) EXT4_MIN_BLOCK_SIZE :: u32 where "EXT4_MIN_BLOCK_SIZE \<equiv> 1024"
abbreviation (input) EXT4_MAX_BLOCK_SIZE :: u32 where "EXT4_MAX_BLOCK_SIZE \<equiv> 65536"
abbreviation (input) EXT4_INODE_FLAG_EXTENTS :: u32 where "EXT4_INODE_FLAG_EXTENTS \<equiv> 0x00080000"
abbreviation (input) EXT4_INODE_FLAG_INDEX :: u32 where "EXT4_INODE_FLAG_INDEX \<equiv> 0x00001000"
abbreviation (input) EXT4_EXT_MAGIC :: u16 where "EXT4_EXT_MAGIC \<equiv> 0xF30A"
abbreviation (input) EXT4_DX_HASH_LEGACY :: u8 where "EXT4_DX_HASH_LEGACY \<equiv> 0"
abbreviation (input) EXT4_DX_HASH_LEGACY_UNSIGNED :: u8 where "EXT4_DX_HASH_LEGACY_UNSIGNED \<equiv> 3"

text \<open>
  EXT4_DIR_REC_LEN of dir.c and htree.c: the header of 8 bytes and the name, rounded up to a
  multiple of 4 by adding 3 and masking the low two bits.
\<close>

definition EXT4_DIR_REC_LEN :: "nat \<Rightarrow> nat" where
  "EXT4_DIR_REC_LEN name_len = (name_len + 8 + 3) div 4 * 4"

lemma rec_len_bounds: "name_len + 8 \<le> EXT4_DIR_REC_LEN name_len"
  "EXT4_DIR_REC_LEN name_len \<le> name_len + 11"
  unfolding EXT4_DIR_REC_LEN_def by presburger+

lemma rec_len_aligned [simp]: "EXT4_DIR_REC_LEN name_len mod 4 = 0"
  by (simp add: EXT4_DIR_REC_LEN_def)

lemma rec_len_mono: "m \<le> n \<Longrightarrow> EXT4_DIR_REC_LEN m \<le> EXT4_DIR_REC_LEN n"
  unfolding EXT4_DIR_REC_LEN_def by (intro mult_le_mono1 div_le_mono) simp

end
