(* ===== verification/Blkdev.thy ===== *)
theory Blkdev
  imports Layout
begin

text \<open>
  The block device subsystem: block/blkdev.c and drivers/ata/ata_disk.c over the sectors of
  an ATA disk. The disk hardware behind the port registers is a map from 28-bit sector numbers
  to 512-byte sectors together with the set of sectors whose transfer fails; the read and write
  of drivers/ata/ata.cpp move the sectors of a request one by one and stop at the first failure.
  Ata_Pio shows that the driver does this through the ports of a drive.
\<close>

section \<open>The ATA disk\<close>

record ata_disk =
  ad_sector :: "u32 \<Rightarrow> bytes"
  ad_bad :: "u32 \<Rightarrow> bool"

abbreviation (input) ATA_SECTOR_SIZE :: nat where "ATA_SECTOR_SIZE \<equiv> 512"

definition disk_ok :: "ata_disk \<Rightarrow> bool" where
  "disk_ok d \<longleftrightarrow> (\<forall>i. length (ad_sector d i) = ATA_SECTOR_SIZE)"

text \<open>Only the low 28 bits of the sector number reach the device registers.\<close>

definition ata_lba28 :: "u32 \<Rightarrow> u32" where
  "ata_lba28 lba = lba AND 0x0FFFFFFF"

text \<open>A read returns its status and the bytes it moved before it stopped.\<close>

fun ata_pio_read :: "ata_disk \<Rightarrow> u32 \<Rightarrow> nat \<Rightarrow> bool \<times> bytes" where
  "ata_pio_read d lba 0 = (True, [])"
| "ata_pio_read d lba (Suc n) =
     (if ad_bad d lba then (False, [])
      else case ata_pio_read d (lba + 1) n of (ok, r) \<Rightarrow> (ok, ad_sector d lba @ r))"

fun ata_pio_write :: "ata_disk \<Rightarrow> u32 \<Rightarrow> nat \<Rightarrow> bytes \<Rightarrow> bool \<times> ata_disk" where
  "ata_pio_write d lba 0 buf = (True, d)"
| "ata_pio_write d lba (Suc n) buf =
     (if ad_bad d lba then (False, d)
      else ata_pio_write
             (d\<lparr>ad_sector := (ad_sector d)(lba := take ATA_SECTOR_SIZE buf)\<rparr>)
             (lba + 1) n (drop ATA_SECTOR_SIZE buf))"

definition ata_read_sectors :: "ata_disk \<Rightarrow> u32 \<Rightarrow> u8 \<Rightarrow> bool \<times> bytes" where
  "ata_read_sectors d lba count =
     (if count = 0 then (False, []) else ata_pio_read d (ata_lba28 lba) (unat count))"

definition ata_write_sectors :: "ata_disk \<Rightarrow> u32 \<Rightarrow> u8 \<Rightarrow> bytes \<Rightarrow> bool \<times> ata_disk" where
  "ata_write_sectors d lba count buf =
     (if count = 0 then (False, d) else ata_pio_write d (ata_lba28 lba) (unat count) buf)"

section \<open>The ATA disk as a block device (drivers/ata/ata_disk.c)\<close>

text \<open>
  The operations of the one registered device cast the 64-bit sector to 32 bits and the count
  to 8 bits before they call the driver.
\<close>

record block_device =
  bd_dev :: u32
  bd_openers :: nat
  bd_sector_size :: u32
  bd_nr_sectors :: u64

definition ata_bdev_read :: "ata_disk \<Rightarrow> u64 \<Rightarrow> u32 \<Rightarrow> bool \<times> bytes" where
  "ata_bdev_read d sector count = ata_read_sectors d (ucast sector) (ucast count)"

definition ata_bdev_write :: "ata_disk \<Rightarrow> u64 \<Rightarrow> u32 \<Rightarrow> bytes \<Rightarrow> bool \<times> ata_disk" where
  "ata_bdev_write d sector count buf = ata_write_sectors d (ucast sector) (ucast count) buf"

definition ata_disk_bdev :: "u32 \<Rightarrow> block_device" where
  "ata_disk_bdev total_sectors =
     \<lparr>bd_dev = 0x800, bd_openers = 0, bd_sector_size = of_nat ATA_SECTOR_SIZE,
      bd_nr_sectors = ucast total_sectors\<rparr>"

definition blkdev_nr_sectors :: "block_device option \<Rightarrow> u64" where
  "blkdev_nr_sectors bdev = (case bdev of None \<Rightarrow> 0 | Some b \<Rightarrow> bd_nr_sectors b)"

section \<open>Registration and lookup (block/blkdev.c)\<close>

definition blkdev_register :: "block_device option \<Rightarrow> block_device option \<Rightarrow> int \<times> block_device option" where
  "blkdev_register bdev g_default_bdev =
     (case bdev of None \<Rightarrow> (- 1, g_default_bdev) | Some b \<Rightarrow> (0, Some b))"

definition blkdev_get_default :: "block_device option \<Rightarrow> block_device option" where
  "blkdev_get_default g_default_bdev = g_default_bdev"

definition blkdev_name_match :: "string option \<Rightarrow> bool" where
  "blkdev_name_match name =
     (case name of
        None \<Rightarrow> True
      | Some n \<Rightarrow> n = [] \<or> n = ''0'' \<or> n = ''hda'')"

definition blkdev_get_by_name :: "string option \<Rightarrow> block_device option \<Rightarrow> block_device option" where
  "blkdev_get_by_name name g_default_bdev =
     (case g_default_bdev of
        None \<Rightarrow> None
      | Some b \<Rightarrow> if \<not> blkdev_name_match name then None else Some b)"

section \<open>Sector transfers in chunks (block/blkdev.c)\<close>

text \<open>
  The loop moves at most 255 sectors at a time: the count register of the driver has 8 bits.
  p is the offset of the chunk in the caller's buffer.
\<close>

definition chunk_of :: "u32 \<Rightarrow> u8" where
  "chunk_of remaining = (if remaining > 255 then 255 else ucast remaining)"

lemma unat_chunk_of: "unat (chunk_of r) = min (unat r) 255"
proof (cases "r > 255")
  case True
  then show ?thesis by (simp add: chunk_of_def word_less_nat_alt)
next
  case False
  then have "unat r \<le> 255" by (simp add: word_less_nat_alt)
  with False show ?thesis
    by (simp add: chunk_of_def unsigned_ucast_eq take_bit_nat_eq_self word_less_nat_alt)
qed

lemma unat_ucast_chunk [simp]: "unat (ucast (chunk_of r) :: u32) = min (unat r) 255"
  by (simp add: unsigned_ucast_eq unat_chunk_of take_bit_nat_eq_self)

function blkdev_read_loop ::
  "ata_disk \<Rightarrow> u32 \<Rightarrow> u64 \<Rightarrow> u32 \<Rightarrow> nat \<Rightarrow> bytes \<Rightarrow> bool \<times> bytes" where
  "blkdev_read_loop d sector_size sector remaining p buf =
     (if remaining = 0 then (True, buf)
      else let chunk = chunk_of remaining in
        case ata_bdev_read d sector (ucast chunk) of
          (False, data) \<Rightarrow> (False, bsplice p data buf)
        | (True, data) \<Rightarrow>
            blkdev_read_loop d sector_size (sector + ucast chunk) (remaining - ucast chunk)
              (p + unat chunk * unat sector_size) (bsplice p data buf))"
  by pat_completeness auto
termination
proof (relation "measure (\<lambda>(d, ss, s, remaining, p, buf). unat remaining)", goal_cases)
  case (2 d sector_size sector remaining p buf chunk data)
  then have "0 < unat remaining" by (simp add: unat_gt_0)
  moreover have "unat (remaining - ucast chunk) = unat remaining - min (unat remaining) 255"
    using 2(2) by (subst unat_sub_le) (simp_all add: word_le_nat_alt)
  ultimately show ?case by (simp add: min_def)
qed simp

function blkdev_write_loop ::
  "ata_disk \<Rightarrow> u32 \<Rightarrow> u64 \<Rightarrow> u32 \<Rightarrow> nat \<Rightarrow> bytes \<Rightarrow> bool \<times> ata_disk" where
  "blkdev_write_loop d sector_size sector remaining p buf =
     (if remaining = 0 then (True, d)
      else let chunk = chunk_of remaining in
        case ata_bdev_write d sector (ucast chunk) (drop p buf) of
          (False, d') \<Rightarrow> (False, d')
        | (True, d') \<Rightarrow>
            blkdev_write_loop d' sector_size (sector + ucast chunk) (remaining - ucast chunk)
              (p + unat chunk * unat sector_size) buf)"
  by pat_completeness auto
termination
proof (relation "measure (\<lambda>(d, ss, s, remaining, p, buf). unat remaining)", goal_cases)
  case (2 d sector_size sector remaining p buf chunk d')
  then have "0 < unat remaining" by (simp add: unat_gt_0)
  moreover have "unat (remaining - ucast chunk) = unat remaining - min (unat remaining) 255"
    using 2(2) by (subst unat_sub_le) (simp_all add: word_le_nat_alt)
  ultimately show ?case by (simp add: min_def)
qed simp

declare blkdev_read_loop.simps [simp del]
declare blkdev_write_loop.simps [simp del]

definition blkdev_read_sectors ::
  "ata_disk \<Rightarrow> block_device option \<Rightarrow> u64 \<Rightarrow> u32 \<Rightarrow> bytes \<Rightarrow> bool \<times> bytes" where
  "blkdev_read_sectors d bdev sector count buf =
     (case bdev of
        None \<Rightarrow> (False, buf)
      | Some b \<Rightarrow> if count = 0 then (False, buf)
                 else blkdev_read_loop d (bd_sector_size b) sector count 0 buf)"

definition blkdev_write_sectors ::
  "ata_disk \<Rightarrow> block_device option \<Rightarrow> u64 \<Rightarrow> u32 \<Rightarrow> bytes \<Rightarrow> bool \<times> ata_disk" where
  "blkdev_write_sectors d bdev sector count buf =
     (case bdev of
        None \<Rightarrow> (False, d)
      | Some b \<Rightarrow> if count = 0 then (False, d)
                 else blkdev_write_loop d (bd_sector_size b) sector count 0 buf)"

section \<open>What a transfer does\<close>

text \<open>
  The reference for a read: sectors k, ..., k + n - 1 one after another, or failure if one of
  them is bad. The chunked loop computes exactly that, and a write changes these sectors only.
\<close>

definition sector_run :: "ata_disk \<Rightarrow> nat \<Rightarrow> nat \<Rightarrow> bytes" where
  "sector_run d k n = concat (map (\<lambda>i. ad_sector d (of_nat i)) [k..<k + n])"

definition run_bad :: "ata_disk \<Rightarrow> nat \<Rightarrow> nat \<Rightarrow> bool" where
  "run_bad d k n \<longleftrightarrow> (\<exists>i \<in> set [k..<k + n]. ad_bad d (of_nat i))"

lemma length_sector_run [simp]: "disk_ok d \<Longrightarrow> length (sector_run d k n) = 512 * n"
  by (induction n) (simp_all add: sector_run_def disk_ok_def)

lemma sector_run_split: "m \<le> n \<Longrightarrow> sector_run d k n = sector_run d k m @ sector_run d (k + m) (n - m)"
proof -
  assume "m \<le> n"
  then have "[k..<k + n] = [k..<k + m] @ [k + m..<k + m + (n - m)]"
    using upt_add_eq_append [of k "k + m" "n - m"] by simp
  then show ?thesis by (simp add: sector_run_def)
qed

lemma run_bad_split: "m \<le> n \<Longrightarrow> run_bad d k n \<longleftrightarrow> run_bad d k m \<or> run_bad d (k + m) (n - m)"
proof -
  assume "m \<le> n"
  then have "[k..<k + n] = [k..<k + m] @ [k + m..<k + m + (n - m)]"
    using upt_add_eq_append [of k "k + m" "n - m"] by simp
  then show ?thesis by (auto simp: run_bad_def)
qed

lemma ata_pio_read_run:
  "disk_ok d \<Longrightarrow> ata_pio_read d (of_nat k) n = (r, data) \<Longrightarrow>
   (r \<longleftrightarrow> \<not> run_bad d k n) \<and> (r \<longrightarrow> data = sector_run d k n) \<and> length data \<le> 512 * n"
proof (induction n arbitrary: k r data)
  case 0
  then show ?case by (simp add: run_bad_def sector_run_def)
next
  case (Suc n)
  have nx: "(of_nat k :: u32) + 1 = of_nat (Suc k)" by simp
  have s1: "sector_run d k (Suc n) = ad_sector d (of_nat k) @ sector_run d (Suc k) n"
    using sector_run_split [of 1 "Suc n" d k] by (simp add: sector_run_def)
  have b1: "run_bad d k (Suc n) \<longleftrightarrow> ad_bad d (of_nat k) \<or> run_bad d (Suc k) n"
    using run_bad_split [of 1 "Suc n" d k] by (simp add: run_bad_def)
  obtain r' data' where q: "ata_pio_read d (of_nat (Suc k)) n = (r', data')" by fastforce
  note ih = Suc.IH [OF Suc.prems(1) q]
  have "ad_sector d x \<in> {bs. length bs = 512}" for x using Suc.prems(1) by (simp add: disk_ok_def)
  with Suc.prems(2) ih s1 b1 q show ?case
    by (simp only: ata_pio_read.simps nx) (auto split: if_splits)
qed

lemma ata_lba28_id: "unat lba < 2 ^ 28 \<Longrightarrow> ata_lba28 lba = lba"
proof -
  have m: "(0x0FFFFFFF :: u32) = mask 28" by (simp add: mask_eq_exp_minus_1)
  assume "unat lba < 2 ^ 28"
  then have "unat (take_bit 28 lba) = unat lba"
    by (simp add: unsigned_take_bit_eq take_bit_nat_eq_self)
  then show ?thesis
    by (simp add: ata_lba28_def m flip: take_bit_eq_mask) (rule word_eq_by_unat)
qed

lemma lba28_of_sector:
  assumes "unat (s :: u64) < 2 ^ 28"
  shows "ata_lba28 (ucast s) = of_nat (unat s)"
proof -
  have u: "unat (ucast s :: u32) = unat s"
    using assms by (intro unat_ucast_fit) simp
  have "ata_lba28 (ucast s) = (ucast s :: u32)"
    using assms u by (intro ata_lba28_id) simp
  also have "\<dots> = of_nat (unat s)"
    using assms u by (intro word_eq_by_unat) (simp add: unat_of_nat_fit)
  finally show ?thesis .
qed

lemma ucast_u8_u32 [simp]: "ucast (ucast (c :: u8) :: u32) = c"
  using unat_u8_bound [of c] by (intro word_eq_by_unat) (simp add: unat_ucast_fit)

lemma ata_bdev_read_run:
  assumes "disk_ok d" and "unat s + unat c \<le> 2 ^ 28" and "c \<noteq> 0"
    and "ata_bdev_read d s (ucast (c :: u8)) = (r, data)"
  shows "(r \<longleftrightarrow> \<not> run_bad d (unat s) (unat c)) \<and> (r \<longrightarrow> data = sector_run d (unat s) (unat c)) \<and>
    length data \<le> 512 * unat c"
proof -
  have "unat c > 0" using assms(3) by (simp add: unat_gt_0)
  then have "unat s < 2 ^ 28" using assms(2) by linarith
  then have "ata_pio_read d (of_nat (unat s)) (unat c) = (r, data)"
    using assms(3,4)
    by (simp only: ata_bdev_read_def ata_read_sectors_def lba28_of_sector ucast_u8_u32 if_False)
  then show ?thesis by (rule ata_pio_read_run [OF assms(1)])
qed

lemma chunk_pos: "r \<noteq> 0 \<Longrightarrow> chunk_of r \<noteq> 0"
proof -
  assume "r \<noteq> 0"
  then have "0 < unat (chunk_of r)" by (simp add: unat_chunk_of unat_gt_0)
  then show ?thesis by (simp add: unat_gt_0)
qed

lemma chunk_step:
  assumes "r \<noteq> 0" and "unat (s :: u64) + unat (r :: u32) \<le> 2 ^ 28"
  shows "unat (r - ucast (chunk_of r)) = unat r - unat (chunk_of r)"
    and "unat (s + ucast (chunk_of r)) = unat s + unat (chunk_of r)"
    and "unat (chunk_of r) \<le> unat r"
proof -
  show le: "unat (chunk_of r) \<le> unat r" by (simp add: unat_chunk_of)
  show "unat (r - ucast (chunk_of r)) = unat r - unat (chunk_of r)"
    by (subst unat_sub_le) (simp_all add: word_le_nat_alt unat_chunk_of)
  have u: "unat (ucast (chunk_of r) :: u64) = unat (chunk_of r)"
    by (simp add: unsigned_ucast_eq take_bit_nat_eq_self unat_u8_bound
        less_trans [OF unat_u8_bound])
  then show "unat (s + ucast (chunk_of r)) = unat s + unat (chunk_of r)"
    using assms(2) le by (subst unat_add_nowrap) simp_all
qed

lemma bsplice_append:
  "p + length a + length b \<le> length buf \<Longrightarrow>
   bsplice (p + length a) b (bsplice p a buf) = bsplice p (a @ b) buf"
  by (rule nth_equalityI) (auto simp: nth_bsplice nth_append)

lemma blkdev_read_loop_run:
  assumes "disk_ok d" and "unat s + unat r \<le> 2 ^ 28" and "p + 512 * unat r \<le> length buf"
    and "blkdev_read_loop d 512 s r p buf = (ok, buf')"
  shows "(ok \<longleftrightarrow> \<not> run_bad d (unat s) (unat r)) \<and>
    (ok \<longrightarrow> buf' = bsplice p (sector_run d (unat s) (unat r)) buf) \<and> length buf' = length buf"
  using assms(2,3,4)
proof (induction "unat r" arbitrary: s r p buf rule: less_induct)
  case less
  show ?case
  proof (cases "r = 0")
    case True
    with less.prems(3) show ?thesis
      by (simp add: blkdev_read_loop.simps run_bad_def sector_run_def bsplice_def)
  next
    case False
    let ?c = "chunk_of r"
    let ?s = "s + ucast ?c" and ?r = "r - ucast ?c :: u32"
    note st = chunk_step [OF False less.prems(1)]
    have c0: "0 < unat ?c" using chunk_pos [OF False] by (simp add: unat_gt_0)
    have fit: "p + 512 * unat ?c \<le> length buf" using less.prems(2) st(3) by linarith
    obtain r1 data where rd: "ata_bdev_read d s (ucast ?c) = (r1, data)" by fastforce
    have cn: "(r1 \<longleftrightarrow> \<not> run_bad d (unat s) (unat ?c)) \<and>
        (r1 \<longrightarrow> data = sector_run d (unat s) (unat ?c)) \<and> length data \<le> 512 * unat ?c"
      using less.prems(1) st(3) chunk_pos [OF False] rd by (intro ata_bdev_read_run [OF assms(1)]) simp_all
    have bad: "run_bad d (unat s) (unat r) \<longleftrightarrow>
        run_bad d (unat s) (unat ?c) \<or> run_bad d (unat ?s) (unat ?r)"
      using run_bad_split [OF st(3), of d "unat s"] st by simp
    let ?buf = "bsplice p data buf"
    have lb: "length ?buf = length buf" using cn fit by simp
    show ?thesis
    proof (cases r1)
      case R: False
      with False rd less.prems(3) have "ok = False" "buf' = ?buf"
        by (simp_all add: blkdev_read_loop.simps [of d 512 s r] Let_def)
      with R cn bad lb show ?thesis by simp
    next
      case R: True
      have IH: "(ok \<longleftrightarrow> \<not> run_bad d (unat ?s) (unat ?r)) \<and>
        (ok \<longrightarrow> buf' = bsplice (p + unat ?c * 512) (sector_run d (unat ?s) (unat ?r)) ?buf) \<and>
        length buf' = length ?buf"
      proof (rule less.hyps)
        show "unat ?r < unat r" using st c0 by simp
        show "unat ?s + unat ?r \<le> 2 ^ 28" using st less.prems(1) by simp
        show "p + unat ?c * 512 + 512 * unat ?r \<le> length ?buf"
          using st fit less.prems(2) lb by simp
        show "blkdev_read_loop d 512 ?s ?r (p + unat ?c * 512) ?buf = (ok, buf')"
          using False rd R less.prems(3) by (simp add: blkdev_read_loop.simps [of d 512 s r] Let_def)
      qed
      have data: "data = sector_run d (unat s) (unat ?c)" using cn R by simp
      have "bsplice (p + unat ?c * 512) (sector_run d (unat ?s) (unat ?r)) ?buf =
          bsplice p (sector_run d (unat s) (unat r)) buf"
        using bsplice_append [of p data "sector_run d (unat ?s) (unat ?r)" buf]
          less.prems(2) st assms(1) sector_run_split [OF st(3), of d "unat s"]
        by (simp add: data mult.commute)
      with IH bad cn R lb show ?thesis by simp
    qed
  qed
qed

text \<open>
  The contract of a write of n sectors from sector k: success exactly when no sector of the
  request is bad, no sector outside the request changes, and after a success the sectors hold
  the buffer. Contracts of consecutive requests compose.
\<close>

definition wrote :: "ata_disk \<Rightarrow> nat \<Rightarrow> nat \<Rightarrow> bytes \<Rightarrow> bool \<Rightarrow> ata_disk \<Rightarrow> bool" where
  "wrote d k n buf r d' \<longleftrightarrow>
     (r \<longleftrightarrow> \<not> run_bad d k n) \<and> ad_bad d' = ad_bad d \<and>
     (\<forall>x. \<not> (k \<le> unat x \<and> unat x < k + n) \<longrightarrow> ad_sector d' x = ad_sector d x) \<and>
     (r \<longrightarrow> (\<forall>i<n. ad_sector d' (of_nat (k + i)) = take 512 (drop (512 * i) buf))) \<and>
     (disk_ok d \<longrightarrow> 512 * n \<le> length buf \<longrightarrow> disk_ok d')"

lemma wrote_fail:
  assumes "wrote d k m buf False d'" and "m \<le> n"
  shows "wrote d k n buf False d'"
  using assms run_bad_split [OF assms(2), of d k] by (auto simp: wrote_def)

lemma wrote_trans:
  assumes 1: "wrote d k m buf True d1" and 2: "wrote d1 (k + m) (n - m) (drop (512 * m) buf) r d2"
    and le: "m \<le> n" and fit: "k + n \<le> 2 ^ 32"
  shows "wrote d k n buf r d2"
proof -
  have bad: "ad_bad d1 = ad_bad d" "\<not> run_bad d k m" using 1 by (auto simp: wrote_def)
  have "run_bad d1 (k + m) (n - m) \<longleftrightarrow> run_bad d (k + m) (n - m)"
    using bad(1) by (simp add: run_bad_def)
  then have r: "r \<longleftrightarrow> \<not> run_bad d k n"
    using 2 bad(2) run_bad_split [OF le, of d k] by (simp add: wrote_def)
  have sec: "ad_sector d2 (of_nat (k + i)) = take 512 (drop (512 * i) buf)" if "r" "i < n" for i
  proof (cases "i < m")
    case True
    have "unat (of_nat (k + i) :: u32) = k + i"
      using fit that(2) by (intro unat_of_nat_fit) simp
    then have "ad_sector d2 (of_nat (k + i)) = ad_sector d1 (of_nat (k + i))"
      using 2 True by (simp add: wrote_def)
    with True 1 show ?thesis by (simp add: wrote_def)
  next
    case False
    have "\<forall>j<n - m. ad_sector d2 (of_nat (k + m + j)) = take 512 (drop (512 * j) (drop (512 * m) buf))"
      using 2 that by (simp add: wrote_def)
    moreover have "i - m < n - m" using False that by simp
    ultimately have "ad_sector d2 (of_nat (k + m + (i - m))) = take 512 (drop (512 * (i - m)) (drop (512 * m) buf))"
      by blast
    moreover have "k + m + (i - m) = k + i" "512 * (i - m) + 512 * m = 512 * i"
      using False by simp_all
    ultimately show ?thesis by (simp del: of_nat_add)
  qed
  have out: "ad_sector d2 x = ad_sector d x" if "\<not> (k \<le> unat x \<and> unat x < k + n)" for x
  proof -
    have "ad_sector d2 x = ad_sector d1 x" using 2 that le by (auto simp: wrote_def)
    also have "\<dots> = ad_sector d x" using 1 that le by (auto simp: wrote_def)
    finally show ?thesis .
  qed
  have "disk_ok d2" if "disk_ok d" "512 * n \<le> length buf"
    using 1 2 that le by (simp add: wrote_def)
  then show ?thesis
    using r bad sec out 2 by (simp add: wrote_def)
qed

lemma wrote_none: "wrote d k 0 buf True d"
  by (simp add: wrote_def run_bad_def)

lemma wrote_one:
  "\<not> ad_bad d (of_nat k) \<Longrightarrow> k < 2 ^ 32 \<Longrightarrow>
   wrote d k 1 buf True (d\<lparr>ad_sector := (ad_sector d)(of_nat k := take 512 buf)\<rparr>)"
  by (auto simp: wrote_def run_bad_def disk_ok_def unat_of_nat_fit)

lemma ata_pio_write_wrote:
  "k + n \<le> 2 ^ 32 \<Longrightarrow> ata_pio_write d (of_nat k) n buf = (r, d') \<Longrightarrow> wrote d k n buf r d'"
proof (induction n arbitrary: k d buf)
  case 0
  then show ?case by (simp add: wrote_none)
next
  case (Suc n)
  show ?case
  proof (cases "ad_bad d (of_nat k)")
    case True
    then have "wrote d k 1 buf False d" by (simp add: wrote_def run_bad_def)
    with True Suc.prems(2) show ?thesis by (auto intro: wrote_fail)
  next
    case False
    let ?d = "d\<lparr>ad_sector := (ad_sector d)(of_nat k := take 512 buf)\<rparr>"
    have "(of_nat k :: u32) + 1 = of_nat (Suc k)" by simp
    with False Suc.prems(2) have "ata_pio_write ?d (of_nat (Suc k)) n (drop 512 buf) = (r, d')"
      by (simp only: ata_pio_write.simps if_False)
    then have "wrote ?d (Suc k) n (drop 512 buf) r d'"
      using Suc.prems(1) by (intro Suc.IH) simp_all
    then have w2: "wrote ?d (k + 1) (Suc n - 1) (drop (512 * 1) buf) r d'" by simp
    have "k < 2 ^ 32" using Suc.prems(1) by simp
    from wrote_trans [OF wrote_one [OF False this] w2] show ?thesis
      using Suc.prems(1) by simp
  qed
qed

lemma ata_bdev_write_wrote:
  assumes "unat s + unat c \<le> 2 ^ 28" and "c \<noteq> 0"
    and "ata_bdev_write d s (ucast (c :: u8)) buf = (r, d')"
  shows "wrote d (unat s) (unat c) buf r d'"
proof -
  have "unat c > 0" using assms(2) by (simp add: unat_gt_0)
  then have "unat s < 2 ^ 28" using assms(1) by linarith
  then have "ata_pio_write d (of_nat (unat s)) (unat c) buf = (r, d')"
    using assms(2,3)
    by (simp only: ata_bdev_write_def ata_write_sectors_def lba28_of_sector ucast_u8_u32 if_False)
  then show ?thesis using assms(1) by (intro ata_pio_write_wrote) simp_all
qed

lemma blkdev_write_loop_wrote:
  assumes "unat s + unat r \<le> 2 ^ 28"
    and "blkdev_write_loop d 512 s r p buf = (ok, d')"
  shows "wrote d (unat s) (unat r) (drop p buf) ok d'"
  using assms
proof (induction "unat r" arbitrary: s r p d rule: less_induct)
  case less
  show ?case
  proof (cases "r = 0")
    case True
    with less.prems(2) show ?thesis
      by (simp add: blkdev_write_loop.simps wrote_none)
  next
    case False
    let ?c = "chunk_of r"
    let ?s = "s + ucast ?c" and ?r = "r - ucast ?c :: u32"
    note st = chunk_step [OF False less.prems(1)]
    have c0: "0 < unat ?c" using chunk_pos [OF False] by (simp add: unat_gt_0)
    obtain r1 d1 where w: "ata_bdev_write d s (ucast ?c) (drop p buf) = (r1, d1)" by fastforce
    have w1: "wrote d (unat s) (unat ?c) (drop p buf) r1 d1"
      using less.prems(1) st(3) chunk_pos [OF False] w by (intro ata_bdev_write_wrote) simp_all
    show ?thesis
    proof (cases r1)
      case False1: False
      with w1 w False less.prems(2) st(3) show ?thesis
        by (auto simp: blkdev_write_loop.simps [of d 512 s r] Let_def intro: wrote_fail)
    next
      case True
      with w False less.prems(2)
      have "blkdev_write_loop d1 512 ?s ?r (p + unat ?c * 512) buf = (ok, d')"
        by (simp add: blkdev_write_loop.simps [of d 512 s r] Let_def)
      then have "wrote d1 (unat ?s) (unat ?r) (drop (p + unat ?c * 512) buf) ok d'"
        using st c0 less.prems(1) by (intro less.hyps) simp_all
      moreover have "p + unat ?c * 512 = 512 * unat ?c + p" by simp
      ultimately have w2: "wrote d1 (unat s + unat ?c) (unat r - unat ?c)
          (drop (512 * unat ?c) (drop p buf)) ok d'"
        by (simp only: st drop_drop)
      have "wrote d (unat s) (unat ?c) (drop p buf) True d1" using w1 True by simp
      from wrote_trans [OF this w2 st(3)] show ?thesis using less.prems(1) by simp
    qed
  qed
qed

end
