(* ===== verification/Fs_State.thy ===== *)
theory Fs_State
  imports Blkdev
begin

text \<open>
  The state the files of fs/ext4 share: the disk and the registered block device, the static
  variables of io.c, balloc.c, extents.c and super.c, the in-memory superblock information that
  hangs off the one mounted superblock, and the buffer pool of each file.
\<close>

section \<open>The in-memory superblock (include/fs/ext4/ext4.h)\<close>

record ext4_nextfit_state =
  goal_group :: u32
  goal_bit_per_group :: "u32 list option"

record ext4_sb_info =
  s_blocks_per_group :: u32
  s_inodes_per_group :: u32
  s_inodes_count :: u32
  s_blocks_count :: u32
  s_first_data_block :: u32
  s_log_block_size :: u32
  s_block_size :: u32
  s_groups_count :: u32
  s_desc_size :: u16
  s_group_desc :: "ext4_group_desc option"
  s_root_ino :: u32
  s_hash_seed :: "u32 list"
  s_def_hash_version :: u8
  s_alloc_nf :: ext4_nextfit_state
  s_bmap_cache_group :: u32
  s_bmap_cache_valid :: bool
  s_bmap_cache_dirty :: bool
  s_bmap_cache_buf :: "bytes option"
  s_bg_sync_pending :: u32

section \<open>The state\<close>

text \<open>
  pool_X is the buffer pool of the file X.c of fs/ext4, vfs_inode_used the used flags of the
  inode pool of fs/inode.c, and sbi_bufs the buffers of super.c that the mounted superblock
  owns: the ext4_sb_info itself, the bitmap cache, the cursors and the cached descriptor.
\<close>

record kfs =
  g_disk :: ata_disk
  g_default_bdev :: "block_device option"
  s_bdev :: block_device
  ext4_block_size :: u32
  ext4_fs_blocks_count :: u32
  ext4_fs_blocks_per_group :: u32
  s_fs_info :: "ext4_sb_info option"
  ext4_bg_sync_batch :: u32
  ext4_prealloc_goal_len :: u32
  pool_balloc :: pool
  pool_ialloc :: pool
  pool_extents :: pool
  pool_dir :: pool
  pool_htree :: pool
  pool_inode :: pool
  pool_file :: pool
  pool_super :: pool
  rtc_unix_time :: u32
  vfs_inode_used :: pool
  sbi_bufs :: "nat list"

section \<open>Getters and setters of the static variables\<close>

definition ext4_set_block_size :: "u32 \<Rightarrow> kfs \<Rightarrow> kfs" where
  "ext4_set_block_size size_v s = s\<lparr>ext4_block_size := size_v\<rparr>"

definition ext4_get_block_size :: "kfs \<Rightarrow> u32" where
  "ext4_get_block_size s = ext4_block_size s"

definition ext4_get_blocks_count :: "kfs \<Rightarrow> u32" where
  "ext4_get_blocks_count s = ext4_fs_blocks_count s"

definition ext4_get_blocks_per_group :: "kfs \<Rightarrow> u32" where
  "ext4_get_blocks_per_group s = ext4_fs_blocks_per_group s"

definition ext4_get_bg_sync_batch :: "kfs \<Rightarrow> u32" where
  "ext4_get_bg_sync_batch s = ext4_bg_sync_batch s"

definition ext4_set_bg_sync_batch :: "u32 \<Rightarrow> kfs \<Rightarrow> kfs" where
  "ext4_set_bg_sync_batch batch s =
     (let batch = (if batch = 0 then 1 else batch) in s\<lparr>ext4_bg_sync_batch := batch\<rparr>)"

definition ext4_get_prealloc_goal_len :: "kfs \<Rightarrow> u32" where
  "ext4_get_prealloc_goal_len s = ext4_prealloc_goal_len s"

definition ext4_set_prealloc_goal_len :: "u32 \<Rightarrow> kfs \<Rightarrow> kfs" where
  "ext4_set_prealloc_goal_len goal_len s =
     (let goal_len = (if goal_len = 0 then 1 else goal_len) in s\<lparr>ext4_prealloc_goal_len := goal_len\<rparr>)"

section \<open>Buffer pools of the files\<close>

text \<open>
  malloc and free of a file go to its own static pool. All but super.c have buffers of
  BLOCK_SIZE bytes; those of super.c have 65536 bytes.
\<close>

definition balloc_malloc :: "nat \<Rightarrow> kfs \<Rightarrow> nat option \<times> kfs" where
  "balloc_malloc n s = (case simple_malloc BLOCK_SIZE n (pool_balloc s) of
     (r, p) \<Rightarrow> (r, s\<lparr>pool_balloc := p\<rparr>))"

definition balloc_free :: "nat \<Rightarrow> kfs \<Rightarrow> kfs" where
  "balloc_free i s = s\<lparr>pool_balloc := simple_free i (pool_balloc s)\<rparr>"

definition ialloc_malloc :: "nat \<Rightarrow> kfs \<Rightarrow> nat option \<times> kfs" where
  "ialloc_malloc n s = (case simple_malloc BLOCK_SIZE n (pool_ialloc s) of
     (r, p) \<Rightarrow> (r, s\<lparr>pool_ialloc := p\<rparr>))"

definition ialloc_free :: "nat \<Rightarrow> kfs \<Rightarrow> kfs" where
  "ialloc_free i s = s\<lparr>pool_ialloc := simple_free i (pool_ialloc s)\<rparr>"

definition extents_malloc :: "nat \<Rightarrow> kfs \<Rightarrow> nat option \<times> kfs" where
  "extents_malloc n s = (case simple_malloc BLOCK_SIZE n (pool_extents s) of
     (r, p) \<Rightarrow> (r, s\<lparr>pool_extents := p\<rparr>))"

definition extents_free :: "nat \<Rightarrow> kfs \<Rightarrow> kfs" where
  "extents_free i s = s\<lparr>pool_extents := simple_free i (pool_extents s)\<rparr>"

definition dir_malloc :: "nat \<Rightarrow> kfs \<Rightarrow> nat option \<times> kfs" where
  "dir_malloc n s = (case simple_malloc BLOCK_SIZE n (pool_dir s) of
     (r, p) \<Rightarrow> (r, s\<lparr>pool_dir := p\<rparr>))"

definition dir_free :: "nat \<Rightarrow> kfs \<Rightarrow> kfs" where
  "dir_free i s = s\<lparr>pool_dir := simple_free i (pool_dir s)\<rparr>"

definition htree_malloc :: "nat \<Rightarrow> kfs \<Rightarrow> nat option \<times> kfs" where
  "htree_malloc n s = (case simple_malloc BLOCK_SIZE n (pool_htree s) of
     (r, p) \<Rightarrow> (r, s\<lparr>pool_htree := p\<rparr>))"

definition htree_free :: "nat \<Rightarrow> kfs \<Rightarrow> kfs" where
  "htree_free i s = s\<lparr>pool_htree := simple_free i (pool_htree s)\<rparr>"

definition inode_malloc :: "nat \<Rightarrow> kfs \<Rightarrow> nat option \<times> kfs" where
  "inode_malloc n s = (case simple_malloc BLOCK_SIZE n (pool_inode s) of
     (r, p) \<Rightarrow> (r, s\<lparr>pool_inode := p\<rparr>))"

definition inode_free :: "nat \<Rightarrow> kfs \<Rightarrow> kfs" where
  "inode_free i s = s\<lparr>pool_inode := simple_free i (pool_inode s)\<rparr>"

definition file_malloc :: "nat \<Rightarrow> kfs \<Rightarrow> nat option \<times> kfs" where
  "file_malloc n s = (case simple_malloc BLOCK_SIZE n (pool_file s) of
     (r, p) \<Rightarrow> (r, s\<lparr>pool_file := p\<rparr>))"

definition file_free :: "nat \<Rightarrow> kfs \<Rightarrow> kfs" where
  "file_free i s = s\<lparr>pool_file := simple_free i (pool_file s)\<rparr>"

definition super_malloc :: "nat \<Rightarrow> kfs \<Rightarrow> nat option \<times> kfs" where
  "super_malloc n s = (case simple_malloc 65536 n (pool_super s) of
     (r, p) \<Rightarrow> (r, s\<lparr>pool_super := p\<rparr>))"

definition super_free :: "nat \<Rightarrow> kfs \<Rightarrow> kfs" where
  "super_free i s = s\<lparr>pool_super := simple_free i (pool_super s)\<rparr>"

text \<open>
  The scratch buffer pattern: malloc, work that leaves the pool alone, free. room says the
  malloc succeeds.
\<close>

definition balloc_room :: "kfs \<Rightarrow> bool" where
  "balloc_room s \<longleftrightarrow> unat (ext4_block_size s) \<le> BLOCK_SIZE \<and> 0 < pool_free_count (pool_balloc s)"

definition ialloc_room :: "kfs \<Rightarrow> bool" where
  "ialloc_room s \<longleftrightarrow> unat (ext4_block_size s) \<le> BLOCK_SIZE \<and> 0 < pool_free_count (pool_ialloc s)"

lemma balloc_malloc_None: "balloc_malloc n s = (None, s') \<Longrightarrow> s' = s"
  by (auto simp: balloc_malloc_def split: prod.splits dest!: simple_malloc_None)

lemma balloc_malloc_Some:
  assumes "balloc_malloc n s = (Some p, s')"
  shows "s' = s\<lparr>pool_balloc := pool_balloc s'\<rparr>"
    and "balloc_free p s' = s"
    and "balloc_free p (s'\<lparr>g_disk := d\<rparr>) = s\<lparr>g_disk := d\<rparr>"
  using assms by (auto simp: balloc_malloc_def balloc_free_def frame_simps split: prod.splits)

lemma balloc_malloc_room:
  "(\<exists>p s'. balloc_malloc n s = (Some p, s')) \<longleftrightarrow> n \<le> BLOCK_SIZE \<and> 0 < pool_free_count (pool_balloc s)"
  using simple_malloc_Some_iff [of 4096 n "pool_balloc s"]
  by (auto simp: balloc_malloc_def split: prod.splits)

lemma ialloc_malloc_None: "ialloc_malloc n s = (None, s') \<Longrightarrow> s' = s"
  by (auto simp: ialloc_malloc_def split: prod.splits dest!: simple_malloc_None)

lemma ialloc_malloc_Some:
  assumes "ialloc_malloc n s = (Some p, s')"
  shows "s' = s\<lparr>pool_ialloc := pool_ialloc s'\<rparr>"
    and "ialloc_free p s' = s"
    and "ialloc_free p (s'\<lparr>g_disk := d\<rparr>) = s\<lparr>g_disk := d\<rparr>"
  using assms by (auto simp: ialloc_malloc_def ialloc_free_def frame_simps split: prod.splits)

lemma ialloc_malloc_room:
  "(\<exists>p s'. ialloc_malloc n s = (Some p, s')) \<longleftrightarrow> n \<le> BLOCK_SIZE \<and> 0 < pool_free_count (pool_ialloc s)"
  using simple_malloc_Some_iff [of 4096 n "pool_ialloc s"]
  by (auto simp: ialloc_malloc_def split: prod.splits)

lemma super_malloc_None: "super_malloc n s = (None, s') \<Longrightarrow> s' = s"
  by (auto simp: super_malloc_def split: prod.splits dest!: simple_malloc_None)

lemma super_malloc_Some:
  assumes "super_malloc n s = (Some p, s')"
  shows "s' = s\<lparr>pool_super := pool_super s'\<rparr>"
    and "super_free p s' = s"
    and "super_free p (s'\<lparr>g_disk := d\<rparr>) = s\<lparr>g_disk := d\<rparr>"
  using assms by (auto simp: super_malloc_def super_free_def frame_simps split: prod.splits)

lemma super_malloc_room:
  "(\<exists>p s'. super_malloc n s = (Some p, s')) \<longleftrightarrow> n \<le> 65536 \<and> 0 < pool_free_count (pool_super s)"
  using simple_malloc_Some_iff [of 65536 n "pool_super s"]
  by (auto simp: super_malloc_def split: prod.splits)

end
