(* ===== verification/Ext4_Io.thy ===== *)
theory Ext4_Io
  imports Fs_State
begin

text \<open>
  Block input and output, fs/ext4/io.c: a file-system block is a run of sectors of the default
  block device. The locale block_store states what the rest of the file system relies on; it
  is interpreted on the functions of io.c.
\<close>

section \<open>The functions of io.c\<close>

text \<open>
  A status of 0 is True, a status of -1 is False. A read fills the caller's buffer, up to the
  first bad sector when it fails. Most callers read into a scratch buffer they drop on failure:
  for them ext4_read_block returns the block, read into a buffer of the size of the block, or None.
\<close>

definition ext4_sectors_per_block :: "kfs \<Rightarrow> block_device \<Rightarrow> u32" where
  "ext4_sectors_per_block s bdev =
     (let spp = ext4_block_size s div bd_sector_size bdev in if spp \<noteq> 0 then spp else 1)"

definition ext4_read_blocks :: "kfs \<Rightarrow> u32 \<Rightarrow> u32 \<Rightarrow> bytes \<Rightarrow> bool \<times> bytes" where
  "ext4_read_blocks s blocknr blocks buf =
     (if blocks = 0 then (False, buf)
      else case blkdev_get_default (g_default_bdev s) of
        None \<Rightarrow> (False, buf)
      | Some bdev \<Rightarrow>
          let sectors_per_block = ext4_sectors_per_block s bdev;
              lba = (ucast blocknr :: u64) * ucast sectors_per_block;
              total_sectors = blocks * sectors_per_block
          in blkdev_read_sectors (g_disk s) (Some bdev) lba total_sectors buf)"

definition ext4_read_block_buf :: "kfs \<Rightarrow> u32 \<Rightarrow> bytes \<Rightarrow> bool \<times> bytes" where
  "ext4_read_block_buf s blocknr buf =
     (case blkdev_get_default (g_default_bdev s) of
        None \<Rightarrow> (False, buf)
      | Some bdev \<Rightarrow>
          let sectors_per_block = ext4_sectors_per_block s bdev;
              lba = (ucast blocknr :: u64) * ucast sectors_per_block
          in blkdev_read_sectors (g_disk s) (Some bdev) lba sectors_per_block buf)"

definition ext4_read_block :: "kfs \<Rightarrow> u32 \<Rightarrow> bytes option" where
  "ext4_read_block s blocknr =
     (case ext4_read_block_buf s blocknr (replicate (unat (ext4_block_size s)) 0) of
        (True, buf) \<Rightarrow> Some buf
      | (False, _) \<Rightarrow> None)"

definition ext4_write_blocks :: "kfs \<Rightarrow> u32 \<Rightarrow> u32 \<Rightarrow> bytes \<Rightarrow> bool \<times> kfs" where
  "ext4_write_blocks s blocknr blocks buf =
     (if blocks = 0 then (False, s)
      else case blkdev_get_default (g_default_bdev s) of
        None \<Rightarrow> (False, s)
      | Some bdev \<Rightarrow>
          let sectors_per_block = ext4_sectors_per_block s bdev;
              lba = (ucast blocknr :: u64) * ucast sectors_per_block;
              total_sectors = blocks * sectors_per_block
          in case blkdev_write_sectors (g_disk s) (Some bdev) lba total_sectors buf of
               (ok, d) \<Rightarrow> (ok, s\<lparr>g_disk := d\<rparr>))"

definition ext4_write_block :: "kfs \<Rightarrow> u32 \<Rightarrow> bytes \<Rightarrow> bool \<times> kfs" where
  "ext4_write_block s blocknr buf =
     (case blkdev_get_default (g_default_bdev s) of
        None \<Rightarrow> (False, s)
      | Some bdev \<Rightarrow>
          let sectors_per_block = ext4_sectors_per_block s bdev;
              lba = (ucast blocknr :: u64) * ucast sectors_per_block
          in case blkdev_write_sectors (g_disk s) (Some bdev) lba sectors_per_block buf of
               (ok, d) \<Rightarrow> (ok, s\<lparr>g_disk := d\<rparr>))"

section \<open>The block store interface\<close>

text \<open>
  rd and wr read and write one block of bsz bytes; good states are those with a working
  device, addr the block numbers the device can address, up the blocks whose sectors all
  transfer. A write never disturbs another block, also when it fails half way.
\<close>

locale block_store =
  fixes rd :: "'s \<Rightarrow> u32 \<Rightarrow> bytes option"
    and wr :: "'s \<Rightarrow> u32 \<Rightarrow> bytes \<Rightarrow> bool \<times> 's"
    and good :: "'s \<Rightarrow> bool"
    and addr :: "'s \<Rightarrow> u32 \<Rightarrow> bool"
    and up :: "'s \<Rightarrow> u32 \<Rightarrow> bool"
    and bsz :: "'s \<Rightarrow> nat"
  assumes rd_len: "good s \<Longrightarrow> addr s b \<Longrightarrow> rd s b = Some buf \<Longrightarrow> length buf = bsz s"
    and rd_up: "good s \<Longrightarrow> addr s b \<Longrightarrow> rd s b \<noteq> None \<longleftrightarrow> up s b"
    and wr_up: "good s \<Longrightarrow> addr s b \<Longrightarrow> length buf = bsz s \<Longrightarrow> fst (wr s b buf) \<longleftrightarrow> up s b"
    and wr_good: "good s \<Longrightarrow> addr s b \<Longrightarrow> length buf = bsz s \<Longrightarrow> wr s b buf = (r, s') \<Longrightarrow>
      good s' \<and> addr s' = addr s \<and> up s' = up s \<and> bsz s' = bsz s"
    and wr_same: "good s \<Longrightarrow> addr s b \<Longrightarrow> length buf = bsz s \<Longrightarrow> wr s b buf = (True, s') \<Longrightarrow>
      rd s' b = Some buf"
    and wr_other: "good s \<Longrightarrow> addr s b \<Longrightarrow> addr s c \<Longrightarrow> length buf = bsz s \<Longrightarrow>
      wr s b buf = (r, s') \<Longrightarrow> c \<noteq> b \<Longrightarrow> rd s' c = rd s c"
begin

text \<open>Every block stays readable, or unreadable, across a write.\<close>

lemma wr_readable:
  assumes "good s" "addr s b" "addr s c" "length buf = bsz s" "wr s b buf = (r, s')"
  shows "rd s' c \<noteq> None \<longleftrightarrow> rd s c \<noteq> None"
  using wr_good [OF assms(1,2,4,5)] rd_up [of s c] rd_up [of s' c] assms by simp

text \<open>The read-modify-write of a part of a block, as all metadata updates of the code do it.\<close>

lemma rmw_len:
  assumes "good s" "addr s b" "rd s b = Some buf" "off + length xs \<le> bsz s"
  shows "length (bsplice off xs buf) = bsz s"
  using rd_len [OF assms(1,2,3)] assms(4) by simp

lemma rmw_same:
  assumes "good s" "addr s b" "rd s b = Some buf" "off + length xs \<le> bsz s"
    and "wr s b (bsplice off xs buf) = (True, s')"
  shows "rd s' b = Some (bsplice off xs buf)"
  by (rule wr_same [OF assms(1,2) rmw_len [OF assms(1-4)] assms(5)])

lemma rmw_other_slice:
  assumes "good s" "addr s b" "addr s c" "rd s b = Some buf" "off + length xs \<le> bsz s"
    and "wr s b (bsplice off xs buf) = (True, s')"
    and "c \<noteq> b \<or> off' + n \<le> off \<or> off + length xs \<le> off'"
  shows "map_option (bslice off' n) (rd s' c) = map_option (bslice off' n) (rd s c)"
proof (cases "c = b")
  case True
  have "rd s' b = Some (bsplice off xs buf)" by (rule rmw_same [OF assms(1,2,4,5,6)])
  with True assms(4,5,7) rd_len [OF assms(1,2,4)] show ?thesis
    by (simp add: slice_splice_other)
next
  case False
  with wr_other [OF assms(1,2,3) rmw_len [OF assms(1,2,4,5)] assms(6)] show ?thesis by simp
qed

end

section \<open>io.c provides the interface\<close>

definition fs_bsz :: "kfs \<Rightarrow> nat" where
  "fs_bsz s = unat (ext4_block_size s)"

definition fs_io_ok :: "kfs \<Rightarrow> bool" where
  "fs_io_ok s \<longleftrightarrow> disk_ok (g_disk s) \<and> 512 \<le> fs_bsz s \<and> 512 dvd fs_bsz s \<and>
     (case g_default_bdev s of None \<Rightarrow> False | Some b \<Rightarrow> bd_sector_size b = 512)"

text \<open>The block lies within the 28-bit sector numbers of the device.\<close>

definition fs_addr :: "kfs \<Rightarrow> u32 \<Rightarrow> bool" where
  "fs_addr s b \<longleftrightarrow> (unat b + 1) * (fs_bsz s div 512) \<le> 2 ^ 28"

definition fs_up :: "kfs \<Rightarrow> u32 \<Rightarrow> bool" where
  "fs_up s b \<longleftrightarrow> \<not> run_bad (g_disk s) (unat b * (fs_bsz s div 512)) (fs_bsz s div 512)"

lemma fs_addr_bound:
  assumes "fs_addr s b" "512 \<le> fs_bsz s"
  shows "unat b < 2 ^ 28"
proof -
  have "(unat b + 1) * 1 \<le> (unat b + 1) * (fs_bsz s div 512)"
    using assms(2) by (intro mult_le_mono2) simp
  then show ?thesis using assms(1) by (simp add: fs_addr_def)
qed

lemma fs_sectors_per_block:
  assumes "fs_io_ok s" "g_default_bdev s = Some bdev"
  shows "unat (ext4_sectors_per_block s bdev) = fs_bsz s div 512"
    and "bd_sector_size bdev = 512"
proof -
  show ss: "bd_sector_size bdev = 512" using assms by (simp add: fs_io_ok_def)
  have "unat (ext4_block_size s div 512) = fs_bsz s div 512"
    by (simp add: unat_div fs_bsz_def)
  moreover have "fs_bsz s div 512 \<noteq> 0" using assms(1) by (auto simp: fs_io_ok_def)
  ultimately show "unat (ext4_sectors_per_block s bdev) = fs_bsz s div 512"
    by (auto simp: ext4_sectors_per_block_def ss Let_def)
qed

lemma fs_lba:
  assumes "fs_io_ok s" "g_default_bdev s = Some bdev" "fs_addr s b"
  defines "spb \<equiv> ext4_sectors_per_block s bdev"
  shows "unat ((ucast b :: u64) * ucast spb) = unat b * (fs_bsz s div 512)"
    and "unat b * (fs_bsz s div 512) + unat spb \<le> 2 ^ 28"
proof -
  have u: "unat spb = fs_bsz s div 512"
    using fs_sectors_per_block(1) [OF assms(1,2)] by (simp add: spb_def)
  show le: "unat b * (fs_bsz s div 512) + unat spb \<le> 2 ^ 28"
    using assms(3) u by (simp add: fs_addr_def)
  have b: "unat (ucast b :: u64) = unat b" "unat (ucast spb :: u64) = unat spb"
    using unat_u32_bound [of b] unat_u32_bound [of spb] by (simp_all add: unat_ucast_fit)
  have "unat b * unat spb \<le> 2 ^ 28" using le u by (simp only:)
  then have "unat b * unat spb < 2 ^ LENGTH(64)" by simp
  then show "unat ((ucast b :: u64) * ucast spb) = unat b * (fs_bsz s div 512)"
    using b u by (subst unat_mult_nowrap) simp_all
qed

lemma ext4_read_block_buf_run:
  assumes "fs_io_ok s" "fs_addr s b" "length buf = fs_bsz s"
    and "ext4_read_block_buf s b buf = (ok, buf')"
  shows "(ok \<longleftrightarrow> fs_up s b) \<and> length buf' = fs_bsz s \<and>
    (ok \<longrightarrow> buf' = sector_run (g_disk s) (unat b * (fs_bsz s div 512)) (fs_bsz s div 512))"
proof -
  obtain bdev where bd: "g_default_bdev s = Some bdev"
    using assms(1) by (auto simp: fs_io_ok_def split: option.splits)
  let ?spb = "ext4_sectors_per_block s bdev"
  note u = fs_sectors_per_block [OF assms(1) bd] and l = fs_lba [OF assms(1) bd assms(2)]
  have d: "disk_ok (g_disk s)" and n0: "fs_bsz s div 512 > 0" and dvd: "fs_bsz s = 512 * (fs_bsz s div 512)"
    using assms(1) by (auto simp: fs_io_ok_def)
  have "?spb \<noteq> 0" using u(1) n0 by (metis unat_gt_0)
  then have loop: "blkdev_read_loop (g_disk s) 512 (ucast b * ucast ?spb) ?spb 0 buf = (ok, buf')"
    using assms(4) bd u(2)
    by (simp add: ext4_read_block_buf_def blkdev_get_default_def blkdev_read_sectors_def Let_def)
  have le: "unat ((ucast b :: u64) * ucast ?spb) + unat ?spb \<le> 2 ^ 28" "0 + 512 * unat ?spb \<le> length buf"
    using l u(1) assms(3) dvd by simp_all
  have all: "bsplice 0 (sector_run (g_disk s) k (fs_bsz s div 512)) buf = sector_run (g_disk s) k (fs_bsz s div 512)" for k
    using d dvd assms(3) by (simp add: bsplice_def)
  show ?thesis
    using blkdev_read_loop_run [OF d le loop] l(1) u(1) all assms(3) by (simp add: fs_up_def)
qed

lemma ext4_read_block_run:
  assumes "fs_io_ok s" "fs_addr s b"
  shows "ext4_read_block s b =
    (if fs_up s b
     then Some (sector_run (g_disk s) (unat b * (fs_bsz s div 512)) (fs_bsz s div 512)) else None)"
proof -
  let ?z = "replicate (unat (ext4_block_size s)) 0"
  obtain ok buf where r: "ext4_read_block_buf s b ?z = (ok, buf)" by fastforce
  have "length ?z = fs_bsz s" by (simp add: fs_bsz_def)
  from ext4_read_block_buf_run [OF assms this r] r show ?thesis
    by (auto simp: ext4_read_block_def split: bool.splits)
qed

text \<open>The two readings agree: the block, and a buffer that keeps its length when the read fails.\<close>

lemma ext4_read_block_buf_eq:
  assumes "fs_io_ok s" "fs_addr s b" "length buf = fs_bsz s"
    and "ext4_read_block_buf s b buf = (ok, buf')"
  shows "ext4_read_block s b = (if ok then Some buf' else None)" and "length buf' = fs_bsz s"
  using ext4_read_block_buf_run [OF assms] by (auto simp: ext4_read_block_run [OF assms(1,2)])

lemma ext4_write_block_wrote:
  assumes "fs_io_ok s" "fs_addr s b" "ext4_write_block s b buf = (r, s')"
  shows "\<exists>d. s' = s\<lparr>g_disk := d\<rparr> \<and>
    wrote (g_disk s) (unat b * (fs_bsz s div 512)) (fs_bsz s div 512) buf r d"
proof -
  obtain bdev where bd: "g_default_bdev s = Some bdev"
    using assms(1) by (auto simp: fs_io_ok_def split: option.splits)
  let ?spb = "ext4_sectors_per_block s bdev"
  note u = fs_sectors_per_block [OF assms(1) bd] and l = fs_lba [OF assms(1) bd assms(2)]
  have "fs_bsz s div 512 > 0" using assms(1) by (auto simp: fs_io_ok_def)
  then have "?spb \<noteq> 0" using u(1) by (metis unat_gt_0)
  then obtain d where d: "s' = s\<lparr>g_disk := d\<rparr>"
    and w: "blkdev_write_loop (g_disk s) 512 (ucast b * ucast ?spb) ?spb 0 buf = (r, d)"
    using assms(3) bd u by (auto simp: ext4_write_block_def blkdev_get_default_def
        blkdev_write_sectors_def Let_def split: prod.splits)
  have "unat ((ucast b :: u64) * ucast ?spb) + unat ?spb \<le> 2 ^ 28" using l by simp
  from blkdev_write_loop_wrote [OF this w] d show ?thesis
    using l u(1) by (intro exI [of _ d]) simp
qed

text \<open>Reading sectors back after a write of them, and sectors outside of it.\<close>

lemma wrote_run_same:
  assumes "wrote d k n buf True d'" "length buf = 512 * n"
  shows "sector_run d' k n = buf"
proof -
  have "map (\<lambda>i. ad_sector d' (of_nat i)) [k..<k + n] = map (\<lambda>i. take 512 (drop (512 * i) buf)) [0..<n]"
    using assms(1) by (intro nth_equalityI) (simp_all add: wrote_def)
  then have "sector_run d' k n = concat (map (\<lambda>i. take 512 (drop (512 * i) buf)) [0..<n])"
    by (simp add: sector_run_def)
  moreover have "m \<le> n \<Longrightarrow> concat (map (\<lambda>i. take 512 (drop (512 * i) buf)) [0..<m]) = take (512 * m) buf" for m
  proof (induction m)
    case (Suc m)
    have "take (512 * m + 512) buf = take (512 * m) buf @ take 512 (drop (512 * m) buf)"
      by (rule take_add)
    with Suc show ?case by (simp add: add.commute)
  qed simp
  ultimately show ?thesis using assms(2) by simp
qed

lemma wrote_run_other:
  assumes "wrote d k n buf r d'" "j + m \<le> k \<or> k + n \<le> j" "j + m \<le> 2 ^ 32"
  shows "sector_run d' j m = sector_run d j m"
proof -
  have "ad_sector d' (of_nat i) = ad_sector d (of_nat i)" if "j \<le> i" "i < j + m" for i
  proof -
    have "unat (of_nat i :: u32) = i" using assms(3) that by (intro unat_of_nat_fit) simp
    then show ?thesis using assms(1,2) that by (auto simp: wrote_def)
  qed
  then show ?thesis unfolding sector_run_def by (intro arg_cong [where f = concat] map_cong) auto
qed

lemma block_runs_disjoint:
  "b \<noteq> (c :: nat) \<Longrightarrow> c * k + k \<le> b * k \<or> b * k + k \<le> c * k"
proof -
  assume "b \<noteq> c"
  then have "c + 1 \<le> b \<or> b + 1 \<le> c" by linarith
  then have "(c + 1) * k \<le> b * k \<or> (b + 1) * k \<le> c * k" using mult_le_mono1 by blast
  then show ?thesis by (simp add: algebra_simps)
qed

lemma fs_params_disk [simp]:
  "fs_bsz (s\<lparr>g_disk := d\<rparr>) = fs_bsz s" "fs_addr (s\<lparr>g_disk := d\<rparr>) = fs_addr s"
  by (simp_all add: fs_bsz_def fs_addr_def fun_eq_iff)

interpretation io: block_store ext4_read_block ext4_write_block fs_io_ok fs_addr fs_up fs_bsz
proof (unfold_locales, goal_cases)
  case (1 s b buf)
  then show ?case by (auto simp: ext4_read_block_run fs_io_ok_def split: if_splits)
next
  case (2 s b)
  then show ?case by (simp add: ext4_read_block_run)
next
  case (3 s b buf)
  then show ?case
    using ext4_write_block_wrote [of s b buf "fst (ext4_write_block s b buf)" "snd (ext4_write_block s b buf)"]
    by (auto simp: wrote_def fs_up_def)
next
  case (4 s b buf r s')
  from ext4_write_block_wrote [OF 4(1,2,4)] obtain d where d: "s' = s\<lparr>g_disk := d\<rparr>"
    and w: "wrote (g_disk s) (unat b * (fs_bsz s div 512)) (fs_bsz s div 512) buf r d" by blast
  have "512 * (fs_bsz s div 512) \<le> length buf" using 4 by (simp add: fs_io_ok_def)
  with 4(1) w have "disk_ok d" by (simp add: wrote_def fs_io_ok_def)
  with 4(1) w d show ?case by (simp add: fs_io_ok_def fs_up_def wrote_def run_bad_def fun_eq_iff)
next
  case (5 s b buf s')
  from ext4_write_block_wrote [OF 5(1,2,4)] obtain d where d: "s' = s\<lparr>g_disk := d\<rparr>"
    and w: "wrote (g_disk s) (unat b * (fs_bsz s div 512)) (fs_bsz s div 512) buf True d" by blast
  have len: "length buf = 512 * (fs_bsz s div 512)" using 5 by (simp add: fs_io_ok_def)
  then have "disk_ok d" using 5(1) w by (simp add: wrote_def fs_io_ok_def)
  moreover have "fs_up s b" using w by (simp add: wrote_def fs_up_def)
  ultimately show ?case
    using 5(1,2) d w wrote_run_same [OF w len]
    by (subst ext4_read_block_run) (simp_all add: fs_io_ok_def fs_up_def wrote_def run_bad_def)
next
  case (6 s b c buf r s')
  from ext4_write_block_wrote [OF 6(1,2,5)] obtain d where d: "s' = s\<lparr>g_disk := d\<rparr>"
    and w: "wrote (g_disk s) (unat b * (fs_bsz s div 512)) (fs_bsz s div 512) buf r d" by blast
  have "512 * (fs_bsz s div 512) \<le> length buf" using 6 by (simp add: fs_io_ok_def)
  then have ok: "fs_io_ok s'" using 6(1) w d by (simp add: wrote_def fs_io_ok_def)
  have "unat c \<noteq> unat b" using 6(6) word_eq_by_unat by blast
  from block_runs_disjoint [OF this [symmetric], of "fs_bsz s div 512"]
  have "sector_run d (unat c * (fs_bsz s div 512)) (fs_bsz s div 512) =
      sector_run (g_disk s) (unat c * (fs_bsz s div 512)) (fs_bsz s div 512)"
    using 6(3) by (intro wrote_run_other [OF w]) (auto simp: fs_addr_def algebra_simps)
  with ok 6(1,3) d w show ?case
    by (simp add: ext4_read_block_run fs_up_def wrote_def run_bad_def)
qed


section \<open>Frames\<close>

text \<open>
  Block input and output look at the disk, the device and the block size only; a write changes
  the disk and nothing else.
\<close>

lemma ext4_read_block_cong:
  "g_disk s' = g_disk s \<Longrightarrow> g_default_bdev s' = g_default_bdev s \<Longrightarrow>
   ext4_block_size s' = ext4_block_size s \<Longrightarrow> ext4_read_block s' = ext4_read_block s"
  by (simp add: ext4_read_block_def ext4_read_block_buf_def ext4_sectors_per_block_def fun_eq_iff
      cong: option.case_cong)

lemma fs_io_cong:
  assumes "g_disk s' = g_disk s" "g_default_bdev s' = g_default_bdev s"
    "ext4_block_size s' = ext4_block_size s"
  shows "fs_io_ok s' = fs_io_ok s" "fs_bsz s' = fs_bsz s" "fs_addr s' = fs_addr s" "fs_up s' = fs_up s"
  using assms by (simp_all add: fs_io_ok_def fs_bsz_def fs_addr_def fs_up_def fun_eq_iff)

lemma ext4_write_block_disk:
  "ext4_write_block s b buf = (r, s') \<Longrightarrow> s' = s\<lparr>g_disk := g_disk s'\<rparr>"
  by (auto simp: ext4_write_block_def Let_def split: option.splits prod.splits)

text \<open>
  disk_frame B s s': going from s to s', the device still works, and every addressable block
  outside B reads as before. B collects the blocks an operation may write.
\<close>

definition disk_frame :: "u32 set \<Rightarrow> kfs \<Rightarrow> kfs \<Rightarrow> bool" where
  "disk_frame B s s' \<longleftrightarrow> fs_io_ok s' \<and> fs_bsz s' = fs_bsz s \<and> fs_addr s' = fs_addr s \<and>
     fs_up s' = fs_up s \<and> (\<forall>c. fs_addr s c \<longrightarrow> c \<notin> B \<longrightarrow> ext4_read_block s' c = ext4_read_block s c)"

lemma disk_frame_same_io:
  assumes "fs_io_ok s" "g_disk s' = g_disk s" "g_default_bdev s' = g_default_bdev s"
    "ext4_block_size s' = ext4_block_size s"
  shows "disk_frame B s s'"
  using assms fs_io_cong [OF assms(2-4)] ext4_read_block_cong [OF assms(2-4)]
  by (simp add: disk_frame_def)

lemma disk_frame_trans:
  "disk_frame B s t \<Longrightarrow> disk_frame C t u \<Longrightarrow> B \<union> C \<subseteq> D \<Longrightarrow> disk_frame D s u"
  unfolding disk_frame_def by (metis (no_types, lifting) Un_iff subsetD)

lemma disk_frame_mono: "disk_frame B s t \<Longrightarrow> B \<subseteq> C \<Longrightarrow> disk_frame C s t"
  by (auto simp: disk_frame_def)

lemma disk_frame_write:
  assumes "fs_io_ok s" "fs_addr s b" "length buf = fs_bsz s" "ext4_write_block s b buf = (r, s')"
  shows "disk_frame {b} s s'"
  using io.wr_good [OF assms] io.wr_other [OF assms(1,2) _ assms(3,4)]
  by (auto simp: disk_frame_def)

lemmas disk_frameD = disk_frame_def [THEN iffD1]

end
