(* ===== verification/Group_Desc.thy ===== *)
theory Group_Desc
  imports Ext4_Io
begin

text \<open>
  Block group descriptors on disk: the static ext4_read_group_desc and ext4_write_group_desc of
  fs/ext4/balloc.c, and ext4_sync_super_free_counts of fs/ext4/super.c, which sums the free
  counts of all descriptors into the superblock.
\<close>

section \<open>Place of a descriptor\<close>

text \<open>
  Block number, offset and number of bytes copied; None where the copy would cross the end of
  the block.
\<close>

definition gd_loc :: "ext4_sb_info \<Rightarrow> u32 \<Rightarrow> u32 \<Rightarrow> (u32 \<times> u32 \<times> u32) option" where
  "gd_loc sbi block_size grp =
     (let gd_base = (if block_size = 1024 then 2 else s_first_data_block sbi + 1);
          desc_off = grp * ucast (s_desc_size sbi);
          blk = gd_base + desc_off div block_size;
          off = desc_off mod block_size;
          copy_sz = (if (ucast (s_desc_size sbi) :: u32) > 64 then 64 else ucast (s_desc_size sbi))
      in if off + copy_sz > block_size then None else Some (blk, off, copy_sz))"

text \<open>memset of the descriptor and memcpy of copy_sz bytes into it, and memcpy out of it.\<close>

definition gd_copy_out :: "bytes \<Rightarrow> u32 \<Rightarrow> u32 \<Rightarrow> ext4_group_desc" where
  "gd_copy_out buf off copy_sz =
     gd_dec (bslice (unat off) (unat copy_sz) buf @ replicate (64 - unat copy_sz) 0)"

definition gd_copy_in :: "ext4_group_desc \<Rightarrow> u32 \<Rightarrow> u32 \<Rightarrow> bytes \<Rightarrow> bytes" where
  "gd_copy_in gd off copy_sz buf = bsplice (unat off) (take (unat copy_sz) (gd_enc gd)) buf"

section \<open>Reading and writing a descriptor (balloc.c)\<close>

definition ext4_read_group_desc :: "kfs \<Rightarrow> u32 \<Rightarrow> ext4_group_desc option \<times> kfs" where
  "ext4_read_group_desc s grp =
     (case s_fs_info s of
        None \<Rightarrow> (None, s)
      | Some sbi \<Rightarrow>
          if s_desc_size sbi = 0 then (None, s)
          else case gd_loc sbi (ext4_get_block_size s) grp of
            None \<Rightarrow> (None, s)
          | Some (blk, off, copy_sz) \<Rightarrow>
              (case balloc_malloc (unat (ext4_get_block_size s)) s of
                 (None, s1) \<Rightarrow> (None, s1)
               | (Some p, s1) \<Rightarrow>
                   (case ext4_read_block s1 blk of
                      None \<Rightarrow> (None, balloc_free p s1)
                    | Some buf \<Rightarrow> (Some (gd_copy_out buf off copy_sz), balloc_free p s1))))"

definition ext4_write_group_desc :: "kfs \<Rightarrow> u32 \<Rightarrow> ext4_group_desc \<Rightarrow> bool \<times> kfs" where
  "ext4_write_group_desc s grp gd =
     (case s_fs_info s of
        None \<Rightarrow> (False, s)
      | Some sbi \<Rightarrow>
          if s_desc_size sbi = 0 then (False, s)
          else case gd_loc sbi (ext4_get_block_size s) grp of
            None \<Rightarrow> (False, s)
          | Some (blk, off, copy_sz) \<Rightarrow>
              (case balloc_malloc (unat (ext4_get_block_size s)) s of
                 (None, s1) \<Rightarrow> (False, s1)
               | (Some p, s1) \<Rightarrow>
                   (case ext4_read_block s1 blk of
                      None \<Rightarrow> (False, balloc_free p s1)
                    | Some buf \<Rightarrow>
                        (case ext4_write_block s1 blk (gd_copy_in gd off copy_sz buf) of
                           (ok, s2) \<Rightarrow> (ok, balloc_free p s2)))))"

definition ext4_update_group_desc :: "kfs \<Rightarrow> u32 \<Rightarrow> bool \<times> kfs" where
  "ext4_update_group_desc s grp =
     (case s_fs_info s of
        None \<Rightarrow> (False, s)
      | Some sbi \<Rightarrow>
          (case s_group_desc sbi of
             None \<Rightarrow> (False, s)
           | Some gd \<Rightarrow> ext4_write_group_desc s grp gd))"

section \<open>Free counts of the superblock (super.c)\<close>

text \<open>
  The loop over the groups keeps the last descriptor block it read in gd_buf; cur_gd_block
  names it. A descriptor that would cross the end of its block is skipped.
\<close>

abbreviation (input) sb_off_free_blocks_lo :: nat where "sb_off_free_blocks_lo \<equiv> 12"
abbreviation (input) sb_off_free_inodes :: nat where "sb_off_free_inodes \<equiv> 16"
abbreviation (input) sb_off_free_blocks_hi :: nat where "sb_off_free_blocks_hi \<equiv> 344"

definition join16 :: "u16 \<Rightarrow> u16 \<Rightarrow> u32" where
  "join16 lo hi = ucast lo OR push_bit 16 (ucast hi)"

fun sync_counts_loop :: "kfs \<Rightarrow> ext4_sb_info \<Rightarrow> nat list \<Rightarrow> u32 \<Rightarrow> bytes \<Rightarrow> u64 \<Rightarrow> u32 \<Rightarrow> (u64 \<times> u32) option" where
  "sync_counts_loop s sbi [] cur_gd_block gd_buf free_blocks free_inodes = Some (free_blocks, free_inodes)"
| "sync_counts_loop s sbi (g # gs) cur_gd_block gd_buf free_blocks free_inodes =
     (case gd_loc sbi (s_block_size sbi) (of_nat g) of
        None \<Rightarrow> sync_counts_loop s sbi gs cur_gd_block gd_buf free_blocks free_inodes
      | Some (blk, off, copy_sz) \<Rightarrow>
          (case (if blk \<noteq> cur_gd_block then ext4_read_block s blk else Some gd_buf) of
             None \<Rightarrow> None
           | Some gd_buf \<Rightarrow>
               let gd = gd_copy_out gd_buf off copy_sz;
                   fb = join16 (bg_free_blocks_count_lo gd) (bg_free_blocks_count_hi gd);
                   fi = join16 (bg_free_inodes_count_lo gd) (bg_free_inodes_count_hi gd)
               in sync_counts_loop s sbi gs blk gd_buf (free_blocks + ucast fb) (free_inodes + fi)))"

definition sb_blocknr :: "u32 \<Rightarrow> u32" where
  "sb_blocknr block_size = (if block_size = 1024 then 1 else 0)"

definition sb_offset :: "u32 \<Rightarrow> nat" where
  "sb_offset block_size = (if block_size = 1024 then 0 else 1024)"

definition put_free_counts :: "nat \<Rightarrow> u64 \<Rightarrow> u32 \<Rightarrow> bytes \<Rightarrow> bytes" where
  "put_free_counts o_sb free_blocks free_inodes buf =
     put32 (put32 (put32 buf (o_sb + sb_off_free_blocks_lo) (ucast (free_blocks AND 0xffffffff)))
                  (o_sb + sb_off_free_blocks_hi) (ucast (drop_bit 32 free_blocks)))
           (o_sb + sb_off_free_inodes) free_inodes"

definition ext4_sync_super_free_counts :: "kfs \<Rightarrow> bool \<times> kfs" where
  "ext4_sync_super_free_counts s =
     (case s_fs_info s of
        None \<Rightarrow> (False, s)
      | Some sbi \<Rightarrow>
          if s_group_desc sbi = None then (False, s)
          else let block_size = s_block_size sbi in
            (case super_malloc (unat block_size) s of
               (None, s1) \<Rightarrow> (False, s1)
             | (Some sb_p, s1) \<Rightarrow>
                 (case super_malloc (unat block_size) s1 of
                    (None, s2) \<Rightarrow> (False, super_free sb_p s2)
                  | (Some gd_p, s2) \<Rightarrow>
                      (let release = (\<lambda>t. super_free sb_p (super_free gd_p t)) in
                       case ext4_read_block s2 (sb_blocknr block_size) of
                         None \<Rightarrow> (False, release s2)
                       | Some sb_buf \<Rightarrow>
                           (case sync_counts_loop s2 sbi [0..<unat (s_groups_count sbi)]
                                   (- 1) (replicate (unat block_size) 0) 0 0 of
                              None \<Rightarrow> (False, release s2)
                            | Some (free_blocks, free_inodes) \<Rightarrow>
                                (case ext4_write_block s2 (sb_blocknr block_size)
                                        (put_free_counts (sb_offset block_size) free_blocks free_inodes sb_buf) of
                                   (ok, s3) \<Rightarrow> (ok, release s3)))))))"

section \<open>What they do, with a scratch buffer at hand\<close>

text \<open>
  gd_at is the descriptor the disk holds; gd_store the write. The functions above return these
  values and leave every scratch buffer as they found it.
\<close>

definition gd_at :: "kfs \<Rightarrow> u32 \<Rightarrow> ext4_group_desc option" where
  "gd_at s grp =
     (case s_fs_info s of
        None \<Rightarrow> None
      | Some sbi \<Rightarrow>
          if s_desc_size sbi = 0 then None
          else case gd_loc sbi (ext4_block_size s) grp of
            None \<Rightarrow> None
          | Some (blk, off, copy_sz) \<Rightarrow>
              map_option (\<lambda>buf. gd_copy_out buf off copy_sz) (ext4_read_block s blk))"

definition gd_store :: "kfs \<Rightarrow> u32 \<Rightarrow> ext4_group_desc \<Rightarrow> bool \<times> kfs" where
  "gd_store s grp gd =
     (case s_fs_info s of
        None \<Rightarrow> (False, s)
      | Some sbi \<Rightarrow>
          if s_desc_size sbi = 0 then (False, s)
          else case gd_loc sbi (ext4_block_size s) grp of
            None \<Rightarrow> (False, s)
          | Some (blk, off, copy_sz) \<Rightarrow>
              (case ext4_read_block s blk of
                 None \<Rightarrow> (False, s)
               | Some buf \<Rightarrow> ext4_write_block s blk (gd_copy_in gd off copy_sz buf)))"

lemma read_block_pool [simp]:
  "ext4_read_block (s\<lparr>pool_balloc := p\<rparr>) = ext4_read_block s"
  "ext4_read_block (s\<lparr>pool_ialloc := p\<rparr>) = ext4_read_block s"
  "ext4_read_block (s\<lparr>pool_super := p\<rparr>) = ext4_read_block s"
  "ext4_read_block (s\<lparr>s_fs_info := i\<rparr>) = ext4_read_block s"
  by (rule ext4_read_block_cong; simp)+

lemma write_block_pool:
  "ext4_write_block (s\<lparr>pool_balloc := p\<rparr>) b buf =
     (fst (ext4_write_block s b buf), (snd (ext4_write_block s b buf))\<lparr>pool_balloc := p\<rparr>)"
  "ext4_write_block (s\<lparr>pool_ialloc := p\<rparr>) b buf =
     (fst (ext4_write_block s b buf), (snd (ext4_write_block s b buf))\<lparr>pool_ialloc := p\<rparr>)"
  "ext4_write_block (s\<lparr>pool_super := p\<rparr>) b buf =
     (fst (ext4_write_block s b buf), (snd (ext4_write_block s b buf))\<lparr>pool_super := p\<rparr>)"
  by (simp_all add: ext4_write_block_def ext4_sectors_per_block_def Let_def split: option.splits prod.splits)

lemma ext4_read_group_desc_eq:
  "ext4_read_group_desc s grp = (if balloc_room s then gd_at s grp else None, s)"
proof (cases "\<exists>p s1. balloc_malloc (unat (ext4_block_size s)) s = (Some p, s1)")
  case True
  then obtain p s1 where m: "balloc_malloc (unat (ext4_block_size s)) s = (Some p, s1)" by blast
  have "balloc_room s" using True balloc_malloc_room by (simp add: balloc_room_def)
  moreover have "ext4_read_block s1 = ext4_read_block s"
    by (subst balloc_malloc_Some(1) [OF m]) simp
  ultimately show ?thesis
    using m balloc_malloc_Some(2) [OF m]
    by (simp add: ext4_read_group_desc_def gd_at_def ext4_get_block_size_def split: option.splits)
next
  case False
  then have "\<not> balloc_room s" using balloc_malloc_room by (simp add: balloc_room_def)
  moreover obtain s1 where m: "balloc_malloc (unat (ext4_block_size s)) s = (None, s1)"
    using False by (metis not_None_eq surj_pair)
  moreover have "s1 = s" by (rule balloc_malloc_None [OF m])
  ultimately show ?thesis
    by (simp add: ext4_read_group_desc_def ext4_get_block_size_def split: option.splits)
qed

lemma ext4_write_group_desc_eq:
  "ext4_write_group_desc s grp gd = (if balloc_room s then gd_store s grp gd else (False, s))"
proof (cases "\<exists>p s1. balloc_malloc (unat (ext4_block_size s)) s = (Some p, s1)")
  case True
  then obtain p s1 where m: "balloc_malloc (unat (ext4_block_size s)) s = (Some p, s1)" by blast
  have "balloc_room s" using True balloc_malloc_room by (simp add: balloc_room_def)
  moreover have rd: "ext4_read_block s1 = ext4_read_block s"
    by (subst balloc_malloc_Some(1) [OF m]) simp
  moreover have "(case ext4_write_block s1 b buf of (ok, s2) \<Rightarrow> (ok, balloc_free p s2)) = ext4_write_block s b buf" for b buf
  proof -
    obtain ok t where w: "ext4_write_block s b buf = (ok, t)" by fastforce
    obtain d where t: "t = s\<lparr>g_disk := d\<rparr>" using ext4_write_block_disk [OF w] by blast
    obtain q where s1: "s1 = s\<lparr>pool_balloc := q\<rparr>" using balloc_malloc_Some(1) [OF m] by blast
    have "ext4_write_block s1 b buf = (ok, s1\<lparr>g_disk := d\<rparr>)"
      using w by (simp add: s1 t write_block_pool)
    then show ?thesis using w t balloc_malloc_Some(3) [OF m] by simp
  qed
  ultimately show ?thesis
    using m balloc_malloc_Some(2) [OF m]
    by (simp add: ext4_write_group_desc_def gd_store_def ext4_get_block_size_def split: option.splits)
next
  case False
  then have "\<not> balloc_room s" using balloc_malloc_room by (simp add: balloc_room_def)
  moreover obtain s1 where m: "balloc_malloc (unat (ext4_block_size s)) s = (None, s1)"
    using False by (metis not_None_eq surj_pair)
  moreover have "s1 = s" by (rule balloc_malloc_None [OF m])
  ultimately show ?thesis
    by (simp add: ext4_write_group_desc_def ext4_get_block_size_def split: option.splits)
qed

section \<open>Laws of descriptor updates\<close>

text \<open>What is left of a descriptor of which only the first c bytes are stored.\<close>

definition gd_trunc :: "u32 \<Rightarrow> ext4_group_desc \<Rightarrow> ext4_group_desc" where
  "gd_trunc c gd = gd_dec (take (unat c) (gd_enc gd) @ replicate (64 - unat c) 0)"

lemma slice_take: "off + n \<le> c \<Longrightarrow> bslice off n (take c xs) = bslice off n xs"
  by (simp add: bslice_def drop_take min_def)

lemma gd_trunc_lo:
  assumes "32 \<le> unat c" "unat c \<le> 64"
  shows "bg_block_bitmap_lo (gd_trunc c gd) = bg_block_bitmap_lo gd"
    and "bg_inode_bitmap_lo (gd_trunc c gd) = bg_inode_bitmap_lo gd"
    and "bg_inode_table_lo (gd_trunc c gd) = bg_inode_table_lo gd"
    and "bg_free_blocks_count_lo (gd_trunc c gd) = bg_free_blocks_count_lo gd"
    and "bg_free_inodes_count_lo (gd_trunc c gd) = bg_free_inodes_count_lo gd"
    and "bg_used_dirs_count_lo (gd_trunc c gd) = bg_used_dirs_count_lo gd"
proof -
  have cut: "bslice off n (take (unat c) (gd_enc gd) @ replicate (64 - unat c) 0) = bslice off n (gd_enc gd)"
    if "off + n \<le> 32" for off n
    using that assms by (simp add: slice_append_left slice_take pk_gd.len_enc)
  have d: "gd_dec (gd_enc gd) = gd" by (rule pk_gd.dec_enc)
  show "bg_block_bitmap_lo (gd_trunc c gd) = bg_block_bitmap_lo gd"
    "bg_inode_bitmap_lo (gd_trunc c gd) = bg_inode_bitmap_lo gd"
    "bg_inode_table_lo (gd_trunc c gd) = bg_inode_table_lo gd"
    "bg_free_blocks_count_lo (gd_trunc c gd) = bg_free_blocks_count_lo gd"
    "bg_free_inodes_count_lo (gd_trunc c gd) = bg_free_inodes_count_lo gd"
    "bg_used_dirs_count_lo (gd_trunc c gd) = bg_used_dirs_count_lo gd"
    using arg_cong [OF d, of bg_block_bitmap_lo] arg_cong [OF d, of bg_inode_bitmap_lo]
      arg_cong [OF d, of bg_inode_table_lo] arg_cong [OF d, of bg_free_blocks_count_lo]
      arg_cong [OF d, of bg_free_inodes_count_lo] arg_cong [OF d, of bg_used_dirs_count_lo]
    by (simp_all add: gd_trunc_def gd_dec_def cut)
qed

lemma gd_trunc_all: "unat c = 64 \<Longrightarrow> gd_trunc c gd = gd"
  by (simp add: gd_trunc_def pk_gd.len_enc pk_gd.dec_enc)

lemma gd_copy_out_in:
  assumes "unat off + unat c \<le> length buf" "unat c \<le> 64"
  shows "gd_copy_out (gd_copy_in gd off c buf) off c = gd_trunc c gd"
  using assms by (simp add: gd_copy_out_def gd_copy_in_def gd_trunc_def slice_splice_same pk_gd.len_enc)

lemma gd_copy_out_in_other:
  assumes "unat off + unat c \<le> length buf" "unat c \<le> 64"
    and "unat off' + unat c' \<le> unat off \<or> unat off + unat c \<le> unat off'"
  shows "gd_copy_out (gd_copy_in gd off c buf) off' c' = gd_copy_out buf off' c'"
  using assms by (simp add: gd_copy_out_def gd_copy_in_def slice_splice_other pk_gd.len_enc)

lemma length_gd_copy_in:
  "unat off + unat c \<le> length buf \<Longrightarrow> unat c \<le> 64 \<Longrightarrow> length (gd_copy_in gd off c buf) = length buf"
  by (simp add: gd_copy_in_def pk_gd.len_enc)

text \<open>
  A descriptor table in order: descriptors of at least 32 bytes, no wrap-around of the byte
  offsets of the table, and every descriptor inside an addressable block.
\<close>

definition gd_base :: "ext4_sb_info \<Rightarrow> u32 \<Rightarrow> u32" where
  "gd_base sbi block_size = (if block_size = 1024 then 2 else s_first_data_block sbi + 1)"

definition gd_blk :: "kfs \<Rightarrow> ext4_sb_info \<Rightarrow> u32 \<Rightarrow> u32" where
  "gd_blk s sbi g = gd_base sbi (ext4_block_size s) + g * ucast (s_desc_size sbi) div ext4_block_size s"

definition gd_table_ok :: "kfs \<Rightarrow> ext4_sb_info \<Rightarrow> bool" where
  "gd_table_ok s sbi \<longleftrightarrow> 32 \<le> unat (s_desc_size sbi) \<and> 1024 \<le> fs_bsz s \<and> fs_bsz s \<le> 65536 \<and>
     unat (gd_base sbi (ext4_block_size s)) \<le> 2 \<and>
     unat (s_groups_count sbi) * unat (s_desc_size sbi) < 2 ^ 32 \<and>
     (\<forall>g < s_groups_count sbi. gd_loc sbi (ext4_block_size s) g \<noteq> None \<and> fs_addr s (gd_blk s sbi g))"

lemma unat_gd_size: "unat (ucast (s_desc_size sbi) :: u32) = unat (s_desc_size sbi)"
  using unat_u16_bound [of "s_desc_size sbi"] by (intro unat_ucast_fit) simp

lemma gd_locD:
  assumes ok: "gd_table_ok s sbi" and g: "g < s_groups_count sbi"
  obtains off c where "gd_loc sbi (ext4_block_size s) g = Some (gd_blk s sbi g, off, c)"
    and "unat off = unat g * unat (s_desc_size sbi) mod fs_bsz s"
    and "unat c = min 64 (unat (s_desc_size sbi))"
    and "unat off + unat c \<le> fs_bsz s"
    and "unat (gd_blk s sbi g) = unat (gd_base sbi (ext4_block_size s)) + unat g * unat (s_desc_size sbi) div fs_bsz s"
proof -
  let ?d = "s_desc_size sbi" and ?bs = "ext4_block_size s"
  let ?off = "g * ucast ?d mod ?bs" and ?c = "if (ucast ?d :: u32) > 64 then 64 else ucast ?d :: u32"
  have "unat g * unat ?d \<le> unat (s_groups_count sbi) * unat ?d"
    using g by (intro mult_le_mono1) (simp add: word_less_nat_alt)
  also have "\<dots> < 2 ^ 32" using ok by (simp add: gd_table_ok_def)
  finally have lt: "unat g * unat ?d < 2 ^ 32" .
  then have m: "unat (g * ucast ?d) = unat g * unat ?d"
    by (subst unat_mult_nowrap) (simp_all add: unat_gd_size)
  have bs: "1024 \<le> fs_bsz s" "fs_bsz s \<le> 65536" using ok by (auto simp: gd_table_ok_def)
  have off: "unat ?off = unat g * unat ?d mod fs_bsz s" by (simp add: unat_mod m fs_bsz_def)
  have c: "unat ?c = min 64 (unat ?d)" by (auto simp: word_less_nat_alt unat_gd_size)
  have "unat ?off < fs_bsz s" using bs by (simp add: off)
  then have oc: "unat (?off + ?c) = unat ?off + unat ?c"
    using bs c by (intro unat_add_nowrap) simp
  have loc: "gd_loc sbi ?bs g = (if ?off + ?c > ?bs then None else Some (gd_blk s sbi g, ?off, ?c))"
    by (simp add: gd_loc_def gd_blk_def gd_base_def Let_def)
  then have le: "\<not> ?off + ?c > ?bs" using ok g by (auto simp: gd_table_ok_def split: if_splits)
  then have le2: "unat ?off + unat ?c \<le> fs_bsz s" using oc by (simp add: word_less_nat_alt fs_bsz_def)
  have q: "unat (g * ucast ?d div ?bs) = unat g * unat ?d div fs_bsz s" by (simp add: unat_div m fs_bsz_def)
  also have "\<dots> \<le> unat g * unat ?d div 1024" using bs(1) by (simp add: div_le_mono2)
  also have "\<dots> < 2 ^ 22" using lt by (simp add: less_mult_imp_div_less)
  finally have "unat (gd_blk s sbi g) = unat (gd_base sbi ?bs) + unat (g * ucast ?d div ?bs)"
    unfolding gd_blk_def using ok by (intro unat_add_nowrap) (simp add: gd_table_ok_def)
  also have "\<dots> = unat (gd_base sbi ?bs) + unat g * unat ?d div fs_bsz s" by (simp only: q)
  finally have blk: "unat (gd_blk s sbi g) = unat (gd_base sbi ?bs) + unat g * unat ?d div fs_bsz s" .
  have "gd_loc sbi ?bs g = Some (gd_blk s sbi g, ?off, ?c)" using loc le by (simp only: if_False)
  from that [OF this off c le2 blk] show ?thesis .
qed

lemma gd_loc_props:
  assumes ok: "gd_table_ok s sbi" and g: "g < s_groups_count sbi"
    and l: "gd_loc sbi (ext4_block_size s) g = Some (blk, off, c)"
  shows "unat off = unat g * unat (s_desc_size sbi) mod fs_bsz s"
    and "unat c = min 64 (unat (s_desc_size sbi))" and "unat off + unat c \<le> fs_bsz s"
    and "unat blk = unat (gd_base sbi (ext4_block_size s)) + unat g * unat (s_desc_size sbi) div fs_bsz s"
  by (rule gd_locD [OF ok g], simp add: l)+

lemma gd_slots_disjoint:
  assumes ok: "gd_table_ok s sbi" and gh: "g < s_groups_count sbi" "h < s_groups_count sbi" "g \<noteq> h"
    and g: "gd_loc sbi (ext4_block_size s) g = Some (gd_blk s sbi g, off, c)"
    and h: "gd_loc sbi (ext4_block_size s) h = Some (gd_blk s sbi h, off', c')"
    and same: "gd_blk s sbi g = gd_blk s sbi h"
  shows "unat off' + unat c' \<le> unat off \<or> unat off + unat c \<le> unat off'"
proof -
  let ?d = "unat (s_desc_size sbi)" and ?b = "fs_bsz s"
  note pg = gd_loc_props [OF ok gh(1) g] and ph = gd_loc_props [OF ok gh(2) h]
  have q: "unat g * ?d div ?b = unat h * ?d div ?b" using pg(4) ph(4) same by simp
  have "unat g \<noteq> unat h" using gh(3) word_eq_by_unat by blast
  from block_runs_disjoint [OF this, of ?d]
  have "unat h * ?d + ?d \<le> unat g * ?d \<or> unat g * ?d + ?d \<le> unat h * ?d" by blast
  moreover have "unat g * ?d = unat g * ?d div ?b * ?b + unat off" "unat h * ?d = unat g * ?d div ?b * ?b + unat off'"
    using pg(1) ph(1) q div_mult_mod_eq [of "unat g * ?d" ?b] div_mult_mod_eq [of "unat h * ?d" ?b] by simp_all
  moreover have "unat c \<le> ?d" "unat c' \<le> ?d" using pg(2) ph(2) by simp_all
  ultimately show ?thesis by linarith
qed

lemma gd_at_unfold:
  assumes "s_fs_info s = Some sbi" "gd_table_ok s sbi"
    and "gd_loc sbi (ext4_block_size s) g = Some (gd_blk s sbi g, off, c)"
  shows "gd_at s g = map_option (\<lambda>buf. gd_copy_out buf off c) (ext4_read_block s (gd_blk s sbi g))"
proof -
  have "s_desc_size sbi \<noteq> 0" using assms(2) by (auto simp: gd_table_ok_def)
  with assms show ?thesis by (simp add: gd_at_def)
qed

text \<open>A stored descriptor is read back, the others are as before, and one block has changed.\<close>

lemma gd_store_laws:
  assumes io: "fs_io_ok s" and sbi: "s_fs_info s = Some sbi" and ok: "gd_table_ok s sbi"
    and g: "g < s_groups_count sbi" and st: "gd_store s g gd = (r, s')"
  shows "disk_frame {gd_blk s sbi g} s s'" and "\<exists>d. s' = s\<lparr>g_disk := d\<rparr>"
    and "r \<longleftrightarrow> fs_up s (gd_blk s sbi g)"
    and "r \<Longrightarrow> \<exists>c. unat c = min 64 (unat (s_desc_size sbi)) \<and> gd_at s' g = Some (gd_trunc c gd)"
    and "r \<Longrightarrow> h < s_groups_count sbi \<Longrightarrow> h \<noteq> g \<Longrightarrow> gd_at s' h = gd_at s h"
proof -
  let ?b = "gd_blk s sbi g"
  obtain off c where loc: "gd_loc sbi (ext4_block_size s) g = Some (?b, off, c)"
    and c: "unat c = min 64 (unat (s_desc_size sbi))" and le: "unat off + unat c \<le> fs_bsz s"
    by (rule gd_locD [OF ok g])
  have ad: "fs_addr s ?b" using ok g by (simp add: gd_table_ok_def)
  have d0: "s_desc_size sbi \<noteq> 0" using ok by (auto simp: gd_table_ok_def)
  consider (down) "ext4_read_block s ?b = None" "\<not> fs_up s ?b" "r = False" "s' = s"
    | (up) buf where "ext4_read_block s ?b = Some buf" "fs_up s ?b"
      "ext4_write_block s ?b (gd_copy_in gd off c buf) = (r, s')"
  proof (cases "ext4_read_block s ?b")
    case None
    then show ?thesis using st sbi loc d0 io.rd_up [OF io ad] by (intro down) (simp_all add: gd_store_def)
  next
    case (Some buf)
    then show ?thesis using st sbi loc d0 io.rd_up [OF io ad] by (intro up) (simp_all add: gd_store_def)
  qed
  then have main: "disk_frame {?b} s s' \<and> (\<exists>d. s' = s\<lparr>g_disk := d\<rparr>) \<and> (r \<longleftrightarrow> fs_up s ?b) \<and>
     (r \<longrightarrow> (\<exists>buf. ext4_read_block s ?b = Some buf \<and> length buf = fs_bsz s \<and>
        ext4_read_block s' ?b = Some (gd_copy_in gd off c buf)))"
  proof cases
    case down
    moreover have "disk_frame {?b} s s" using io by (rule disk_frame_same_io) simp_all
    moreover have "\<exists>d. s = s\<lparr>g_disk := d\<rparr>" by (rule exI [of _ "g_disk s"]) simp
    ultimately show ?thesis by simp
  next
    case up
    have len: "length buf = fs_bsz s" by (rule io.rd_len [OF io ad up(1)])
    have lc: "length (gd_copy_in gd off c buf) = fs_bsz s"
      using len le c by (subst length_gd_copy_in) simp_all
    have "r" using io.wr_up [OF io ad lc] up(2,3) by simp
    then show ?thesis
      using up len lc disk_frame_write [OF io ad lc up(3)] ext4_write_block_disk [OF up(3)]
        io.wr_same [OF io ad lc, of s'] by auto
  qed
  then show "disk_frame {?b} s s'" "\<exists>d. s' = s\<lparr>g_disk := d\<rparr>" "r \<longleftrightarrow> fs_up s ?b" by blast+
  from main obtain d where d: "s' = s\<lparr>g_disk := d\<rparr>" by blast
  have sbi': "s_fs_info s' = Some sbi" "gd_table_ok s' sbi" "ext4_block_size s' = ext4_block_size s"
      "\<And>x. gd_blk s' sbi x = gd_blk s sbi x"
    using sbi ok d by (simp_all add: gd_table_ok_def gd_blk_def)
  assume r
  with main obtain buf where buf: "ext4_read_block s ?b = Some buf" "length buf = fs_bsz s"
    "ext4_read_block s' ?b = Some (gd_copy_in gd off c buf)" by blast
  have "gd_at s' g = Some (gd_copy_out (gd_copy_in gd off c buf) off c)"
    using gd_at_unfold [of s' sbi g off c] sbi' loc buf by simp
  then show "\<exists>c. unat c = min 64 (unat (s_desc_size sbi)) \<and> gd_at s' g = Some (gd_trunc c gd)"
    using buf(2) le c gd_copy_out_in [of off c buf gd] by auto
  assume h: "h < s_groups_count sbi" "h \<noteq> g"
  obtain off' c' where loc': "gd_loc sbi (ext4_block_size s) h = Some (gd_blk s sbi h, off', c')"
    by (rule gd_locD [OF ok h(1)])
  show "gd_at s' h = gd_at s h"
  proof (cases "gd_blk s sbi h = ?b")
    case True
    have "unat off' + unat c' \<le> unat off \<or> unat off + unat c \<le> unat off'"
      using gd_slots_disjoint [OF ok g h(1) h(2) [symmetric] loc loc'] True by simp
    then have "gd_copy_out (gd_copy_in gd off c buf) off' c' = gd_copy_out buf off' c'"
      using buf(2) le c by (intro gd_copy_out_in_other) simp_all
    with True gd_at_unfold [OF sbi ok loc'] gd_at_unfold [of s' sbi h off' c'] sbi' loc' buf show ?thesis by simp
  next
    case False
    have "fs_addr s (gd_blk s sbi h)" using ok h by (simp add: gd_table_ok_def)
    with main False have "ext4_read_block s' (gd_blk s sbi h) = ext4_read_block s (gd_blk s sbi h)"
      by (simp add: disk_frame_def)
    with gd_at_unfold [OF sbi ok loc'] gd_at_unfold [of s' sbi h off' c'] sbi' loc' show ?thesis by simp
  qed
qed

end
