(* ===== verification/Balloc.thy ===== *)
theory Balloc
  imports Group_Desc
begin

text \<open>
  The block allocator, fs/ext4/balloc.c: the one-group bitmap cache, the scan for a run of free
  bits, next-fit allocation over the groups, and freeing.
\<close>

section \<open>Bitmap blocks\<close>

text \<open>The pointer sbi of the code is the value of s_fs_info: it is read and updated there.\<close>

definition upd_sbi :: "(ext4_sb_info \<Rightarrow> ext4_sb_info) \<Rightarrow> kfs \<Rightarrow> kfs" where
  "upd_sbi f s = s\<lparr>s_fs_info := map_option f (s_fs_info s)\<rparr>"

text \<open>The block number of the bitmap, 0 on failure, and the block.\<close>

definition ext4_read_block_bitmap :: "kfs \<Rightarrow> u32 \<Rightarrow> (u32 \<times> bytes) \<times> kfs" where
  "ext4_read_block_bitmap s grp =
     (case s_fs_info s of
        None \<Rightarrow> ((0, []), s)
      | Some sbi \<Rightarrow>
          if grp \<ge> s_groups_count sbi then ((0, []), s)
          else case ext4_read_group_desc s grp of
            (None, s1) \<Rightarrow> ((0, []), s1)
          | (Some gd, s1) \<Rightarrow>
              (case ext4_read_block s1 (bg_block_bitmap_lo gd) of
                 None \<Rightarrow> ((0, []), s1)
               | Some buf \<Rightarrow> ((bg_block_bitmap_lo gd, buf), s1)))"

definition ext4_write_block_bitmap :: "kfs \<Rightarrow> u32 \<Rightarrow> bytes \<Rightarrow> bool \<times> kfs" where
  "ext4_write_block_bitmap s bitmap_block buf =
     (if bitmap_block = 0 then (False, s) else ext4_write_block s bitmap_block buf)"

section \<open>The bitmap cache\<close>

definition ext4_bmap_cache_flush :: "kfs \<Rightarrow> bool \<times> kfs" where
  "ext4_bmap_cache_flush s =
     (case s_fs_info s of
        None \<Rightarrow> (False, s)
      | Some sbi \<Rightarrow>
          if \<not> s_bmap_cache_valid sbi \<or> \<not> s_bmap_cache_dirty sbi then (True, s)
          else case ext4_read_group_desc s (s_bmap_cache_group sbi) of
            (None, s1) \<Rightarrow> (False, s1)
          | (Some gd, s1) \<Rightarrow>
              if bg_block_bitmap_lo gd = 0 then (False, s1)
              else case s_bmap_cache_buf sbi of
                None \<Rightarrow> (False, s1)
              | Some buf \<Rightarrow>
                  (case ext4_write_block_bitmap s1 (bg_block_bitmap_lo gd) buf of
                     (False, s2) \<Rightarrow> (False, s2)
                   | (True, s2) \<Rightarrow> (True, upd_sbi (\<lambda>i. i\<lparr>s_bmap_cache_dirty := False\<rparr>) s2)))"

text \<open>
  The caller's gd_local holds the descriptor of the same group before and after the call, so the
  model does not return it. The bitmap is read straight into the cache buffer, whose content a
  failing read may change.
\<close>

definition ext4_bmap_cache_load :: "kfs \<Rightarrow> u32 \<Rightarrow> bool \<times> kfs" where
  "ext4_bmap_cache_load s grp =
     (case s_fs_info s of
        None \<Rightarrow> (False, s)
      | Some sbi \<Rightarrow>
          if s_bmap_cache_buf sbi = None then (False, s)
          else if s_bmap_cache_valid sbi \<and> s_bmap_cache_group sbi = grp then (True, s)
          else case ext4_bmap_cache_flush s of
            (False, s1) \<Rightarrow> (False, s1)
          | (True, s1) \<Rightarrow>
              (case ext4_read_group_desc s1 grp of
                 (None, s2) \<Rightarrow> (False, s2)
               | (Some gd, s2) \<Rightarrow>
                   if bg_block_bitmap_lo gd = 0 then (False, s2)
                   else case ext4_read_block_buf s2 (bg_block_bitmap_lo gd) (the (s_bmap_cache_buf sbi)) of
                     (False, buf) \<Rightarrow> (False, upd_sbi (\<lambda>i. i\<lparr>s_bmap_cache_buf := Some buf\<rparr>) s2)
                   | (True, buf) \<Rightarrow>
                       (True, upd_sbi (\<lambda>i. i\<lparr>s_bmap_cache_buf := Some buf, s_bmap_cache_group := grp,
                                              s_bmap_cache_valid := True, s_bmap_cache_dirty := False\<rparr>) s2)))"

section \<open>Scanning and marking\<close>

text \<open>
  The state of the scan is start and len of the current run and the caller's start_bit and
  alloc_len, the best run so far, which a second call continues. Bit numbers are below
  8 * block_size, far from any wrap-around, so they are naturals here.
\<close>

fun scan_free_loop :: "bytes \<Rightarrow> nat \<Rightarrow> nat list \<Rightarrow> nat \<Rightarrow> nat \<Rightarrow> nat \<times> nat \<Rightarrow> nat \<times> nat" where
  "scan_free_loop buf goal_len [] start len best = best"
| "scan_free_loop buf goal_len (i # is) start len (start_bit, alloc_len) =
     (let (start, len) = (if bm_free buf i then (if len = 0 then i else start, len + 1) else (start, 0));
          (start_bit, alloc_len) = (if len > alloc_len then (start, len) else (start_bit, alloc_len))
      in if alloc_len \<ge> goal_len then (start_bit, alloc_len)
         else scan_free_loop buf goal_len is start len (start_bit, alloc_len))"

definition ext4_bmap_scan_free_run ::
  "bytes \<Rightarrow> nat \<Rightarrow> nat \<Rightarrow> nat \<Rightarrow> nat \<Rightarrow> nat \<times> nat \<Rightarrow> bool \<Rightarrow> bool \<times> nat \<times> nat" where
  "ext4_bmap_scan_free_run buf block_size scan_begin scan_end goal_len best must_full =
     (if scan_end > block_size * 8 then (False, best)
      else if scan_begin \<ge> scan_end then (False, best)
      else let best' = scan_free_loop buf goal_len [scan_begin..<scan_end] 0 0 best
           in (if must_full then snd best' \<ge> goal_len else snd best' > 0, best'))"

fun ext4_bmap_mark_blocks :: "bytes \<Rightarrow> nat \<Rightarrow> nat \<Rightarrow> bytes" where
  "ext4_bmap_mark_blocks buf start_bit 0 = buf"
| "ext4_bmap_mark_blocks buf start_bit (Suc len) =
     ext4_bmap_mark_blocks (bm_mark buf start_bit) (Suc start_bit) len"

section \<open>Flushing\<close>

definition ext4_balloc_flush :: "kfs \<Rightarrow> bool \<times> kfs" where
  "ext4_balloc_flush s =
     (case s_fs_info s of
        None \<Rightarrow> (False, s)
      | Some _ \<Rightarrow>
          (case ext4_bmap_cache_flush s of
             (False, s1) \<Rightarrow> (False, s1)
           | (True, s1) \<Rightarrow>
               if (case s_fs_info s1 of None \<Rightarrow> False | Some sbi \<Rightarrow> s_bg_sync_pending sbi > 0)
               then (case ext4_sync_super_free_counts s1 of
                       (False, s2) \<Rightarrow> (False, s2)
                     | (True, s2) \<Rightarrow> (True, upd_sbi (\<lambda>i. i\<lparr>s_bg_sync_pending := 0\<rparr>) s2))
               else (True, s1)))"

text \<open>The deferred synchronisation after an update of a descriptor.\<close>

definition balloc_sync_tick :: "kfs \<Rightarrow> kfs" where
  "balloc_sync_tick s =
     (let s1 = upd_sbi (\<lambda>i. i\<lparr>s_bg_sync_pending := s_bg_sync_pending i + 1\<rparr>) s in
      case s_fs_info s1 of
        None \<Rightarrow> s1
      | Some sbi \<Rightarrow>
          if s_bg_sync_pending sbi \<ge> ext4_get_bg_sync_batch s1
          then upd_sbi (\<lambda>i. i\<lparr>s_bg_sync_pending := 0\<rparr>) (snd (ext4_sync_super_free_counts s1))
          else s1)"

section \<open>Allocation\<close>

text \<open>
  The geometry the allocator works with, from the superblock, the value recorded at mount and
  the size of the device: blocks per group, number of blocks, number of groups. None where the
  code returns 0 before it looks at any group.
\<close>

definition balloc_blocks_count :: "kfs \<Rightarrow> ext4_sb_info \<Rightarrow> u32" where
  "balloc_blocks_count s sbi =
     (let bc = ext4_get_blocks_count s in
      if s_blocks_count sbi > 0 \<and> (bc = 0 \<or> s_blocks_count sbi < bc) then s_blocks_count sbi else bc)"

definition balloc_clip_device :: "kfs \<Rightarrow> u32 \<Rightarrow> u32" where
  "balloc_clip_device s blocks_count =
     (let q = ext4_get_block_size s div bd_sector_size (s_bdev s);
          total_sectors = (ucast (blkdev_nr_sectors (Some (s_bdev s))) :: u32);
          sectors_per_block = (if q = 0 then 1 else q);
          dev_blocks = total_sectors div sectors_per_block
      in if total_sectors > 0 \<and> dev_blocks > 0 \<and> (blocks_count = 0 \<or> blocks_count > dev_blocks)
         then dev_blocks else blocks_count)"

definition balloc_geometry :: "kfs \<Rightarrow> (u32 \<times> u32 \<times> u32) option" where
  "balloc_geometry s =
     (case s_fs_info s of
        None \<Rightarrow> None
      | Some sbi \<Rightarrow>
          if s_group_desc sbi = None \<or> s_bmap_cache_buf sbi = None \<or> ext4_get_block_size s = 0 then None
          else let bpg0 = ext4_get_block_size s * 8; bc0 = balloc_blocks_count s sbi in
            if bpg0 = 0 \<or> bc0 = 0 then None
            else let bc1 = balloc_clip_device s bc0 in
              if bc1 = 0 then None
              else let bpg = (if bpg0 > bc1 then bc1 else bpg0);
                       by_groups = s_groups_count sbi * bpg;
                       bc = (if s_groups_count sbi > 0 \<and> by_groups > 0 \<and> by_groups < bc1
                             then by_groups else bc1);
                       groups_count = (bc + bpg - 1) div bpg
                in if groups_count = 0 then None else Some (bpg, bc, groups_count))"

text \<open>
  One turn of the loop over the groups: continue with the next group, return 0, or found (the
  block, the length and the state).
\<close>

datatype group_try = Group_Skip kfs | Group_Stop kfs | Group_Found u32 u32 kfs

definition balloc_start_bit :: "ext4_sb_info \<Rightarrow> u32 \<Rightarrow> u32 \<Rightarrow> u32" where
  "balloc_start_bit sbi g group_blocks =
     (case goal_bit_per_group (s_alloc_nf sbi) of
        None \<Rightarrow> 1
      | Some bits \<Rightarrow>
          if g < s_groups_count sbi
          then (let gb = bits ! unat g in if gb \<ge> 1 \<and> gb < group_blocks then gb else 1)
          else 1)"

text \<open>The scan from the goal bit to the end of the group, then from bit 1 up to the goal bit.\<close>

definition balloc_find_run :: "bytes \<Rightarrow> nat \<Rightarrow> nat \<Rightarrow> nat \<Rightarrow> nat \<Rightarrow> bool \<Rightarrow> bool \<times> nat \<times> nat" where
  "balloc_find_run buf block_size start_i group_blocks goal_len require_full_goal =
     (case ext4_bmap_scan_free_run buf block_size start_i group_blocks goal_len (0, 0) require_full_goal of
        (found, best) \<Rightarrow>
          if \<not> found \<and> start_i > 1
          then ext4_bmap_scan_free_run buf block_size 1 start_i goal_len best require_full_goal
          else (found, best))"

definition balloc_next_goal :: "u32 \<Rightarrow> u32 \<Rightarrow> u32 \<Rightarrow> u32 \<Rightarrow> ext4_sb_info \<Rightarrow> ext4_sb_info" where
  "balloc_next_goal g next_bit group_blocks groups_count sbi =
     (let nf = s_alloc_nf sbi;
          full = next_bit \<ge> group_blocks;
          goal = (if full then (if g + 1 < groups_count then g + 1 else 0) else g);
          bits = (case goal_bit_per_group nf of
                    None \<Rightarrow> None
                  | Some bits \<Rightarrow>
                      if g < s_groups_count sbi
                      then Some (bits[unat g := (if full then 1 else next_bit)])
                      else Some bits)
      in sbi\<lparr>s_alloc_nf := \<lparr>goal_group = goal, goal_bit_per_group = bits\<rparr>\<rparr>)"

text \<open>The descriptor after alloc_len blocks of its group are taken.\<close>

definition balloc_take_count :: "u32 \<Rightarrow> ext4_group_desc \<Rightarrow> ext4_group_desc" where
  "balloc_take_count alloc_len gd =
     gd\<lparr>bg_free_blocks_count_lo :=
          (if (ucast (bg_free_blocks_count_lo gd) :: u32) > alloc_len
           then ucast ((ucast (bg_free_blocks_count_lo gd) :: u32) - alloc_len) else 0)\<rparr>"

definition balloc_commit ::
  "kfs \<Rightarrow> u32 \<Rightarrow> ext4_group_desc \<Rightarrow> u32 \<Rightarrow> u32 \<Rightarrow> u32 \<Rightarrow> u32 \<Rightarrow> u32 \<Rightarrow> u32 \<Rightarrow> group_try" where
  "balloc_commit s g gd i alloc_len group_start group_blocks blocks_count groups_count =
     (let buf = (case s_fs_info s of None \<Rightarrow> [] | Some sbi \<Rightarrow> the (s_bmap_cache_buf sbi));
          s1 = upd_sbi (\<lambda>k. k\<lparr>s_bmap_cache_buf := Some (ext4_bmap_mark_blocks buf (unat i) (unat alloc_len))\<rparr>) s;
          new_block = group_start + i
      in if new_block < group_start \<or> new_block \<ge> blocks_count then Group_Stop s1
         else if alloc_len = 0 then Group_Stop s1
         else if new_block + alloc_len > blocks_count then Group_Stop s1
         else case ext4_bmap_cache_flush (upd_sbi (\<lambda>k. k\<lparr>s_bmap_cache_dirty := True\<rparr>) s1) of
           (False, s2) \<Rightarrow> Group_Stop s2
         | (True, s2) \<Rightarrow>
             let gd' = balloc_take_count alloc_len gd in
             (case ext4_write_group_desc s2 g gd' of
                (False, s3) \<Rightarrow> Group_Stop s3
              | (True, s3) \<Rightarrow>
                  let s4 = (if g = 0 then upd_sbi (\<lambda>k. k\<lparr>s_group_desc := Some gd'\<rparr>) s3 else s3);
                      s5 = upd_sbi (balloc_next_goal g (i + alloc_len) group_blocks groups_count) s4
                  in Group_Found new_block alloc_len (balloc_sync_tick s5)))"

definition balloc_try_group ::
  "u32 \<times> u32 \<times> u32 \<Rightarrow> u32 \<Rightarrow> bool \<Rightarrow> u32 \<Rightarrow> kfs \<Rightarrow> group_try" where
  "balloc_try_group geom goal_len require_full_goal g s =
     (case geom of (blocks_per_group, blocks_count, groups_count) \<Rightarrow>
        let group_start = g * blocks_per_group in
        if group_start \<ge> blocks_count then Group_Skip s
        else let group_blocks = (if group_start + blocks_per_group > blocks_count
                                 then blocks_count - group_start else blocks_per_group) in
          if group_blocks \<le> 1 then Group_Skip s
          else case ext4_read_group_desc s g of
            (None, s1) \<Rightarrow> Group_Skip s1
          | (Some gd, s1) \<Rightarrow>
              if bg_block_bitmap_lo gd = 0 then Group_Skip s1
              else case ext4_bmap_cache_load s1 g of
                (False, s2) \<Rightarrow> Group_Skip s2
              | (True, s2) \<Rightarrow>
                  (case s_fs_info s2 of
                     None \<Rightarrow> Group_Skip s2
                   | Some sbi \<Rightarrow>
                       (case balloc_find_run (the (s_bmap_cache_buf sbi)) (unat (ext4_get_block_size s2))
                               (unat (balloc_start_bit sbi g group_blocks)) (unat group_blocks)
                               (unat goal_len) require_full_goal of
                          (False, _) \<Rightarrow> Group_Skip s2
                        | (True, i, alloc_len) \<Rightarrow>
                            balloc_commit s2 g gd (of_nat i) (of_nat alloc_len)
                              group_start group_blocks blocks_count groups_count)))"

text \<open>One pass over all groups from start_group, cyclically.\<close>

fun balloc_scan_groups ::
  "u32 \<times> u32 \<times> u32 \<Rightarrow> u32 \<Rightarrow> bool \<Rightarrow> u32 \<Rightarrow> nat list \<Rightarrow> kfs \<Rightarrow> group_try" where
  "balloc_scan_groups geom goal_len require_full_goal start_group [] s = Group_Skip s"
| "balloc_scan_groups geom goal_len require_full_goal start_group (k # ks) s =
     (let groups_count = snd (snd geom);
          g0 = start_group + of_nat k;
          g = (if g0 \<ge> groups_count then g0 - groups_count else g0)
      in case balloc_try_group geom goal_len require_full_goal g s of
           Group_Skip s1 \<Rightarrow> balloc_scan_groups geom goal_len require_full_goal start_group ks s1
         | r \<Rightarrow> r)"

definition balloc_start_group :: "ext4_sb_info \<Rightarrow> u32 \<Rightarrow> u32 \<Rightarrow> u32" where
  "balloc_start_group sbi preferred_group groups_count =
     (let sg = (if preferred_group < groups_count then preferred_group
                else goal_group (s_alloc_nf sbi))
      in if sg \<ge> groups_count then 0 else sg)"

text \<open>
  The result is the first block, 0 on failure, and the length that *out_len receives. The second
  pass accepts the longest run and runs for goals above 1 only.
\<close>

definition ext4_new_blocks_in_group :: "kfs \<Rightarrow> u32 \<Rightarrow> u32 \<Rightarrow> (u32 \<times> u32) \<times> kfs" where
  "ext4_new_blocks_in_group s goal_len preferred_group =
     (case s_fs_info s of
        None \<Rightarrow> ((0, 0), s)
      | Some sbi \<Rightarrow>
          (case balloc_geometry s of
             None \<Rightarrow> ((0, 0), s)
           | Some geom \<Rightarrow>
               let goal_len = (if goal_len = 0 then 1 else goal_len);
                   groups_count = snd (snd geom);
                   start_group = balloc_start_group sbi preferred_group groups_count;
                   turns = [0..<unat groups_count]
               in case balloc_scan_groups geom goal_len (goal_len > 1) start_group turns s of
                    Group_Stop s1 \<Rightarrow> ((0, 0), s1)
                  | Group_Found b n s1 \<Rightarrow> ((b, n), s1)
                  | Group_Skip s1 \<Rightarrow>
                      if goal_len = 1 then ((0, 0), s1)
                      else (case balloc_scan_groups geom goal_len False start_group turns s1 of
                              Group_Found b n s2 \<Rightarrow> ((b, n), s2)
                            | Group_Stop s2 \<Rightarrow> ((0, 0), s2)
                            | Group_Skip s2 \<Rightarrow> ((0, 0), s2))))"

definition ext4_new_blocks :: "kfs \<Rightarrow> u32 \<Rightarrow> (u32 \<times> u32) \<times> kfs" where
  "ext4_new_blocks s goal_len = ext4_new_blocks_in_group s goal_len (- 1)"

definition ext4_new_block :: "kfs \<Rightarrow> u32 \<times> kfs" where
  "ext4_new_block s = (case ext4_new_blocks s 1 of ((b, _), s1) \<Rightarrow> (b, s1))"

definition ext4_new_block_in_group :: "kfs \<Rightarrow> u32 \<Rightarrow> u32 \<times> kfs" where
  "ext4_new_block_in_group s preferred_group =
     (case ext4_new_blocks_in_group s 1 preferred_group of ((b, _), s1) \<Rightarrow> (b, s1))"

section \<open>Freeing\<close>

text \<open>
  None is the dereference of a missing sbi or the division by s_blocks_per_group = 0 in the
  initialisers, before any check.
\<close>

definition balloc_free_in ::
  "kfs \<Rightarrow> u32 \<Rightarrow> u32 \<Rightarrow> bool \<times> kfs" where
  "balloc_free_in s grp block_in_group =
     (case ext4_read_block_bitmap s grp of
        ((bitmap_block, buf), s1) \<Rightarrow>
          if bitmap_block = 0 then (False, s1)
          else if block_in_group div 8 \<ge> ext4_get_block_size s1 then (False, s1)
          else if bm_free buf (unat block_in_group) then (True, s1)
          else case ext4_write_block_bitmap s1 bitmap_block (bm_clear buf (unat block_in_group)) of
            (False, s2) \<Rightarrow> (False, s2)
          | (True, s2) \<Rightarrow>
              (case ext4_read_group_desc s2 grp of
                 (None, s3) \<Rightarrow> (False, s3)
               | (Some gd, s3) \<Rightarrow>
                   let gd' = gd\<lparr>bg_free_blocks_count_lo := bg_free_blocks_count_lo gd + 1\<rparr> in
                   (case ext4_write_group_desc s3 grp gd' of
                      (False, s4) \<Rightarrow> (False, s4)
                    | (True, s4) \<Rightarrow>
                        let s5 = (if grp = 0 then upd_sbi (\<lambda>k. k\<lparr>s_group_desc := Some gd'\<rparr>) s4 else s4);
                            s6 = balloc_sync_tick s5
                        in (True, upd_sbi (\<lambda>k. if s_bmap_cache_valid k \<and> s_bmap_cache_group k = grp
                                               then k\<lparr>s_bmap_cache_valid := False, s_bmap_cache_dirty := False\<rparr>
                                               else k) s6))))"

definition ext4_free_block :: "kfs \<Rightarrow> u32 \<Rightarrow> (bool \<times> kfs) option" where
  "ext4_free_block s blocknr =
     (case s_fs_info s of
        None \<Rightarrow> None
      | Some sbi \<Rightarrow>
          if s_blocks_per_group sbi = 0 then None
          else let grp = blocknr div s_blocks_per_group sbi;
                   block_in_group = blocknr mod s_blocks_per_group sbi
            in if s_group_desc sbi = None then Some (False, s)
               else if grp \<ge> s_groups_count sbi then Some (False, s)
               else if block_in_group \<ge> s_blocks_per_group sbi then Some (False, s)
               else case balloc_malloc (unat (ext4_get_block_size s)) s of
                 (None, s1) \<Rightarrow> Some (False, s1)
               | (Some p, s1) \<Rightarrow>
                   (case balloc_free_in s1 grp block_in_group of (r, s2) \<Rightarrow> Some (r, balloc_free p s2)))"

end
