(* ===== verification/Balloc_Scan.thy ===== *)
theory Balloc_Scan
  imports Balloc
begin

text \<open>
  The bitmap scan of the block allocator: the loop keeps the longest run of free bits seen, stops
  at the goal, and the two scans of a group together miss nothing. free_seg says that the bits of
  an interval are free.
\<close>

section \<open>The scan finds a longest run\<close>

definition free_seg :: "bytes \<Rightarrow> nat \<Rightarrow> nat \<Rightarrow> bool" where
  "free_seg buf a b \<longleftrightarrow> (\<forall>j\<in>{a..<b}. bm_free buf j)"

definition scan_result_ok :: "bytes \<Rightarrow> nat \<Rightarrow> nat \<Rightarrow> nat \<Rightarrow> nat \<times> nat \<Rightarrow> nat \<times> nat \<Rightarrow> bool" where
  "scan_result_ok buf lo hi goal old new \<longleftrightarrow>
     snd old \<le> snd new \<and> snd new \<le> goal \<and>
     (new = old \<or> 0 < snd new \<and> lo \<le> fst new \<and> fst new + snd new \<le> hi \<and>
                  free_seg buf (fst new) (fst new + snd new)) \<and>
     (snd new = goal \<or> (\<forall>a b. lo \<le> a \<longrightarrow> b \<le> hi \<longrightarrow> free_seg buf a b \<longrightarrow> b - a \<le> snd new))"

definition scan_inv :: "bytes \<Rightarrow> nat \<Rightarrow> nat \<Rightarrow> nat \<Rightarrow> nat \<Rightarrow> nat \<Rightarrow> nat \<times> nat \<Rightarrow> nat \<times> nat \<Rightarrow> bool" where
  "scan_inv buf lo i goal start len old best \<longleftrightarrow>
     lo \<le> i \<and> len \<le> snd best \<and> snd best < goal \<and> snd old \<le> snd best \<and>
     (len = 0 \<or> lo \<le> start \<and> start + len = i \<and> free_seg buf start i) \<and>
     (\<forall>a. lo \<le> a \<longrightarrow> a \<le> i \<longrightarrow> free_seg buf a i \<longrightarrow> i - a \<le> len) \<and>
     (best = old \<or> 0 < snd best \<and> lo \<le> fst best \<and> fst best + snd best \<le> i \<and>
                   free_seg buf (fst best) (fst best + snd best)) \<and>
     (\<forall>a b. lo \<le> a \<longrightarrow> b \<le> i \<longrightarrow> free_seg buf a b \<longrightarrow> b - a \<le> snd best)"

lemma free_seg_Suc: "a \<le> i \<Longrightarrow> free_seg buf a (Suc i) \<longleftrightarrow> free_seg buf a i \<and> bm_free buf i"
  by (auto simp: free_seg_def less_Suc_eq)

lemma scan_inv_done:
  "scan_inv buf lo i goal start len old best \<Longrightarrow> scan_result_ok buf lo i goal old best"
  by (auto simp: scan_inv_def scan_result_ok_def)

text \<open>One turn of the loop keeps the invariant, or reaches the goal with a run.\<close>

lemma scan_inv_step:
  assumes inv: "scan_inv buf lo i goal start len old best"
    and st: "(start', len') = (if bm_free buf i then (if len = 0 then i else start, len + 1) else (start, 0))"
    and be: "best' = (if len' > snd best then (start', len') else best)"
  shows "if snd best' \<ge> goal
         then snd best' = goal \<and> snd old \<le> goal \<and> lo \<le> fst best' \<and> fst best' + goal \<le> Suc i \<and>
              free_seg buf (fst best') (fst best' + goal)
         else scan_inv buf lo (Suc i) goal start' len' old best'"
proof (cases "bm_free buf i")
  case True
  with st have s': "start' = (if len = 0 then i else start)" and l': "len' = len + 1" by auto
  have run: "lo \<le> start'" "start' + len' = Suc i" "free_seg buf start' (Suc i)"
    using inv s' l' True by (auto simp: scan_inv_def free_seg_def less_Suc_eq)
  have ends: "Suc i - a \<le> len'" if "lo \<le> a" "a \<le> Suc i" "free_seg buf a (Suc i)" for a
  proof (cases "a \<le> i")
    case A: True
    then have "i - a \<le> len" using inv that by (simp add: scan_inv_def free_seg_Suc)
    with A l' show ?thesis by linarith
  qed (use that l' in linarith)
  have sub: "b - a \<le> max len' (snd best)" if "lo \<le> a" "b \<le> Suc i" "free_seg buf a b" for a b
  proof (cases "b \<le> i")
    case B: True
    then have "b - a \<le> snd best" using inv that by (auto simp: scan_inv_def)
    then show ?thesis by simp
  next
    case False
    then have "b = Suc i" using that by simp
    then show ?thesis using ends [of a] that by (cases "a \<le> Suc i") auto
  qed
  have old: "snd old \<le> snd best" "snd best < goal" "len \<le> snd best" "lo \<le> i"
    using inv by (auto simp: scan_inv_def)
  show ?thesis
  proof (cases "len' > snd best")
    case T: True
    then have b': "best' = (start', len')" using be by simp
    have m: "max len' (snd best) = len'" using T by simp
    show ?thesis
    proof (cases "len' \<ge> goal")
      case True
      then have "len' = goal" using old l' by simp
      with b' run old show ?thesis by simp
    next
      case False
      with b' T run old ends sub m show ?thesis by (simp add: scan_inv_def)
    qed
  next
    case F: False
    then have b': "best' = best" using be by simp
    have m: "max len' (snd best) = snd best" using F by simp
    have keep: "best = old \<or> 0 < snd best \<and> lo \<le> fst best \<and> fst best + snd best \<le> Suc i \<and>
                   free_seg buf (fst best) (fst best + snd best)"
      using inv by (auto simp: scan_inv_def)
    with b' F run old ends sub m show ?thesis by (simp add: scan_inv_def)
  qed
next
  case False
  with st be have s': "start' = start" "len' = 0" "best' = best" by auto
  have no: "\<not> free_seg buf a (Suc i)" if "a \<le> i" for a using False that by (simp add: free_seg_Suc)
  have e1: "Suc i - a \<le> 0" if "lo \<le> a" "a \<le> Suc i" "free_seg buf a (Suc i)" for a
    using no [of a] that by (cases "a \<le> i") auto
  have sub: "b - a \<le> snd best" if "lo \<le> a" "b \<le> Suc i" "free_seg buf a b" for a b
  proof (cases "b \<le> i")
    case True
    then show ?thesis using inv that by (auto simp: scan_inv_def)
  next
    case F: False
    then have "b = Suc i" using that by simp
    then show ?thesis using no [of a] that by (cases "a \<le> i") auto
  qed
  show ?thesis using inv s' e1 sub by (auto simp: scan_inv_def)
qed

lemma scan_free_loop_spec:
  assumes "scan_inv buf lo i goal start len old best" "i \<le> hi"
  shows "scan_result_ok buf lo hi goal old (scan_free_loop buf goal [i..<hi] start len best)"
  using assms
proof (induction "[i..<hi]" arbitrary: i start len best)
  case Nil
  then have "i = hi" using upt_eq_Nil_conv [of i hi] by auto
  with Nil scan_inv_done show ?case by simp
next
  case (Cons x xs)
  then have lt: "i < hi" by (metis neq_Nil_conv not_less upt_rec)
  then have xs: "x = i" "xs = [Suc i..<hi]" "[i..<hi] = i # [Suc i..<hi]"
    using Cons.hyps(2) upt_conv_Cons [OF lt] by auto
  obtain start' len' where sl:
    "(start', len') = (if bm_free buf i then (if len = 0 then i else start, len + 1) else (start, 0))"
    by (metis surj_pair)
  define best' where b': "best' = (if len' > snd best then (start', len') else best)"
  note step = scan_inv_step [OF Cons.prems(1) sl b']
  have eq: "scan_free_loop buf goal [i..<hi] start len best =
      (if snd best' \<ge> goal then best' else scan_free_loop buf goal [Suc i..<hi] start' len' best')"
    unfolding xs(3) b' using sl
    by (cases best) (auto simp: Let_def split: if_splits)
  show ?case
  proof (cases "snd best' \<ge> goal")
    case True
    have "0 < goal" using Cons.prems by (simp add: scan_inv_def)
    with True step eq lt show ?thesis by (auto simp: scan_result_ok_def)
  next
    case False
    with step Cons.hyps(1) [OF xs(2)] lt eq show ?thesis by simp
  qed
qed

lemma ext4_bmap_scan_free_run_spec:
  assumes r: "ext4_bmap_scan_free_run buf bs lo hi goal old must_full = (found, new)"
    and "hi \<le> bs * 8" "lo < hi" "snd old < goal"
  shows "scan_result_ok buf lo hi goal old new"
    and "found \<longleftrightarrow> (if must_full then goal \<le> snd new else 0 < snd new)"
proof -
  have new: "new = scan_free_loop buf goal [lo..<hi] 0 0 old"
    and f: "found \<longleftrightarrow> (if must_full then goal \<le> snd new else 0 < snd new)"
    using r assms(2,3) by (auto simp: ext4_bmap_scan_free_run_def Let_def split: if_splits)
  have "scan_inv buf lo lo goal 0 0 old old" using assms by (auto simp: scan_inv_def)
  from scan_free_loop_spec [OF this, of hi] new f assms(3)
  show "scan_result_ok buf lo hi goal old new"
    "found \<longleftrightarrow> (if must_full then goal \<le> snd new else 0 < snd new)" by simp_all
qed

lemma balloc_find_run_spec:
  assumes r: "balloc_find_run buf bs lo hi goal full = (found, i, n)"
    and "hi \<le> bs * 8" "1 \<le> lo" "lo < hi" "0 < goal"
  shows "found \<Longrightarrow> 1 \<le> i \<and> 0 < n \<and> n \<le> goal \<and> i + n \<le> hi \<and> free_seg buf i (i + n) \<and> (full \<longrightarrow> n = goal)"
    and "\<not> found \<Longrightarrow> \<not> full \<Longrightarrow> \<forall>j\<in>{1..<hi}. \<not> bm_free buf j"
    and "\<not> found \<Longrightarrow> full \<Longrightarrow> 1 \<le> a \<Longrightarrow> a + goal \<le> lo \<or> lo \<le> a \<Longrightarrow> a + goal \<le> hi \<Longrightarrow> \<not> free_seg buf a (a + goal)"
proof -
  obtain f1 b1 where s1: "ext4_bmap_scan_free_run buf bs lo hi goal (0, 0) full = (f1, b1)"
    by (metis surj_pair)
  note p1 = ext4_bmap_scan_free_run_spec [OF s1 assms(2,4)]
  have r1: "scan_result_ok buf lo hi goal (0, 0) b1" and f1: "f1 \<longleftrightarrow> (if full then goal \<le> snd b1 else 0 < snd b1)"
    using p1 assms(5) by simp_all
  have runs1: "b - a \<le> snd b1" if "snd b1 \<noteq> goal" "lo \<le> a" "b \<le> hi" "free_seg buf a b" for a b
    using r1 that by (simp add: scan_result_ok_def)
  have "(found \<longrightarrow> 1 \<le> i \<and> 0 < n \<and> n \<le> goal \<and> i + n \<le> hi \<and> free_seg buf i (i + n) \<and> (full \<longrightarrow> n = goal)) \<and>
    (\<not> found \<longrightarrow> (full \<longrightarrow> n < goal) \<and> (\<not> full \<longrightarrow> n = 0) \<and>
       (\<forall>a b. (b \<le> lo \<or> lo \<le> a) \<longrightarrow> 1 \<le> a \<longrightarrow> b \<le> hi \<longrightarrow> free_seg buf a b \<longrightarrow> b - a \<le> n))"
  proof (cases "\<not> f1 \<and> lo > 1")
    case False
    then have q: "found = f1" "(i, n) = b1" using r s1 by (auto simp: balloc_find_run_def split: if_splits)
    show ?thesis
    proof (cases f1)
      case True
      then have "0 < snd b1" "full \<longrightarrow> goal \<le> snd b1" using f1 assms(5) by (auto split: if_splits)
      with True q r1 assms(3,5) show ?thesis by (auto simp: scan_result_ok_def)
    next
      case F: False
      then have lo: "lo = 1" and ng: "snd b1 \<noteq> goal" "full \<longrightarrow> snd b1 < goal" "\<not> full \<longrightarrow> snd b1 = 0"
        using False assms(3,5) f1 by (auto split: if_splits)
      have n: "n = snd b1" using q by auto
      have "b - a \<le> n" if "b \<le> lo \<or> lo \<le> a" "1 \<le> a" "b \<le> hi" "free_seg buf a b" for a b
        using runs1 [OF ng(1) _ that(3,4)] that lo n by simp
      with F q ng n show ?thesis by simp
    qed
  next
    case T: True
    then have s2: "ext4_bmap_scan_free_run buf bs 1 lo goal b1 full = (found, i, n)"
      using r s1 by (simp add: balloc_find_run_def)
    have b1: "snd b1 < goal" "\<not> full \<longrightarrow> snd b1 = 0" using T f1 assms(5) by (auto split: if_splits)
    have "lo \<le> bs * 8" using assms by simp
    note p2 = ext4_bmap_scan_free_run_spec [OF s2 this _ b1(1)]
    have r2: "scan_result_ok buf 1 lo goal b1 (i, n)"
      and f2: "found \<longleftrightarrow> (if full then goal \<le> n else 0 < n)"
      using p2 T by simp_all
    show ?thesis
    proof (cases found)
      case True
      then have "(i, n) \<noteq> b1" "full \<longrightarrow> goal \<le> n" using f2 b1 by (auto split: if_splits)
      with r2 True assms(4) show ?thesis by (auto simp: scan_result_ok_def)
    next
      case False
      then have n: "full \<longrightarrow> n < goal" "\<not> full \<longrightarrow> n = 0" "n \<noteq> goal"
        using f2 assms(5) by (auto split: if_splits)
      have "b - a \<le> n" if "b \<le> lo \<or> lo \<le> a" "1 \<le> a" "b \<le> hi" "free_seg buf a b" for a b
        using that(1)
      proof
        assume "b \<le> lo"
        with r2 that n(3) show ?thesis by (simp add: scan_result_ok_def)
      next
        assume "lo \<le> a"
        moreover have "snd b1 \<le> n" using r2 by (simp add: scan_result_ok_def)
        ultimately show ?thesis using runs1 [of a b] b1 that by simp
      qed
      with False n show ?thesis by blast
    qed
  qed
  then have hit: "found \<Longrightarrow> 1 \<le> i \<and> 0 < n \<and> n \<le> goal \<and> i + n \<le> hi \<and> free_seg buf i (i + n) \<and> (full \<longrightarrow> n = goal)"
    and miss: "\<not> found \<Longrightarrow> (full \<longrightarrow> n < goal) \<and> (\<not> full \<longrightarrow> n = 0) \<and>
       (\<forall>a b. (b \<le> lo \<or> lo \<le> a) \<longrightarrow> 1 \<le> a \<longrightarrow> b \<le> hi \<longrightarrow> free_seg buf a b \<longrightarrow> b - a \<le> n)"
    by blast+
  show "found \<Longrightarrow> 1 \<le> i \<and> 0 < n \<and> n \<le> goal \<and> i + n \<le> hi \<and> free_seg buf i (i + n) \<and> (full \<longrightarrow> n = goal)"
    by (rule hit)
  show "\<not> found \<Longrightarrow> \<not> full \<Longrightarrow> \<forall>j\<in>{1..<hi}. \<not> bm_free buf j"
  proof (intro ballI notI)
    fix j assume nf: "\<not> found" "\<not> full" and j: "j \<in> {1..<hi}" "bm_free buf j"
    then have "free_seg buf j (Suc j)" by (simp add: free_seg_def)
    moreover have "Suc j \<le> lo \<or> lo \<le> j" "1 \<le> j" "Suc j \<le> hi" using j by auto
    ultimately have "Suc j - j \<le> n" "n = 0" using miss [OF nf(1)] nf(2) by blast+
    then show False by simp
  qed
  show "\<not> found \<Longrightarrow> full \<Longrightarrow> 1 \<le> a \<Longrightarrow> a + goal \<le> lo \<or> lo \<le> a \<Longrightarrow> a + goal \<le> hi \<Longrightarrow> \<not> free_seg buf a (a + goal)"
  proof
    assume nf: "\<not> found" "full" and a: "1 \<le> a" "a + goal \<le> lo \<or> lo \<le> a" "a + goal \<le> hi"
      and f: "free_seg buf a (a + goal)"
    have "n < goal" using miss [OF nf(1)] nf(2) by blast
    moreover have "a + goal - a \<le> n" using miss [OF nf(1)] a f by blast
    ultimately show False by simp
  qed
qed

lemma length_ext4_bmap_mark_blocks [simp]: "length (ext4_bmap_mark_blocks buf k n) = length buf"
  by (induction n arbitrary: buf k) simp_all

lemma bm_free_mark_blocks:
  "k + n \<le> 8 * length buf \<Longrightarrow>
   bm_free (ext4_bmap_mark_blocks buf k n) j \<longleftrightarrow> \<not> (k \<le> j \<and> j < k + n) \<and> bm_free buf j"
  by (induction n arbitrary: buf k) (auto simp: bm_free_mark)

end
