(* ===== verification/Balloc_Inv.thy ===== *)
theory Balloc_Inv
  imports Balloc_Scan
begin

text \<open>
  The well-formed states of the block allocator and the laws of its steps. The on-disk bitmap of
  a group is group_bitmap; alloc_core says that the metadata is in order, alloc_ok that
  the bitmap cache agrees with the disk as well.
\<close>

section \<open>States\<close>

definition sbi_geo :: "ext4_sb_info \<Rightarrow> u32 list \<times> u16" where
  "sbi_geo i = ([s_blocks_per_group i, s_inodes_per_group i, s_inodes_count i, s_blocks_count i,
                 s_first_data_block i, s_block_size i, s_groups_count i], s_desc_size i)"

definition bm_blk :: "kfs \<Rightarrow> u32 \<Rightarrow> u32" where
  "bm_blk s g = (case gd_at s g of None \<Rightarrow> 0 | Some gd \<Rightarrow> bg_block_bitmap_lo gd)"

definition group_bitmap :: "kfs \<Rightarrow> u32 \<Rightarrow> bytes option" where
  "group_bitmap s g = ext4_read_block s (bm_blk s g)"

definition group_ok :: "kfs \<Rightarrow> ext4_sb_info \<Rightarrow> u32 \<Rightarrow> bool" where
  "group_ok s sbi g \<longleftrightarrow> gd_at s g \<noteq> None \<and> fs_up s (gd_blk s sbi g) \<and>
     bm_blk s g \<noteq> 0 \<and> fs_addr s (bm_blk s g) \<and> fs_up s (bm_blk s g) \<and>
     bm_blk s g \<noteq> sb_blocknr (ext4_block_size s) \<and>
     (\<forall>h < s_groups_count sbi. bm_blk s g \<noteq> gd_blk s sbi h \<and> (h \<noteq> g \<longrightarrow> bm_blk s g \<noteq> bm_blk s h))"

definition alloc_core :: "kfs \<Rightarrow> ext4_sb_info \<Rightarrow> bool" where
  "alloc_core s sbi \<longleftrightarrow> fs_io_ok s \<and> s_fs_info s = Some sbi \<and> fs_bsz s \<le> BLOCK_SIZE \<and>
     0 < pool_free_count (pool_balloc s) \<and> gd_table_ok s sbi \<and>
     s_block_size sbi = ext4_block_size s \<and> s_group_desc sbi \<noteq> None \<and>
     unat (sb_blocknr (ext4_block_size s)) < unat (gd_base sbi (ext4_block_size s)) \<and>
     (\<forall>g < s_groups_count sbi. group_ok s sbi g)"

definition cache_clean :: "kfs \<Rightarrow> ext4_sb_info \<Rightarrow> bool" where
  "cache_clean s sbi \<longleftrightarrow> (\<exists>buf. s_bmap_cache_buf sbi = Some buf \<and> length buf = fs_bsz s \<and>
     (s_bmap_cache_valid sbi \<longrightarrow> \<not> s_bmap_cache_dirty sbi \<and>
        s_bmap_cache_group sbi < s_groups_count sbi \<and>
        group_bitmap s (s_bmap_cache_group sbi) = Some buf))"

definition alloc_ok :: "kfs \<Rightarrow> ext4_sb_info \<Rightarrow> bool" where
  "alloc_ok s sbi \<longleftrightarrow> alloc_core s sbi \<and> cache_clean s sbi"

section \<open>Frames of the allocator\<close>

text \<open>
  A step of the allocator writes blocks of B, changes the in-memory superblock, and nothing
  else; the geometry stays.
\<close>

definition balloc_frame :: "u32 set \<Rightarrow> kfs \<Rightarrow> kfs \<Rightarrow> bool" where
  "balloc_frame B s s' \<longleftrightarrow> disk_frame B s s' \<and> (\<exists>d i. s' = s\<lparr>g_disk := d, s_fs_info := i\<rparr>) \<and>
     map_option sbi_geo (s_fs_info s') = map_option sbi_geo (s_fs_info s)"

lemma balloc_frame_trans:
  "balloc_frame B s t \<Longrightarrow> balloc_frame C t u \<Longrightarrow> B \<union> C \<subseteq> D \<Longrightarrow> balloc_frame D s u"
  unfolding balloc_frame_def by (auto intro: disk_frame_trans) blast+

lemma balloc_frame_refl: "fs_io_ok s \<Longrightarrow> balloc_frame B s s"
  unfolding balloc_frame_def
  by (auto intro!: disk_frame_same_io exI [of _ "g_disk s"] exI [of _ "s_fs_info s"])

lemma balloc_frame_disk:
  "disk_frame B s (s\<lparr>g_disk := d\<rparr>) \<Longrightarrow> balloc_frame B s (s\<lparr>g_disk := d\<rparr>)"
  by (auto simp: balloc_frame_def intro!: exI [of _ "s_fs_info s"])

lemma balloc_frame_upd:
  "fs_io_ok s \<Longrightarrow> (\<And>i. sbi_geo (f i) = sbi_geo i) \<Longrightarrow> balloc_frame B s (upd_sbi f s)"
  by (cases "s_fs_info s")
    (auto simp: balloc_frame_def upd_sbi_def intro!: disk_frame_same_io exI [of _ "g_disk s"])

lemma gd_base_geo: "sbi_geo i = sbi_geo j \<Longrightarrow> gd_base i b = gd_base j b"
  by (simp add: sbi_geo_def gd_base_def)

lemma gd_loc_geo: "sbi_geo i = sbi_geo j \<Longrightarrow> gd_loc i b g = gd_loc j b g"
  by (simp add: sbi_geo_def gd_loc_def Let_def)

lemma balloc_frame_sbi:
  "balloc_frame B s s' \<Longrightarrow> s_fs_info s = Some sbi \<Longrightarrow> \<exists>sbi'. s_fs_info s' = Some sbi'"
  by (auto simp: balloc_frame_def)

lemma balloc_frame_geo:
  assumes fr: "balloc_frame B s s'" and sbi: "s_fs_info s = Some sbi" and sbi': "s_fs_info s' = Some sbi'"
  shows "sbi_geo sbi' = sbi_geo sbi"
    and "s_groups_count sbi' = s_groups_count sbi" and "s_block_size sbi' = s_block_size sbi"
    and "ext4_block_size s' = ext4_block_size s" and "pool_balloc s' = pool_balloc s"
    and "fs_io_ok s'" and "fs_bsz s' = fs_bsz s" and "fs_addr s' = fs_addr s" and "fs_up s' = fs_up s"
    and "gd_base sbi' = gd_base sbi" and "gd_blk s' sbi' g = gd_blk s sbi g"
    and "gd_table_ok s' sbi' = gd_table_ok s sbi"
proof -
  obtain d i where s': "s' = s\<lparr>g_disk := d, s_fs_info := i\<rparr>" using fr by (auto simp: balloc_frame_def)
  show geo: "sbi_geo sbi' = sbi_geo sbi" using fr sbi sbi' by (simp add: balloc_frame_def)
  show dk: "fs_io_ok s'" "fs_bsz s' = fs_bsz s" "fs_addr s' = fs_addr s" "fs_up s' = fs_up s"
    using fr by (auto simp: balloc_frame_def disk_frame_def)
  show f: "s_groups_count sbi' = s_groups_count sbi" "s_block_size sbi' = s_block_size sbi"
    using geo by (auto simp: sbi_geo_def)
  have ds: "s_desc_size sbi' = s_desc_size sbi" using geo by (auto simp: sbi_geo_def)
  show gb: "gd_base sbi' = gd_base sbi" by (rule ext) (rule gd_base_geo [OF geo])
  show bs: "ext4_block_size s' = ext4_block_size s" "pool_balloc s' = pool_balloc s" by (simp_all add: s')
  have blk: "gd_blk s' sbi' x = gd_blk s sbi x" for x by (simp add: gd_blk_def gb ds bs)
  then show "gd_blk s' sbi' g = gd_blk s sbi g" .
  show "gd_table_ok s' sbi' = gd_table_ok s sbi"
    using gd_loc_geo [OF geo] by (simp add: gd_table_ok_def f gb blk dk ds bs)
qed

lemma gd_at_frame:
  assumes fr: "balloc_frame B s s'" and sbi: "s_fs_info s = Some sbi" and ok: "gd_table_ok s sbi"
    and g: "g < s_groups_count sbi" and nb: "gd_blk s sbi g \<notin> B"
  shows "gd_at s' g = gd_at s g"
proof -
  obtain sbi' where sbi': "s_fs_info s' = Some sbi'" using balloc_frame_sbi [OF fr sbi] by blast
  note p = balloc_frame_geo [OF fr sbi sbi']
  obtain off c where loc: "gd_loc sbi (ext4_block_size s) g = Some (gd_blk s sbi g, off, c)"
    by (rule gd_locD [OF ok g])
  have "fs_addr s (gd_blk s sbi g)" using ok g by (simp add: gd_table_ok_def)
  then have "ext4_read_block s' (gd_blk s sbi g) = ext4_read_block s (gd_blk s sbi g)"
    using fr nb by (simp add: balloc_frame_def disk_frame_def)
  then show ?thesis
    using gd_at_unfold [OF sbi ok loc] gd_at_unfold [OF sbi', of g off c] p ok loc gd_loc_geo [OF p(1)]
    by simp
qed

text \<open>
  What keeps alloc_core: a frame under which every descriptor still names the same bitmap.
\<close>

lemma alloc_core_frame:
  assumes core: "alloc_core s sbi" and fr: "balloc_frame B s s'" and sbi': "s_fs_info s' = Some sbi'"
    and gd: "s_group_desc sbi' \<noteq> None"
    and bm: "\<And>g. g < s_groups_count sbi \<Longrightarrow> gd_at s' g \<noteq> None \<and> bm_blk s' g = bm_blk s g"
  shows "alloc_core s' sbi'"
proof -
  have sbi: "s_fs_info s = Some sbi" using core by (simp add: alloc_core_def)
  note t = balloc_frame_geo [OF fr sbi sbi']
  have "group_ok s' sbi' g" if "g < s_groups_count sbi" for g
    using core bm [OF that] that bm t by (auto simp: alloc_core_def group_ok_def)
  then show ?thesis using core sbi' gd t by (simp add: alloc_core_def)
qed

section \<open>Synchronisation of the superblock\<close>

lemma length_put_free_counts:
  "o_sb + 348 \<le> length buf \<Longrightarrow> length (put_free_counts o_sb fb fi buf) = length buf"
  by (simp add: put_free_counts_def le32.length_put)

lemma sb_block_fits:
  assumes "fs_io_ok s" "1024 \<le> fs_bsz s" "fs_bsz s \<le> 65536"
  shows "fs_addr s (sb_blocknr (ext4_block_size s))"
    and "sb_offset (ext4_block_size s) + 348 \<le> fs_bsz s"
proof -
  have "fs_bsz s div 512 \<le> 128" using assms(3) by simp
  then show "fs_addr s (sb_blocknr (ext4_block_size s))" by (simp add: fs_addr_def sb_blocknr_def)
  have "512 dvd fs_bsz s" using assms(1) by (simp add: fs_io_ok_def)
  moreover have "fs_bsz s = 1024 \<longleftrightarrow> ext4_block_size s = 1024"
    by (auto simp: fs_bsz_def intro: word_eq_by_unat)
  ultimately show "sb_offset (ext4_block_size s) + 348 \<le> fs_bsz s"
    using assms(2) by (auto simp: sb_offset_def elim!: dvdE)
qed

lemma ext4_sync_frame:
  assumes io: "fs_io_ok s" and sbi: "s_fs_info s = Some sbi" and bs: "s_block_size sbi = ext4_block_size s"
    and sz: "1024 \<le> fs_bsz s" "fs_bsz s \<le> 65536"
  shows "\<exists>r d. ext4_sync_super_free_counts s = (r, s\<lparr>g_disk := d\<rparr>) \<and>
    disk_frame {sb_blocknr (ext4_block_size s)} s (s\<lparr>g_disk := d\<rparr>)"
proof -
  let ?b = "sb_blocknr (ext4_block_size s)" and ?n = "unat (ext4_block_size s)"
  have same: ?thesis if "ext4_sync_super_free_counts s = (False, s)"
    using io that by (intro exI [of _ False] exI [of _ "g_disk s"]) (auto intro: disk_frame_same_io)
  obtain m1 s1 where m1: "super_malloc ?n s = (m1, s1)" by fastforce
  show ?thesis
  proof (cases "s_group_desc sbi = None \<or> m1 = None")
    case True
    with m1 sbi bs super_malloc_None [of ?n s s1] show ?thesis
      by (intro same) (auto simp: ext4_sync_super_free_counts_def Let_def)
  next
    case False
    then obtain p1 where p1: "m1 = Some p1" and gd: "s_group_desc sbi \<noteq> None" by auto
    obtain m2 s2 where m2: "super_malloc ?n s1 = (m2, s2)" by fastforce
    obtain q1 where s1: "s1 = s\<lparr>pool_super := q1\<rparr>" using super_malloc_Some(1) m1 p1 by blast
    show ?thesis
    proof (cases m2)
      case None
      with m2 have "s2 = s1" by (auto dest: super_malloc_None)
      with None m1 m2 p1 gd sbi bs super_malloc_Some(2) [of ?n s p1 s1] show ?thesis
        by (intro same) (simp add: ext4_sync_super_free_counts_def Let_def)
    next
      case (Some p2)
      obtain q2 where s2: "s2 = s1\<lparr>pool_super := q2\<rparr>" using super_malloc_Some(1) m2 Some by blast
      have rd: "ext4_read_block s2 = ext4_read_block s" by (simp add: s1 s2)
      have free: "super_free p1 (super_free p2 (s2\<lparr>g_disk := d\<rparr>)) = s\<lparr>g_disk := d\<rparr>" for d
        using super_malloc_Some(3) [of ?n s1 p2 s2] super_malloc_Some(3) [of ?n s p1 s1] m1 m2 p1 Some by simp
      have free0: "super_free p1 (super_free p2 s2) = s" using free [of "g_disk s"] by (simp add: s1 s2)
      show ?thesis
      proof (cases "\<exists>buf fb fi. ext4_read_block s ?b = Some buf \<and>
          sync_counts_loop s2 sbi [0..<unat (s_groups_count sbi)] (- 1) (replicate ?n 0) 0 0 = Some (fb, fi)")
        case False
        with m1 m2 p1 Some gd sbi bs rd free0 show ?thesis
          by (intro same) (auto simp: ext4_sync_super_free_counts_def Let_def split: option.splits)
      next
        case True
        then obtain buf fb fi where buf: "ext4_read_block s ?b = Some buf" and
          l: "sync_counts_loop s2 sbi [0..<unat (s_groups_count sbi)] (- 1) (replicate ?n 0) 0 0 = Some (fb, fi)" by blast
        let ?new = "put_free_counts (sb_offset (ext4_block_size s)) fb fi buf"
        note fit = sb_block_fits [OF io sz]
        have len: "length ?new = fs_bsz s"
          using io.rd_len [OF io fit(1) buf] fit(2) by (simp add: length_put_free_counts)
        obtain r t where w: "ext4_write_block s ?b ?new = (r, t)" by fastforce
        obtain d where t: "t = s\<lparr>g_disk := d\<rparr>" using ext4_write_block_disk [OF w] by blast
        have "ext4_write_block s2 ?b ?new = (r, s2\<lparr>g_disk := d\<rparr>)"
          using w t by (simp add: s1 s2 write_block_pool)
        then have "ext4_sync_super_free_counts s = (r, s\<lparr>g_disk := d\<rparr>)"
          using m1 m2 p1 Some gd sbi bs rd buf l free
          by (auto simp: ext4_sync_super_free_counts_def Let_def)
        with disk_frame_write [OF io fit(1) len w] t show ?thesis by auto
      qed
    qed
  qed
qed

section \<open>Laws of the cache\<close>

lemma alloc_coreD:
  assumes "alloc_core s sbi"
  shows "fs_io_ok s" "s_fs_info s = Some sbi" "gd_table_ok s sbi" "balloc_room s"
    "s_block_size sbi = ext4_block_size s" "1024 \<le> fs_bsz s" "fs_bsz s \<le> 4096"
    "s_group_desc sbi \<noteq> None"
  using assms by (auto simp: alloc_core_def balloc_room_def fs_bsz_def gd_table_ok_def)

lemma alloc_core_group: "alloc_core s sbi \<Longrightarrow> g < s_groups_count sbi \<Longrightarrow> group_ok s sbi g"
  by (simp add: alloc_core_def)

lemma alloc_core_gd:
  assumes "alloc_core s sbi" "g < s_groups_count sbi"
  obtains gd where "gd_at s g = Some gd" "ext4_read_group_desc s g = (Some gd, s)"
    "bg_block_bitmap_lo gd = bm_blk s g" "bm_blk s g \<noteq> 0" "fs_addr s (bm_blk s g)" "fs_up s (bm_blk s g)"
    "fs_up s (gd_blk s sbi g)"
  using alloc_core_group [OF assms] alloc_coreD(4) [OF assms(1)]
  by (auto simp: group_ok_def bm_blk_def ext4_read_group_desc_eq)

lemma group_bitmap_Some:
  assumes "alloc_core s sbi" "g < s_groups_count sbi"
  obtains buf where "group_bitmap s g = Some buf" "length buf = fs_bsz s"
proof -
  have g: "fs_addr s (bm_blk s g)" "fs_up s (bm_blk s g)"
    using alloc_core_group [OF assms] by (auto simp: group_ok_def)
  note io = alloc_coreD(1) [OF assms(1)]
  obtain buf where "ext4_read_block s (bm_blk s g) = Some buf"
    using io.rd_up [OF io g(1)] g(2) by auto
  with io.rd_len [OF io g(1)] that show ?thesis by (simp add: group_bitmap_def)
qed

text \<open>
  The step below covers every write of the allocator: blocks other than bitmaps of groups are
  written, descriptors keep their bitmap number, the in-memory superblock keeps its geometry.
\<close>

lemma bitmaps_frame:
  assumes core: "alloc_core s sbi" and fr: "balloc_frame B s s'"
    and bm: "bm_blk s' g = bm_blk s g" and g: "g < s_groups_count sbi" and nb: "bm_blk s g \<notin> B"
  shows "group_bitmap s' g = group_bitmap s g"
proof -
  have "fs_addr s (bm_blk s g)" using alloc_core_group [OF core g] by (simp add: group_ok_def)
  with fr nb bm show ?thesis by (simp add: group_bitmap_def balloc_frame_def disk_frame_def)
qed

text \<open>A change of the in-memory superblock alone.\<close>

lemma gd_at_upd [simp]:
  "(\<And>i. sbi_geo (f i) = sbi_geo i) \<Longrightarrow> gd_at (upd_sbi f s) g = gd_at s g"
proof -
  assume geo: "\<And>i. sbi_geo (f i) = sbi_geo i"
  have ds: "s_desc_size (f i) = s_desc_size i" for i using geo [of i] by (simp add: sbi_geo_def)
  show ?thesis
    by (cases "s_fs_info s")
      (simp_all add: gd_at_def upd_sbi_def ds gd_loc_geo [OF geo] split: option.split)
qed

lemma read_block_upd [simp]: "ext4_read_block (upd_sbi f s) = ext4_read_block s"
  by (simp add: upd_sbi_def)

lemma group_bitmap_upd [simp]:
  "(\<And>i. sbi_geo (f i) = sbi_geo i) \<Longrightarrow> group_bitmap (upd_sbi f s) g = group_bitmap s g"
  by (simp add: group_bitmap_def bm_blk_def)

lemma fs_info_upd [simp]: "s_fs_info (upd_sbi f s) = map_option f (s_fs_info s)"
  by (simp add: upd_sbi_def)

lemma alloc_core_upd:
  assumes core: "alloc_core s sbi" and geo: "\<And>i. sbi_geo (f i) = sbi_geo i"
    and gd: "s_group_desc (f sbi) \<noteq> None"
  shows "alloc_core (upd_sbi f s) (f sbi)"
proof (rule alloc_core_frame [OF core, of "{}"])
  show "balloc_frame {} s (upd_sbi f s)" by (rule balloc_frame_upd [OF alloc_coreD(1) [OF core] geo])
  show "s_fs_info (upd_sbi f s) = Some (f sbi)" using alloc_coreD(2) [OF core] by simp
  show "s_group_desc (f sbi) \<noteq> None" by (rule gd)
  show "g < s_groups_count sbi \<Longrightarrow> gd_at (upd_sbi f s) g \<noteq> None \<and> bm_blk (upd_sbi f s) g = bm_blk s g" for g
    using alloc_core_group [OF core] geo by (simp add: group_ok_def bm_blk_def)
qed

end
