(* ===== verification/Balloc_Steps.thy ===== *)
theory Balloc_Steps
  imports Balloc_Inv
begin

text \<open>
  The steps of an allocation in a well-formed state: the cache load, the write-back of a marked
  bitmap, the descriptor update and the synchronisation; then one group, one pass, and the whole
  of ext4_new_blocks_in_group.
\<close>

section \<open>Loading and flushing the cache\<close>

abbreviation (input) with_cache :: "u32 \<Rightarrow> bytes \<Rightarrow> ext4_sb_info \<Rightarrow> ext4_sb_info" where
  "with_cache g buf sbi \<equiv> sbi\<lparr>s_bmap_cache_buf := Some buf, s_bmap_cache_group := g,
     s_bmap_cache_valid := True, s_bmap_cache_dirty := False\<rparr>"

lemma flush_clean:
  "s_fs_info s = Some sbi \<Longrightarrow> s_bmap_cache_valid sbi \<longrightarrow> \<not> s_bmap_cache_dirty sbi \<Longrightarrow>
   ext4_bmap_cache_flush s = (True, s)"
  by (simp add: ext4_bmap_cache_flush_def)

lemma sbi_geo_cache [simp]:
  "sbi_geo (sbi\<lparr>s_bmap_cache_buf := b\<rparr>) = sbi_geo sbi"
  "sbi_geo (sbi\<lparr>s_bmap_cache_group := g\<rparr>) = sbi_geo sbi"
  "sbi_geo (sbi\<lparr>s_bmap_cache_valid := v\<rparr>) = sbi_geo sbi"
  "sbi_geo (sbi\<lparr>s_bmap_cache_dirty := v\<rparr>) = sbi_geo sbi"
  "sbi_geo (sbi\<lparr>s_group_desc := gd\<rparr>) = sbi_geo sbi"
  "sbi_geo (sbi\<lparr>s_bg_sync_pending := n\<rparr>) = sbi_geo sbi"
  "sbi_geo (sbi\<lparr>s_alloc_nf := nf\<rparr>) = sbi_geo sbi"
  by (simp_all add: sbi_geo_def)

lemma cache_load_ok:
  assumes ok: "alloc_ok s sbi" and g: "g < s_groups_count sbi"
  shows "\<exists>buf. group_bitmap s g = Some buf \<and> length buf = fs_bsz s \<and>
    ext4_bmap_cache_load s g = (True, upd_sbi (with_cache g buf) s) \<and>
    alloc_ok (upd_sbi (with_cache g buf) s) (with_cache g buf sbi)"
proof -
  have core: "alloc_core s sbi" and clean: "cache_clean s sbi" using ok by (auto simp: alloc_ok_def)
  note D = alloc_coreD [OF core]
  obtain buf where buf: "group_bitmap s g = Some buf" "length buf = fs_bsz s"
    by (rule group_bitmap_Some [OF core g])
  obtain cb where cb: "s_bmap_cache_buf sbi = Some cb" "length cb = fs_bsz s"
    using clean by (auto simp: cache_clean_def)
  have ok': "alloc_ok (upd_sbi (with_cache g buf) s) (with_cache g buf sbi)"
    using alloc_core_upd [OF core, of "with_cache g buf"] D(8) buf g
    by (simp add: alloc_ok_def cache_clean_def) (simp add: upd_sbi_def fs_bsz_def)
  have "ext4_bmap_cache_load s g = (True, upd_sbi (with_cache g buf) s)"
  proof (cases "s_bmap_cache_valid sbi \<and> s_bmap_cache_group sbi = g")
    case True
    then have "cb = buf" "\<not> s_bmap_cache_dirty sbi" using clean cb buf by (auto simp: cache_clean_def)
    then have "with_cache g buf sbi = sbi" using True cb by (cases sbi) simp
    then have "upd_sbi (with_cache g buf) s = s" using D(2) by (cases s) (simp add: upd_sbi_def)
    with True cb D(2) show ?thesis by (simp add: ext4_bmap_cache_load_def)
  next
    case False
    have "s_bmap_cache_valid sbi \<longrightarrow> \<not> s_bmap_cache_dirty sbi" using clean by (auto simp: cache_clean_def)
    note fl = flush_clean [OF D(2) this]
    obtain gd where gd: "ext4_read_group_desc s g = (Some gd, s)" "bg_block_bitmap_lo gd = bm_blk s g"
      "bm_blk s g \<noteq> 0" "fs_addr s (bm_blk s g)" "fs_up s (bm_blk s g)"
      by (rule alloc_core_gd [OF core g])
    obtain r b where rb: "ext4_read_block_buf s (bm_blk s g) cb = (r, b)" by fastforce
    have "ext4_read_block s (bm_blk s g) = (if r then Some b else None)"
      by (rule ext4_read_block_buf_eq [OF D(1) gd(4) cb(2) rb])
    then have "r" "b = buf" using buf by (auto simp: group_bitmap_def split: if_splits)
    with False fl gd rb cb D(2) show ?thesis by (auto simp: ext4_bmap_cache_load_def)
  qed
  with buf ok' show ?thesis by blast
qed

lemma flush_dirty:
  assumes core: "alloc_core s sbi" and g: "s_bmap_cache_group sbi = g" "g < s_groups_count sbi"
    and c: "s_bmap_cache_valid sbi" "s_bmap_cache_dirty sbi" "s_bmap_cache_buf sbi = Some buf"
    and len: "length buf = fs_bsz s"
  shows "\<exists>d. let sbi' = sbi\<lparr>s_bmap_cache_dirty := False\<rparr>;
                 s' = s\<lparr>g_disk := d, s_fs_info := Some sbi'\<rparr> in
    ext4_bmap_cache_flush s = (True, s') \<and> alloc_core s' sbi' \<and> balloc_frame {bm_blk s g} s s' \<and>
    (\<forall>h < s_groups_count sbi. gd_at s' h = gd_at s h \<and>
       group_bitmap s' h = (if h = g then Some buf else group_bitmap s h))"
proof -
  note D = alloc_coreD [OF core]
  let ?sbi = "sbi\<lparr>s_bmap_cache_dirty := False\<rparr>"
  obtain gd where gd: "ext4_read_group_desc s g = (Some gd, s)" "bg_block_bitmap_lo gd = bm_blk s g"
    "bm_blk s g \<noteq> 0" "fs_addr s (bm_blk s g)" "fs_up s (bm_blk s g)"
    by (rule alloc_core_gd [OF core g(2)])
  obtain r t where w: "ext4_write_block s (bm_blk s g) buf = (r, t)" by fastforce
  obtain d where t: "t = s\<lparr>g_disk := d\<rparr>" using ext4_write_block_disk [OF w] by blast
  have r: r using io.wr_up [OF D(1) gd(4) len] w gd(5) by simp
  let ?s = "s\<lparr>g_disk := d, s_fs_info := Some ?sbi\<rparr>"
  have st: "?s = upd_sbi (\<lambda>i. i\<lparr>s_bmap_cache_dirty := False\<rparr>) t" using D(2) by (simp add: upd_sbi_def t)
  have fr1: "balloc_frame {bm_blk s g} s t"
    using balloc_frame_disk disk_frame_write [OF D(1) gd(4) len w] by (simp add: t)
  have "fs_io_ok t" using fr1 by (simp add: balloc_frame_def disk_frame_def)
  then have "balloc_frame {} t (upd_sbi (\<lambda>i. i\<lparr>s_bmap_cache_dirty := False\<rparr>) t)"
    by (rule balloc_frame_upd) simp
  from balloc_frame_trans [OF fr1 this, of "{bm_blk s g}"]
  have fr: "balloc_frame {bm_blk s g} s ?s" unfolding st by simp
  have gds: "gd_at ?s h = gd_at s h" if "h < s_groups_count sbi" for h
    using gd_at_frame [OF fr D(2,3) that] alloc_core_group [OF core g(2)] that by (auto simp: group_ok_def)
  then have bms: "bm_blk ?s h = bm_blk s h" if "h < s_groups_count sbi" for h
    using that by (simp add: bm_blk_def)
  have "alloc_core ?s ?sbi"
    using D(8) gds bms alloc_core_group [OF core]
    by (intro alloc_core_frame [OF core fr]) (auto simp: group_ok_def)
  moreover have "group_bitmap ?s h = (if h = g then Some buf else group_bitmap s h)"
    if h: "h < s_groups_count sbi" for h
  proof (cases "h = g")
    case True
    have "ext4_read_block ?s (bm_blk s g) = Some buf"
      using io.wr_same [OF D(1) gd(4) len, of t] w r by (simp add: st)
    with True bms [OF h] show ?thesis by (simp add: group_bitmap_def)
  next
    case False
    have "bm_blk s h \<noteq> bm_blk s g" using alloc_core_group [OF core h] False g(2) by (auto simp: group_ok_def)
    with False bitmaps_frame [OF core fr bms [OF h] h] show ?thesis by simp
  qed
  moreover have "ext4_bmap_cache_flush s = (True, ?s)"
    using c gd D(2) w r g(1)
    by (simp add: ext4_bmap_cache_flush_def ext4_write_block_bitmap_def st)
  ultimately show ?thesis using fr gds by (intro exI [of _ d]) (simp add: Let_def)
qed

text \<open>A descriptor update that keeps the number of the bitmap block.\<close>

lemma write_gd_ok:
  assumes core: "alloc_core s sbi" and g: "g < s_groups_count sbi"
    and bm: "bg_block_bitmap_lo gd = bm_blk s g"
  shows "\<exists>d. ext4_write_group_desc s g gd = (True, s\<lparr>g_disk := d\<rparr>) \<and>
    alloc_core (s\<lparr>g_disk := d\<rparr>) sbi \<and> balloc_frame {gd_blk s sbi g} s (s\<lparr>g_disk := d\<rparr>) \<and>
    (\<exists>c. 32 \<le> unat c \<and> unat c \<le> 64 \<and> gd_at (s\<lparr>g_disk := d\<rparr>) g = Some (gd_trunc c gd)) \<and>
    (\<forall>h < s_groups_count sbi. (h \<noteq> g \<longrightarrow> gd_at (s\<lparr>g_disk := d\<rparr>) h = gd_at s h) \<and>
       group_bitmap (s\<lparr>g_disk := d\<rparr>) h = group_bitmap s h)"
proof -
  note D = alloc_coreD [OF core]
  obtain r t where st: "gd_store s g gd = (r, t)" by fastforce
  note L = gd_store_laws [OF D(1,2,3) g st]
  obtain d where t: "t = s\<lparr>g_disk := d\<rparr>" using L(2) by blast
  have r: r using L(3) alloc_core_group [OF core g] by (simp add: group_ok_def)
  then have eq: "ext4_write_group_desc s g gd = (True, s\<lparr>g_disk := d\<rparr>)"
    using st t D(4) by (simp add: ext4_write_group_desc_eq)
  let ?s = "s\<lparr>g_disk := d\<rparr>"
  have fr: "balloc_frame {gd_blk s sbi g} s ?s" using L(1) by (intro balloc_frame_disk) (simp add: t)
  obtain c where c: "unat c = min 64 (unat (s_desc_size sbi))" "gd_at ?s g = Some (gd_trunc c gd)"
    using L(4) r t by blast
  have c32: "32 \<le> unat c" "unat c \<le> 64" using c(1) D(3) by (auto simp: gd_table_ok_def)
  have gds: "gd_at ?s h = gd_at s h" if "h < s_groups_count sbi" "h \<noteq> g" for h
    using L(5) r that t by simp
  have bms: "gd_at ?s h \<noteq> None \<and> bm_blk ?s h = bm_blk s h" if "h < s_groups_count sbi" for h
  proof (cases "h = g")
    case True
    with c(2) gd_trunc_lo(1) [OF c32, of gd] bm show ?thesis by (simp add: bm_blk_def)
  next
    case False
    with gds [OF that] alloc_core_group [OF core that] show ?thesis by (simp add: bm_blk_def group_ok_def)
  qed
  have "alloc_core ?s sbi" using D bms by (intro alloc_core_frame [OF core fr]) simp_all
  moreover have "group_bitmap ?s h = group_bitmap s h" if h: "h < s_groups_count sbi" for h
    using bms [OF h] alloc_core_group [OF core h] g by (intro bitmaps_frame [OF core fr _ h]) (auto simp: group_ok_def)
  ultimately show ?thesis using eq fr c(2) c32 gds by blast
qed

text \<open>The deferred synchronisation touches the superblock block and the pending count only.\<close>

lemma sync_tick_ok:
  assumes core: "alloc_core s sbi"
  shows "\<exists>d n. let sbi' = sbi\<lparr>s_bg_sync_pending := n\<rparr>; s' = s\<lparr>g_disk := d, s_fs_info := Some sbi'\<rparr> in
    balloc_sync_tick s = s' \<and> alloc_core s' sbi' \<and> balloc_frame {sb_blocknr (ext4_block_size s)} s s' \<and>
    (\<forall>h < s_groups_count sbi. gd_at s' h = gd_at s h \<and> group_bitmap s' h = group_bitmap s h)"
proof -
  note D = alloc_coreD [OF core]
  let ?B = "{sb_blocknr (ext4_block_size s)}"
  let ?n1 = "s_bg_sync_pending sbi + 1"
  let ?s1 = "upd_sbi (\<lambda>i. i\<lparr>s_bg_sync_pending := s_bg_sync_pending i + 1\<rparr>) s"
  have s1: "?s1 = s\<lparr>s_fs_info := Some (sbi\<lparr>s_bg_sync_pending := ?n1\<rparr>)\<rparr>"
    using D(2) by (simp add: upd_sbi_def)
  have bsz: "fs_bsz ?s1 = fs_bsz s" by (simp add: s1 fs_bsz_def)
  have fr1: "balloc_frame ?B s ?s1" by (rule balloc_frame_upd [OF D(1)]) simp
  then have "fs_io_ok ?s1" by (simp add: balloc_frame_def disk_frame_def)
  then obtain r d where sy: "ext4_sync_super_free_counts ?s1 = (r, ?s1\<lparr>g_disk := d\<rparr>)"
    and frd: "disk_frame ?B ?s1 (?s1\<lparr>g_disk := d\<rparr>)"
    using ext4_sync_frame [of ?s1 "sbi\<lparr>s_bg_sync_pending := ?n1\<rparr>"] D(5,6,7) bsz by (auto simp: s1)
  obtain n d' where tick: "balloc_sync_tick s = s\<lparr>g_disk := d', s_fs_info := Some (sbi\<lparr>s_bg_sync_pending := n\<rparr>)\<rparr>"
    and fr: "balloc_frame ?B s (balloc_sync_tick s)"
  proof (cases "?n1 \<ge> ext4_get_bg_sync_batch ?s1")
    case True
    let ?s2 = "upd_sbi (\<lambda>i. i\<lparr>s_bg_sync_pending := 0\<rparr>) (?s1\<lparr>g_disk := d\<rparr>)"
    have t: "balloc_sync_tick s = ?s2"
      using True sy D(2) by (simp add: balloc_sync_tick_def Let_def)
    have f12: "balloc_frame ?B ?s1 (?s1\<lparr>g_disk := d\<rparr>)" by (rule balloc_frame_disk [OF frd])
    have "fs_io_ok (?s1\<lparr>g_disk := d\<rparr>)" using frd by (simp add: disk_frame_def)
    then have f23: "balloc_frame ?B (?s1\<lparr>g_disk := d\<rparr>) ?s2" by (rule balloc_frame_upd) simp
    have "balloc_frame ?B s ?s2"
      using balloc_frame_trans [OF balloc_frame_trans [OF fr1 f12, of ?B] f23, of ?B] by simp
    with t show ?thesis using D(2) by (intro that [of 0 d]) (simp_all add: upd_sbi_def)
  next
    case False
    then have "balloc_sync_tick s = ?s1" using D(2) by (simp add: balloc_sync_tick_def Let_def)
    with fr1 D(2) show ?thesis by (intro that [of ?n1 "g_disk s"]) (simp_all add: upd_sbi_def)
  qed
  let ?s' = "s\<lparr>g_disk := d', s_fs_info := Some (sbi\<lparr>s_bg_sync_pending := n\<rparr>)\<rparr>"
  have fr': "balloc_frame ?B s ?s'" using fr tick by simp
  have nb: "gd_blk s sbi h \<notin> ?B" if "h < s_groups_count sbi" for h
  proof -
    have "unat (gd_blk s sbi h) = unat (gd_base sbi (ext4_block_size s)) + unat h * unat (s_desc_size sbi) div fs_bsz s"
      by (rule gd_locD [OF D(3) that])
    moreover have "unat (sb_blocknr (ext4_block_size s)) < unat (gd_base sbi (ext4_block_size s))"
      using core by (simp add: alloc_core_def)
    ultimately show ?thesis by auto
  qed
  have gds: "gd_at ?s' h = gd_at s h" if "h < s_groups_count sbi" for h
    using gd_at_frame [OF fr' D(2,3) that] nb [OF that] by simp
  have bms: "gd_at ?s' h \<noteq> None \<and> bm_blk ?s' h = bm_blk s h" if "h < s_groups_count sbi" for h
    using gds [OF that] alloc_core_group [OF core that] by (simp add: bm_blk_def group_ok_def)
  have "alloc_core ?s' (sbi\<lparr>s_bg_sync_pending := n\<rparr>)"
    using D(8) bms by (intro alloc_core_frame [OF core fr']) simp_all
  moreover have "group_bitmap ?s' h = group_bitmap s h" if "h < s_groups_count sbi" for h
    using bms [OF that] alloc_core_group [OF core that]
    by (intro bitmaps_frame [OF core fr' _ that]) (auto simp: group_ok_def)
  ultimately show ?thesis using tick fr' gds by (intro exI [of _ d'] exI [of _ n]) (simp add: Let_def)
qed

section \<open>Taking a run in the loaded group\<close>

text \<open>
  took s sbi g i n s' sbi': from s to s', the bits i, ..., i + n - 1 of group g were set on
  disk, the free count of the group was lowered, no other bitmap or descriptor changed, and
  nothing was written but the bitmap, the descriptor block and the superblock; the descriptor of
  the group still names the same bitmap.
\<close>

definition took :: "kfs \<Rightarrow> ext4_sb_info \<Rightarrow> u32 \<Rightarrow> nat \<Rightarrow> nat \<Rightarrow> kfs \<Rightarrow> ext4_sb_info \<Rightarrow> bool" where
  "took s sbi g i n s' sbi' \<longleftrightarrow>
     alloc_ok s' sbi' \<and>
     balloc_frame {bm_blk s g, gd_blk s sbi g, sb_blocknr (ext4_block_size s)} s s' \<and>
     (\<forall>h < s_groups_count sbi. group_bitmap s' h =
        (if h = g then map_option (\<lambda>b. ext4_bmap_mark_blocks b i n) (group_bitmap s g) else group_bitmap s h) \<and>
        (h \<noteq> g \<longrightarrow> gd_at s' h = gd_at s h)) \<and>
     bm_blk s' g = bm_blk s g \<and>
     map_option bg_free_blocks_count_lo (gd_at s' g) =
       map_option (bg_free_blocks_count_lo \<circ> balloc_take_count (of_nat n)) (gd_at s g)"

lemma cache_clean_intro:
  "s_bmap_cache_buf sbi = Some buf \<Longrightarrow> length buf = fs_bsz s \<Longrightarrow> \<not> s_bmap_cache_dirty sbi \<Longrightarrow>
   s_bmap_cache_group sbi < s_groups_count sbi \<Longrightarrow> group_bitmap s (s_bmap_cache_group sbi) = Some buf \<Longrightarrow>
   cache_clean s sbi"
  by (simp add: cache_clean_def)

lemma next_goal_fields [simp]:
  "sbi_geo (balloc_next_goal g nb gb gc sbi) = sbi_geo sbi"
  "s_group_desc (balloc_next_goal g nb gb gc sbi) = s_group_desc sbi"
  "s_bmap_cache_buf (balloc_next_goal g nb gb gc sbi) = s_bmap_cache_buf sbi"
  "s_bmap_cache_group (balloc_next_goal g nb gb gc sbi) = s_bmap_cache_group sbi"
  "s_bmap_cache_valid (balloc_next_goal g nb gb gc sbi) = s_bmap_cache_valid sbi"
  "s_bmap_cache_dirty (balloc_next_goal g nb gb gc sbi) = s_bmap_cache_dirty sbi"
  "s_groups_count (balloc_next_goal g nb gb gc sbi) = s_groups_count sbi"
  by (simp_all add: balloc_next_goal_def Let_def)

lemma take_count_bitmap [simp]:
  "bg_block_bitmap_lo (balloc_take_count n gd) = bg_block_bitmap_lo gd"
  by (simp add: balloc_take_count_def)

lemma unat_add_of_nat:
  "unat (x :: u32) + n < 2 ^ 32 \<Longrightarrow> unat (x + of_nat n) = unat x + n"
proof -
  assume a: "unat x + n < 2 ^ 32"
  then have "unat (of_nat n :: u32) = n" by (intro unat_of_nat_fit) simp
  with a unat_add_nowrap [of x "of_nat n"] show ?thesis by simp
qed

lemma sbi_fold: "s_fs_info s = Some sbi \<Longrightarrow> s\<lparr>s_fs_info := Some (f sbi)\<rparr> = upd_sbi f s"
  by (simp add: upd_sbi_def)

lemma commit_tail:
  assumes core: "alloc_core s sbi" and g: "g < s_groups_count sbi"
    and cache: "s_bmap_cache_buf sbi = Some buf" "length buf = fs_bsz s" "s_bmap_cache_group sbi = g"
      "\<not> s_bmap_cache_dirty sbi" "s_bmap_cache_valid sbi" "group_bitmap s g = Some buf"
    and s4: "s4 = (if g = 0 then upd_sbi (\<lambda>k. k\<lparr>s_group_desc := Some gd'\<rparr>) s else s)"
  shows "\<exists>s' sbi'. balloc_sync_tick (upd_sbi (balloc_next_goal g nb gb gc) s4) = s' \<and> alloc_ok s' sbi' \<and>
    balloc_frame {sb_blocknr (ext4_block_size s)} s s' \<and>
    (\<forall>h < s_groups_count sbi. gd_at s' h = gd_at s h \<and> group_bitmap s' h = group_bitmap s h)"
proof -
  note D = alloc_coreD [OF core]
  define f where "f = (\<lambda>k :: ext4_sb_info. balloc_next_goal g nb gb gc (if g = 0 then k\<lparr>s_group_desc := Some gd'\<rparr> else k))"
  have geo: "sbi_geo (f k) = sbi_geo k" for k by (simp add: f_def)
  have fields: "s_bmap_cache_buf (f k) = s_bmap_cache_buf k" "s_bmap_cache_group (f k) = s_bmap_cache_group k"
    "s_bmap_cache_valid (f k) = s_bmap_cache_valid k" "s_bmap_cache_dirty (f k) = s_bmap_cache_dirty k"
    "s_groups_count (f k) = s_groups_count k" for k by (simp_all add: f_def)
  let ?s5 = "upd_sbi f s"
  have s5: "upd_sbi (balloc_next_goal g nb gb gc) s4 = ?s5"
    using D(2) by (simp add: s4 f_def upd_sbi_def)
  have core5: "alloc_core ?s5 (f sbi)"
    using D(8) by (intro alloc_core_upd [OF core geo]) (simp add: f_def)
  have bs: "ext4_block_size ?s5 = ext4_block_size s" by (simp add: upd_sbi_def)
  obtain d n where t: "let sbi' = (f sbi)\<lparr>s_bg_sync_pending := n\<rparr>; s' = ?s5\<lparr>g_disk := d, s_fs_info := Some sbi'\<rparr> in
    balloc_sync_tick ?s5 = s' \<and> alloc_core s' sbi' \<and> balloc_frame {sb_blocknr (ext4_block_size s)} ?s5 s' \<and>
    (\<forall>h < s_groups_count sbi. gd_at s' h = gd_at ?s5 h \<and> group_bitmap s' h = group_bitmap ?s5 h)"
    using sync_tick_ok [OF core5] by (auto simp: bs fields)
  define sbi' where "sbi' = (f sbi)\<lparr>s_bg_sync_pending := n\<rparr>"
  define s' where "s' = ?s5\<lparr>g_disk := d, s_fs_info := Some sbi'\<rparr>"
  have T: "balloc_sync_tick ?s5 = s'" "alloc_core s' sbi'"
    "balloc_frame {sb_blocknr (ext4_block_size s)} ?s5 s'"
    "\<forall>h < s_groups_count sbi. gd_at s' h = gd_at s h \<and> group_bitmap s' h = group_bitmap s h"
    using t geo by (simp_all add: Let_def s'_def sbi'_def)
  have fr: "balloc_frame {sb_blocknr (ext4_block_size s)} s s'"
    using balloc_frame_trans [OF balloc_frame_upd [OF D(1) geo, where B = "{}"] T(3)] by simp
  have bsz: "fs_bsz s' = fs_bsz s" using fr by (simp add: balloc_frame_def disk_frame_def)
  have "cache_clean s' sbi'"
    using cache T(4) g bsz by (intro cache_clean_intro [of _ buf]) (simp_all add: sbi'_def fields)
  with T fr s5 show ?thesis by (auto simp: alloc_ok_def)
qed

lemma commit_ok:
  assumes ok: "alloc_ok s sbi" and g: "g < s_groups_count sbi"
    and c: "s_bmap_cache_valid sbi" "s_bmap_cache_group sbi = g"
    and gd: "gd_at s g = Some gd" and n: "0 < n" "i + n \<le> 8 * fs_bsz s"
    and fit: "unat start + i + n \<le> unat bc"
  shows "\<exists>s' sbi'. balloc_commit s g gd (of_nat i) (of_nat n) start gb bc gc =
      Group_Found (start + of_nat i) (of_nat n) s' \<and> took s sbi g i n s' sbi'"
proof -
  have core: "alloc_core s sbi" and clean: "cache_clean s sbi" using ok by (auto simp: alloc_ok_def)
  note D = alloc_coreD [OF core]
  obtain buf where buf: "s_bmap_cache_buf sbi = Some buf" "length buf = fs_bsz s" "group_bitmap s g = Some buf"
    using clean c by (auto simp: cache_clean_def)
  let ?m = "ext4_bmap_mark_blocks buf i n"
  have b32: "unat bc < 2 ^ 32" using unat_u32_bound [of bc] by simp
  have ui: "unat (of_nat i :: u32) = i" "unat (of_nat n :: u32) = n"
    using fit b32 by (simp_all add: unat_of_nat_fit)
  have us: "unat (start + of_nat i) = unat start + i" using fit b32 n by (intro unat_add_of_nat) simp
  have us2: "unat (start + of_nat i + of_nat n) = unat start + i + n"
  proof (cases "unat start + i + n < 2 ^ 32")
    case True
    then show ?thesis using us unat_add_of_nat [of "start + of_nat i" n] by simp
  qed (use fit b32 in simp)
  have guards: "\<not> start + of_nat i < start" "\<not> bc \<le> start + of_nat i" "(of_nat n :: u32) \<noteq> 0"
    "\<not> bc < start + of_nat i + of_nat n"
    using us us2 fit n ui unat_gt_0 [of "of_nat n :: u32"] by (simp_all add: word_less_nat_alt word_le_nat_alt)
  define f where "f = (\<lambda>k :: ext4_sb_info. k\<lparr>s_bmap_cache_buf := Some ?m, s_bmap_cache_dirty := True\<rparr>)"
  let ?s1 = "upd_sbi f s"
  have geo: "sbi_geo (f k) = sbi_geo k" for k by (simp add: f_def)
  have core1: "alloc_core ?s1 (f sbi)" using D(8) by (intro alloc_core_upd [OF core geo]) (simp add: f_def)
  have bsz1: "fs_bsz ?s1 = fs_bsz s" "ext4_block_size ?s1 = ext4_block_size s" by (simp_all add: upd_sbi_def fs_bsz_def)
  have bm1: "bm_blk ?s1 h = bm_blk s h" "gd_at ?s1 h = gd_at s h" "group_bitmap ?s1 h = group_bitmap s h" for h
    using geo by (simp_all add: bm_blk_def)
  have f_fields: "s_bmap_cache_group (f sbi) = g" "s_groups_count (f sbi) = s_groups_count sbi"
    "s_bmap_cache_valid (f sbi)" "s_bmap_cache_dirty (f sbi)" "s_bmap_cache_buf (f sbi) = Some ?m"
    using c by (simp_all add: f_def)
  have "length ?m = fs_bsz ?s1" using buf(2) bsz1 by simp
  then obtain d where d: "let sbi' = (f sbi)\<lparr>s_bmap_cache_dirty := False\<rparr>; s' = ?s1\<lparr>g_disk := d, s_fs_info := Some sbi'\<rparr> in
    ext4_bmap_cache_flush ?s1 = (True, s') \<and> alloc_core s' sbi' \<and> balloc_frame {bm_blk ?s1 g} ?s1 s' \<and>
    (\<forall>h < s_groups_count (f sbi). gd_at s' h = gd_at ?s1 h \<and>
       group_bitmap s' h = (if h = g then Some ?m else group_bitmap ?s1 h))"
    using flush_dirty [OF core1, of g ?m] g by (auto simp: f_fields)
  define sbi2 where "sbi2 = (f sbi)\<lparr>s_bmap_cache_dirty := False\<rparr>"
  define s2 where "s2 = ?s1\<lparr>g_disk := d, s_fs_info := Some sbi2\<rparr>"
  have S2: "ext4_bmap_cache_flush ?s1 = (True, s2)" "alloc_core s2 sbi2" "balloc_frame {bm_blk s g} ?s1 s2"
    "\<And>h. h < s_groups_count sbi \<Longrightarrow> gd_at s2 h = gd_at s h"
    "\<And>h. h < s_groups_count sbi \<Longrightarrow> group_bitmap s2 h = (if h = g then Some ?m else group_bitmap s h)"
    using d bm1 by (simp_all add: Let_def s2_def sbi2_def f_fields)
  have fr2: "balloc_frame {bm_blk s g} s s2"
    using balloc_frame_trans [OF balloc_frame_upd [OF D(1) geo, where B = "{}"] S2(3)] by simp
  have sbi2: "s_fs_info s2 = Some sbi2" by (simp add: s2_def)
  note G2 = balloc_frame_geo [OF fr2 D(2) sbi2]
  let ?gd = "balloc_take_count (of_nat n) gd"
  have "bg_block_bitmap_lo ?gd = bm_blk s2 g" using gd S2(4) [OF g] by (simp add: bm_blk_def)
  from write_gd_ok [OF S2(2) _ this] obtain d3 where
    W: "ext4_write_group_desc s2 g ?gd = (True, s2\<lparr>g_disk := d3\<rparr>)" "alloc_core (s2\<lparr>g_disk := d3\<rparr>) sbi2"
      "balloc_frame {gd_blk s2 sbi2 g} s2 (s2\<lparr>g_disk := d3\<rparr>)"
      "\<exists>c. 32 \<le> unat c \<and> unat c \<le> 64 \<and> gd_at (s2\<lparr>g_disk := d3\<rparr>) g = Some (gd_trunc c ?gd)"
      "\<forall>h < s_groups_count sbi. (h \<noteq> g \<longrightarrow> gd_at (s2\<lparr>g_disk := d3\<rparr>) h = gd_at s2 h) \<and>
         group_bitmap (s2\<lparr>g_disk := d3\<rparr>) h = group_bitmap s2 h"
    using g G2(2) by auto
  let ?s3 = "s2\<lparr>g_disk := d3\<rparr>"
  have fr3: "balloc_frame {bm_blk s g, gd_blk s sbi g} s ?s3"
    using balloc_frame_trans [OF fr2 W(3), of "{bm_blk s g, gd_blk s sbi g}"] G2(11) by simp
  have sbi3: "s_fs_info ?s3 = Some sbi2" by (simp add: sbi2)
  note G3 = balloc_frame_geo [OF fr3 D(2) sbi3]
  have "\<exists>s' sbi'. balloc_sync_tick (upd_sbi (balloc_next_goal g (of_nat i + of_nat n) gb gc)
        (if g = 0 then upd_sbi (\<lambda>k. k\<lparr>s_group_desc := Some ?gd\<rparr>) ?s3 else ?s3)) = s' \<and> alloc_ok s' sbi' \<and>
    balloc_frame {sb_blocknr (ext4_block_size ?s3)} ?s3 s' \<and>
    (\<forall>h < s_groups_count sbi2. gd_at s' h = gd_at ?s3 h \<and> group_bitmap s' h = group_bitmap ?s3 h)"
    using g S2(5) [OF g] W(5) G3(2,7) buf(2)
    by (intro commit_tail [OF W(2), of g ?m]) (simp_all add: sbi2_def f_def c)
  then obtain s' sbi' where F: "balloc_sync_tick (upd_sbi (balloc_next_goal g (of_nat i + of_nat n) gb gc)
        (if g = 0 then upd_sbi (\<lambda>k. k\<lparr>s_group_desc := Some ?gd\<rparr>) ?s3 else ?s3)) = s'"
    "alloc_ok s' sbi'" "balloc_frame {sb_blocknr (ext4_block_size s)} ?s3 s'"
    "\<forall>h < s_groups_count sbi. gd_at s' h = gd_at ?s3 h \<and> group_bitmap s' h = group_bitmap ?s3 h"
    using G3(2,4) by auto
  have "balloc_commit s g gd (of_nat i) (of_nat n) start gb bc gc =
      Group_Found (start + of_nat i) (of_nat n) s'"
  proof -
    have "upd_sbi (\<lambda>k. k\<lparr>s_bmap_cache_dirty := True\<rparr>) (upd_sbi (\<lambda>k. k\<lparr>s_bmap_cache_buf := Some ?m\<rparr>) s) = ?s1"
      by (cases "s_fs_info s") (simp_all add: upd_sbi_def f_def)
    then show ?thesis
      using D(2) buf(1) S2(1) W(1) F(1) guards by (simp add: balloc_commit_def ui Let_def)
  qed
  moreover have "took s sbi g i n s' sbi'"
  proof -
    have fr: "balloc_frame {bm_blk s g, gd_blk s sbi g, sb_blocknr (ext4_block_size s)} s s'"
      using balloc_frame_trans [OF fr3 F(3), of "{bm_blk s g, gd_blk s sbi g, sb_blocknr (ext4_block_size s)}"]
      by auto
    have bms: "group_bitmap s' h = (if h = g then map_option (\<lambda>b. ext4_bmap_mark_blocks b i n) (group_bitmap s g)
        else group_bitmap s h)" if "h < s_groups_count sbi" for h
      using F(4) W(5) S2(5) [OF that] that buf(3) by auto
    have gds: "h \<noteq> g \<longrightarrow> gd_at s' h = gd_at s h" if "h < s_groups_count sbi" for h
      using F(4) W(5) S2(4) [OF that] that by auto
    obtain cc where cc: "32 \<le> unat cc" "unat cc \<le> 64" "gd_at ?s3 g = Some (gd_trunc cc ?gd)" using W(4) by blast
    have "map_option bg_free_blocks_count_lo (gd_at s' g) = Some (bg_free_blocks_count_lo ?gd)"
      using F(4) g cc gd_trunc_lo(4) [OF cc(1,2)] by simp
    moreover have "bm_blk s' g = bm_blk s g"
      using F(4) g cc gd gd_trunc_lo(1) [OF cc(1,2)] by (simp add: bm_blk_def)
    ultimately show ?thesis using fr bms gds F(2) gd by (simp add: took_def)
  qed
  ultimately show ?thesis by blast
qed

end
