(* ===== verification/Balloc_Alloc.thy ===== *)
theory Balloc_Alloc
  imports Balloc_Steps
begin

text \<open>
  Allocation over all groups: the geometry, one group, a pass, ext4_new_blocks_in_group. In a
  well-formed state a pass either takes a run that was free, or leaves the disk as it is and every
  group without a suitable run.
\<close>

section \<open>Geometry\<close>

text \<open>
  What the superblock must promise: a sane number of blocks, and groups that cover them without
  wrap-around of the 32-bit products of the code.
\<close>

definition geo_bounds :: "kfs \<Rightarrow> ext4_sb_info \<Rightarrow> bool" where
  "geo_bounds s sbi \<longleftrightarrow> 0 < unat (s_blocks_count sbi) \<and> unat (s_blocks_count sbi) \<le> 2 ^ 28 \<and>
     0 < unat (s_groups_count sbi) \<and> unat (s_groups_count sbi) * (8 * fs_bsz s) < 2 ^ 32"

definition geom_ok :: "kfs \<Rightarrow> ext4_sb_info \<Rightarrow> u32 \<times> u32 \<times> u32 \<Rightarrow> bool" where
  "geom_ok s sbi geom = (case geom of (bpg, bc, gc) \<Rightarrow>
     0 < unat bpg \<and> unat bpg \<le> 8 * fs_bsz s \<and> 0 < unat bc \<and> unat bc \<le> 2 ^ 28 \<and>
     unat bc \<le> unat (s_blocks_count sbi) \<and>
     0 < unat gc \<and> unat gc \<le> unat (s_groups_count sbi) \<and> unat gc \<le> 2 ^ 28 \<and>
     unat bc \<le> unat gc * unat bpg \<and>
     (\<forall>g. g < unat gc \<longrightarrow> g * unat bpg < unat bc))"

lemma balloc_geometry_ok:
  assumes core: "alloc_core s sbi" and gb: "geo_bounds s sbi" and gm: "balloc_geometry s = Some geom"
  shows "geom_ok s sbi geom"
proof -
  note D = alloc_coreD [OF core]
  define raw where "raw = (ext4_get_block_size s * 8)"
  define cnt where "cnt = (balloc_blocks_count s sbi)"
  define dev where "dev = (balloc_clip_device s cnt)"
  define bpg where "bpg = (if raw > dev then dev else raw)"
  define bym where "bym = (s_groups_count sbi * bpg)"
  define bc where "bc = (if s_groups_count sbi > 0 \<and> bym > 0 \<and> bym < dev then bym else dev)"
  define gc where "gc = ((bc + bpg - 1) div bpg)"
  have geom: "geom = (bpg, bc, gc)" and nz: "raw \<noteq> 0" "dev \<noteq> 0" "gc \<noteq> 0"
    using gm D(2) unfolding balloc_geometry_def Let_def
    by (simp_all add: raw_def cnt_def dev_def bpg_def bym_def bc_def gc_def split: if_splits)
    (auto simp: raw_def cnt_def dev_def bpg_def bym_def bc_def gc_def)
  have bs: "fs_bsz s \<le> 4096" "1024 \<le> fs_bsz s" using D by auto
  have u0: "unat raw = 8 * fs_bsz s"
    using bs unat_mult_nowrap [of "ext4_get_block_size s" 8] by (simp add: raw_def ext4_get_block_size_def fs_bsz_def)
  have sb: "0 < unat (s_blocks_count sbi)" "unat (s_blocks_count sbi) \<le> 2 ^ 28" using gb by (auto simp: geo_bounds_def)
  have bc0: "unat cnt \<le> unat (s_blocks_count sbi)" "0 < unat cnt"
    using sb unat_gt_0 [of "ext4_get_blocks_count s"]
    by (auto simp: cnt_def balloc_blocks_count_def Let_def word_less_nat_alt)
  have bc1: "unat dev \<le> unat cnt"
    using bc0 by (auto simp: dev_def balloc_clip_device_def Let_def word_less_nat_alt)
  have p1: "0 < unat dev" using nz(2) by (simp add: unat_gt_0)
  have bpg: "0 < unat bpg" "unat bpg \<le> 8 * fs_bsz s" "unat bpg \<le> unat dev"
    using p1 u0 bs by (auto simp: bpg_def word_less_nat_alt)
  have "unat (s_groups_count sbi) * unat bpg \<le> unat (s_groups_count sbi) * (8 * fs_bsz s)"
    using bpg(2) by (rule mult_le_mono2)
  then have nw: "unat (s_groups_count sbi) * unat bpg < 2 ^ 32" using gb by (simp only: geo_bounds_def) linarith
  then have byv: "unat bym = unat (s_groups_count sbi) * unat bpg"
    unfolding bym_def by (intro unat_mult_nowrap) simp
  have g0: "0 < unat (s_groups_count sbi)" using gb by (simp add: geo_bounds_def)
  have bypos: "bym > 0" using byv g0 bpg(1) by (simp add: word_less_nat_alt)
  have gpos: "s_groups_count sbi > 0" using g0 by (simp add: word_less_nat_alt)
  have bcv: "unat bc = min (unat (s_groups_count sbi) * unat bpg) (unat dev)"
    using bypos gpos by (auto simp: bc_def word_less_nat_alt byv)
  have bcb: "unat bc \<le> unat (s_blocks_count sbi)" using bcv bc1 bc0 by linarith
  have bc28: "unat bc \<le> 2 ^ 28" using bcb sb by linarith
  have bcp: "0 < unat bc" using bcv p1 g0 bpg(1) by simp
  have s1: "unat (bc + bpg) = unat bc + unat bpg"
    using bc28 bpg(2) bs by (intro unat_add_nowrap) simp
  have "unat (bc + bpg - 1) = unat bc + unat bpg - 1"
    using s1 bpg(1) by (subst unat_sub_le) (simp_all add: word_le_nat_alt)
  then have gc: "unat gc = (unat bc + unat bpg - 1) div unat bpg" by (simp add: gc_def unat_div)
  have gc_bound: "unat gc * unat bpg < unat bc + unat bpg"
  proof -
    have "unat gc * unat bpg \<le> unat bc + unat bpg - 1" unfolding gc by (rule div_times_less_eq_dividend)
    then show ?thesis using bcp by linarith
  qed
  have cover: "unat bc \<le> unat gc * unat bpg"
  proof -
    have "unat gc * unat bpg + (unat bc + unat bpg - 1) mod unat bpg = unat bc + unat bpg - 1"
      unfolding gc by (rule div_mult_mod_eq)
    moreover have "(unat bc + unat bpg - 1) mod unat bpg < unat bpg" using bpg(1) by simp
    ultimately show ?thesis by linarith
  qed
  have idx: "g * unat bpg < unat bc" if "g < unat gc" for g
  proof -
    have "(g + 1) * unat bpg \<le> unat gc * unat bpg" using that by (intro mult_le_mono1) simp
    with gc_bound show ?thesis by simp
  qed
  have gle: "unat gc \<le> unat (s_groups_count sbi)"
  proof (rule ccontr)
    assume "\<not> unat gc \<le> unat (s_groups_count sbi)"
    then have "unat (s_groups_count sbi) * unat bpg < unat bc" by (intro idx) simp
    with bcv show False by simp
  qed
  have "unat gc \<le> unat bc"
  proof (rule ccontr)
    assume "\<not> unat gc \<le> unat bc"
    then have "unat bc * unat bpg < unat bc" by (intro idx) simp
    with bpg(1) show False by simp
  qed
  then have "unat gc \<le> 2 ^ 28" using bc28 by linarith
  with cover idx gle bpg bcb bc28 bcp nz(3) show ?thesis
    unfolding geom geom_ok_def prod.case by (simp only: unat_gt_0) simp
qed

section \<open>One group\<close>

definition same_disk :: "kfs \<Rightarrow> ext4_sb_info \<Rightarrow> kfs \<Rightarrow> ext4_sb_info \<Rightarrow> bool" where
  "same_disk s sbi s' sbi' \<longleftrightarrow> alloc_ok s' sbi' \<and> balloc_frame {} s s' \<and>
     (\<forall>h < s_groups_count sbi. group_bitmap s' h = group_bitmap s h \<and> gd_at s' h = gd_at s h)"

text \<open>No bit from 1 up to the end of the group is free.\<close>

definition group_full :: "kfs \<Rightarrow> u32 \<Rightarrow> nat \<Rightarrow> bool" where
  "group_full s g group_blocks \<longleftrightarrow>
     (\<forall>buf. group_bitmap s g = Some buf \<longrightarrow> (\<forall>j\<in>{1..<group_blocks}. \<not> bm_free buf j))"

definition blocks_of_group :: "u32 \<times> u32 \<times> u32 \<Rightarrow> nat \<Rightarrow> nat" where
  "blocks_of_group geom g = (case geom of (bpg, bc, gc) \<Rightarrow> min (unat bpg) (unat bc - g * unat bpg))"

text \<open>The run of n blocks from b was free and is taken now.\<close>

definition run_taken :: "kfs \<Rightarrow> ext4_sb_info \<Rightarrow> u32 \<times> u32 \<times> u32 \<Rightarrow> u32 \<Rightarrow> nat \<Rightarrow> u32 \<Rightarrow> u32 \<Rightarrow> kfs \<Rightarrow> bool" where
  "run_taken s sbi geom g i b n s' \<longleftrightarrow>
     1 \<le> i \<and> 0 < unat n \<and> i + unat n \<le> blocks_of_group geom (unat g) \<and>
     unat b = unat g * unat (fst geom) + i \<and>
     (\<exists>buf. group_bitmap s g = Some buf \<and> free_seg buf i (i + unat n)) \<and>
     (\<exists>sbi'. took s sbi g i (unat n) s' sbi')"

lemma same_disk_refl: "alloc_ok s sbi \<Longrightarrow> same_disk s sbi s sbi"
  by (auto simp: same_disk_def alloc_ok_def alloc_core_def intro: balloc_frame_refl)

lemma start_bit_range:
  assumes "1 < unat gb"
  shows "1 \<le> unat (balloc_start_bit sbi g gb)" "unat (balloc_start_bit sbi g gb) < unat gb"
  using assms by (auto simp: balloc_start_bit_def Let_def word_less_nat_alt word_le_nat_alt split: option.splits)

lemma group_span:
  assumes gm: "geom_ok s sbi (bpg, bc, gc)" and g: "g < gc" and bs: "fs_bsz s \<le> 4096"
  shows "unat (g * bpg) = unat g * unat bpg" and "\<not> bc \<le> g * bpg"
    and "unat (if g * bpg + bpg > bc then bc - g * bpg else bpg) = blocks_of_group (bpg, bc, gc) (unat g)"
proof -
  have lt: "unat g * unat bpg < unat bc" using gm g by (simp add: geom_ok_def word_less_nat_alt)
  then show p: "unat (g * bpg) = unat g * unat bpg"
    using unat_u32_bound [of bc] by (intro unat_mult_nowrap) simp
  with lt show "\<not> bc \<le> g * bpg" by (simp add: word_le_nat_alt)
  have "unat bc \<le> 2 ^ 28" "unat bpg \<le> 8 * 4096" using gm bs by (auto simp: geom_ok_def)
  then have "unat (g * bpg + bpg) = unat g * unat bpg + unat bpg"
    using p lt by (subst unat_add_nowrap) simp_all
  then show "unat (if g * bpg + bpg > bc then bc - g * bpg else bpg) = blocks_of_group (bpg, bc, gc) (unat g)"
    using p lt by (auto simp: blocks_of_group_def word_less_nat_alt word_le_nat_alt unat_sub_le)
qed

lemma try_group_ok:
  assumes ok: "alloc_ok s sbi" and gm: "geom_ok s sbi (bpg, bc, gc)" and g: "g < gc" and goal: "0 < unat goal"
  shows "case balloc_try_group (bpg, bc, gc) goal full g s of
      Group_Skip s' \<Rightarrow> (\<exists>sbi'. same_disk s sbi s' sbi') \<and>
        (\<not> full \<longrightarrow> group_full s g (blocks_of_group (bpg, bc, gc) (unat g)))
    | Group_Stop s' \<Rightarrow> False
    | Group_Found b n s' \<Rightarrow> \<exists>i. run_taken s sbi (bpg, bc, gc) g i b n s' \<and>
        unat n \<le> unat goal \<and> (full \<longrightarrow> n = goal)"
proof -
  have core: "alloc_core s sbi" using ok by (simp add: alloc_ok_def)
  note D = alloc_coreD [OF core]
  note sp = group_span [OF gm g D(7)]
  let ?gs = "g * bpg"
  let ?gb = "if ?gs + bpg > bc then bc - ?gs else bpg"
  have gs: "g < s_groups_count sbi" using gm g by (auto simp: geom_ok_def word_less_nat_alt)
  show ?thesis
  proof (cases "?gb \<le> 1")
    case True
    then have "blocks_of_group (bpg, bc, gc) (unat g) \<le> 1" using sp(3) by (simp add: word_le_nat_alt)
    then have "group_full s g (blocks_of_group (bpg, bc, gc) (unat g))" by (simp add: group_full_def)
    moreover have "balloc_try_group (bpg, bc, gc) goal full g s = Group_Skip s"
      using True sp(2) by (simp add: balloc_try_group_def Let_def)
    ultimately show ?thesis using same_disk_refl [OF ok] by auto
  next
    case False
    then have gb1: "1 < unat ?gb" by (simp add: word_le_nat_alt not_le)
    have "unat bpg \<le> fs_bsz s * 8" using gm by (simp add: geom_ok_def)
    then have gb8: "unat ?gb \<le> fs_bsz s * 8" unfolding sp(3) blocks_of_group_def by simp
    obtain gd where gd: "gd_at s g = Some gd" "ext4_read_group_desc s g = (Some gd, s)"
      "bg_block_bitmap_lo gd = bm_blk s g" "bm_blk s g \<noteq> 0"
      by (rule alloc_core_gd [OF core gs])
    obtain buf where buf: "group_bitmap s g = Some buf" "length buf = fs_bsz s"
      and ld: "ext4_bmap_cache_load s g = (True, upd_sbi (with_cache g buf) s)"
      and ok2: "alloc_ok (upd_sbi (with_cache g buf) s) (with_cache g buf sbi)"
      using cache_load_ok [OF ok gs] by blast
    let ?s2 = "upd_sbi (with_cache g buf) s" and ?sbi2 = "with_cache g buf sbi"
    have sbi2: "s_fs_info ?s2 = Some ?sbi2" using D(2) by simp
    have fr: "balloc_frame {} s ?s2" by (rule balloc_frame_upd [OF D(1)]) simp
    have sm: "same_disk s sbi ?s2 ?sbi2" using ok2 fr by (simp add: same_disk_def)
    have bs2: "unat (ext4_get_block_size ?s2) = fs_bsz s" by (simp add: upd_sbi_def fs_bsz_def ext4_get_block_size_def)
    let ?st = "balloc_start_bit ?sbi2 g ?gb"
    note st = start_bit_range [OF gb1, of ?sbi2 g]
    obtain found i n where fr0: "balloc_find_run buf (fs_bsz s) (unat ?st) (unat ?gb) (unat goal) full = (found, i, n)"
      by (metis surj_pair)
    note spec = balloc_find_run_spec [OF fr0 gb8 st goal]
    have eq: "balloc_try_group (bpg, bc, gc) goal full g s =
        (if found then balloc_commit ?s2 g gd (of_nat i) (of_nat n) ?gs ?gb bc gc else Group_Skip ?s2)"
      using False sp(2) gd ld sbi2 bs2 fr0 by (simp add: balloc_try_group_def Let_def del: fs_info_upd)
    show ?thesis
    proof (cases found)
      case F: False
      have "group_full s g (unat ?gb)" if "\<not> full"
        using spec(2) [OF F that] buf by (simp add: group_full_def)
      then have "\<not> full \<longrightarrow> group_full s g (blocks_of_group (bpg, bc, gc) (unat g))" unfolding sp(3) by blast
      with F eq sm show ?thesis by auto
    next
      case T: True
      have run: "1 \<le> i" "0 < n" "n \<le> unat goal" "i + n \<le> unat ?gb" "free_seg buf i (i + n)" "full \<longrightarrow> n = unat goal"
        using spec(1) [OF T] by auto
      have gbs: "blocks_of_group (bpg, bc, gc) (unat g) \<le> unat bc - unat g * unat bpg"
        by (simp add: blocks_of_group_def)
      have g2: "g < s_groups_count ?sbi2" "gd_at ?s2 g = Some gd" using gs gd by simp_all
      have n2: "i + n \<le> 8 * fs_bsz ?s2" using run(4) gb8 by (simp add: fs_bsz_def upd_sbi_def)
      have lt: "unat g * unat bpg < unat bc" using gm g by (simp add: geom_ok_def word_less_nat_alt)
      have fit: "unat ?gs + i + n \<le> unat bc" using run(4) sp gbs lt by linarith
      obtain s' sbi' where c: "balloc_commit ?s2 g gd (of_nat i) (of_nat n) ?gs ?gb bc gc =
          Group_Found (?gs + of_nat i) (of_nat n) s'" and tk: "took ?s2 ?sbi2 g i n s' sbi'"
        using commit_ok [OF ok2 g2(1) _ _ g2(2) run(2) n2 fit, of ?gb gc] by auto
      have nn: "unat (of_nat n :: u32) = n"
        using run(3) unat_u32_bound [of goal] by (intro unat_of_nat_fit) simp
      have bb: "unat (?gs + of_nat i) = unat g * unat bpg + i"
        using fit sp(1) unat_u32_bound [of bc] run(2) by (subst unat_add_of_nat) simp_all
      have bm: "bm_blk ?s2 g = bm_blk s g" "gd_blk ?s2 ?sbi2 g = gd_blk s sbi g"
        using balloc_frame_geo(11) [OF fr D(2) sbi2, of g] by (simp_all add: bm_blk_def)
      let ?B = "{bm_blk s g, gd_blk s sbi g, sb_blocknr (ext4_block_size s)}"
      have bs3: "ext4_block_size ?s2 = ext4_block_size s" by (simp add: upd_sbi_def)
      have "balloc_frame ?B ?s2 s'" using tk bm by (simp add: took_def bs3)
      from balloc_frame_trans [OF fr this, of ?B] tk bm(1)
      have "took s sbi g i n s' sbi'" by (simp add: took_def)
      then have "run_taken s sbi (bpg, bc, gc) g i (?gs + of_nat i) (of_nat n) s'"
        using run bb nn buf sp(3) by (auto simp: run_taken_def)
      moreover have "full \<longrightarrow> (of_nat n :: u32) = goal" using run(6) by auto
      ultimately show ?thesis using T eq c run(3) nn by auto
    qed
  qed
qed

section \<open>A pass over the groups\<close>

definition scan_group :: "u32 \<Rightarrow> u32 \<Rightarrow> nat \<Rightarrow> u32" where
  "scan_group gc start k = (if start + of_nat k \<ge> gc then start + of_nat k - gc else start + of_nat k)"

lemma unat_scan_group:
  assumes "unat gc \<le> 2 ^ 28" "start < gc" "k < unat gc"
  shows "unat (scan_group gc start k) = (unat start + k) mod unat gc"
proof -
  have st: "unat start < unat gc" using assms(2) by (simp add: word_less_nat_alt)
  have u: "unat (start + of_nat k) = unat start + k"
    using assms st by (intro unat_add_of_nat) simp
  show ?thesis
  proof (cases "start + of_nat k \<ge> gc")
    case True
    then have ge: "unat gc \<le> unat start + k" using u by (simp add: word_le_nat_alt)
    have "(unat start + k) mod unat gc = (unat start + k - unat gc) mod unat gc" using ge by (simp add: le_mod_geq)
    also have "\<dots> = unat start + k - unat gc" using st assms(3) by (intro mod_less) linarith
    finally show ?thesis using True u by (simp add: scan_group_def unat_sub_le)
  next
    case False
    then show ?thesis using u by (simp add: scan_group_def word_le_nat_alt)
  qed
qed

lemma scan_group_less: "unat gc \<le> 2 ^ 28 \<Longrightarrow> start < gc \<Longrightarrow> k < unat gc \<Longrightarrow> scan_group gc start k < gc"
  by (simp add: word_less_nat_alt unat_scan_group)

lemma scan_group_surj:
  assumes "unat gc \<le> 2 ^ 28" "start < gc" "g < gc"
  shows "\<exists>k < unat gc. scan_group gc start k = g"
proof -
  have lt: "unat start < unat gc" "unat g < unat gc" using assms by (simp_all add: word_less_nat_alt)
  let ?k = "(unat g + unat gc - unat start) mod unat gc"
  have k: "?k < unat gc" using lt by (intro mod_less_divisor) linarith
  have "(unat start + ?k) mod unat gc = (unat start + (unat g + unat gc - unat start)) mod unat gc"
    by (rule mod_add_right_eq)
  also have "\<dots> = unat g" using lt by simp
  finally have "unat (scan_group gc start ?k) = unat g" using unat_scan_group [OF assms(1,2) k] by simp
  with k show ?thesis using word_eq_by_unat by blast
qed

lemma same_disk_geo:
  assumes "same_disk s sbi s' sbi'" "s_fs_info s = Some sbi"
  shows "sbi_geo sbi' = sbi_geo sbi" "fs_bsz s' = fs_bsz s" "ext4_block_size s' = ext4_block_size s"
    "s_groups_count sbi' = s_groups_count sbi" "gd_blk s' sbi' g = gd_blk s sbi g"
proof -
  have fr: "balloc_frame {} s s'" and "s_fs_info s' = Some sbi'"
    using assms(1) by (auto simp: same_disk_def alloc_ok_def alloc_core_def)
  from balloc_frame_geo [OF fr assms(2) this(2)]
  show "sbi_geo sbi' = sbi_geo sbi" "fs_bsz s' = fs_bsz s" "ext4_block_size s' = ext4_block_size s"
    "s_groups_count sbi' = s_groups_count sbi" "gd_blk s' sbi' g = gd_blk s sbi g" by blast+
qed

lemma geom_ok_same:
  assumes "same_disk s sbi s' sbi'" "s_fs_info s = Some sbi"
  shows "geom_ok s' sbi' = geom_ok s sbi"
proof -
  have "s_blocks_count sbi' = s_blocks_count sbi"
    using same_disk_geo(1) [OF assms] by (simp add: sbi_geo_def)
  then show ?thesis using same_disk_geo(2,4) [OF assms] by (simp add: geom_ok_def fun_eq_iff)
qed

lemma same_disk_trans:
  assumes 1: "same_disk s sbi t sbi1" and 2: "same_disk t sbi1 u sbi2" and sbi: "s_fs_info s = Some sbi"
  shows "same_disk s sbi u sbi2"
  using 1 2 same_disk_geo(4) [OF 1 sbi] balloc_frame_trans [of "{}" s t "{}" u "{}"]
  by (simp add: same_disk_def)

lemma run_taken_same:
  assumes sm: "same_disk s sbi t sbi1" and sbi: "s_fs_info s = Some sbi" and gs: "g < s_groups_count sbi"
    and rt: "run_taken t sbi1 geom g i b n u"
  shows "run_taken s sbi geom g i b n u"
proof -
  note G = same_disk_geo [OF sm sbi]
  obtain sbi' where tk: "took t sbi1 g i (unat n) u sbi'" using rt by (auto simp: run_taken_def)
  have bm: "bm_blk t g = bm_blk s g" using sm gs by (simp add: same_disk_def bm_blk_def)
  let ?B = "{bm_blk s g, gd_blk s sbi g, sb_blocknr (ext4_block_size s)}"
  have "balloc_frame ?B t u" using tk bm G(3,5) by (simp add: took_def)
  moreover have "balloc_frame {} s t" using sm by (simp add: same_disk_def)
  ultimately have "balloc_frame ?B s u" by (intro balloc_frame_trans [of "{}" s t ?B u ?B]) simp_all
  with tk sm gs G(4) bm have "took s sbi g i (unat n) u sbi'" by (simp add: took_def same_disk_def)
  moreover have "group_bitmap t g = group_bitmap s g" using sm gs by (simp add: same_disk_def)
  ultimately show ?thesis using rt by (auto simp: run_taken_def)
qed

lemma scan_groups_ok:
  assumes "alloc_ok s sbi" and gm: "geom_ok s sbi (bpg, bc, gc)" and "start < gc" and "0 < unat goal"
    and "set ks \<subseteq> {..<unat gc}"
  shows "case balloc_scan_groups (bpg, bc, gc) goal full start ks s of
      Group_Skip s' \<Rightarrow> (\<exists>sbi'. same_disk s sbi s' sbi') \<and>
        (\<not> full \<longrightarrow> (\<forall>k\<in>set ks. group_full s (scan_group gc start k)
                             (blocks_of_group (bpg, bc, gc) (unat (scan_group gc start k)))))
    | Group_Stop s' \<Rightarrow> False
    | Group_Found b n s' \<Rightarrow> \<exists>g i. g < gc \<and> run_taken s sbi (bpg, bc, gc) g i b n s' \<and>
        unat n \<le> unat goal \<and> (full \<longrightarrow> n = goal)"
  using assms
proof (induction ks arbitrary: s sbi)
  case Nil
  then show ?case using same_disk_refl by auto
next
  case (Cons k ks)
  let ?g = "scan_group gc start k" and ?geom = "(bpg, bc, gc)"
  have sbi: "s_fs_info s = Some sbi" using Cons.prems(1) by (simp add: alloc_ok_def alloc_core_def)
  have gc28: "unat gc \<le> 2 ^ 28" "unat gc \<le> unat (s_groups_count sbi)" using Cons.prems(2) by (auto simp: geom_ok_def)
  have g: "?g < gc" using Cons.prems(3,5) gc28 by (intro scan_group_less) simp_all
  note T = try_group_ok [OF Cons.prems(1,2) g Cons.prems(4), of full]
  have vis: "(if start + of_nat k \<ge> gc then start + of_nat k - gc else start + of_nat k) = ?g"
    by (simp add: scan_group_def)
  show ?case
  proof (cases "balloc_try_group ?geom goal full ?g s")
    case (Group_Skip t)
    with T obtain sbi1 where sm: "same_disk s sbi t sbi1"
      and full0: "\<not> full \<longrightarrow> group_full s ?g (blocks_of_group ?geom (unat ?g))" by auto
    have ok1: "alloc_ok t sbi1" using sm by (simp add: same_disk_def)
    have gm1: "geom_ok t sbi1 ?geom" using geom_ok_same [OF sm sbi] Cons.prems(2) by simp
    have ks: "set ks \<subseteq> {..<unat gc}" using Cons.prems(5) by simp
    have eq: "balloc_scan_groups ?geom goal full start (k # ks) s = balloc_scan_groups ?geom goal full start ks t"
      using Group_Skip vis by (simp add: Let_def)
    note IH = Cons.IH [OF ok1 gm1 Cons.prems(3,4) ks]
    show ?thesis
    proof (cases "balloc_scan_groups ?geom goal full start ks t")
      case (Group_Skip u)
      with IH obtain sbi2 where sm2: "same_disk t sbi1 u sbi2"
        and full1: "\<not> full \<longrightarrow> (\<forall>k\<in>set ks. group_full t (scan_group gc start k)
                             (blocks_of_group ?geom (unat (scan_group gc start k))))" by auto
      have bmt: "group_bitmap t h = group_bitmap s h" if "h < gc" for h
        using sm that gc28 by (simp add: same_disk_def word_less_nat_alt)
      have "group_full s (scan_group gc start j) (blocks_of_group ?geom (unat (scan_group gc start j)))"
        if "\<not> full" "j \<in> set ks" for j
      proof -
        have "scan_group gc start j < gc" using ks that Cons.prems(3) gc28 by (intro scan_group_less) auto
        with full1 that bmt show ?thesis by (simp add: group_full_def)
      qed
      with full0 same_disk_trans [OF sm sm2 sbi] eq Group_Skip show ?thesis by auto
    next
      case (Group_Stop u)
      with IH show ?thesis by simp
    next
      case (Group_Found b n u)
      with IH obtain g i where F: "g < gc" "run_taken t sbi1 ?geom g i b n u" "unat n \<le> unat goal" "full \<longrightarrow> n = goal"
        by auto
      have "g < s_groups_count sbi" using F(1) gc28(2) by (simp add: word_less_nat_alt)
      from run_taken_same [OF sm sbi this F(2)] F Group_Found eq show ?thesis by auto
    qed
  next
    case (Group_Stop t)
    with T show ?thesis by simp
  next
    case (Group_Found b n t)
    with T obtain i where "run_taken s sbi ?geom ?g i b n t" "unat n \<le> unat goal" "full \<longrightarrow> n = goal" by auto
    moreover have "balloc_scan_groups ?geom goal full start (k # ks) s = Group_Found b n t"
      using Group_Found vis by (simp add: Let_def)
    ultimately show ?thesis using g by auto
  qed
qed

section \<open>The allocator\<close>

definition all_full :: "kfs \<Rightarrow> u32 \<times> u32 \<times> u32 \<Rightarrow> bool" where
  "all_full s geom \<longleftrightarrow> (\<forall>g < snd (snd geom). group_full s g (blocks_of_group geom (unat g)))"

lemma new_blocks_spec:
  assumes ok: "alloc_ok s sbi" and gb: "geo_bounds s sbi"
    and r: "ext4_new_blocks_in_group s goal pref = ((b, n), s')"
  shows "b \<noteq> 0 \<Longrightarrow> \<exists>geom g i. balloc_geometry s = Some geom \<and> geom_ok s sbi geom \<and> g < snd (snd geom) \<and>
      run_taken s sbi geom g i b n s' \<and> unat n \<le> max 1 (unat goal)"
    and "b = 0 \<Longrightarrow> (\<exists>sbi'. same_disk s sbi s' sbi') \<and>
      (\<forall>geom. balloc_geometry s = Some geom \<longrightarrow> all_full s geom)"
proof -
  have sbi: "s_fs_info s = Some sbi" using ok by (simp add: alloc_ok_def alloc_core_def)
  have "(b \<noteq> 0 \<longrightarrow> (\<exists>geom g i. balloc_geometry s = Some geom \<and> geom_ok s sbi geom \<and> g < snd (snd geom) \<and>
      run_taken s sbi geom g i b n s' \<and> unat n \<le> max 1 (unat goal))) \<and>
    (b = 0 \<longrightarrow> (\<exists>sbi'. same_disk s sbi s' sbi') \<and> (\<forall>geom. balloc_geometry s = Some geom \<longrightarrow> all_full s geom))"
    (is "?P b n s'")
  proof (cases "balloc_geometry s")
    case None
    with r sbi have "b = 0" "s' = s" by (auto simp: ext4_new_blocks_in_group_def)
    with None same_disk_refl [OF ok] show ?thesis by auto
  next
    case (Some geom)
    obtain bpg bc gc where geom: "geom = (bpg, bc, gc)" by (cases geom) auto
    have "geom_ok s sbi geom" using ok gb Some by (intro balloc_geometry_ok) (auto simp: alloc_ok_def)
    then have gm: "geom_ok s sbi (bpg, bc, gc)" by (simp add: geom)
    let ?goal = "if goal = 0 then 1 else goal"
    let ?st = "balloc_start_group sbi pref gc" and ?ks = "[0..<unat gc]"
    have gpos: "0 < unat ?goal" by (auto simp: unat_gt_0)
    have gle: "unat ?goal \<le> max 1 (unat goal)" by auto
    have gc0: "0 < unat gc" "unat gc \<le> 2 ^ 28" using gm by (auto simp: geom_ok_def)
    have st: "?st < gc" using gc0(1) by (auto simp: balloc_start_group_def Let_def word_less_nat_alt word_le_nat_alt)
    have ks: "set ?ks \<subseteq> {..<unat gc}" by auto
    have allf: "all_full s geom" if "\<forall>k\<in>set ?ks. group_full s (scan_group gc ?st k) (blocks_of_group (bpg, bc, gc) (unat (scan_group gc ?st k)))"
      unfolding all_full_def geom snd_conv
    proof (intro allI impI)
      fix g assume "g < gc"
      then obtain k where "k < unat gc" "scan_group gc ?st k = g" using scan_group_surj [OF gc0(2) st] by blast
      with that show "group_full s g (blocks_of_group (bpg, bc, gc) (unat g))" by auto
    qed
    have found: "?P b' n' t'" if "run_taken s sbi (bpg, bc, gc) g i b' n' t'" "g < gc" "unat n' \<le> unat ?goal" for b' n' t' g i
    proof -
      have "b' \<noteq> 0" using that(1) by (auto simp: run_taken_def)
      with that gle Some gm geom show ?thesis by auto
    qed
    note P1 = scan_groups_ok [OF ok gm st gpos ks]
    show ?thesis
    proof (cases "balloc_scan_groups (bpg, bc, gc) ?goal (?goal > 1) ?st ?ks s")
      case (Group_Stop t)
      with P1 [of "?goal > 1"] show ?thesis by simp
    next
      case (Group_Found b1 n1 t)
      with P1 [of "?goal > 1"] obtain g i where "g < gc" "run_taken s sbi (bpg, bc, gc) g i b1 n1 t" "unat n1 \<le> unat ?goal" by auto
      moreover have "b = b1" "n = n1" "s' = t"
        using r sbi Some Group_Found by (auto simp: ext4_new_blocks_in_group_def geom Let_def)
      ultimately show ?thesis using found by blast
    next
      case (Group_Skip t)
      with P1 [of "?goal > 1"] obtain sbi1 where sm: "same_disk s sbi t sbi1" by auto
      show ?thesis
      proof (cases "?goal = 1")
        case True
        then have "\<not> ?goal > 1" by simp
        then have "all_full s geom" using P1 [of "?goal > 1"] Group_Skip by (intro allf) auto
        moreover have "b = 0" "s' = t"
          using r sbi Some Group_Skip True by (auto simp: ext4_new_blocks_in_group_def geom Let_def split: if_splits)
        ultimately show ?thesis using sm Some by auto
      next
        case False
        have ok1: "alloc_ok t sbi1" using sm by (simp add: same_disk_def)
        have gm1: "geom_ok t sbi1 (bpg, bc, gc)" using geom_ok_same [OF sm sbi] gm by simp
        note P2 = scan_groups_ok [OF ok1 gm1 st gpos ks, of False]
        have r2: "((b, n), s') = (case balloc_scan_groups (bpg, bc, gc) ?goal False ?st ?ks t of
             Group_Found b n s2 \<Rightarrow> ((b, n), s2) | Group_Stop s2 \<Rightarrow> ((0, 0), s2) | Group_Skip s2 \<Rightarrow> ((0, 0), s2))"
          using r sbi Some Group_Skip False by (simp add: ext4_new_blocks_in_group_def geom Let_def split: if_splits)
        show ?thesis
        proof (cases "balloc_scan_groups (bpg, bc, gc) ?goal False ?st ?ks t")
          case (Group_Stop u)
          with P2 show ?thesis by simp
        next
          case (Group_Found b1 n1 u)
          with P2 obtain g i where F: "g < gc" "run_taken t sbi1 (bpg, bc, gc) g i b1 n1 u" "unat n1 \<le> unat ?goal" by auto
          have "g < s_groups_count sbi" using F(1) gm by (simp add: geom_ok_def word_less_nat_alt)
          from run_taken_same [OF sm sbi this F(2)] found [OF _ F(1,3)] Group_Found r2 show ?thesis by auto
        next
          case (Group_Skip u)
          with P2 obtain sbi2 where sm2: "same_disk t sbi1 u sbi2"
            and fl: "\<forall>k\<in>set ?ks. group_full t (scan_group gc ?st k) (blocks_of_group (bpg, bc, gc) (unat (scan_group gc ?st k)))" by auto
          have "group_bitmap t h = group_bitmap s h" if "h < gc" for h
            using sm that gm by (simp add: same_disk_def geom_ok_def word_less_nat_alt)
          then have "\<forall>k\<in>set ?ks. group_full s (scan_group gc ?st k) (blocks_of_group (bpg, bc, gc) (unat (scan_group gc ?st k)))"
            using fl scan_group_less [OF gc0(2) st] by (simp add: group_full_def)
          from allf [OF this] same_disk_trans [OF sm sm2 sbi] Group_Skip r2 Some show ?thesis by auto
        qed
      qed
    qed
  qed
  then show "b \<noteq> 0 \<Longrightarrow> \<exists>geom g i. balloc_geometry s = Some geom \<and> geom_ok s sbi geom \<and> g < snd (snd geom) \<and>
      run_taken s sbi geom g i b n s' \<and> unat n \<le> max 1 (unat goal)"
    "b = 0 \<Longrightarrow> (\<exists>sbi'. same_disk s sbi s' sbi') \<and> (\<forall>geom. balloc_geometry s = Some geom \<longrightarrow> all_full s geom)"
    by blast+
qed

end
