(* ===== verification/Balloc_Free.thy ===== *)
theory Balloc_Free
  imports Balloc_Alloc
begin

text \<open>
  Freeing a block in a well-formed state: the bit is cleared on disk, the free count raised, and
  a cached copy of the bitmap given up.
\<close>

lemma alloc_view_pool [simp]:
  "gd_at (s\<lparr>pool_balloc := q\<rparr>) g = gd_at s g"
  "gd_blk (s\<lparr>pool_balloc := q\<rparr>) sbi g = gd_blk s sbi g"
  "bm_blk (s\<lparr>pool_balloc := q\<rparr>) g = bm_blk s g"
  "group_bitmap (s\<lparr>pool_balloc := q\<rparr>) g = group_bitmap s g"
  "gd_table_ok (s\<lparr>pool_balloc := q\<rparr>) sbi = gd_table_ok s sbi"
  "fs_io_ok (s\<lparr>pool_balloc := q\<rparr>) = fs_io_ok s"
  "fs_bsz (s\<lparr>pool_balloc := q\<rparr>) = fs_bsz s"
  "fs_addr (s\<lparr>pool_balloc := q\<rparr>) = fs_addr s"
  "fs_up (s\<lparr>pool_balloc := q\<rparr>) = fs_up s"
proof -
  note io [simp] = fs_io_cong [of "s\<lparr>pool_balloc := q\<rparr>" s]
  show gd [simp]: "gd_at (s\<lparr>pool_balloc := q\<rparr>) g = gd_at s g" for g
    by (simp add: gd_at_def split: option.split)
  show blk [simp]: "gd_blk (s\<lparr>pool_balloc := q\<rparr>) sbi g = gd_blk s sbi g" for g
    by (simp add: gd_blk_def)
  show "bm_blk (s\<lparr>pool_balloc := q\<rparr>) g = bm_blk s g"
    "group_bitmap (s\<lparr>pool_balloc := q\<rparr>) g = group_bitmap s g"
    "gd_table_ok (s\<lparr>pool_balloc := q\<rparr>) sbi = gd_table_ok s sbi"
    by (simp_all add: bm_blk_def group_bitmap_def gd_table_ok_def)
qed (rule fs_io_cong; simp)+

lemma alloc_core_pool:
  "alloc_core s sbi \<Longrightarrow> 0 < pool_free_count q \<Longrightarrow> alloc_core (s\<lparr>pool_balloc := q\<rparr>) sbi"
  by (simp add: alloc_core_def group_ok_def)

text \<open>
  freed s sbi g k s' sbi': the bit k of group g was cleared on disk and the free count of
  the group raised; no other bitmap or descriptor changed.
\<close>

definition freed :: "kfs \<Rightarrow> ext4_sb_info \<Rightarrow> u32 \<Rightarrow> nat \<Rightarrow> kfs \<Rightarrow> ext4_sb_info \<Rightarrow> bool" where
  "freed s sbi g k s' sbi' \<longleftrightarrow> alloc_ok s' sbi' \<and>
     balloc_frame {bm_blk s g, gd_blk s sbi g, sb_blocknr (ext4_block_size s)} s s' \<and>
     (\<forall>h < s_groups_count sbi. group_bitmap s' h =
        (if h = g then map_option (\<lambda>b. bm_clear b k) (group_bitmap s g) else group_bitmap s h) \<and>
        (h \<noteq> g \<longrightarrow> gd_at s' h = gd_at s h)) \<and>
     map_option bg_free_blocks_count_lo (gd_at s' g) =
       map_option (\<lambda>gd. bg_free_blocks_count_lo gd + 1) (gd_at s g)"

text \<open>Writing a new bitmap block of the right length, cache or not.\<close>

lemma write_bitmap_ok:
  assumes core: "alloc_core s sbi" and g: "g < s_groups_count sbi" and len: "length buf = fs_bsz s"
  shows "\<exists>d. ext4_write_block_bitmap s (bm_blk s g) buf = (True, s\<lparr>g_disk := d\<rparr>) \<and>
    alloc_core (s\<lparr>g_disk := d\<rparr>) sbi \<and> balloc_frame {bm_blk s g} s (s\<lparr>g_disk := d\<rparr>) \<and>
    (\<forall>h < s_groups_count sbi. gd_at (s\<lparr>g_disk := d\<rparr>) h = gd_at s h \<and>
       group_bitmap (s\<lparr>g_disk := d\<rparr>) h = (if h = g then Some buf else group_bitmap s h))"
proof -
  note D = alloc_coreD [OF core]
  have bm: "bm_blk s g \<noteq> 0" "fs_addr s (bm_blk s g)" "fs_up s (bm_blk s g)"
    using alloc_core_group [OF core g] by (auto simp: group_ok_def)
  obtain r t where w: "ext4_write_block s (bm_blk s g) buf = (r, t)" by fastforce
  obtain d where t: "t = s\<lparr>g_disk := d\<rparr>" using ext4_write_block_disk [OF w] by blast
  have r: r using io.wr_up [OF D(1) bm(2) len] w bm(3) by simp
  have fr: "balloc_frame {bm_blk s g} s t"
    using balloc_frame_disk disk_frame_write [OF D(1) bm(2) len w] by (simp add: t)
  have gds: "gd_at t h = gd_at s h" if "h < s_groups_count sbi" for h
    using gd_at_frame [OF fr D(2,3) that] alloc_core_group [OF core g] that by (auto simp: group_ok_def)
  then have bms: "bm_blk t h = bm_blk s h" if "h < s_groups_count sbi" for h
    using that by (simp add: bm_blk_def)
  have "alloc_core t sbi"
    using D(2,8) gds bms alloc_core_group [OF core]
    by (intro alloc_core_frame [OF core fr]) (auto simp: group_ok_def t)
  moreover have "group_bitmap t h = (if h = g then Some buf else group_bitmap s h)"
    if h: "h < s_groups_count sbi" for h
  proof (cases "h = g")
    case True
    with bms [OF h] io.wr_same [OF D(1) bm(2) len, of t] w r show ?thesis by (simp add: group_bitmap_def)
  next
    case False
    have "bm_blk s h \<noteq> bm_blk s g" using alloc_core_group [OF core h] False g by (auto simp: group_ok_def)
    with False bitmaps_frame [OF core fr bms [OF h] h] show ?thesis by simp
  qed
  ultimately show ?thesis using bm w r fr gds t by (auto simp: ext4_write_block_bitmap_def)
qed

definition drop_cache :: "u32 \<Rightarrow> ext4_sb_info \<Rightarrow> ext4_sb_info" where
  "drop_cache g k = (if s_bmap_cache_valid k \<and> s_bmap_cache_group k = g
     then k\<lparr>s_bmap_cache_valid := False, s_bmap_cache_dirty := False\<rparr> else k)"

lemma drop_cache_fields [simp]:
  "sbi_geo (drop_cache g k) = sbi_geo k" "s_group_desc (drop_cache g k) = s_group_desc k"
  "s_bmap_cache_buf (drop_cache g k) = s_bmap_cache_buf k" "s_groups_count (drop_cache g k) = s_groups_count k"
  by (simp_all add: drop_cache_def)

text \<open>The end of a free: descriptor of group 0 in memory, synchronisation, cache given up.\<close>

lemma free_tail:
  assumes core: "alloc_core s sbi" and g: "g < s_groups_count sbi"
    and cache: "s_bmap_cache_buf sbi = Some buf" "length buf = fs_bsz s"
      "s_bmap_cache_valid sbi \<longrightarrow> \<not> s_bmap_cache_dirty sbi \<and> s_bmap_cache_group sbi < s_groups_count sbi \<and>
         (s_bmap_cache_group sbi \<noteq> g \<longrightarrow> group_bitmap s (s_bmap_cache_group sbi) = Some buf)"
    and s5: "s5 = (if g = 0 then upd_sbi (\<lambda>k. k\<lparr>s_group_desc := Some gd'\<rparr>) s else s)"
  shows "\<exists>s' sbi'. upd_sbi (drop_cache g) (balloc_sync_tick s5) = s' \<and> alloc_ok s' sbi' \<and>
    balloc_frame {sb_blocknr (ext4_block_size s)} s s' \<and>
    (\<forall>h < s_groups_count sbi. gd_at s' h = gd_at s h \<and> group_bitmap s' h = group_bitmap s h)"
proof -
  note D = alloc_coreD [OF core]
  define f where "f = (\<lambda>k :: ext4_sb_info. if g = 0 then k\<lparr>s_group_desc := Some gd'\<rparr> else k)"
  have geo: "sbi_geo (f k) = sbi_geo k" for k by (simp add: f_def)
  have fields: "s_bmap_cache_buf (f k) = s_bmap_cache_buf k" "s_bmap_cache_group (f k) = s_bmap_cache_group k"
    "s_bmap_cache_valid (f k) = s_bmap_cache_valid k" "s_bmap_cache_dirty (f k) = s_bmap_cache_dirty k"
    "s_groups_count (f k) = s_groups_count k" for k by (simp_all add: f_def)
  let ?s5 = "upd_sbi f s"
  have s5': "s5 = ?s5" using D(2) by (cases s) (simp add: s5 f_def upd_sbi_def)
  have core5: "alloc_core ?s5 (f sbi)"
    using D(8) by (intro alloc_core_upd [OF core geo]) (simp add: f_def)
  have bs: "ext4_block_size ?s5 = ext4_block_size s" by (simp add: upd_sbi_def)
  obtain d n where t: "let sbi' = (f sbi)\<lparr>s_bg_sync_pending := n\<rparr>; s' = ?s5\<lparr>g_disk := d, s_fs_info := Some sbi'\<rparr> in
    balloc_sync_tick ?s5 = s' \<and> alloc_core s' sbi' \<and> balloc_frame {sb_blocknr (ext4_block_size s)} ?s5 s' \<and>
    (\<forall>h < s_groups_count sbi. gd_at s' h = gd_at ?s5 h \<and> group_bitmap s' h = group_bitmap ?s5 h)"
    using sync_tick_ok [OF core5] by (auto simp: bs fields)
  define sbi6 where "sbi6 = (f sbi)\<lparr>s_bg_sync_pending := n\<rparr>"
  define s6 where "s6 = ?s5\<lparr>g_disk := d, s_fs_info := Some sbi6\<rparr>"
  have T: "balloc_sync_tick ?s5 = s6" "alloc_core s6 sbi6"
    "balloc_frame {sb_blocknr (ext4_block_size s)} ?s5 s6"
    "\<And>h. h < s_groups_count sbi \<Longrightarrow> gd_at s6 h = gd_at s h \<and> group_bitmap s6 h = group_bitmap s h"
    using t geo by (simp_all add: Let_def s6_def sbi6_def)
  let ?s' = "upd_sbi (drop_cache g) s6" and ?sbi' = "drop_cache g sbi6"
  have fr6: "balloc_frame {sb_blocknr (ext4_block_size s)} s s6"
    using balloc_frame_trans [OF balloc_frame_upd [OF D(1) geo, where B = "{}"] T(3)] by simp
  have "balloc_frame {} s6 ?s'" using alloc_coreD(1) [OF T(2)] by (rule balloc_frame_upd) simp
  then have fr: "balloc_frame {sb_blocknr (ext4_block_size s)} s ?s'"
    using balloc_frame_trans [OF fr6, of "{}" ?s'] by simp
  have core': "alloc_core ?s' ?sbi'"
    using alloc_coreD(8) [OF T(2)] by (intro alloc_core_upd [OF T(2)]) simp_all
  have bsz: "fs_bsz ?s' = fs_bsz s" using fr by (simp add: balloc_frame_def disk_frame_def)
  have "cache_clean ?s' ?sbi'"
    using cache T(4) bsz
    by (auto simp: cache_clean_def drop_cache_def sbi6_def fields split: if_splits)
  then show ?thesis using core' fr T s5' by (auto simp: alloc_ok_def)
qed

text \<open>The body, with the scratch buffer taken: already free, or freed.\<close>

lemma free_in_ok:
  assumes core: "alloc_core s sbi" and clean: "cache_clean s sbi" and g: "g < s_groups_count sbi"
    and k: "unat k < 8 * fs_bsz s" and buf: "group_bitmap s g = Some buf"
  shows "\<exists>s' sbi'. balloc_free_in s g k = (True, s') \<and> s_fs_info s' = Some sbi' \<and>
    (if bm_free buf (unat k) then s' = s else freed s sbi g (unat k) s' sbi')"
proof -
  note D = alloc_coreD [OF core]
  obtain gd where gd: "gd_at s g = Some gd" "ext4_read_group_desc s g = (Some gd, s)"
    "bg_block_bitmap_lo gd = bm_blk s g" "bm_blk s g \<noteq> 0" "fs_addr s (bm_blk s g)"
    by (rule alloc_core_gd [OF core g])
  have rd: "ext4_read_block s (bm_blk s g) = Some buf" using buf by (simp add: group_bitmap_def)
  have len: "length buf = fs_bsz s" by (rule io.rd_len [OF D(1) gd(5) rd])
  have rb: "ext4_read_block_bitmap s g = ((bm_blk s g, buf), s)"
    using D(2) g gd rd by (simp add: ext4_read_block_bitmap_def)
  have byte: "\<not> ext4_get_block_size s \<le> k div 8"
    using k by (simp add: word_le_nat_alt unat_div ext4_get_block_size_def fs_bsz_def less_mult_imp_div_less mult.commute)
  show ?thesis
  proof (cases "bm_free buf (unat k)")
    case True
    then show ?thesis using rb gd(4) byte D(2) by (simp add: balloc_free_in_def)
  next
    case False
    let ?m = "bm_clear buf (unat k)"
    have lm: "length ?m = fs_bsz s" using len by simp
    obtain d where W1: "ext4_write_block_bitmap s (bm_blk s g) ?m = (True, s\<lparr>g_disk := d\<rparr>)"
      "alloc_core (s\<lparr>g_disk := d\<rparr>) sbi" "balloc_frame {bm_blk s g} s (s\<lparr>g_disk := d\<rparr>)"
      "\<forall>h < s_groups_count sbi. gd_at (s\<lparr>g_disk := d\<rparr>) h = gd_at s h \<and>
         group_bitmap (s\<lparr>g_disk := d\<rparr>) h = (if h = g then Some ?m else group_bitmap s h)"
      using write_bitmap_ok [OF core g lm] by blast
    let ?s2 = "s\<lparr>g_disk := d\<rparr>"
    have gd2: "ext4_read_group_desc ?s2 g = (Some gd, ?s2)"
      using W1(4) g gd(1) alloc_coreD(4) [OF W1(2)] by (simp add: ext4_read_group_desc_eq)
    let ?gd = "gd\<lparr>bg_free_blocks_count_lo := bg_free_blocks_count_lo gd + 1\<rparr>"
    have bm2: "bg_block_bitmap_lo ?gd = bm_blk ?s2 g" using W1(4) g gd by (simp add: bm_blk_def)
    obtain d3 where W2: "ext4_write_group_desc ?s2 g ?gd = (True, ?s2\<lparr>g_disk := d3\<rparr>)"
      "alloc_core (?s2\<lparr>g_disk := d3\<rparr>) sbi" "balloc_frame {gd_blk ?s2 sbi g} ?s2 (?s2\<lparr>g_disk := d3\<rparr>)"
      "\<exists>c. 32 \<le> unat c \<and> unat c \<le> 64 \<and> gd_at (?s2\<lparr>g_disk := d3\<rparr>) g = Some (gd_trunc c ?gd)"
      "\<forall>h < s_groups_count sbi. (h \<noteq> g \<longrightarrow> gd_at (?s2\<lparr>g_disk := d3\<rparr>) h = gd_at ?s2 h) \<and>
         group_bitmap (?s2\<lparr>g_disk := d3\<rparr>) h = group_bitmap ?s2 h"
      using write_gd_ok [OF W1(2) g bm2] by blast
    let ?s4 = "?s2\<lparr>g_disk := d3\<rparr>"
    have gb2: "gd_blk ?s2 sbi g = gd_blk s sbi g" by (simp add: gd_blk_def)
    have fr4: "balloc_frame {bm_blk s g, gd_blk s sbi g} s ?s4"
      using balloc_frame_trans [OF W1(3) W2(3), of "{bm_blk s g, gd_blk s sbi g}"] gb2 by simp
    have bms4: "group_bitmap ?s4 h = (if h = g then Some ?m else group_bitmap s h)" if "h < s_groups_count sbi" for h
      using W1(4) W2(5) that by auto
    have bsz: "fs_bsz ?s4 = fs_bsz s" by (simp add: fs_bsz_def)
    obtain cb where cb: "s_bmap_cache_buf sbi = Some cb" "length cb = fs_bsz s"
      "s_bmap_cache_valid sbi \<longrightarrow> \<not> s_bmap_cache_dirty sbi \<and> s_bmap_cache_group sbi < s_groups_count sbi \<and>
         group_bitmap s (s_bmap_cache_group sbi) = Some cb"
      using clean by (auto simp: cache_clean_def)
    obtain s' sbi' where F: "upd_sbi (drop_cache g) (balloc_sync_tick
        (if g = 0 then upd_sbi (\<lambda>k. k\<lparr>s_group_desc := Some ?gd\<rparr>) ?s4 else ?s4)) = s'" "alloc_ok s' sbi'"
      "balloc_frame {sb_blocknr (ext4_block_size ?s4)} ?s4 s'"
      "\<forall>h < s_groups_count sbi. gd_at s' h = gd_at ?s4 h \<and> group_bitmap s' h = group_bitmap ?s4 h"
      using free_tail [OF W2(2) g cb(1), of _ ?gd] cb bms4 bsz by auto
    have "balloc_free_in s g k = (True, s')"
      using rb gd(4) byte False W1(1) gd2 W2(1) F(1)
      by (cases "g = 0") (simp_all add: balloc_free_in_def Let_def drop_cache_def [abs_def])
    moreover have "freed s sbi g (unat k) s' sbi'"
    proof -
      have fr: "balloc_frame {bm_blk s g, gd_blk s sbi g, sb_blocknr (ext4_block_size s)} s s'"
        using balloc_frame_trans [OF fr4 F(3), of "{bm_blk s g, gd_blk s sbi g, sb_blocknr (ext4_block_size s)}"]
        by auto
      obtain cc where cc: "32 \<le> unat cc" "unat cc \<le> 64" "gd_at ?s4 g = Some (gd_trunc cc ?gd)" using W2(4) by blast
      have "map_option bg_free_blocks_count_lo (gd_at s' g) = Some (bg_free_blocks_count_lo ?gd)"
        using F(4) g cc gd_trunc_lo(4) [OF cc(1,2)] by simp
      with fr F W1(4) W2(5) bms4 gd buf show ?thesis by (simp add: freed_def)
    qed
    moreover have "s_fs_info s' = Some sbi'" using F(2) by (simp add: alloc_ok_def alloc_core_def)
    ultimately show ?thesis using False by auto
  qed
qed

lemma balloc_frame_pool:
  assumes "balloc_frame B (s\<lparr>pool_balloc := q\<rparr>) t"
  shows "balloc_frame B s (t\<lparr>pool_balloc := pool_balloc s\<rparr>)"
proof -
  obtain d i where t: "t = s\<lparr>pool_balloc := q, g_disk := d, s_fs_info := i\<rparr>"
    using assms by (auto simp: balloc_frame_def)
  have "disk_frame B s (t\<lparr>pool_balloc := pool_balloc s\<rparr>)"
    using assms by (simp add: balloc_frame_def disk_frame_def)
  moreover have "t\<lparr>pool_balloc := pool_balloc s\<rparr> = s\<lparr>g_disk := d, s_fs_info := i\<rparr>" by (simp add: t)
  moreover have "map_option sbi_geo i = map_option sbi_geo (s_fs_info s)"
    using assms by (simp add: balloc_frame_def t)
  ultimately show ?thesis unfolding balloc_frame_def by auto
qed

lemma free_block_spec:
  assumes ok: "alloc_ok s sbi" and pool: "2 \<le> pool_free_count (pool_balloc s)"
    and nz: "s_blocks_per_group sbi \<noteq> 0"
    and g: "blocknr div s_blocks_per_group sbi = g" "g < s_groups_count sbi"
    and k: "unat (blocknr mod s_blocks_per_group sbi) = k" "k < 8 * fs_bsz s"
    and buf: "group_bitmap s g = Some buf"
  shows "\<exists>s' sbi'. ext4_free_block s blocknr = Some (True, s') \<and> s_fs_info s' = Some sbi' \<and>
    (if bm_free buf k then s' = s else freed s sbi g k s' sbi')"
proof -
  have core: "alloc_core s sbi" and clean: "cache_clean s sbi" using ok by (auto simp: alloc_ok_def)
  note D = alloc_coreD [OF core]
  let ?k = "blocknr mod s_blocks_per_group sbi" and ?n = "unat (ext4_get_block_size s)"
  have nn: "?n \<le> 4096" using D(7) by (simp add: fs_bsz_def ext4_get_block_size_def)
  obtain p s1 where m: "balloc_malloc ?n s = (Some p, s1)"
    using balloc_malloc_room [of ?n s] pool nn by auto
  obtain q where s1: "s1 = s\<lparr>pool_balloc := q\<rparr>" using balloc_malloc_Some(1) [OF m] by blast
  have "Suc (pool_free_count q) = pool_free_count (pool_balloc s)"
    using m s1 by (auto simp: balloc_malloc_def dest!: pool_free_count_malloc
        dest: arg_cong [where f = pool_balloc] split: prod.splits)
  then have q: "0 < pool_free_count q" using pool by simp
  have core1: "alloc_core s1 sbi" unfolding s1 by (rule alloc_core_pool [OF core q])
  have clean1: "cache_clean s1 sbi" using clean by (simp add: s1 cache_clean_def)
  have "unat ?k < 8 * fs_bsz s1" "group_bitmap s1 g = Some buf" using k buf by (simp_all add: s1)
  from free_in_ok [OF core1 clean1 g(2) this, unfolded k(1)] obtain s2 sbi2 where
    F: "balloc_free_in s1 g ?k = (True, s2)" "s_fs_info s2 = Some sbi2"
      "if bm_free buf k then s2 = s1 else freed s1 sbi g k s2 sbi2" by blast
  have "?k < s_blocks_per_group sbi" using nz by (simp add: word_less_nat_alt unat_mod unat_gt_0)
  then have eq: "ext4_free_block s blocknr = Some (True, balloc_free p s2)"
    using D(2,8) nz g F(1) m by (simp add: ext4_free_block_def Let_def not_le)
  show ?thesis
  proof (cases "bm_free buf k")
    case True
    then have "balloc_free p s2 = s" using F(3) balloc_malloc_Some(2) [OF m] by simp
    then show ?thesis using True eq D(2) by simp
  next
    case False
    then have fd: "freed s1 sbi g k s2 sbi2" using F(3) by simp
    then have fr: "balloc_frame {bm_blk s g, gd_blk s sbi g, sb_blocknr (ext4_block_size s)} s1 s2"
      by (simp add: freed_def s1)
    then obtain d i where s2: "s2 = s1\<lparr>g_disk := d, s_fs_info := i\<rparr>" by (auto simp: balloc_frame_def)
    have s': "balloc_free p s2 = s2\<lparr>pool_balloc := pool_balloc s\<rparr>"
      using arg_cong [OF balloc_malloc_Some(2) [OF m], of pool_balloc]
      by (simp add: s2 s1 balloc_free_def)
    let ?s' = "s2\<lparr>pool_balloc := pool_balloc s\<rparr>"
    have "alloc_core s2 sbi2" "cache_clean s2 sbi2" using fd by (auto simp: freed_def alloc_ok_def)
    then have ok': "alloc_ok ?s' sbi2"
      using alloc_core_pool [of s2 sbi2 "pool_balloc s"] pool by (simp add: alloc_ok_def cache_clean_def)
    have "balloc_frame {bm_blk s g, gd_blk s sbi g, sb_blocknr (ext4_block_size s)} s ?s'"
      using fr unfolding s1 by (rule balloc_frame_pool)
    then have "freed s sbi g k ?s' sbi2" using fd ok' by (simp add: freed_def s1)
    then show ?thesis using False eq s' F(2) by auto
  qed
qed

end
