(* ===== verification/Demo_State.thy ===== *)
theory Demo_State
  imports Balloc_Free
begin

text \<open>
  A small mounted file system for concrete instances of the allocator's theorems: 64 blocks of
  1024 bytes in one group, the superblock in block 1, the descriptor table in block 2, the block
  bitmap in block 3 and the inode bitmap in block 4. The first sector of the block bitmap is a
  parameter: in demo_fs the first 16 bits are taken, in demo_full all 64.
\<close>

definition demo_gd :: ext4_group_desc where
  "demo_gd = (gd_dec (replicate 64 0))\<lparr>bg_block_bitmap_lo := 3, bg_inode_bitmap_lo := 4,
     bg_inode_table_lo := 5, bg_free_blocks_count_lo := 48, bg_free_inodes_count_lo := 6\<rparr>"

definition demo_disk :: "bytes \<Rightarrow> ata_disk" where
  "demo_disk bm = \<lparr>ad_sector = (\<lambda>_. replicate 512 0)(4 := gd_enc demo_gd @ replicate 448 0,
       6 := bm, 8 := [255] @ replicate 511 0),
     ad_bad = (\<lambda>_. False)\<rparr>"

definition demo_sbi :: ext4_sb_info where
  "demo_sbi = \<lparr>s_blocks_per_group = 8192, s_inodes_per_group = 16, s_inodes_count = 16,
     s_blocks_count = 64, s_first_data_block = 1, s_log_block_size = 0, s_block_size = 1024,
     s_groups_count = 1, s_desc_size = 64, s_group_desc = Some demo_gd, s_root_ino = 2,
     s_hash_seed = [0, 0, 0, 0], s_def_hash_version = 0,
     s_alloc_nf = \<lparr>goal_group = 0, goal_bit_per_group = Some [1]\<rparr>,
     s_bmap_cache_group = 0, s_bmap_cache_valid = False, s_bmap_cache_dirty = False,
     s_bmap_cache_buf = Some (replicate 1024 0), s_bg_sync_pending = 0\<rparr>"

definition demo_with :: "bytes \<Rightarrow> kfs" where
  "demo_with bm = \<lparr>g_disk = demo_disk bm, g_default_bdev = Some (ata_disk_bdev 128), s_bdev = ata_disk_bdev 128,
     ext4_block_size = 1024, ext4_fs_blocks_count = 64, ext4_fs_blocks_per_group = 8192,
     s_fs_info = Some demo_sbi, ext4_bg_sync_batch = 1, ext4_prealloc_goal_len = 1,
     pool_balloc = replicate 8 False, pool_ialloc = replicate 8 False, pool_extents = replicate 8 False,
     pool_dir = replicate 8 False, pool_htree = replicate 8 False, pool_inode = replicate 4 False,
     pool_file = replicate 4 False, pool_super = replicate 256 False, rtc_unix_time = 0,
     vfs_inode_used = replicate 128 False, sbi_bufs = []\<rparr>"

definition demo_bm :: bytes where
  "demo_bm = [255, 255] @ replicate 510 0"

definition full_bm :: bytes where
  "full_bm = replicate 8 255 @ replicate 504 0"

abbreviation demo_fs :: kfs where
  "demo_fs \<equiv> demo_with demo_bm"

abbreviation demo_full :: kfs where
  "demo_full \<equiv> demo_with full_bm"

lemma length_demo_bm [simp]: "length demo_bm = 512" "length full_bm = 512"
  by (simp_all add: demo_bm_def full_bm_def)

lemma demo_fields [simp]:
  "s_fs_info (demo_with bm) = Some demo_sbi" "ext4_block_size (demo_with bm) = 1024" "fs_bsz (demo_with bm) = 1024"
  "s_groups_count demo_sbi = 1" "s_blocks_per_group demo_sbi = 8192" "s_desc_size demo_sbi = 64"
  "s_first_data_block demo_sbi = 1" "s_block_size demo_sbi = 1024" "s_group_desc demo_sbi = Some demo_gd"
  "s_blocks_count demo_sbi = 64" "pool_balloc (demo_with bm) = replicate 8 False"
  "pool_ialloc (demo_with bm) = replicate 8 False" "s_inodes_per_group demo_sbi = 16" "s_inodes_count demo_sbi = 16"
  "g_disk (demo_with bm) = demo_disk bm" "g_default_bdev (demo_with bm) = Some (ata_disk_bdev 128)"
  by (simp_all add: demo_with_def demo_sbi_def fs_bsz_def)

lemma demo_disk_ok: "length bm = 512 \<Longrightarrow> disk_ok (demo_disk bm)"
  by (simp add: disk_ok_def demo_disk_def pk_gd.len_enc)

lemma demo_io_ok: "length bm = 512 \<Longrightarrow> fs_io_ok (demo_with bm)"
  by (simp add: fs_io_ok_def demo_disk_ok ata_disk_bdev_def)

lemma demo_up: "fs_up (demo_with bm) b"
  by (simp add: fs_up_def run_bad_def demo_disk_def)

lemma demo_read:
  assumes "unat b < 2 ^ 20" "length bm = 512"
  shows "ext4_read_block (demo_with bm) b =
    Some (ad_sector (demo_disk bm) (of_nat (unat b * 2)) @ ad_sector (demo_disk bm) (of_nat (unat b * 2 + 1)))"
proof -
  have "fs_addr (demo_with bm) b" using assms(1) by (simp add: fs_addr_def)
  moreover have "[unat b * 2..<unat b * 2 + 2] = [unat b * 2, unat b * 2 + 1]" by (simp add: upt_rec)
  ultimately show ?thesis
    using ext4_read_block_run [OF demo_io_ok [OF assms(2)], of b] by (simp add: demo_up sector_run_def)
qed

lemma demo_gd_loc: "gd_loc demo_sbi 1024 0 = Some (2, 0, 64)"
  by (simp add: gd_loc_def)

lemma demo_gd_at [simp]:
  assumes "length bm = 512"
  shows "gd_at (demo_with bm) 0 = Some demo_gd"
proof -
  have "ext4_read_block (demo_with bm) 2 = Some (gd_enc demo_gd @ replicate 448 0 @ replicate 512 0)"
    using assms by (subst demo_read) (simp_all add: demo_disk_def)
  moreover have "gd_copy_out (gd_enc demo_gd @ replicate 448 0 @ replicate 512 0) 0 64 = demo_gd"
    by (simp add: gd_copy_out_def bslice_def pk_gd.len_enc pk_gd.dec_enc)
  ultimately show ?thesis by (simp add: gd_at_def demo_gd_loc)
qed

lemma demo_bm_blk [simp]: "length bm = 512 \<Longrightarrow> bm_blk (demo_with bm) 0 = 3"
  by (simp add: bm_blk_def) (simp add: demo_gd_def)

lemma demo_group_bitmap:
  assumes "length bm = 512"
  shows "group_bitmap (demo_with bm) 0 = Some (bm @ replicate 512 0)"
proof -
  have "ext4_read_block (demo_with bm) 3 = Some (bm @ replicate 512 0)"
    using assms by (subst demo_read) (simp_all add: demo_disk_def)
  with assms show ?thesis by (simp add: group_bitmap_def)
qed

lemma demo_gd_blk [simp]: "gd_blk (demo_with bm) demo_sbi 0 = 2"
  by (simp add: gd_blk_def gd_base_def)

lemma word_less_1: "(g :: u32) < 1 \<longleftrightarrow> g = 0"
  by (simp add: word_less_nat_alt unat_eq_zero)

lemma demo_alloc_core: "length bm = 512 \<Longrightarrow> alloc_core (demo_with bm) demo_sbi"
  by (simp add: alloc_core_def demo_io_ok gd_table_ok_def word_less_1 group_ok_def demo_up
      demo_gd_loc gd_base_def sb_blocknr_def fs_addr_def pool_free_count_def)

lemma demo_alloc_ok: "length bm = 512 \<Longrightarrow> alloc_ok (demo_with bm) demo_sbi"
  using demo_alloc_core by (simp add: alloc_ok_def cache_clean_def) (simp add: demo_sbi_def)

lemma demo_geo_bounds: "geo_bounds (demo_with bm) demo_sbi"
  by (simp add: geo_bounds_def)

lemma demo_geometry: "balloc_geometry (demo_with bm) = Some (64, 64, 1)"
  by (simp add: balloc_geometry_def demo_with_def demo_sbi_def ext4_get_block_size_def balloc_blocks_count_def
      balloc_clip_device_def ext4_get_blocks_count_def blkdev_nr_sectors_def ata_disk_bdev_def Let_def)

end
