(* ===== verification/Io_Props.thy ===== *)
theory Io_Props
  imports Demo_State
begin

text \<open>
  What block input and output promise: the chunked transfer of block/blkdev.c is a transfer of
  the whole run of sectors, and blocks behave like the cells of a store.
\<close>

text \<open>C22: blkdev_read_sectors, which moves a request in chunks of at most 255 sectors, succeeds exactly
  when no sector of the request is bad, and then the buffer holds the sectors in order, followed
  by what it held before.\<close>

theorem blkdev_read_sectors_run:
  assumes "disk_ok d" "bd_sector_size b = 512" "count \<noteq> 0"
    and "unat sector + unat count \<le> 2 ^ 28" "512 * unat count \<le> length buf"
  shows "\<exists>ok buf'. blkdev_read_sectors d (Some b) sector count buf = (ok, buf') \<and>
    (ok \<longleftrightarrow> (\<forall>i < unat count. \<not> ad_bad d (of_nat (unat sector + i)))) \<and>
    (ok \<longrightarrow> buf' = concat (map (\<lambda>i. ad_sector d (of_nat (unat sector + i))) [0..<unat count])
                     @ drop (512 * unat count) buf)"
proof -
  obtain ok buf' where l: "blkdev_read_loop d 512 sector count 0 buf = (ok, buf')" by fastforce
  have bad: "run_bad d k n \<longleftrightarrow> (\<exists>i<n. ad_bad d (of_nat (k + i)))" for k n
  proof -
    have "run_bad d k n \<longleftrightarrow> (\<exists>j. k \<le> j \<and> j < k + n \<and> ad_bad d (of_nat j))" by (auto simp: run_bad_def)
    also have "\<dots> \<longleftrightarrow> (\<exists>i<n. ad_bad d (of_nat (k + i)))"
      by (metis le_add_diff_inverse less_diff_conv2 add.commute le_add1 nat_add_left_cancel_less)
    finally show ?thesis .
  qed
  have run: "sector_run d k n = concat (map (\<lambda>i. ad_sector d (of_nat (k + i))) [0..<n])" for k n
  proof -
    have "[k..<k + n] = map (\<lambda>i. k + i) [0..<n]" by (rule nth_equalityI) simp_all
    then show ?thesis by (simp add: sector_run_def comp_def)
  qed
  have L: "ok \<longleftrightarrow> \<not> run_bad d (unat sector) (unat count)"
    "ok \<longrightarrow> buf' = bsplice 0 (sector_run d (unat sector) (unat count)) buf"
    using blkdev_read_loop_run [OF assms(1,4) _ l] assms(5) by auto
  have "bsplice 0 (sector_run d (unat sector) (unat count)) buf =
      concat (map (\<lambda>i. ad_sector d (of_nat (unat sector + i))) [0..<unat count]) @ drop (512 * unat count) buf"
    using length_sector_run [OF assms(1), of "unat sector" "unat count"] by (simp add: bsplice_def run)
  then show ?thesis using l L assms(2,3) by (simp add: blkdev_read_sectors_def bad)
qed

theorem blkdev_read_sectors_run_witness:
  "\<exists>ok buf'. blkdev_read_sectors (demo_disk demo_bm) (Some (ata_disk_bdev 128)) 6 2 (replicate 1024 0) = (ok, buf') \<and>
    ok \<and> buf' = demo_bm @ replicate 512 0"
  using blkdev_read_sectors_run [OF demo_disk_ok [OF length_demo_bm(1)], of "ata_disk_bdev 128" 2 6 "replicate 1024 0"]
  by (auto simp: ata_disk_bdev_def demo_disk_def upt_rec)

text \<open>C21: Blocks are cells: after ext4_write_block of a whole buffer to a readable block, ext4_read_block
  returns the buffer, every other block reads as before, and readability of blocks has not
  changed.\<close>

theorem block_read_after_write:
  assumes "fs_io_ok s" "fs_addr s b" "fs_addr s c" "length buf = unat (ext4_block_size s)"
    and "ext4_read_block s b \<noteq> None"
  shows "\<exists>s'. ext4_write_block s b buf = (True, s') \<and> ext4_read_block s' b = Some buf \<and>
    (c \<noteq> b \<longrightarrow> ext4_read_block s' c = ext4_read_block s c)"
proof -
  have len: "length buf = fs_bsz s" using assms(4) by (simp add: fs_bsz_def)
  obtain r s' where w: "ext4_write_block s b buf = (r, s')" by fastforce
  have r using io.wr_up [OF assms(1,2) len] io.rd_up [OF assms(1,2)] w assms(5) by simp
  then show ?thesis
    using io.wr_same [OF assms(1,2) len, of s'] io.wr_other [OF assms(1-3) len w] w by auto
qed

theorem block_read_after_write_witness:
  "\<exists>s'. ext4_write_block demo_fs 7 (replicate 1024 170) = (True, s') \<and>
    ext4_read_block s' 7 = Some (replicate 1024 170) \<and>
    ext4_read_block s' 3 = ext4_read_block demo_fs 3"
proof -
  have "ext4_read_block demo_fs 7 \<noteq> None" by (subst demo_read) simp_all
  then show ?thesis
    using block_read_after_write [OF demo_io_ok [OF length_demo_bm(1)], of 7 3 "replicate 1024 170"]
    by (auto simp: fs_addr_def)
qed

end
