(* ===== verification/Balloc_Props.thy ===== *)
theory Balloc_Props
  imports Demo_State
begin

text \<open>
  What the block allocator and its descriptor updates promise to the rest of the file system.
\<close>

lemma unat_minus1: "unat (- 1 :: u32) = 4294967295"
  by (simp add: unsigned_minus_1_eq_mask mask_eq_exp_minus_1)

section \<open>Sums of the free counts\<close>

definition gd_free_blocks :: "ext4_group_desc \<Rightarrow> u32" where
  "gd_free_blocks gd = join16 (bg_free_blocks_count_lo gd) (bg_free_blocks_count_hi gd)"

definition gd_free_inodes :: "ext4_group_desc \<Rightarrow> u32" where
  "gd_free_inodes gd = join16 (bg_free_inodes_count_lo gd) (bg_free_inodes_count_hi gd)"

lemma sync_counts_loop_sum:
  assumes sbi: "s_fs_info s = Some sbi" and ok: "gd_table_ok s sbi" and bs: "s_block_size sbi = ext4_block_size s"
    and gs: "\<forall>g \<in> set gs. g < unat (s_groups_count sbi) \<and> gd_at s (of_nat g) \<noteq> None"
    and cur: "cur = - 1 \<or> ext4_read_block s cur = Some gd_buf"
    and t: "ext4_read_block t = ext4_read_block s"
  shows "sync_counts_loop t sbi gs cur gd_buf fb fi =
    Some (fb + (\<Sum>g\<leftarrow>gs. ucast (gd_free_blocks (the (gd_at s (of_nat g))))),
          fi + (\<Sum>g\<leftarrow>gs. gd_free_inodes (the (gd_at s (of_nat g)))))"
  using gs cur
proof (induction gs arbitrary: cur gd_buf fb fi)
  case Nil
  then show ?case by simp
next
  case (Cons g gs)
  let ?g = "of_nat g :: u32"
  have "unat ?g = g" using Cons.prems(1) unat_u32_bound [of "s_groups_count sbi"]
    by (intro unat_of_nat_fit) simp
  then have g: "?g < s_groups_count sbi" using Cons.prems(1) by (simp add: word_less_nat_alt)
  obtain off c where loc: "gd_loc sbi (ext4_block_size s) ?g = Some (gd_blk s sbi ?g, off, c)"
    and blk: "unat (gd_blk s sbi ?g) = unat (gd_base sbi (ext4_block_size s)) + unat ?g * unat (s_desc_size sbi) div fs_bsz s"
    by (rule gd_locD [OF ok g])
  have at: "gd_at s ?g = map_option (\<lambda>buf. gd_copy_out buf off c) (ext4_read_block s (gd_blk s sbi ?g))"
    by (rule gd_at_unfold [OF sbi ok loc])
  then obtain buf where rd: "ext4_read_block s (gd_blk s sbi ?g) = Some buf"
    and gd: "gd_at s ?g = Some (gd_copy_out buf off c)" using Cons.prems(1) by auto
  have "fs_addr s (gd_blk s sbi ?g)" "512 \<le> fs_bsz s" using ok g by (auto simp: gd_table_ok_def)
  from fs_addr_bound [OF this] have "gd_blk s sbi ?g \<noteq> - 1" by (auto simp: unat_minus1)
  then have rd2: "(if gd_blk s sbi ?g \<noteq> cur then ext4_read_block t (gd_blk s sbi ?g) else Some gd_buf) = Some buf"
    using Cons.prems(2) rd t by auto
  have "sync_counts_loop t sbi gs (gd_blk s sbi ?g) buf fb' fi' =
    Some (fb' + (\<Sum>g\<leftarrow>gs. ucast (gd_free_blocks (the (gd_at s (of_nat g))))),
          fi' + (\<Sum>g\<leftarrow>gs. gd_free_inodes (the (gd_at s (of_nat g)))))" for fb' fi'
    using Cons.prems(1) rd by (intro Cons.IH) auto
  then show ?case
    using loc rd2 gd bs by (simp add: gd_free_blocks_def gd_free_inodes_def Let_def add.assoc)
qed

lemma dec16_zero: "dec16 (replicate 2 0) = 0"
  by code_simp

text \<open>C31: ext4_sync_super_free_counts stores in the superblock the sums, over all groups, of the
  free block and free inode counts of the descriptors on disk.\<close>

theorem sync_stores_sums:
  assumes "alloc_core s sbi" "2 \<le> pool_free_count (pool_super s)"
    and "fs_up s (sb_blocknr (ext4_block_size s))"
  defines "gs \<equiv> [0..<unat (s_groups_count sbi)]"
  shows "\<exists>s' buf. ext4_sync_super_free_counts s = (True, s') \<and>
    ext4_read_block s (sb_blocknr (ext4_block_size s)) = Some buf \<and>
    ext4_read_block s' (sb_blocknr (ext4_block_size s)) =
      Some (put_free_counts (sb_offset (ext4_block_size s))
              (\<Sum>g\<leftarrow>gs. ucast (gd_free_blocks (the (gd_at s (of_nat g)))))
              (\<Sum>g\<leftarrow>gs. gd_free_inodes (the (gd_at s (of_nat g)))) buf)"
proof -
  note D = alloc_coreD [OF assms(1)]
  let ?b = "sb_blocknr (ext4_block_size s)" and ?n = "unat (ext4_block_size s)"
  have sz: "fs_bsz s \<le> 65536" using D(7) by simp
  note fit = sb_block_fits [OF D(1,6) sz]
  obtain buf where buf: "ext4_read_block s ?b = Some buf"
    using io.rd_up [OF D(1) fit(1)] assms(3) by auto
  have n: "?n \<le> 65536" using D(7) by (simp add: fs_bsz_def)
  obtain p1 s1 where m1: "super_malloc ?n s = (Some p1, s1)"
    using super_malloc_room [of ?n s] n assms(2) by auto
  obtain q1 where s1: "s1 = s\<lparr>pool_super := q1\<rparr>" using super_malloc_Some(1) [OF m1] by blast
  have "Suc (pool_free_count q1) = pool_free_count (pool_super s)"
    using m1 s1 by (auto simp: super_malloc_def dest!: pool_free_count_malloc
        dest: arg_cong [where f = pool_super] split: prod.splits)
  then obtain p2 s2 where m2: "super_malloc ?n s1 = (Some p2, s2)"
    using super_malloc_room [of ?n s1] n assms(2) s1 by auto
  obtain q2 where s2: "s2 = s1\<lparr>pool_super := q2\<rparr>" using super_malloc_Some(1) [OF m2] by blast
  let ?fb = "\<Sum>g\<leftarrow>gs. ucast (gd_free_blocks (the (gd_at s (of_nat g)))) :: u64"
  let ?fi = "\<Sum>g\<leftarrow>gs. gd_free_inodes (the (gd_at s (of_nat g)))"
  have gsn: "unat (of_nat g :: u32) = g" if "g < unat (s_groups_count sbi)" for g
    using that unat_u32_bound [of "s_groups_count sbi"] by (intro unat_of_nat_fit) simp
  have "\<forall>g \<in> set gs. g < unat (s_groups_count sbi) \<and> gd_at s (of_nat g) \<noteq> None"
    using alloc_core_group [OF assms(1)] gsn by (auto simp: gs_def group_ok_def word_less_nat_alt)
  from sync_counts_loop_sum [OF D(2,3,5) this, of "- 1" "replicate ?n 0" s2 0 0]
  have l: "sync_counts_loop s2 sbi [0..<unat (s_groups_count sbi)] (- 1) (replicate ?n 0) 0 0 = Some (?fb, ?fi)"
    by (simp add: s1 s2 gs_def)
  let ?new = "put_free_counts (sb_offset (ext4_block_size s)) ?fb ?fi buf"
  have len: "length ?new = fs_bsz s"
    using io.rd_len [OF D(1) fit(1) buf] fit(2) by (simp add: length_put_free_counts)
  obtain r t where w: "ext4_write_block s ?b ?new = (r, t)" by fastforce
  have r: r using io.wr_up [OF D(1) fit(1) len] w assms(3) by simp
  obtain d where t: "t = s\<lparr>g_disk := d\<rparr>" using ext4_write_block_disk [OF w] by blast
  have "ext4_write_block s2 ?b ?new = (r, s2\<lparr>g_disk := d\<rparr>)" using w t by (simp add: s1 s2 write_block_pool)
  then have "ext4_sync_super_free_counts s = (True, super_free p1 (super_free p2 (s2\<lparr>g_disk := d\<rparr>)))"
    using m1 m2 D(2,5,8) buf l r by (auto simp: ext4_sync_super_free_counts_def Let_def s1 s2)
  moreover have "super_free p1 (super_free p2 (s2\<lparr>g_disk := d\<rparr>)) = t"
    using super_malloc_Some(3) [OF m1] super_malloc_Some(3) [OF m2] t by simp
  moreover have "ext4_read_block t ?b = Some ?new"
    using io.wr_same [OF D(1) fit(1) len] w r by simp
  ultimately show ?thesis using buf by blast
qed

theorem sync_stores_sums_witness:
  "\<exists>s' buf. ext4_sync_super_free_counts demo_fs = (True, s') \<and>
    ext4_read_block demo_fs 1 = Some buf \<and>
    ext4_read_block s' 1 = Some (put_free_counts 0 48 6 buf)"
proof -
  have p: "2 \<le> pool_free_count (pool_super demo_fs)" by (simp add: demo_with_def pool_free_count_def)
  have e: "ucast (gd_free_blocks demo_gd) = (48 :: u64)" "gd_free_inodes demo_gd = 6"
    by (simp_all add: gd_free_blocks_def gd_free_inodes_def join16_def demo_gd_def gd_dec_def dec16_zero bslice_def)
  show ?thesis
    using sync_stores_sums [OF demo_alloc_core p demo_up] by (simp add: e sb_blocknr_def sb_offset_def)
qed

section \<open>Allocation\<close>

lemma group_bitmap_len:
  assumes "alloc_ok s sbi" "g < s_groups_count sbi" "group_bitmap s g = Some buf"
  shows "length buf = fs_bsz s"
  using group_bitmap_Some [of s sbi g] assms by (auto simp: alloc_ok_def)

lemma unat_take_count:
  "unat (bg_free_blocks_count_lo (balloc_take_count k gd)) = unat (bg_free_blocks_count_lo gd) - unat k"
proof -
  have lt: "unat (bg_free_blocks_count_lo gd) < 2 ^ 16" using unat_u16_bound by simp
  then have up: "unat (ucast (bg_free_blocks_count_lo gd) :: u32) = unat (bg_free_blocks_count_lo gd)"
    by (intro unat_ucast_fit) simp
  show ?thesis
  proof (cases "unat k < unat (bg_free_blocks_count_lo gd)")
    case True
    then have "unat ((ucast (bg_free_blocks_count_lo gd) :: u32) - k) = unat (bg_free_blocks_count_lo gd) - unat k"
      using up by (simp add: unat_sub_le word_le_nat_alt)
    then show ?thesis using True lt up
      by (simp add: balloc_take_count_def word_less_nat_alt unat_ucast_fit)
  qed (simp add: balloc_take_count_def word_less_nat_alt up)
qed

text \<open>C11: A successful ext4_new_blocks_in_group hands out a run of at most goal_len blocks inside the
  file system whose bits were all free in the on-disk bitmap of their group, marks exactly these
  bits, takes their number off the free count of the group (down to 0 at least), leaves the bitmaps
  and descriptors of the other groups alone, and keeps the allocator well-formed.\<close>

theorem new_blocks_takes_free_run:
  assumes "alloc_ok s sbi" "geo_bounds s sbi"
    and "ext4_new_blocks_in_group s goal_len preferred_group = ((b, n), s')" "b \<noteq> 0"
  shows "\<exists>bpg bc gc g i buf sbi'. balloc_geometry s = Some (bpg, bc, gc) \<and>
    g < gc \<and> 1 \<le> i \<and> 0 < unat n \<and> unat n \<le> max 1 (unat goal_len) \<and>
    i + unat n \<le> unat bpg \<and> unat b = unat g * unat bpg + i \<and> unat b + unat n \<le> unat bc \<and>
    group_bitmap s g = Some buf \<and> (\<forall>j\<in>{i..<i + unat n}. bm_free buf j) \<and>
    (\<exists>buf'. group_bitmap s' g = Some buf' \<and>
      (\<forall>j. bm_free buf' j \<longleftrightarrow> bm_free buf j \<and> j \<notin> {i..<i + unat n})) \<and>
    map_option (unat \<circ> bg_free_blocks_count_lo) (gd_at s' g) =
      map_option (\<lambda>gd. unat (bg_free_blocks_count_lo gd) - unat n) (gd_at s g) \<and>
    (\<forall>h < s_groups_count sbi. h \<noteq> g \<longrightarrow> group_bitmap s' h = group_bitmap s h \<and> gd_at s' h = gd_at s h) \<and>
    alloc_ok s' sbi'"
proof -
  obtain geom g i where A: "balloc_geometry s = Some geom" "geom_ok s sbi geom" "g < snd (snd geom)"
    "run_taken s sbi geom g i b n s'" "unat n \<le> max 1 (unat goal_len)"
    using new_blocks_spec(1) [OF assms] by blast
  obtain bpg bc gc where geom: "geom = (bpg, bc, gc)" by (cases geom) auto
  obtain buf sbi' where B: "1 \<le> i" "0 < unat n" "i + unat n \<le> blocks_of_group geom (unat g)"
    "unat b = unat g * unat bpg + i" "group_bitmap s g = Some buf" "free_seg buf i (i + unat n)"
    "took s sbi g i (unat n) s' sbi'"
    using A(4) by (auto simp: run_taken_def geom)
  have g: "g < gc" "unat g * unat bpg < unat bc" "g < s_groups_count sbi"
    using A(2,3) by (auto simp: geom geom_ok_def word_less_nat_alt)
  have le: "i + unat n \<le> unat bpg" "unat b + unat n \<le> unat bc"
    using B(3,4) g(2) by (auto simp: blocks_of_group_def geom)
  have bits: "bm_free (ext4_bmap_mark_blocks buf i (unat n)) j \<longleftrightarrow> bm_free buf j \<and> j \<notin> {i..<i + unat n}" for j
    using le(1) group_bitmap_len [OF assms(1) g(3) B(5)] A(2) by (subst bm_free_mark_blocks) (auto simp: geom_ok_def geom alloc_ok_def)
  have cnt: "map_option (unat \<circ> bg_free_blocks_count_lo) (gd_at s' g) =
      map_option (\<lambda>gd. unat (bg_free_blocks_count_lo gd) - unat n) (gd_at s g)"
    using B(7) by (cases "gd_at s g"; cases "gd_at s' g") (auto simp: took_def unat_take_count)
  have "group_bitmap s' g = Some (ext4_bmap_mark_blocks buf i (unat n))"
    "\<forall>h < s_groups_count sbi. h \<noteq> g \<longrightarrow> group_bitmap s' h = group_bitmap s h \<and> gd_at s' h = gd_at s h"
    "alloc_ok s' sbi'"
    using B(5,7) g(3) by (auto simp: took_def)
  note after = this
  have "\<forall>j\<in>{i..<i + unat n}. bm_free buf j" using B(6) by (simp add: free_seg_def)
  with A(1,5) geom g(1) le B(1,2,4,5) bits cnt after show ?thesis
    by (intro exI [of _ bpg] exI [of _ bc] exI [of _ gc] exI [of _ g] exI [of _ i] exI [of _ buf] exI [of _ sbi']) simp
qed

lemma demo_alloc:
  assumes len: "length bm = 512" and fr: "\<exists>j\<in>{1..<64}. bm_free (bm @ replicate 512 0) j"
  shows "\<exists>b n s'. ext4_new_blocks_in_group (demo_with bm) goal pref = ((b, n), s') \<and> b \<noteq> 0"
proof -
  obtain b n s' where r: "ext4_new_blocks_in_group (demo_with bm) goal pref = ((b, n), s')" by (metis surj_pair)
  have "b \<noteq> 0"
  proof
    assume "b = 0"
    with new_blocks_spec(2) [OF demo_alloc_ok [OF len] demo_geo_bounds r] demo_geometry
    have "group_full (demo_with bm) 0 (blocks_of_group (64, 64, 1) 0)" by (auto simp: all_full_def)
    then show False using fr by (simp add: group_full_def demo_group_bitmap [OF len] blocks_of_group_def)
  qed
  with r show ?thesis by blast
qed

lemma demo_free_bit: "\<exists>j\<in>{1..<64}. bm_free (demo_bm @ replicate 512 0) j"
  by (rule bexI [of _ 20]) (simp_all add: bm_free_def nth_append demo_bm_def)

theorem new_blocks_takes_free_run_witness:
  "\<exists>b n s' g i buf. ext4_new_blocks_in_group demo_fs 4 0 = ((b, n), s') \<and> b \<noteq> 0 \<and>
    group_bitmap demo_fs g = Some buf \<and> bm_free buf i \<and>
    (\<exists>buf'. group_bitmap s' g = Some buf' \<and> (\<forall>j. bm_free buf' j \<longleftrightarrow> bm_free buf j \<and> j \<notin> {i..<i + unat n}))"
proof -
  obtain b n s' where r: "ext4_new_blocks_in_group demo_fs 4 0 = ((b, n), s')" "b \<noteq> 0"
    using demo_alloc [OF _ demo_free_bit, of 4 0] by auto
  from new_blocks_takes_free_run [OF demo_alloc_ok [OF length_demo_bm(1)] demo_geo_bounds r] obtain g i buf where
    "0 < unat n" "group_bitmap demo_fs g = Some buf" "\<forall>j\<in>{i..<i + unat n}. bm_free buf j"
    "\<exists>buf'. group_bitmap s' g = Some buf' \<and> (\<forall>j. bm_free buf' j \<longleftrightarrow> bm_free buf j \<and> j \<notin> {i..<i + unat n})" by blast
  moreover from this have "bm_free buf i" by simp
  ultimately show ?thesis using r by blast
qed


lemma demo_full_bits: "j < 64 \<Longrightarrow> \<not> bm_free (full_bm @ replicate 512 0) j"
proof -
  assume j: "j < 64"
  then have "(full_bm @ replicate 512 0) ! (j div 8) = (255 :: u8)"
    by (simp add: full_bm_def nth_append less_mult_imp_div_less)
  moreover have "\<forall>k<8. bit (255 :: u8) k" by code_simp
  ultimately show ?thesis by (simp add: bm_free_bit)
qed


section \<open>Freeing\<close>

text \<open>C32: ext4_free_block of an allocated block clears the bit of this block in the on-disk bitmap of
  its group and no other bit of any group, adds one to the free count of the group descriptor, and
  keeps the allocator well-formed.\<close>

theorem free_block_clears_one_bit:
  assumes "alloc_ok s sbi" "2 \<le> pool_free_count (pool_balloc s)" "s_blocks_per_group sbi \<noteq> 0"
    and "g = blocknr div s_blocks_per_group sbi" "k = unat (blocknr mod s_blocks_per_group sbi)"
    and "g < s_groups_count sbi" "k < 8 * fs_bsz s"
    and "group_bitmap s g = Some buf" "\<not> bm_free buf k" "gd_at s g = Some gd"
  shows "\<exists>s' sbi'. ext4_free_block s blocknr = Some (True, s') \<and> alloc_ok s' sbi' \<and>
    group_bitmap s' g = Some (bm_clear buf k) \<and>
    map_option bg_free_blocks_count_lo (gd_at s' g) = Some (bg_free_blocks_count_lo gd + 1) \<and>
    (\<forall>h < s_groups_count sbi. h \<noteq> g \<longrightarrow> group_bitmap s' h = group_bitmap s h \<and> gd_at s' h = gd_at s h)"
  using free_block_spec [OF assms(1-3) assms(4) [symmetric] assms(6) assms(5) [symmetric] assms(7,8)] assms(6,8-10)
  by (auto simp: freed_def)

theorem free_block_clears_one_bit_witness:
  "\<exists>s'. ext4_free_block demo_fs 9 = Some (True, s') \<and>
    group_bitmap s' 0 = Some (bm_clear (demo_bm @ replicate 512 0) 9)"
proof -
  have "\<not> bm_free (demo_bm @ replicate 512 0) 9"
    by (simp add: bm_free_def nth_append demo_bm_def)
  with free_block_clears_one_bit [OF demo_alloc_ok [OF length_demo_bm(1)], of 0 9 9 "demo_bm @ replicate 512 0" demo_gd]
  show ?thesis by (auto simp: demo_group_bitmap pool_free_count_def)
qed

text \<open>Freeing a block that is already free succeeds and changes nothing.\<close>

theorem free_block_idempotent:
  assumes "alloc_ok s sbi" "2 \<le> pool_free_count (pool_balloc s)" "s_blocks_per_group sbi \<noteq> 0"
    and "blocknr div s_blocks_per_group sbi < s_groups_count sbi"
    and "unat (blocknr mod s_blocks_per_group sbi) < 8 * fs_bsz s"
    and "group_bitmap s (blocknr div s_blocks_per_group sbi) = Some buf"
    and "bm_free buf (unat (blocknr mod s_blocks_per_group sbi))"
  shows "ext4_free_block s blocknr = Some (True, s)"
  using free_block_spec [OF assms(1-3) refl assms(4) refl assms(5,6)] assms(7) by auto

theorem free_block_idempotent_witness: "ext4_free_block demo_fs 20 = Some (True, demo_fs)"
  using free_block_idempotent [OF demo_alloc_ok [OF length_demo_bm(1)], of 20 "demo_bm @ replicate 512 0"]
  by (simp add: demo_group_bitmap pool_free_count_def bm_free_def nth_append demo_bm_def)

end
