(* ===== verification/Balloc_Reach.thy ===== *)
theory Balloc_Reach
  imports Balloc_Props
begin

text \<open>
  The allocator as its clients see it: a set of used blocks. The locale block_allocator is this
  contract; ext4_new_blocks_in_group and ext4_free_block implement it on every well-formed
  state. Runs of an allocator with a client that remembers what it holds never hand out a held
  block.
\<close>

section \<open>The contract\<close>

definition run_of :: "u32 \<Rightarrow> u32 \<Rightarrow> u32 set" where
  "run_of b n = {c. unat b \<le> unat c \<and> unat c < unat b + unat n}"

locale block_allocator =
  fixes inv :: "'s \<Rightarrow> bool"
    and used :: "'s \<Rightarrow> u32 set"
    and alloc :: "'s \<Rightarrow> 'r \<Rightarrow> (u32 \<times> u32) \<times> 's"
    and release :: "'s \<Rightarrow> u32 \<Rightarrow> (bool \<times> 's) option"
  assumes alloc_some: "inv s \<Longrightarrow> alloc s q = ((b, n), s') \<Longrightarrow> b \<noteq> 0 \<Longrightarrow>
      inv s' \<and> b \<in> run_of b n \<and> run_of b n \<inter> used s = {} \<and> used s' = used s \<union> run_of b n"
    and alloc_none: "inv s \<Longrightarrow> alloc s q = ((0, n), s') \<Longrightarrow> inv s' \<and> used s' = used s"
    and release_used: "inv s \<Longrightarrow> c \<in> used s \<Longrightarrow>
      \<exists>s'. release s c = Some (True, s') \<and> inv s' \<and> used s' = used s - {c}"
begin

text \<open>A client that holds the blocks A, all used.\<close>

lemma client_alloc:
  assumes "inv s" "A \<subseteq> used s" "alloc s q = ((b, n), s')" "b \<noteq> 0"
  shows "inv s'" "run_of b n \<inter> A = {}" "A \<union> run_of b n \<subseteq> used s'"
  using alloc_some [OF assms(1,3,4)] assms(2) by auto

lemma client_release:
  assumes "inv s" "A \<subseteq> used s" "c \<in> A" "release s c = Some (r, s')"
  shows "inv s'" "r" "A - {c} \<subseteq> used s'"
  using release_used [OF assms(1), of c] assms by auto

lemma alloc_release:
  assumes "inv s" "alloc s q = ((b, n), s')" "b \<noteq> 0" "unat n = 1"
  shows "\<exists>s''. release s' b = Some (True, s'') \<and> inv s'' \<and> used s'' = used s"
proof -
  have A: "inv s'" "b \<in> run_of b n" "run_of b n \<inter> used s = {}" "used s' = used s \<union> run_of b n"
    using alloc_some [OF assms(1-3)] by auto
  have "run_of b n = {b}"
    using A(2) assms(4) word_eq_by_unat [of _ b] by (auto simp: run_of_def)
  with A release_used [OF A(1), of b] show ?thesis by auto
qed

end

section \<open>The model implements it\<close>

text \<open>
  groups_agree: the division of ext4_free_block by s_blocks_per_group finds the group and bit
  that the allocator used. They agree on images whose groups are as large as a bitmap block allows,
  and on images of one group.
\<close>

definition groups_agree :: "kfs \<Rightarrow> ext4_sb_info \<Rightarrow> bool" where
  "groups_agree s sbi \<longleftrightarrow> s_blocks_per_group sbi \<noteq> 0 \<and>
     (\<forall>bpg bc gc. balloc_geometry s = Some (bpg, bc, gc) \<longrightarrow>
        bpg = s_blocks_per_group sbi \<or> gc = 1 \<and> bc \<le> s_blocks_per_group sbi)"

definition alloc_inv :: "kfs \<Rightarrow> bool" where
  "alloc_inv s \<longleftrightarrow> (\<exists>sbi. alloc_ok s sbi \<and> geo_bounds s sbi \<and> groups_agree s sbi \<and>
     2 \<le> pool_free_count (pool_balloc s))"

definition block_used :: "kfs \<Rightarrow> u32 \<times> u32 \<times> u32 \<Rightarrow> u32 \<Rightarrow> bool" where
  "block_used s geom c = (case geom of (bpg, bc, gc) \<Rightarrow>
     c < bc \<and> (\<exists>buf. group_bitmap s (c div bpg) = Some buf \<and> \<not> bm_free buf (unat (c mod bpg))))"

definition used_blocks :: "kfs \<Rightarrow> u32 set" where
  "used_blocks s = {c. \<exists>geom. balloc_geometry s = Some geom \<and> block_used s geom c}"

lemma balloc_geometry_frame:
  assumes "alloc_ok s sbi" "alloc_ok s' sbi'" "balloc_frame B s s'"
  shows "balloc_geometry s' = balloc_geometry s" and "geo_bounds s' sbi' = geo_bounds s sbi"
    and "groups_agree s' sbi' = groups_agree s sbi" and "pool_balloc s' = pool_balloc s"
proof -
  have D: "s_fs_info s = Some sbi" "s_group_desc sbi \<noteq> None" "s_bmap_cache_buf sbi \<noteq> None"
    "s_fs_info s' = Some sbi'" "s_group_desc sbi' \<noteq> None" "s_bmap_cache_buf sbi' \<noteq> None"
    using assms(1,2) by (auto simp: alloc_ok_def alloc_core_def cache_clean_def)
  obtain d i where s': "s' = s\<lparr>g_disk := d, s_fs_info := i\<rparr>" using assms(3) by (auto simp: balloc_frame_def)
  have geo: "sbi_geo sbi' = sbi_geo sbi" by (rule balloc_frame_geo(1) [OF assms(3) D(1,4)])
  then have f: "s_blocks_count sbi' = s_blocks_count sbi" "s_groups_count sbi' = s_groups_count sbi"
    "s_blocks_per_group sbi' = s_blocks_per_group sbi" by (simp_all add: sbi_geo_def)
  have st: "ext4_get_block_size s' = ext4_get_block_size s" "ext4_get_blocks_count s' = ext4_get_blocks_count s"
    "s_bdev s' = s_bdev s" by (simp_all add: s' ext4_get_block_size_def ext4_get_blocks_count_def)
  show g: "balloc_geometry s' = balloc_geometry s"
    unfolding balloc_geometry_def balloc_blocks_count_def balloc_clip_device_def D(1) D(4) option.case f st
    by (simp only: D(2,3,5,6) simp_thms if_False)
  have "fs_bsz s' = fs_bsz s" by (simp add: s' fs_bsz_def)
  then show "geo_bounds s' sbi' = geo_bounds s sbi" by (simp add: geo_bounds_def f)
  show "groups_agree s' sbi' = groups_agree s sbi" by (simp add: groups_agree_def g f)
  show "pool_balloc s' = pool_balloc s" by (simp add: s')
qed

lemma block_place:
  assumes b: "unat c = unat g * unat bpg + i" "i < unat bpg"
  shows "c div bpg = g" and "unat (c mod bpg) = i"
proof -
  have "unat (c div bpg) = unat g" using assms by (simp add: unat_div)
  then show "c div bpg = g" by (rule word_eq_by_unat)
  show "unat (c mod bpg) = i" using assms by (simp add: unat_mod)
qed

lemma place_of_block: "unat (c :: u32) = unat (c div bpg) * unat bpg + unat (c mod bpg)"
  by (simp only: unat_div unat_mod div_mult_mod_eq)

lemma block_in_group:
  assumes "geom_ok s sbi (bpg, bc, gc)" "c < bc"
  shows "c div bpg < gc" "c div bpg < s_groups_count sbi" "unat (c mod bpg) < unat bpg" "bpg \<noteq> 0"
proof -
  have p: "0 < unat bpg" using assms(1) by (simp add: geom_ok_def)
  have "unat c < unat gc * unat bpg" using assms by (simp add: geom_ok_def word_less_nat_alt)
  then have "unat c div unat bpg < unat gc" by (simp add: less_mult_imp_div_less)
  then show "c div bpg < gc" by (simp add: word_less_nat_alt unat_div)
  then show "c div bpg < s_groups_count sbi" using assms(1) by (simp add: geom_ok_def word_less_nat_alt)
  show "unat (c mod bpg) < unat bpg" using p by (simp add: unat_mod)
  show "bpg \<noteq> 0" using p by auto
qed

lemma alloc_some_model:
  assumes inv: "alloc_inv s" and r: "ext4_new_blocks_in_group s goal pref = ((b, n), s')" and b: "b \<noteq> 0"
  shows "alloc_inv s' \<and> b \<in> run_of b n \<and> run_of b n \<inter> used_blocks s = {} \<and>
    used_blocks s' = used_blocks s \<union> run_of b n"
proof -
  obtain sbi where I: "alloc_ok s sbi" "geo_bounds s sbi" "groups_agree s sbi" "2 \<le> pool_free_count (pool_balloc s)"
    using inv by (auto simp: alloc_inv_def)
  obtain geom g i where A: "balloc_geometry s = Some geom" "geom_ok s sbi geom" "g < snd (snd geom)"
    "run_taken s sbi geom g i b n s'"
    using new_blocks_spec(1) [OF I(1,2) r b] by blast
  obtain bpg bc gc where geom: "geom = (bpg, bc, gc)" by (cases geom) auto
  note gm = A(2) [unfolded geom]
  obtain buf sbi' where B: "0 < unat n" "i + unat n \<le> blocks_of_group geom (unat g)"
    "unat b = unat g * unat bpg + i" "group_bitmap s g = Some buf" "free_seg buf i (i + unat n)"
    "took s sbi g i (unat n) s' sbi'"
    using A(4) by (auto simp: run_taken_def geom)
  have g: "g < s_groups_count sbi" "unat g * unat bpg < unat bc"
    using A(2,3) by (auto simp: geom geom_ok_def word_less_nat_alt)
  have le: "i + unat n \<le> unat bpg" "unat b + unat n \<le> unat bc"
    using B(2,3) g(2) by (auto simp: blocks_of_group_def geom)
  have len: "length buf = fs_bsz s" by (rule group_bitmap_len [OF I(1) g(1) B(4)])
  have ok': "alloc_ok s' sbi'" and fr: "balloc_frame {bm_blk s g, gd_blk s sbi g, sb_blocknr (ext4_block_size s)} s s'"
    using B(6) by (auto simp: took_def)
  note G = balloc_geometry_frame [OF I(1) ok' fr]
  have inv': "alloc_inv s'" using ok' I G by (auto simp: alloc_inv_def)
  have place: "c div bpg = g \<and> i \<le> unat (c mod bpg) \<and> unat (c mod bpg) < i + unat n" if "c \<in> run_of b n" for c
  proof -
    let ?j = "unat c - unat g * unat bpg"
    have "unat c = unat g * unat bpg + ?j" "?j < unat bpg" using that B(3) le(1) by (auto simp: run_of_def)
    with block_place [OF this] that B(3) show ?thesis by (auto simp: run_of_def)
  qed
  have in_run: "c \<in> run_of b n" if "c div bpg = g" "i \<le> unat (c mod bpg)" "unat (c mod bpg) < i + unat n" for c
    using that place_of_block [of c bpg] B(3) by (simp add: run_of_def)
  have lt: "c < bc" if "c \<in> run_of b n" for c using that le(2) by (simp add: run_of_def word_less_nat_alt)
  have bits: "bm_free (ext4_bmap_mark_blocks buf i (unat n)) j \<longleftrightarrow> \<not> (i \<le> j \<and> j < i + unat n) \<and> bm_free buf j" for j
    using le(1) gm len by (intro bm_free_mark_blocks) (simp add: geom_ok_def)
  have bm': "group_bitmap s' h = (if h = g then Some (ext4_bmap_mark_blocks buf i (unat n)) else group_bitmap s h)"
    if "h < s_groups_count sbi" for h using B(4,6) that by (simp add: took_def)
  have step: "block_used s' geom c \<longleftrightarrow> block_used s geom c \<or> c \<in> run_of b n" for c
  proof (cases "c < bc")
    case True
    note h = block_in_group [OF gm True]
    show ?thesis
    proof (cases "c div bpg = g")
      case G: True
      then have "block_used s' geom c \<longleftrightarrow> (i \<le> unat (c mod bpg) \<and> unat (c mod bpg) < i + unat n) \<or> \<not> bm_free buf (unat (c mod bpg))"
        using True bm' [OF g(1)] bits by (auto simp: block_used_def geom)
      moreover have "block_used s geom c \<longleftrightarrow> \<not> bm_free buf (unat (c mod bpg))"
        using True G B(4) by (simp add: block_used_def geom)
      ultimately show ?thesis using place [of c] in_run [OF G] by blast
    next
      case False
      then show ?thesis using bm' [OF h(2)] place [of c] by (auto simp: block_used_def geom)
    qed
  next
    case False
    then show ?thesis using lt [of c] by (auto simp: block_used_def geom)
  qed
  have "\<not> block_used s geom c" if "c \<in> run_of b n" for c
    using place [OF that] B(4,5) by (auto simp: block_used_def geom free_seg_def)
  moreover have "b \<in> run_of b n" using B(1) by (simp add: run_of_def)
  ultimately show ?thesis using inv' step A(1) G(1) by (auto simp: used_blocks_def)
qed

lemma alloc_none_model:
  assumes inv: "alloc_inv s" and r: "ext4_new_blocks_in_group s goal pref = ((0, n), s')"
  shows "alloc_inv s' \<and> used_blocks s' = used_blocks s"
proof -
  obtain sbi where I: "alloc_ok s sbi" "geo_bounds s sbi" "groups_agree s sbi" "2 \<le> pool_free_count (pool_balloc s)"
    using inv by (auto simp: alloc_inv_def)
  obtain sbi' where sm: "same_disk s sbi s' sbi'" using new_blocks_spec(2) [OF I(1,2) r] by blast
  then have ok': "alloc_ok s' sbi'" and fr: "balloc_frame {} s s'" by (auto simp: same_disk_def)
  note G = balloc_geometry_frame [OF I(1) ok' fr]
  have "block_used s' geom c = block_used s geom c" if "balloc_geometry s = Some geom" for geom c
  proof -
    have gm: "geom_ok s sbi geom" using I that by (intro balloc_geometry_ok) (auto simp: alloc_ok_def)
    obtain bpg bc gc where geom: "geom = (bpg, bc, gc)" by (cases geom) auto
    show ?thesis
    proof (cases "c < bc")
      case True
      then show ?thesis using block_in_group(2) [OF gm [unfolded geom] True] sm by (simp add: block_used_def geom same_disk_def)
    qed (simp add: block_used_def geom)
  qed
  then show ?thesis using ok' I G by (auto simp: alloc_inv_def used_blocks_def)
qed

lemma free_place:
  assumes "groups_agree s sbi" "balloc_geometry s = Some (bpg, bc, gc)" "c < bc" "geom_ok s sbi (bpg, bc, gc)"
  shows "c div s_blocks_per_group sbi = c div bpg" "c mod s_blocks_per_group sbi = c mod bpg"
proof -
  have "c div s_blocks_per_group sbi = c div bpg \<and> c mod s_blocks_per_group sbi = c mod bpg"
  proof (cases "bpg = s_blocks_per_group sbi")
    case False
    then have gc: "gc = 1" "bc \<le> s_blocks_per_group sbi" using assms(1,2) by (auto simp: groups_agree_def)
    have "c div bpg < gc" by (rule block_in_group [OF assms(4,3)])
    then have d: "c div bpg = 0" using gc by (simp add: word_less_1)
    then have m: "c mod bpg = c" using place_of_block [of c bpg] by (intro word_eq_by_unat) simp
    have "c < s_blocks_per_group sbi" using assms(3) gc(2) by simp
    then have "unat c < unat (s_blocks_per_group sbi)" by (simp add: word_less_nat_alt)
    with d m show ?thesis by (simp add: word_eq_iff_unsigned [where ?'a = nat] unat_div unat_mod)
  qed simp
  then show "c div s_blocks_per_group sbi = c div bpg" "c mod s_blocks_per_group sbi = c mod bpg" by simp_all
qed

lemma release_model:
  assumes inv: "alloc_inv s" and c: "c \<in> used_blocks s"
  shows "\<exists>s'. ext4_free_block s c = Some (True, s') \<and> alloc_inv s' \<and> used_blocks s' = used_blocks s - {c}"
proof -
  obtain sbi where I: "alloc_ok s sbi" "geo_bounds s sbi" "groups_agree s sbi" "2 \<le> pool_free_count (pool_balloc s)"
    using inv by (auto simp: alloc_inv_def)
  obtain bpg bc gc buf where U: "balloc_geometry s = Some (bpg, bc, gc)" "c < bc"
    "group_bitmap s (c div bpg) = Some buf" "\<not> bm_free buf (unat (c mod bpg))"
    using c by (auto simp: used_blocks_def block_used_def)
  let ?g = "c div bpg" and ?k = "unat (c mod bpg)"
  have gm: "geom_ok s sbi (bpg, bc, gc)" using I U by (intro balloc_geometry_ok) (auto simp: alloc_ok_def)
  note h = block_in_group [OF gm U(2)] and fp = free_place [OF I(3) U(1,2) gm]
  have k8: "?k < 8 * fs_bsz s" using h(3) gm by (simp add: geom_ok_def)
  have nz: "s_blocks_per_group sbi \<noteq> 0" using I(3) by (simp add: groups_agree_def)
  obtain s' sbi' where F: "ext4_free_block s c = Some (True, s')" "freed s sbi ?g ?k s' sbi'"
    using free_block_spec [OF I(1,4) nz fp(1) h(2) _ k8 U(3)] fp(2) U(4) by auto
  have ok': "alloc_ok s' sbi'" and fr: "balloc_frame {bm_blk s ?g, gd_blk s sbi ?g, sb_blocknr (ext4_block_size s)} s s'"
    using F(2) by (auto simp: freed_def)
  note G = balloc_geometry_frame [OF I(1) ok' fr]
  have len: "length buf = fs_bsz s" by (rule group_bitmap_len [OF I(1) h(2) U(3)])
  have bits: "bm_free (bm_clear buf ?k) j \<longleftrightarrow> j = ?k \<or> bm_free buf j" for j
    using k8 len by (intro bm_free_clear) simp
  have step: "block_used s' (bpg, bc, gc) x \<longleftrightarrow> block_used s (bpg, bc, gc) x \<and> x \<noteq> c" for x
  proof (cases "x < bc")
    case True
    note hx = block_in_group [OF gm True]
    show ?thesis
    proof (cases "x div bpg = ?g")
      case X: True
      then have bm: "group_bitmap s' (x div bpg) = Some (bm_clear buf ?k)" "group_bitmap s (x div bpg) = Some buf"
        using F(2) h(2) U(3) by (simp_all add: freed_def)
      have "x = c \<longleftrightarrow> unat (x mod bpg) = ?k"
        using X place_of_block [of x bpg] place_of_block [of c bpg] by (auto intro: word_eq_by_unat)
      with bm True bits show ?thesis by (auto simp: block_used_def)
    next
      case False
      then show ?thesis using F(2) hx(2) True by (auto simp: block_used_def freed_def)
    qed
  qed (simp add: block_used_def)
  have "alloc_inv s'" using ok' I G by (auto simp: alloc_inv_def)
  with F(1) step U(1) G(1) show ?thesis by (auto simp: used_blocks_def)
qed

interpretation balloc: block_allocator alloc_inv used_blocks
  "\<lambda>s (goal, pref). ext4_new_blocks_in_group s goal pref" ext4_free_block
  by unfold_locales
    (auto dest: alloc_some_model alloc_none_model release_model split: prod.splits)

section \<open>Runs of the allocator\<close>

text \<open>
  A client allocates, holds blocks, and frees blocks it holds, in any order and with any goals.
\<close>

inductive balloc_run :: "kfs \<Rightarrow> kfs \<Rightarrow> u32 set \<Rightarrow> bool" for s0 :: kfs where
  run_start: "balloc_run s0 s0 {}"
| run_alloc: "balloc_run s0 s A \<Longrightarrow> ext4_new_blocks_in_group s goal_len pref = ((b, n), s') \<Longrightarrow> b \<noteq> 0 \<Longrightarrow>
    balloc_run s0 s' (A \<union> run_of b n)"
| run_full: "balloc_run s0 s A \<Longrightarrow> ext4_new_blocks_in_group s goal_len pref = ((0, n), s') \<Longrightarrow>
    balloc_run s0 s' A"
| run_free: "balloc_run s0 s A \<Longrightarrow> c \<in> A \<Longrightarrow> ext4_free_block s c = Some (r, s') \<Longrightarrow>
    balloc_run s0 s' (A - {c})"

inductive_cases balloc_run_cases: "balloc_run s0 s A"

lemma balloc_run_inv:
  "balloc_run s0 s A \<Longrightarrow> alloc_inv s0 \<Longrightarrow> alloc_inv s \<and> A \<subseteq> used_blocks s"
proof (induction rule: balloc_run.induct)
  case (run_alloc s A goal_len pref b n s')
  then show ?case using balloc.client_alloc [of s A "(goal_len, pref)" b n s'] by auto
next
  case (run_full s A goal_len pref n s')
  then show ?case using balloc.alloc_none [of s "(goal_len, pref)" n s'] by auto
next
  case (run_free s A c r s')
  then show ?case using balloc.client_release [of s A c r s'] by auto
qed simp

text \<open>C1: No double allocation: whatever a client has allocated and freed before, the blocks it is
  handed next are none of the blocks it holds.\<close>

theorem no_double_allocation:
  assumes "alloc_inv s0" "balloc_run s0 s A"
    and "ext4_new_blocks_in_group s goal_len pref = ((b, n), s')" "b \<noteq> 0"
  shows "run_of b n \<inter> A = {}"
  using balloc_run_inv [OF assms(2,1)] balloc.client_alloc(2) [of s A "(goal_len, pref)" b n s'] assms(3,4)
  by simp

lemma demo_alloc_inv: "alloc_inv demo_fs"
  unfolding alloc_inv_def
  using demo_alloc_ok [OF length_demo_bm(1)] demo_geo_bounds
  by (auto simp: groups_agree_def demo_geometry pool_free_count_def)

theorem no_double_allocation_witness:
  "\<exists>b n s1 c m s2. ext4_new_blocks_in_group demo_fs 1 0 = ((b, n), s1) \<and> b \<noteq> 0 \<and>
    ext4_new_blocks_in_group s1 1 0 = ((c, m), s2) \<and> (c = 0 \<or> run_of c m \<inter> run_of b n = {})"
proof -
  obtain b n s1 where r: "ext4_new_blocks_in_group demo_fs 1 0 = ((b, n), s1)" "b \<noteq> 0"
    using demo_alloc [OF _ demo_free_bit, of 1 0] by auto
  obtain c m s2 where q: "ext4_new_blocks_in_group s1 1 0 = ((c, m), s2)" by (metis surj_pair)
  have "balloc_run demo_fs s1 (run_of b n)" using run_alloc [OF run_start r] by simp
  from no_double_allocation [OF demo_alloc_inv this q] r q show ?thesis by blast
qed

text \<open>C13: Allocating one block and freeing it again gives back the set of used blocks there was, with
  both calls succeeding.\<close>

theorem alloc_free_roundtrip:
  assumes "alloc_inv s" "ext4_new_block s = (b, s')" "b \<noteq> 0"
  shows "\<exists>s''. ext4_free_block s' b = Some (True, s'') \<and> alloc_inv s'' \<and> used_blocks s'' = used_blocks s"
proof -
  obtain n where r: "ext4_new_blocks_in_group s 1 (- 1) = ((b, n), s')"
    using assms(2) by (auto simp: ext4_new_block_def ext4_new_blocks_def split: prod.splits)
  obtain sbi where "alloc_ok s sbi" "geo_bounds s sbi" using assms(1) by (auto simp: alloc_inv_def)
  from new_blocks_spec(1) [OF this r assms(3)] have "unat n = 1" by (auto simp: run_taken_def)
  with balloc.alloc_release [of s "(1, - 1)" b n s'] r assms show ?thesis by simp
qed

theorem alloc_free_roundtrip_witness:
  "\<exists>b s1 s2. ext4_new_block demo_fs = (b, s1) \<and> ext4_free_block s1 b = Some (True, s2) \<and>
    used_blocks s2 = used_blocks demo_fs"
proof -
  obtain b n s1 where r: "ext4_new_blocks_in_group demo_fs 1 (- 1) = ((b, n), s1)" "b \<noteq> 0"
    using demo_alloc [OF _ demo_free_bit, of 1 "- 1"] by auto
  then have "ext4_new_block demo_fs = (b, s1)" by (simp add: ext4_new_block_def ext4_new_blocks_def)
  with alloc_free_roundtrip [OF demo_alloc_inv this r(2)] show ?thesis by blast
qed

end
