(* ===== verification/Ialloc.thy ===== *)
theory Ialloc
  imports Balloc
begin

text \<open>
  The inode allocator, fs/ext4/ialloc.c: its own copies of the descriptor read and write, which
  check the group number and use the pool of this file, the inode bitmaps, allocation of an inode
  number and freeing.
\<close>

section \<open>Descriptors and inode bitmaps\<close>

definition ialloc_read_group_desc :: "kfs \<Rightarrow> u32 \<Rightarrow> ext4_group_desc option \<times> kfs" where
  "ialloc_read_group_desc s grp =
     (case s_fs_info s of
        None \<Rightarrow> (None, s)
      | Some sbi \<Rightarrow>
          if s_desc_size sbi = 0 then (None, s)
          else if grp \<ge> s_groups_count sbi then (None, s)
          else case gd_loc sbi (ext4_get_block_size s) grp of
            None \<Rightarrow> (None, s)
          | Some (blk, off, copy_sz) \<Rightarrow>
              (case ialloc_malloc (unat (ext4_get_block_size s)) s of
                 (None, s1) \<Rightarrow> (None, s1)
               | (Some p, s1) \<Rightarrow>
                   (case ext4_read_block s1 blk of
                      None \<Rightarrow> (None, ialloc_free p s1)
                    | Some buf \<Rightarrow> (Some (gd_copy_out buf off copy_sz), ialloc_free p s1))))"

definition ialloc_write_group_desc :: "kfs \<Rightarrow> u32 \<Rightarrow> ext4_group_desc \<Rightarrow> bool \<times> kfs" where
  "ialloc_write_group_desc s grp gd =
     (case s_fs_info s of
        None \<Rightarrow> (False, s)
      | Some sbi \<Rightarrow>
          if s_desc_size sbi = 0 then (False, s)
          else if grp \<ge> s_groups_count sbi then (False, s)
          else case gd_loc sbi (ext4_get_block_size s) grp of
            None \<Rightarrow> (False, s)
          | Some (blk, off, copy_sz) \<Rightarrow>
              (case ialloc_malloc (unat (ext4_get_block_size s)) s of
                 (None, s1) \<Rightarrow> (False, s1)
               | (Some p, s1) \<Rightarrow>
                   (case ext4_read_block s1 blk of
                      None \<Rightarrow> (False, ialloc_free p s1)
                    | Some buf \<Rightarrow>
                        (case ext4_write_block s1 blk (gd_copy_in gd off copy_sz buf) of
                           (ok, s2) \<Rightarrow> (ok, ialloc_free p s2)))))"

definition ext4_read_inode_bitmap :: "kfs \<Rightarrow> u32 \<Rightarrow> (u32 \<times> bytes) \<times> kfs" where
  "ext4_read_inode_bitmap s grp =
     (case s_fs_info s of
        None \<Rightarrow> ((0, []), s)
      | Some sbi \<Rightarrow>
          if s_group_desc sbi = None then ((0, []), s)
          else if grp \<ge> s_groups_count sbi then ((0, []), s)
          else case ialloc_read_group_desc s grp of
            (None, s1) \<Rightarrow> ((0, []), s1)
          | (Some gd, s1) \<Rightarrow>
              (case ext4_read_block s1 (bg_inode_bitmap_lo gd) of
                 None \<Rightarrow> ((0, []), s1)
               | Some buf \<Rightarrow> ((bg_inode_bitmap_lo gd, buf), s1)))"

definition ext4_write_inode_bitmap :: "kfs \<Rightarrow> u32 \<Rightarrow> bytes \<Rightarrow> bool \<times> kfs" where
  "ext4_write_inode_bitmap s bitmap_block buf =
     (if bitmap_block = 0 then (False, s) else ext4_write_block s bitmap_block buf)"

definition clear_itable_unused :: "ext4_group_desc \<Rightarrow> ext4_group_desc" where
  "clear_itable_unused gd = gd\<lparr>bg_itable_unused_lo := 0, bg_itable_unused_hi := 0\<rparr>"

definition ext4_update_group_desc_inode :: "kfs \<Rightarrow> u32 \<Rightarrow> bool \<times> kfs" where
  "ext4_update_group_desc_inode s grp =
     (case s_fs_info s of
        None \<Rightarrow> (False, s)
      | Some sbi \<Rightarrow>
          (case s_group_desc sbi of
             None \<Rightarrow> (False, s)
           | Some gd \<Rightarrow>
               if grp \<noteq> 0 then (True, s)
               else let gd' = clear_itable_unused gd in
                 ialloc_write_group_desc (upd_sbi (\<lambda>k. k\<lparr>s_group_desc := Some gd'\<rparr>) s) 0 gd'))"

definition ext4_write_group_desc_cached :: "kfs \<Rightarrow> u32 \<Rightarrow> bool \<times> kfs" where
  "ext4_write_group_desc_cached s grp = ext4_update_group_desc_inode s grp"

section \<open>Allocation\<close>

text \<open>
  The scan of one group: the first free index below inodes_per_group, cut off at the end of the
  bitmap block and at inode numbers beyond the last one. cand_ino is computed with the
  wrap-around of the code. The result is the index and the inode number.
\<close>

fun inode_scan :: "bytes \<Rightarrow> u32 \<Rightarrow> u32 \<Rightarrow> u32 \<Rightarrow> nat list \<Rightarrow> (nat \<times> u32) option" where
  "inode_scan buf block_size base inodes_count [] = None"
| "inode_scan buf block_size base inodes_count (i # is) =
     (let cand_ino = base + of_nat i + 1 in
      if i div 8 \<ge> unat block_size then None
      else if cand_ino = 0 \<or> cand_ino > inodes_count then None
      else if bm_free buf i then Some (i, cand_ino)
      else inode_scan buf block_size base inodes_count is)"

text \<open>The descriptor after one inode of its group is taken.\<close>

definition ialloc_take_count :: "ext4_group_desc \<Rightarrow> ext4_group_desc" where
  "ialloc_take_count gd =
     clear_itable_unused (if bg_free_inodes_count_lo gd > 0
       then gd\<lparr>bg_free_inodes_count_lo := bg_free_inodes_count_lo gd - 1\<rparr> else gd)"

definition set_group0_desc :: "u32 \<Rightarrow> ext4_group_desc \<Rightarrow> kfs \<Rightarrow> kfs" where
  "set_group0_desc g gd s = (if g = 0 then upd_sbi (\<lambda>k. k\<lparr>s_group_desc := Some gd\<rparr>) s else s)"

text \<open>One group: None to go on with the next one.\<close>

definition ialloc_try_group :: "ext4_sb_info \<Rightarrow> u32 \<Rightarrow> kfs \<Rightarrow> u32 option \<times> kfs" where
  "ialloc_try_group sbi g s =
     (case ext4_read_inode_bitmap s g of
        ((bitmap_block, buf), s1) \<Rightarrow>
          if bitmap_block = 0 then (None, s1)
          else case ialloc_read_group_desc s1 g of
            (None, s2) \<Rightarrow> (None, s2)
          | (Some gd, s2) \<Rightarrow>
              (case inode_scan buf (ext4_get_block_size s2) (g * s_inodes_per_group sbi)
                      (s_inodes_count sbi) [0..<unat (s_inodes_per_group sbi)] of
                 None \<Rightarrow> (None, s2)
               | Some (i, new_ino) \<Rightarrow>
                   (case ext4_write_inode_bitmap s2 bitmap_block (bm_mark buf i) of
                      (False, s3) \<Rightarrow> (None, s3)
                    | (True, s3) \<Rightarrow>
                        let gd' = ialloc_take_count gd in
                        (case ialloc_write_group_desc s3 g gd' of
                           (False, s4) \<Rightarrow> (None, s4)
                         | (True, s4) \<Rightarrow>
                             (Some new_ino, snd (ext4_sync_super_free_counts (set_group0_desc g gd' s4)))))))"

fun ialloc_scan_groups :: "ext4_sb_info \<Rightarrow> u32 \<Rightarrow> u32 \<Rightarrow> nat list \<Rightarrow> kfs \<Rightarrow> u32 \<times> kfs" where
  "ialloc_scan_groups sbi groups_count start_group [] s = (0, s)"
| "ialloc_scan_groups sbi groups_count start_group (k # ks) s =
     (let g0 = start_group + of_nat k;
          g = (if g0 \<ge> groups_count then g0 - groups_count else g0)
      in case ialloc_try_group sbi g s of
           (None, s1) \<Rightarrow> ialloc_scan_groups sbi groups_count start_group ks s1
         | (Some ino, s1) \<Rightarrow> (ino, s1))"

definition ext4_new_inode_in_group :: "kfs \<Rightarrow> u32 \<Rightarrow> u32 \<times> kfs" where
  "ext4_new_inode_in_group s preferred_group =
     (case s_fs_info s of
        None \<Rightarrow> (0, s)
      | Some sbi \<Rightarrow>
          if s_group_desc sbi = None then (0, s)
          else if s_inodes_per_group sbi = 0 then (0, s)
          else let groups_count = (if s_groups_count sbi = 0 then 1 else s_groups_count sbi);
                   start_group = (if preferred_group < groups_count then preferred_group else 0)
            in case ialloc_malloc (unat (ext4_get_block_size s)) s of
                 (None, s1) \<Rightarrow> (0, s1)
               | (Some p, s1) \<Rightarrow>
                   (case ialloc_scan_groups sbi groups_count start_group [0..<unat groups_count] s1 of
                      (ino, s2) \<Rightarrow> (ino, ialloc_free p s2)))"

definition ext4_new_inode :: "kfs \<Rightarrow> u32 \<times> kfs" where
  "ext4_new_inode s = ext4_new_inode_in_group s 0"

section \<open>Freeing\<close>

definition ialloc_free_in :: "kfs \<Rightarrow> u32 \<Rightarrow> u32 \<Rightarrow> bool \<times> kfs" where
  "ialloc_free_in s grp index =
     (case ext4_read_inode_bitmap s grp of
        ((bitmap_block, buf), s1) \<Rightarrow>
          if bitmap_block = 0 then (False, s1)
          else if index div 8 \<ge> ext4_get_block_size s1 then (False, s1)
          else if bm_free buf (unat index) then (True, s1)
          else case ext4_write_inode_bitmap s1 bitmap_block (bm_clear buf (unat index)) of
            (False, s2) \<Rightarrow> (False, s2)
          | (True, s2) \<Rightarrow>
              (case ialloc_read_group_desc s2 grp of
                 (None, s3) \<Rightarrow> (False, s3)
               | (Some gd, s3) \<Rightarrow>
                   let gd' = clear_itable_unused (gd\<lparr>bg_free_inodes_count_lo := bg_free_inodes_count_lo gd + 1\<rparr>) in
                   (case ialloc_write_group_desc s3 grp gd' of
                      (False, s4) \<Rightarrow> (False, s4)
                    | (True, s4) \<Rightarrow>
                        (True, snd (ext4_sync_super_free_counts (set_group0_desc grp gd' s4))))))"

text \<open>None is the division by s_inodes_per_group = 0.\<close>

definition ext4_free_inode :: "kfs \<Rightarrow> u32 \<Rightarrow> (bool \<times> kfs) option" where
  "ext4_free_inode s ino =
     (case s_fs_info s of
        None \<Rightarrow> Some (False, s)
      | Some sbi \<Rightarrow>
          if s_group_desc sbi = None then Some (False, s)
          else if ino = 0 then Some (False, s)
          else if s_inodes_per_group sbi = 0 then None
          else let grp = (ino - 1) div s_inodes_per_group sbi;
                   index = (ino - 1) mod s_inodes_per_group sbi
            in if grp \<ge> s_groups_count sbi then Some (False, s)
               else if index \<ge> s_inodes_per_group sbi then Some (False, s)
               else case ialloc_malloc (unat (ext4_get_block_size s)) s of
                 (None, s1) \<Rightarrow> Some (False, s1)
               | (Some p, s1) \<Rightarrow>
                   (case ialloc_free_in s1 grp index of (r, s2) \<Rightarrow> Some (r, ialloc_free p s2)))"

end
