(* ===== verification/Ialloc_Steps.thy ===== *)
theory Ialloc_Steps
  imports Ialloc Balloc_Inv
begin

text \<open>
  The laws of the inode allocator: what its descriptor copies read and write, and the one change
  of the disk that an allocation and a release make. The on-disk inode bitmap of a group is
  inode_bitmap; ino_core says that the metadata is in order.
\<close>

section \<open>Descriptors with a scratch buffer at hand\<close>

lemma ialloc_read_group_desc_eq:
  assumes "s_fs_info s = Some sbi" "g < s_groups_count sbi" "ialloc_room s"
  shows "ialloc_read_group_desc s g = (gd_at s g, s)"
proof -
  have in_range: "(s_groups_count sbi \<le> g) = False" using assms(2) by (simp add: not_le)
  obtain p s1 where m: "ialloc_malloc (unat (ext4_block_size s)) s = (Some p, s1)"
    using assms(3) ialloc_malloc_room [of "unat (ext4_block_size s)" s] by (auto simp: ialloc_room_def)
  moreover have "ext4_read_block s1 = ext4_read_block s" by (subst ialloc_malloc_Some(1) [OF m]) simp
  ultimately show ?thesis
    using assms(1) in_range ialloc_malloc_Some(2) [OF m]
    by (simp add: ialloc_read_group_desc_def gd_at_def ext4_get_block_size_def split: option.splits)
qed

lemma ialloc_write_group_desc_eq:
  assumes "s_fs_info s = Some sbi" "g < s_groups_count sbi" "ialloc_room s"
  shows "ialloc_write_group_desc s g gd = gd_store s g gd"
proof -
  have in_range: "(s_groups_count sbi \<le> g) = False" using assms(2) by (simp add: not_le)
  obtain p s1 where m: "ialloc_malloc (unat (ext4_block_size s)) s = (Some p, s1)"
    using assms(3) ialloc_malloc_room [of "unat (ext4_block_size s)" s] by (auto simp: ialloc_room_def)
  have "(case ext4_write_block s1 b buf of (ok, s2) \<Rightarrow> (ok, ialloc_free p s2)) = ext4_write_block s b buf" for b buf
  proof -
    obtain ok t where w: "ext4_write_block s b buf = (ok, t)" by fastforce
    obtain d where t: "t = s\<lparr>g_disk := d\<rparr>" using ext4_write_block_disk [OF w] by blast
    obtain q where s1: "s1 = s\<lparr>pool_ialloc := q\<rparr>" using ialloc_malloc_Some(1) [OF m] by blast
    have "ext4_write_block s1 b buf = (ok, s1\<lparr>g_disk := d\<rparr>)" using w by (simp add: s1 t write_block_pool)
    then show ?thesis using w t ialloc_malloc_Some(3) [OF m] by simp
  qed
  moreover have "ext4_read_block s1 = ext4_read_block s" by (subst ialloc_malloc_Some(1) [OF m]) simp
  ultimately show ?thesis
    using assms(1) in_range m ialloc_malloc_Some(2) [OF m]
    by (simp add: ialloc_write_group_desc_def gd_store_def ext4_get_block_size_def split: option.splits)
qed

section \<open>States\<close>

definition ibm_blk :: "kfs \<Rightarrow> u32 \<Rightarrow> u32" where
  "ibm_blk s g = (case gd_at s g of None \<Rightarrow> 0 | Some gd \<Rightarrow> bg_inode_bitmap_lo gd)"

definition inode_bitmap :: "kfs \<Rightarrow> u32 \<Rightarrow> bytes option" where
  "inode_bitmap s g = ext4_read_block s (ibm_blk s g)"

definition igroup_ok :: "kfs \<Rightarrow> ext4_sb_info \<Rightarrow> u32 \<Rightarrow> bool" where
  "igroup_ok s sbi g \<longleftrightarrow> gd_at s g \<noteq> None \<and> fs_up s (gd_blk s sbi g) \<and>
     ibm_blk s g \<noteq> 0 \<and> fs_addr s (ibm_blk s g) \<and> fs_up s (ibm_blk s g) \<and>
     ibm_blk s g \<noteq> sb_blocknr (ext4_block_size s) \<and>
     (\<forall>h < s_groups_count sbi. ibm_blk s g \<noteq> gd_blk s sbi h \<and> (h \<noteq> g \<longrightarrow> ibm_blk s g \<noteq> ibm_blk s h))"

definition ino_core :: "kfs \<Rightarrow> ext4_sb_info \<Rightarrow> bool" where
  "ino_core s sbi \<longleftrightarrow> fs_io_ok s \<and> s_fs_info s = Some sbi \<and> gd_table_ok s sbi \<and> ialloc_room s \<and>
     s_block_size sbi = ext4_block_size s \<and> s_group_desc sbi \<noteq> None \<and> s_groups_count sbi \<noteq> 0 \<and>
     unat (sb_blocknr (ext4_block_size s)) < unat (gd_base sbi (ext4_block_size s)) \<and>
     (\<forall>g < s_groups_count sbi. igroup_ok s sbi g)"

lemma ino_coreD:
  assumes "ino_core s sbi"
  shows "fs_io_ok s" "s_fs_info s = Some sbi" "gd_table_ok s sbi" "ialloc_room s"
    "s_block_size sbi = ext4_block_size s" "s_group_desc sbi \<noteq> None" "1024 \<le> fs_bsz s" "fs_bsz s \<le> 4096"
  using assms by (auto simp: ino_core_def ialloc_room_def fs_bsz_def gd_table_ok_def)

lemma ino_core_group: "ino_core s sbi \<Longrightarrow> g < s_groups_count sbi \<Longrightarrow> igroup_ok s sbi g"
  by (simp add: ino_core_def)

lemma inode_bitmap_Some:
  assumes "ino_core s sbi" "g < s_groups_count sbi"
  obtains buf gd where "inode_bitmap s g = Some buf" "length buf = fs_bsz s" "gd_at s g = Some gd"
    "bg_inode_bitmap_lo gd = ibm_blk s g" "ibm_blk s g \<noteq> 0" "fs_addr s (ibm_blk s g)" "fs_up s (ibm_blk s g)"
    "ext4_read_inode_bitmap s g = ((ibm_blk s g, buf), s)" "ialloc_read_group_desc s g = (Some gd, s)"
proof -
  note D = ino_coreD [OF assms(1)]
  have g: "ibm_blk s g \<noteq> 0" "fs_addr s (ibm_blk s g)" "fs_up s (ibm_blk s g)" "gd_at s g \<noteq> None"
    using ino_core_group [OF assms] by (auto simp: igroup_ok_def)
  obtain gd where gd: "gd_at s g = Some gd" "bg_inode_bitmap_lo gd = ibm_blk s g"
    using g(4) by (auto simp: ibm_blk_def)
  obtain buf where buf: "ext4_read_block s (ibm_blk s g) = Some buf" using io.rd_up [OF D(1) g(2)] g(3) by auto
  note rd = ialloc_read_group_desc_eq [OF D(2) assms(2) D(4)]
  show thesis
    by (rule that [of buf gd])
      (use g gd buf rd D(2,6) assms(2) io.rd_len [OF D(1) g(2) buf] in
        \<open>simp_all add: inode_bitmap_def ext4_read_inode_bitmap_def not_le\<close>)
qed

text \<open>What a frame keeps.\<close>

lemma gd_blk_not_sb:
  assumes "ino_core s sbi" "h < s_groups_count sbi"
  shows "gd_blk s sbi h \<noteq> sb_blocknr (ext4_block_size s)"
proof -
  have "unat (gd_blk s sbi h) = unat (gd_base sbi (ext4_block_size s)) + unat h * unat (s_desc_size sbi) div fs_bsz s"
    by (rule gd_locD [OF ino_coreD(3) [OF assms(1)] assms(2)])
  then show ?thesis using assms(1) by (auto simp: ino_core_def)
qed

lemma ino_core_frame:
  assumes core: "ino_core s sbi" and fr: "balloc_frame B s s'" and sbi': "s_fs_info s' = Some sbi'"
    and gd: "s_group_desc sbi' \<noteq> None"
    and bm: "\<And>g. g < s_groups_count sbi \<Longrightarrow> gd_at s' g \<noteq> None \<and> ibm_blk s' g = ibm_blk s g"
  shows "ino_core s' sbi'"
proof -
  note D = ino_coreD [OF core]
  note t = balloc_frame_geo [OF fr D(2) sbi']
  have "pool_ialloc s' = pool_ialloc s" using fr by (auto simp: balloc_frame_def)
  then have room: "ialloc_room s'" using D(4) t(4) by (simp add: ialloc_room_def)
  have "igroup_ok s' sbi' g" if "g < s_groups_count sbi" for g
    using ino_core_group [OF core that] bm [OF that] that bm t by (auto simp: igroup_ok_def)
  then show ?thesis using core sbi' gd t room by (simp add: ino_core_def)
qed

lemma inode_bitmaps_frame:
  assumes core: "ino_core s sbi" and fr: "balloc_frame B s s'"
    and bm: "ibm_blk s' g = ibm_blk s g" and g: "g < s_groups_count sbi" and nb: "ibm_blk s g \<notin> B"
  shows "inode_bitmap s' g = inode_bitmap s g"
proof -
  have "fs_addr s (ibm_blk s g)" using ino_core_group [OF core g] by (simp add: igroup_ok_def)
  with fr nb bm show ?thesis by (simp add: inode_bitmap_def balloc_frame_def disk_frame_def)
qed

section \<open>The update\<close>

text \<open>
  imarked s sbi g buf' s': the inode bitmap of group g is buf' on disk, the other inode bitmaps
  are as before, and nothing was written but that bitmap, the descriptor block and the superblock.
\<close>

definition imarked :: "kfs \<Rightarrow> ext4_sb_info \<Rightarrow> u32 \<Rightarrow> bytes \<Rightarrow> kfs \<Rightarrow> bool" where
  "imarked s sbi g buf' s' \<longleftrightarrow> (\<exists>sbi'. ino_core s' sbi' \<and> sbi_geo sbi' = sbi_geo sbi) \<and>
     balloc_frame {ibm_blk s g, gd_blk s sbi g, sb_blocknr (ext4_block_size s)} s s' \<and>
     (\<forall>h < s_groups_count sbi. inode_bitmap s' h = (if h = g then Some buf' else inode_bitmap s h))"

text \<open>First the bitmap.\<close>

lemma ino_write_bitmap:
  assumes core: "ino_core s sbi" and g: "g < s_groups_count sbi" and len: "length buf' = fs_bsz s"
  shows "\<exists>s2. ext4_write_inode_bitmap s (ibm_blk s g) buf' = (True, s2) \<and> ino_core s2 sbi \<and>
    balloc_frame {ibm_blk s g} s s2 \<and> (\<forall>h < s_groups_count sbi. gd_at s2 h = gd_at s h \<and>
      inode_bitmap s2 h = (if h = g then Some buf' else inode_bitmap s h))"
proof -
  note D = ino_coreD [OF core]
  have bm: "ibm_blk s g \<noteq> 0" "fs_addr s (ibm_blk s g)" "fs_up s (ibm_blk s g)"
    using ino_core_group [OF core g] by (auto simp: igroup_ok_def)
  obtain r t where w: "ext4_write_block s (ibm_blk s g) buf' = (r, t)" by fastforce
  obtain d where t: "t = s\<lparr>g_disk := d\<rparr>" using ext4_write_block_disk [OF w] by blast
  have r: r using io.wr_up [OF D(1) bm(2) len] w bm(3) by simp
  have fr: "balloc_frame {ibm_blk s g} s t"
    using balloc_frame_disk disk_frame_write [OF D(1) bm(2) len w] by (simp add: t)
  have gds: "gd_at t h = gd_at s h" if "h < s_groups_count sbi" for h
    using gd_at_frame [OF fr D(2,3) that] ino_core_group [OF core g] that by (auto simp: igroup_ok_def)
  then have bms: "ibm_blk t h = ibm_blk s h" if "h < s_groups_count sbi" for h
    using that by (simp add: ibm_blk_def)
  have "ino_core t sbi"
    using D(2,6) gds bms ino_core_group [OF core] by (intro ino_core_frame [OF core fr]) (auto simp: igroup_ok_def t)
  moreover have "inode_bitmap t h = (if h = g then Some buf' else inode_bitmap s h)"
    if h: "h < s_groups_count sbi" for h
  proof (cases "h = g")
    case True
    with bms [OF h] io.wr_same [OF D(1) bm(2) len, of t] w r show ?thesis by (simp add: inode_bitmap_def)
  next
    case False
    have "ibm_blk s h \<noteq> ibm_blk s g" using ino_core_group [OF core h] False g by (auto simp: igroup_ok_def)
    with False inode_bitmaps_frame [OF core fr bms [OF h] h] show ?thesis by simp
  qed
  ultimately show ?thesis using bm w r fr gds by (auto simp: ext4_write_inode_bitmap_def)
qed

text \<open>Then the descriptor, the copy of the descriptor of group 0 and the superblock.\<close>

lemma ino_write_desc:
  assumes core: "ino_core s sbi" and g: "g < s_groups_count sbi" and gd: "bg_inode_bitmap_lo gd' = ibm_blk s g"
  shows "\<exists>s3. ialloc_write_group_desc s g gd' = (True, s3) \<and> ino_core s3 sbi \<and>
    balloc_frame {gd_blk s sbi g} s s3 \<and> (\<forall>h < s_groups_count sbi. inode_bitmap s3 h = inode_bitmap s h \<and>
      ibm_blk s3 h = ibm_blk s h \<and> (h \<noteq> g \<longrightarrow> gd_at s3 h = gd_at s h)) \<and>
    (\<exists>c. 32 \<le> unat c \<and> unat c \<le> 64 \<and> gd_at s3 g = Some (gd_trunc c gd'))"
proof -
  note D = ino_coreD [OF core]
  obtain r t where st: "gd_store s g gd' = (r, t)" by fastforce
  note L = gd_store_laws [OF D(1,2,3) g st]
  obtain d where t: "t = s\<lparr>g_disk := d\<rparr>" using L(2) by blast
  have r: r using L(3) ino_core_group [OF core g] by (simp add: igroup_ok_def)
  have fr: "balloc_frame {gd_blk s sbi g} s t" using L(1) balloc_frame_disk by (simp add: t)
  obtain c where c: "unat c = min 64 (unat (s_desc_size sbi))" "gd_at t g = Some (gd_trunc c gd')"
    using L(4) [OF r] by blast
  have c32: "32 \<le> unat c" "unat c \<le> 64" using c(1) D(3) by (auto simp: gd_table_ok_def)
  have gds: "gd_at t h = gd_at s h" if "h < s_groups_count sbi" "h \<noteq> g" for h using L(5) r that by simp
  have bms: "gd_at t h \<noteq> None \<and> ibm_blk t h = ibm_blk s h" if "h < s_groups_count sbi" for h
  proof (cases "h = g")
    case True
    with c(2) gd_trunc_lo(2) [OF c32, of gd'] gd show ?thesis by (simp add: ibm_blk_def)
  next
    case False
    with gds [OF that] ino_core_group [OF core that] show ?thesis by (simp add: ibm_blk_def igroup_ok_def)
  qed
  have "ino_core t sbi" using D bms by (intro ino_core_frame [OF core fr]) (simp_all add: t)
  moreover have "inode_bitmap t h = inode_bitmap s h" if h: "h < s_groups_count sbi" for h
    using bms [OF h] ino_core_group [OF core h] g
    by (intro inode_bitmaps_frame [OF core fr _ h]) (auto simp: igroup_ok_def)
  ultimately show ?thesis
    using ialloc_write_group_desc_eq [OF D(2) g D(4)] st r fr bms gds c(2) c32 by auto
qed

lemma ino_sync:
  assumes core: "ino_core s sbi"
  shows "\<exists>sbi'. ino_core (snd (ext4_sync_super_free_counts (set_group0_desc g gd' s))) sbi' \<and> sbi_geo sbi' = sbi_geo sbi \<and>
    balloc_frame {sb_blocknr (ext4_block_size s)} s (snd (ext4_sync_super_free_counts (set_group0_desc g gd' s))) \<and>
    (\<forall>h < s_groups_count sbi.
       inode_bitmap (snd (ext4_sync_super_free_counts (set_group0_desc g gd' s))) h = inode_bitmap s h \<and>
       gd_at (snd (ext4_sync_super_free_counts (set_group0_desc g gd' s))) h = gd_at s h)"
proof -
  note D = ino_coreD [OF core]
  let ?B = "{sb_blocknr (ext4_block_size s)}"
  define f where "f = (\<lambda>k :: ext4_sb_info. if g = 0 then k\<lparr>s_group_desc := Some gd'\<rparr> else k)"
  have geo: "sbi_geo (f k) = sbi_geo k" "s_block_size (f k) = s_block_size k" for k by (simp_all add: f_def sbi_geo_def)
  let ?u = "upd_sbi f s"
  have u: "set_group0_desc g gd' s = ?u" using D(2) by (cases s) (simp add: set_group0_desc_def f_def upd_sbi_def)
  have fr1: "balloc_frame ?B s ?u" by (rule balloc_frame_upd [OF D(1) geo(1)])
  have su: "s_fs_info ?u = Some (f sbi)" using D(2) by simp
  note G = balloc_frame_geo [OF fr1 D(2) su]
  obtain r d where sy: "ext4_sync_super_free_counts ?u = (r, ?u\<lparr>g_disk := d\<rparr>)"
    and frd: "disk_frame {sb_blocknr (ext4_block_size ?u)} ?u (?u\<lparr>g_disk := d\<rparr>)"
    using ext4_sync_frame [of ?u "f sbi"] G D(5,7,8) su by auto
  let ?t = "?u\<lparr>g_disk := d\<rparr>"
  have "balloc_frame ?B ?u ?t" using balloc_frame_disk [OF frd] G(4) by simp
  then have fr: "balloc_frame ?B s ?t" using balloc_frame_trans [OF fr1, of ?B ?t ?B] by simp
  have st: "s_fs_info ?t = Some (f sbi)" using su by simp
  have gds: "gd_at ?t h = gd_at s h" if "h < s_groups_count sbi" for h
    using gd_at_frame [OF fr D(2,3) that] gd_blk_not_sb [OF core that] by simp
  have bms: "gd_at ?t h \<noteq> None \<and> ibm_blk ?t h = ibm_blk s h" if "h < s_groups_count sbi" for h
    using gds [OF that] ino_core_group [OF core that] by (simp add: ibm_blk_def igroup_ok_def)
  have "ino_core ?t (f sbi)" using bms D(6) by (intro ino_core_frame [OF core fr st]) (simp_all add: f_def)
  moreover have "inode_bitmap ?t h = inode_bitmap s h" if h: "h < s_groups_count sbi" for h
    using bms [OF h] ino_core_group [OF core h]
    by (intro inode_bitmaps_frame [OF core fr _ h]) (auto simp: igroup_ok_def)
  ultimately show ?thesis using u sy geo fr gds by auto
qed

text \<open>Both together: the tail that an allocation and a release share.\<close>

lemma ino_update:
  assumes core: "ino_core s sbi" and g: "g < s_groups_count sbi" and len: "length buf' = fs_bsz s"
    and gd: "bg_inode_bitmap_lo gd' = ibm_blk s g"
  obtains s2 s3 where "ext4_write_inode_bitmap s (ibm_blk s g) buf' = (True, s2)"
    "ialloc_read_group_desc s2 g = (gd_at s g, s2)" "ialloc_write_group_desc s2 g gd' = (True, s3)"
    "imarked s sbi g buf' (snd (ext4_sync_super_free_counts (set_group0_desc g gd' s3)))"
proof -
  note D = ino_coreD [OF core]
  obtain s2 where W: "ext4_write_inode_bitmap s (ibm_blk s g) buf' = (True, s2)" "ino_core s2 sbi"
    "balloc_frame {ibm_blk s g} s s2" "\<forall>h < s_groups_count sbi. gd_at s2 h = gd_at s h \<and>
      inode_bitmap s2 h = (if h = g then Some buf' else inode_bitmap s h)"
    using ino_write_bitmap [OF core g len] by blast
  note D2 = ino_coreD [OF W(2)] and G2 = balloc_frame_geo [OF W(3) D(2) ino_coreD(2) [OF W(2)]]
  have "bg_inode_bitmap_lo gd' = ibm_blk s2 g" using gd W(4) g by (simp add: ibm_blk_def)
  from ino_write_desc [OF W(2) g this] obtain s3 where V: "ialloc_write_group_desc s2 g gd' = (True, s3)"
    "ino_core s3 sbi" "balloc_frame {gd_blk s2 sbi g} s2 s3"
    "\<forall>h < s_groups_count sbi. inode_bitmap s3 h = inode_bitmap s2 h" by blast
  note G3 = balloc_frame_geo [OF V(3) D2(2) ino_coreD(2) [OF V(2)]]
  let ?s' = "snd (ext4_sync_super_free_counts (set_group0_desc g gd' s3))"
  obtain sbi' where Y: "ino_core ?s' sbi'" "sbi_geo sbi' = sbi_geo sbi"
    "balloc_frame {sb_blocknr (ext4_block_size s3)} s3 ?s'"
    "\<forall>h < s_groups_count sbi. inode_bitmap ?s' h = inode_bitmap s3 h"
    using ino_sync [OF V(2), of g gd'] by blast
  have eq: "gd_blk s2 sbi g = gd_blk s sbi g" "ext4_block_size s3 = ext4_block_size s" using G2 G3 by simp_all
  let ?B = "{ibm_blk s g, gd_blk s sbi g, sb_blocknr (ext4_block_size s)}"
  have "balloc_frame ?B s s3" using balloc_frame_trans [OF W(3) V(3), of ?B] eq by simp
  then have "balloc_frame ?B s ?s'" using balloc_frame_trans [OF _ Y(3), of ?B s ?B] eq by simp
  then have "imarked s sbi g buf' ?s'" using Y W(4) V(4) unfolding imarked_def by (metis (full_types))
  moreover have "ialloc_read_group_desc s2 g = (gd_at s g, s2)"
    using ialloc_read_group_desc_eq [OF D2(2) g D2(4)] W(4) g by simp
  ultimately show thesis using that [OF W(1) _ V(1)] by blast
qed

section \<open>The scan of a group\<close>

text \<open>
  The numbers of the inodes of all groups fit into 32 bits, so that no inode number wraps around.
\<close>

definition ino_range :: "kfs \<Rightarrow> ext4_sb_info \<Rightarrow> u32 \<Rightarrow> nat \<Rightarrow> bool" where
  "ino_range s sbi g i \<longleftrightarrow> i < unat (s_inodes_per_group sbi) \<and> i < 8 * fs_bsz s \<and>
     unat g * unat (s_inodes_per_group sbi) + i + 1 \<le> unat (s_inodes_count sbi)"

definition ino_fits :: "ext4_sb_info \<Rightarrow> bool" where
  "ino_fits sbi \<longleftrightarrow> unat (s_groups_count sbi) * unat (s_inodes_per_group sbi) < 2 ^ 32"

lemma ino_number:
  assumes "ino_fits sbi" "g < s_groups_count sbi" "i < unat (s_inodes_per_group sbi)"
  shows "unat (g * s_inodes_per_group sbi + of_nat i + 1) = unat g * unat (s_inodes_per_group sbi) + i + 1"
proof -
  let ?n = "unat (s_inodes_per_group sbi)"
  have "(unat g + 1) * ?n \<le> unat (s_groups_count sbi) * ?n" using assms(2) by (intro mult_le_mono1) (simp add: word_less_nat_alt)
  then have lt: "unat g * ?n + i + 1 < 2 ^ 32" using assms(1,3) by (simp add: ino_fits_def)
  have m: "unat (g * s_inodes_per_group sbi) = unat g * ?n" using lt by (subst unat_mult_nowrap) simp_all
  have a: "unat (g * s_inodes_per_group sbi + of_nat i) = unat g * ?n + i"
    using lt m by (subst unat_add_nowrap) (simp_all add: unat_of_nat_fit)
  show ?thesis using lt a by (subst unat_add_nowrap) simp_all
qed

lemma inode_scan_spec:
  assumes f: "ino_fits sbi" "g < s_groups_count sbi" and n: "n = unat (s_inodes_per_group sbi)"
    and b: "unat block_size = fs_bsz s"
  shows "k \<le> n \<Longrightarrow> inode_scan buf block_size (g * s_inodes_per_group sbi) (s_inodes_count sbi) [k..<n] = r \<Longrightarrow>
    (case r of None \<Rightarrow> \<forall>i. k \<le> i \<longrightarrow> ino_range s sbi g i \<longrightarrow> \<not> bm_free buf i
     | Some (i, ino) \<Rightarrow> k \<le> i \<and> ino_range s sbi g i \<and> bm_free buf i \<and> (\<forall>j. k \<le> j \<and> j < i \<longrightarrow> \<not> bm_free buf j) \<and>
         ino = g * s_inodes_per_group sbi + of_nat i + 1)"
proof (induction "n - k" arbitrary: k)
  case 0
  then show ?case by (auto simp: ino_range_def n)
next
  case (Suc m)
  then have lt: "k < n" by simp
  then have up: "[k..<n] = k # [Suc k..<n]" by (rule upt_conv_Cons)
  let ?ino = "g * s_inodes_per_group sbi + of_nat k + 1"
  have ino: "unat ?ino = unat g * n + k + 1" using ino_number [OF f, of k] lt by (simp add: n)
  then have nz: "?ino \<noteq> 0" by (metis add_is_0 one_neq_zero unat_0)
  have byte: "unat block_size \<le> k div 8 \<longleftrightarrow> \<not> k < 8 * fs_bsz s" unfolding b by (simp add: less_eq_div_iff_mult_less_eq) linarith
  have cnt: "?ino > s_inodes_count sbi \<longleftrightarrow> \<not> unat g * n + k + 1 \<le> unat (s_inodes_count sbi)"
    by (simp add: word_less_nat_alt ino not_le)
  have out: "\<not> ino_range s sbi g i" if "\<not> ino_range s sbi g k" "k \<le> i" for i
    using that lt by (auto simp: ino_range_def n)
  show ?case
  proof (cases "ino_range s sbi g k")
    case False
    then have "unat block_size \<le> k div 8 \<or> ?ino > s_inodes_count sbi"
      using byte cnt lt by (auto simp: ino_range_def n)
    then have "r = None" using Suc.prems(2) by (auto simp: up Let_def)
    then show ?thesis using out [OF False] by simp
  next
    case True
    then have ok: "\<not> unat block_size \<le> k div 8" "\<not> ?ino > s_inodes_count sbi" using byte cnt by (auto simp: ino_range_def n)
    show ?thesis
    proof (cases "bm_free buf k")
      case True1: True
      then have "r = Some (k, ?ino)" using Suc.prems(2) ok nz by (simp add: up Let_def)
      then show ?thesis using True True1 by auto
    next
      case False
      then have "inode_scan buf block_size (g * s_inodes_per_group sbi) (s_inodes_count sbi) [Suc k..<n] = r"
        using Suc.prems(2) ok nz by (simp add: up Let_def)
      from Suc.hyps(1) [OF _ _ this] Suc.hyps(2) lt False show ?thesis
        by (auto simp: le_eq_less_or_eq [of k] Suc_le_eq split: option.splits)
    qed
  qed
qed

end
