(* ===== verification/Ialloc_Props.thy ===== *)
theory Ialloc_Props
  imports Ialloc_Steps Demo_State
begin

text \<open>
  What the inode allocator promises: a new inode is the lowest free one of the first group that
  has one, in the order of the scan, and only its bit is set; freeing takes the bit back.
\<close>

section \<open>The groups\<close>

lemma inode_bitmap_len:
  assumes "ino_core s sbi" "g < s_groups_count sbi" "inode_bitmap s g = Some buf"
  shows "length buf = fs_bsz s"
proof -
  obtain buf' where "inode_bitmap s g = Some buf'" "length buf' = fs_bsz s"
    by (rule inode_bitmap_Some [OF assms(1,2)])
  with assms(3) show ?thesis by simp
qed

lemma imarked_core:
  "imarked s sbi g buf' s' \<Longrightarrow> \<exists>sbi'. ino_core s' sbi' \<and> s_fs_info s' = Some sbi' \<and> sbi_geo sbi' = sbi_geo sbi"
  using ino_coreD(2) by (auto simp: imarked_def)

lemma ialloc_try_group_spec:
  assumes core: "ino_core s sbi" and f: "ino_fits sbi" and g: "g < s_groups_count sbi"
    and buf: "inode_bitmap s g = Some buf" and r: "ialloc_try_group sbi g s = (r, s')"
  shows "case r of None \<Rightarrow> s' = s \<and> (\<forall>i. ino_range s sbi g i \<longrightarrow> \<not> bm_free buf i)
    | Some ino \<Rightarrow> \<exists>i. ino_range s sbi g i \<and> bm_free buf i \<and> (\<forall>j < i. \<not> bm_free buf j) \<and>
        ino = g * s_inodes_per_group sbi + of_nat i + 1 \<and> imarked s sbi g (bm_mark buf i) s'"
proof -
  obtain gd where B: "length buf = fs_bsz s" "gd_at s g = Some gd" "bg_inode_bitmap_lo gd = ibm_blk s g"
    "ibm_blk s g \<noteq> 0" "ext4_read_inode_bitmap s g = ((ibm_blk s g, buf), s)" "ialloc_read_group_desc s g = (Some gd, s)"
    using inode_bitmap_Some [OF core g] buf by (metis option.inject)
  let ?n = "unat (s_inodes_per_group sbi)"
  have bs: "unat (ext4_get_block_size s) = fs_bsz s" by (simp add: fs_bsz_def ext4_get_block_size_def)
  note S = inode_scan_spec [OF f g refl bs, of 0 buf "inode_scan buf (ext4_get_block_size s)
    (g * s_inodes_per_group sbi) (s_inodes_count sbi) [0..<?n]"]
  show ?thesis
  proof (cases "inode_scan buf (ext4_get_block_size s) (g * s_inodes_per_group sbi) (s_inodes_count sbi) [0..<?n]")
    case None
    with r B(4-6) have "r = None" "s' = s" by (simp_all add: ialloc_try_group_def)
    with S None show ?thesis by simp
  next
    case (Some p)
    obtain i ino where p: "p = (i, ino)" by fastforce
    from S Some p have P: "ino_range s sbi g i" "bm_free buf i" "\<forall>j < i. \<not> bm_free buf j"
      "ino = g * s_inodes_per_group sbi + of_nat i + 1" by auto
    have "bg_inode_bitmap_lo (ialloc_take_count gd) = ibm_blk s g"
      using B(3) by (simp add: ialloc_take_count_def clear_itable_unused_def)
    from ino_update [OF core g _ this, of "bm_mark buf i"] B(1) obtain s2 s3 where
      U: "ext4_write_inode_bitmap s (ibm_blk s g) (bm_mark buf i) = (True, s2)"
        "ialloc_write_group_desc s2 g (ialloc_take_count gd) = (True, s3)"
        "imarked s sbi g (bm_mark buf i) (snd (ext4_sync_super_free_counts (set_group0_desc g (ialloc_take_count gd) s3)))"
      by (metis length_bm_mark)
    then have "r = Some ino" "s' = snd (ext4_sync_super_free_counts (set_group0_desc g (ialloc_take_count gd) s3))"
      using r B(4-6) Some p by (simp_all add: ialloc_try_group_def Let_def)
    with P U(3) show ?thesis by auto
  qed
qed

text \<open>The result of the scan of the groups, and of ext4_new_inode_in_group.\<close>

definition new_ino_ok :: "kfs \<Rightarrow> ext4_sb_info \<Rightarrow> u32 \<Rightarrow> kfs \<Rightarrow> bool" where
  "new_ino_ok s sbi ino s' \<longleftrightarrow> (\<exists>g i buf. g < s_groups_count sbi \<and> inode_bitmap s g = Some buf \<and>
     ino_range s sbi g i \<and> bm_free buf i \<and> (\<forall>j < i. \<not> bm_free buf j) \<and>
     ino = g * s_inodes_per_group sbi + of_nat i + 1 \<and> imarked s sbi g (bm_mark buf i) s')"

definition no_free_ino :: "kfs \<Rightarrow> ext4_sb_info \<Rightarrow> u32 \<Rightarrow> bool" where
  "no_free_ino s sbi g \<longleftrightarrow> (\<forall>buf i. inode_bitmap s g = Some buf \<longrightarrow> ino_range s sbi g i \<longrightarrow> \<not> bm_free buf i)"

lemma new_ino_nonzero:
  assumes "ino_fits sbi" "new_ino_ok s sbi ino s'"
  shows "ino \<noteq> 0"
proof -
  obtain g i where "g < s_groups_count sbi" "ino_range s sbi g i" "ino = g * s_inodes_per_group sbi + of_nat i + 1"
    using assms(2) by (auto simp: new_ino_ok_def)
  with ino_number [OF assms(1), of g i] show ?thesis by (auto simp: ino_range_def)
qed

lemma ialloc_scan_groups_spec:
  assumes core: "ino_core s sbi" and f: "ino_fits sbi" and start: "start < s_groups_count sbi"
    and gc: "unat (s_groups_count sbi) \<le> 2 ^ 28"
  shows "set ks \<subseteq> {..<unat (s_groups_count sbi)} \<Longrightarrow>
    ialloc_scan_groups sbi (s_groups_count sbi) start ks s = (ino, s') \<Longrightarrow>
    if ino = 0 then s' = s \<and> (\<forall>k \<in> set ks. no_free_ino s sbi (scan_group (s_groups_count sbi) start k))
    else new_ino_ok s sbi ino s'"
proof (induction ks)
  case (Cons k ks)
  let ?g = "scan_group (s_groups_count sbi) start k"
  have g: "?g < s_groups_count sbi" using Cons.prems(1) by (intro scan_group_less [OF gc start]) simp
  obtain buf where buf: "inode_bitmap s ?g = Some buf" by (rule inode_bitmap_Some [OF core g])
  obtain r t where t: "ialloc_try_group sbi ?g s = (r, t)" by fastforce
  note T = ialloc_try_group_spec [OF core f g buf t]
  have step: "ialloc_scan_groups sbi (s_groups_count sbi) start (k # ks) s =
      (case r of None \<Rightarrow> ialloc_scan_groups sbi (s_groups_count sbi) start ks t | Some ino \<Rightarrow> (ino, t))"
    using t by (simp add: scan_group_def Let_def split: option.splits if_splits)
  show ?case
  proof (cases r)
    case None
    with T have "t = s" "no_free_ino s sbi ?g" using buf by (auto simp: no_free_ino_def)
    with None Cons step show ?thesis by (auto split: if_splits)
  next
    case (Some n)
    with T g buf have "new_ino_ok s sbi n t" unfolding new_ino_ok_def by auto
    with Some step Cons.prems(2) new_ino_nonzero [OF f] show ?thesis by auto
  qed
qed simp

section \<open>The scratch buffer of the whole operation\<close>

lemma ino_view_pool [simp]:
  "gd_at (s\<lparr>pool_ialloc := q\<rparr>) g = gd_at s g"
  "gd_blk (s\<lparr>pool_ialloc := q\<rparr>) sbi g = gd_blk s sbi g"
  "ibm_blk (s\<lparr>pool_ialloc := q\<rparr>) g = ibm_blk s g"
  "inode_bitmap (s\<lparr>pool_ialloc := q\<rparr>) g = inode_bitmap s g"
  "gd_table_ok (s\<lparr>pool_ialloc := q\<rparr>) sbi = gd_table_ok s sbi"
  "fs_io_ok (s\<lparr>pool_ialloc := q\<rparr>) = fs_io_ok s"
  "fs_bsz (s\<lparr>pool_ialloc := q\<rparr>) = fs_bsz s"
  "fs_addr (s\<lparr>pool_ialloc := q\<rparr>) = fs_addr s"
  "fs_up (s\<lparr>pool_ialloc := q\<rparr>) = fs_up s"
  "ino_range (s\<lparr>pool_ialloc := q\<rparr>) sbi g = ino_range s sbi g"
proof -
  note io [simp] = fs_io_cong [of "s\<lparr>pool_ialloc := q\<rparr>" s]
  show gd [simp]: "gd_at (s\<lparr>pool_ialloc := q\<rparr>) g = gd_at s g" for g
    by (simp add: gd_at_def split: option.split)
  show blk [simp]: "gd_blk (s\<lparr>pool_ialloc := q\<rparr>) sbi g = gd_blk s sbi g" for g
    by (simp add: gd_blk_def)
  show "ibm_blk (s\<lparr>pool_ialloc := q\<rparr>) g = ibm_blk s g"
    "inode_bitmap (s\<lparr>pool_ialloc := q\<rparr>) g = inode_bitmap s g"
    "gd_table_ok (s\<lparr>pool_ialloc := q\<rparr>) sbi = gd_table_ok s sbi"
    "ino_range (s\<lparr>pool_ialloc := q\<rparr>) sbi g = ino_range s sbi g"
    by (simp_all add: ibm_blk_def inode_bitmap_def gd_table_ok_def ino_range_def fun_eq_iff)
qed (rule fs_io_cong; simp)+

lemma ino_core_pool:
  "ino_core s sbi \<Longrightarrow> 0 < pool_free_count q \<Longrightarrow> ino_core (s\<lparr>pool_ialloc := q\<rparr>) sbi"
  by (simp add: ino_core_def igroup_ok_def ialloc_room_def)

lemma imarked_pool:
  assumes m: "imarked (s\<lparr>pool_ialloc := q\<rparr>) sbi g b t" and p: "0 < pool_free_count (pool_ialloc s)"
  shows "imarked s sbi g b (t\<lparr>pool_ialloc := pool_ialloc s\<rparr>)"
proof -
  let ?B = "{ibm_blk s g, gd_blk s sbi g, sb_blocknr (ext4_block_size s)}" and ?t = "t\<lparr>pool_ialloc := pool_ialloc s\<rparr>"
  have fr: "balloc_frame ?B (s\<lparr>pool_ialloc := q\<rparr>) t" using m by (simp add: imarked_def)
  obtain d i where t: "t = s\<lparr>pool_ialloc := q, g_disk := d, s_fs_info := i\<rparr>" using fr by (auto simp: balloc_frame_def)
  have "disk_frame ?B s ?t" using fr by (simp add: balloc_frame_def disk_frame_def)
  moreover have "?t = s\<lparr>g_disk := d, s_fs_info := i\<rparr>" by (simp add: t)
  moreover have "map_option sbi_geo i = map_option sbi_geo (s_fs_info s)" using fr by (simp add: balloc_frame_def t)
  ultimately have "balloc_frame ?B s ?t" unfolding balloc_frame_def by auto
  moreover obtain sbi' where "ino_core ?t sbi'" "sbi_geo sbi' = sbi_geo sbi"
    using m ino_core_pool p by (auto simp: imarked_def)
  ultimately show ?thesis using m by (auto simp: imarked_def)
qed

lemma ialloc_scratch:
  assumes core: "ino_core s sbi" and pool: "2 \<le> pool_free_count (pool_ialloc s)"
  obtains p q where "ialloc_malloc (unat (ext4_get_block_size s)) s = (Some p, s\<lparr>pool_ialloc := q\<rparr>)"
    "ino_core (s\<lparr>pool_ialloc := q\<rparr>) sbi" "ialloc_free p (s\<lparr>pool_ialloc := q\<rparr>) = s"
    "\<forall>g b t. imarked (s\<lparr>pool_ialloc := q\<rparr>) sbi g b t \<longrightarrow> imarked s sbi g b (ialloc_free p t)"
proof -
  let ?n = "unat (ext4_get_block_size s)"
  have nn: "?n \<le> 4096" using ino_coreD(8) [OF core] by (simp add: fs_bsz_def ext4_get_block_size_def)
  obtain p s1 where m: "ialloc_malloc ?n s = (Some p, s1)"
    using ialloc_malloc_room [of ?n s] pool nn by auto
  obtain q where s1: "s1 = s\<lparr>pool_ialloc := q\<rparr>" using ialloc_malloc_Some(1) [OF m] by blast
  have "Suc (pool_free_count q) = pool_free_count (pool_ialloc s)"
    using m s1 by (auto simp: ialloc_malloc_def dest!: pool_free_count_malloc
        dest: arg_cong [where f = pool_ialloc] split: prod.splits)
  then have core1: "ino_core (s\<lparr>pool_ialloc := q\<rparr>) sbi" using core pool by (intro ino_core_pool) simp_all
  have fr: "ialloc_free p (s\<lparr>pool_ialloc := q\<rparr>) = s" using ialloc_malloc_Some(2) [OF m] s1 by simp
  have "imarked s sbi g b (ialloc_free p t)" if i: "imarked (s\<lparr>pool_ialloc := q\<rparr>) sbi g b t" for g b t
  proof -
    obtain d i where t: "t = s\<lparr>pool_ialloc := q, g_disk := d, s_fs_info := i\<rparr>"
      using i by (auto simp: imarked_def balloc_frame_def)
    have "ialloc_free p t = t\<lparr>pool_ialloc := pool_ialloc s\<rparr>"
      using arg_cong [OF fr, of pool_ialloc] by (simp add: t ialloc_free_def)
    with imarked_pool [OF i] pool show ?thesis by simp
  qed
  with m s1 core1 fr show thesis using that by blast
qed

lemma new_inode_spec:
  assumes core: "ino_core s sbi" and f: "ino_fits sbi" and pool: "2 \<le> pool_free_count (pool_ialloc s)"
    and ipg: "s_inodes_per_group sbi \<noteq> 0" and r: "ext4_new_inode_in_group s pref = (ino, s')"
  shows "if ino = 0 then s' = s \<and> (\<forall>g < s_groups_count sbi. no_free_ino s sbi g) else new_ino_ok s sbi ino s'"
proof -
  note D = ino_coreD [OF core]
  have gc0: "s_groups_count sbi \<noteq> 0" using core by (simp add: ino_core_def)
  have "unat (s_groups_count sbi) * 32 \<le> unat (s_groups_count sbi) * unat (s_desc_size sbi)"
    using D(3) by (intro mult_le_mono2) (simp add: gd_table_ok_def)
  also have "\<dots> < 2 ^ 32" using D(3) by (simp add: gd_table_ok_def)
  finally have gc: "unat (s_groups_count sbi) \<le> 2 ^ 28" by simp
  let ?start = "if pref < s_groups_count sbi then pref else 0"
  have st: "?start < s_groups_count sbi" using gc0 by (simp add: word_gt_0)
  obtain p q where P: "ialloc_malloc (unat (ext4_get_block_size s)) s = (Some p, s\<lparr>pool_ialloc := q\<rparr>)"
    "ino_core (s\<lparr>pool_ialloc := q\<rparr>) sbi" "ialloc_free p (s\<lparr>pool_ialloc := q\<rparr>) = s"
    "\<forall>g b t. imarked (s\<lparr>pool_ialloc := q\<rparr>) sbi g b t \<longrightarrow> imarked s sbi g b (ialloc_free p t)"
    by (rule ialloc_scratch [OF core pool])
  let ?s1 = "s\<lparr>pool_ialloc := q\<rparr>"
  obtain n t where t: "ialloc_scan_groups sbi (s_groups_count sbi) ?start [0..<unat (s_groups_count sbi)] ?s1 = (n, t)"
    by fastforce
  have S: "if n = 0 then t = ?s1 \<and> (\<forall>k \<in> {..<unat (s_groups_count sbi)}. no_free_ino ?s1 sbi (scan_group (s_groups_count sbi) ?start k))
      else new_ino_ok ?s1 sbi n t"
    using ialloc_scan_groups_spec [OF P(2) f st gc _ t] by (simp add: atLeast0LessThan)
  have eq: "ino = n" "s' = ialloc_free p t"
    using r P(1) t D(2,6) ipg gc0 by (simp_all add: ext4_new_inode_in_group_def Let_def split: if_splits)
  show ?thesis
  proof (cases "n = 0")
    case True
    have "no_free_ino s sbi g" if "g < s_groups_count sbi" for g
      using scan_group_surj [OF gc st that] S True by (auto simp: no_free_ino_def)
    with True S eq P(3) show ?thesis by simp
  next
    case False
    with S have "new_ino_ok ?s1 sbi n t" by simp
    then have "new_ino_ok s sbi n (ialloc_free p t)" using P(4) unfolding new_ino_ok_def ino_view_pool by blast
    with False eq show ?thesis by simp
  qed
qed

section \<open>Freeing\<close>

lemma free_inode_spec:
  assumes core: "ino_core s sbi" and pool: "2 \<le> pool_free_count (pool_ialloc s)"
    and nz: "s_inodes_per_group sbi \<noteq> 0" "ino \<noteq> 0"
    and g: "(ino - 1) div s_inodes_per_group sbi = g" "g < s_groups_count sbi"
    and k: "unat ((ino - 1) mod s_inodes_per_group sbi) = k" "k < 8 * fs_bsz s"
    and buf: "inode_bitmap s g = Some buf"
  shows "\<exists>s'. ext4_free_inode s ino = Some (True, s') \<and>
    (if bm_free buf k then s' = s else imarked s sbi g (bm_clear buf k) s')"
proof -
  note D = ino_coreD [OF core]
  let ?k = "(ino - 1) mod s_inodes_per_group sbi"
  obtain p q where P: "ialloc_malloc (unat (ext4_get_block_size s)) s = (Some p, s\<lparr>pool_ialloc := q\<rparr>)"
    "ino_core (s\<lparr>pool_ialloc := q\<rparr>) sbi" "ialloc_free p (s\<lparr>pool_ialloc := q\<rparr>) = s"
    "\<forall>g b t. imarked (s\<lparr>pool_ialloc := q\<rparr>) sbi g b t \<longrightarrow> imarked s sbi g b (ialloc_free p t)"
    by (rule ialloc_scratch [OF core pool])
  let ?s1 = "s\<lparr>pool_ialloc := q\<rparr>"
  obtain gd where B: "length buf = fs_bsz ?s1" "gd_at ?s1 g = Some gd" "bg_inode_bitmap_lo gd = ibm_blk ?s1 g"
    "ibm_blk ?s1 g \<noteq> 0" "ext4_read_inode_bitmap ?s1 g = ((ibm_blk ?s1 g, buf), ?s1)"
    using inode_bitmap_Some [OF P(2) g(2)] buf by (metis ino_view_pool(4) option.inject)
  have "?k < s_inodes_per_group sbi" using nz by (simp add: word_less_nat_alt unat_mod unat_gt_0)
  then have flags: "(s_inodes_per_group sbi \<le> ?k) = False" "(s_groups_count sbi \<le> g) = False"
    using g(2) by (simp_all add: not_le)
  obtain gd0 where gd0: "s_group_desc sbi = Some gd0" using D(6) by blast
  have eq: "ext4_free_inode s ino = Some (r, ialloc_free p t)" if "ialloc_free_in ?s1 g ?k = (r, t)" for r t
    using that D(2) nz g(1) P(1) flags gd0 by (simp add: ext4_free_inode_def Let_def)
  have byte: "\<not> ext4_get_block_size ?s1 \<le> ?k div 8"
    using k by (simp add: word_le_nat_alt unat_div ext4_get_block_size_def fs_bsz_def less_mult_imp_div_less mult.commute)
  show ?thesis
  proof (cases "bm_free buf k")
    case True
    then have "ialloc_free_in ?s1 g ?k = (True, ?s1)" using B(4,5) byte k(1) by (simp add: ialloc_free_in_def)
    from eq [OF this] True P(3) show ?thesis by simp
  next
    case False
    let ?gd' = "clear_itable_unused (gd\<lparr>bg_free_inodes_count_lo := bg_free_inodes_count_lo gd + 1\<rparr>)"
    have "bg_inode_bitmap_lo ?gd' = ibm_blk ?s1 g" using B(3) by (simp add: clear_itable_unused_def)
    from ino_update [OF P(2) g(2) _ this, of "bm_clear buf k"] B(1) obtain s2 s3 where
      U: "ext4_write_inode_bitmap ?s1 (ibm_blk ?s1 g) (bm_clear buf k) = (True, s2)"
        "ialloc_read_group_desc s2 g = (gd_at ?s1 g, s2)" "ialloc_write_group_desc s2 g ?gd' = (True, s3)"
        "imarked ?s1 sbi g (bm_clear buf k) (snd (ext4_sync_super_free_counts (set_group0_desc g ?gd' s3)))"
      by (metis length_bm_clear)
    then have "ialloc_free_in ?s1 g ?k = (True, snd (ext4_sync_super_free_counts (set_group0_desc g ?gd' s3)))"
      using B(2,4,5) byte k(1) False by (simp add: ialloc_free_in_def Let_def)
    from eq [OF this] False P(4) U(4) show ?thesis by auto
  qed
qed

section \<open>A small file system\<close>

definition demo_ibm :: bytes where
  "demo_ibm = [255] @ replicate 1023 0"

lemma demo_ibm_blk [simp]: "length bm = 512 \<Longrightarrow> ibm_blk (demo_with bm) 0 = 4"
  by (simp add: ibm_blk_def) (simp add: demo_gd_def)

lemma demo_ino_core: "ino_core demo_fs demo_sbi"
  by (simp add: ino_core_def demo_io_ok gd_table_ok_def word_less_1 igroup_ok_def demo_up
      demo_gd_loc gd_base_def sb_blocknr_def fs_addr_def pool_free_count_def ialloc_room_def)

lemma demo_inode_bitmap: "inode_bitmap demo_fs 0 = Some demo_ibm"
proof -
  have "ext4_read_block demo_fs 4 = Some (([255] @ replicate 511 0) @ replicate 512 0)"
    by (subst demo_read) (simp_all add: demo_disk_def)
  moreover have "replicate 511 (0 :: u8) @ replicate 512 0 = replicate 1023 0"
    using replicate_add [of 511 512 "0 :: u8"] by simp
  ultimately show ?thesis by (simp add: inode_bitmap_def demo_ibm_def)
qed

lemma demo_ino_fits: "ino_fits demo_sbi" by (simp add: ino_fits_def)

lemma demo_ibm_free: "bm_free demo_ibm i \<longleftrightarrow> 8 \<le> i" if "i < 16"
proof -
  have "i div 8 = 0 \<or> i div 8 = 1" using that by auto
  moreover have "\<forall>k<8. bit (255 :: u8) k" by code_simp
  ultimately show ?thesis by (auto simp: bm_free_bit demo_ibm_def)
qed

lemma demo_new_inode: "\<exists>s'. ext4_new_inode_in_group demo_fs 0 = (9, s')"
proof -
  obtain ino s' where r: "ext4_new_inode_in_group demo_fs 0 = (ino, s')" by fastforce
  note S = new_inode_spec [OF demo_ino_core demo_ino_fits _ _ r]
  have "ino \<noteq> 0"
  proof
    assume "ino = 0"
    with S have "no_free_ino demo_fs demo_sbi 0" by (simp add: pool_free_count_def)
    then have "ino_range demo_fs demo_sbi 0 8 \<longrightarrow> \<not> bm_free demo_ibm 8"
      using demo_inode_bitmap by (simp add: no_free_ino_def)
    then show False by (simp add: ino_range_def demo_ibm_free)
  qed
  with S have "new_ino_ok demo_fs demo_sbi ino s'" by (simp add: pool_free_count_def)
  then obtain i where i: "ino_range demo_fs demo_sbi 0 i" "bm_free demo_ibm i" "\<forall>j < i. \<not> bm_free demo_ibm j" "ino = of_nat i + 1"
    using demo_inode_bitmap by (auto simp: new_ino_ok_def word_less_1)
  then have "i < 16" by (simp add: ino_range_def)
  then have "8 \<le> i" using i(2) demo_ibm_free [of i] by simp
  moreover have "\<not> 8 < i" using i(3) demo_ibm_free [of 8] by auto
  ultimately have "i = 8" by simp
  with i(4) r show ?thesis by auto
qed

section \<open>Allocation and release\<close>

text \<open>C18: A new inode is free and the lowest one of its group: when ext4_new_inode_in_group returns a
  number, it is at most the number of inodes, its bit in the inode bitmap of its group was clear
  and all lower ones set, the bitmap on disk now has this bit set and no other change, and no
  block of the device was written but that bitmap, the descriptor block of the group and the
  superblock.\<close>

theorem new_inode_takes_lowest_free:
  assumes "ino_core s sbi" "ino_fits sbi" "2 \<le> pool_free_count (pool_ialloc s)" "s_inodes_per_group sbi \<noteq> 0"
    and "ext4_new_inode_in_group s preferred_group = (ino, s')" "ino \<noteq> 0"
  shows "ino \<le> s_inodes_count sbi \<and> (\<exists>g i buf buf'. g < s_groups_count sbi \<and>
    unat ino = unat g * unat (s_inodes_per_group sbi) + i + 1 \<and> i < unat (s_inodes_per_group sbi) \<and>
    inode_bitmap s g = Some buf \<and> inode_bitmap s' g = Some buf' \<and>
    bm_free buf i \<and> (\<forall>j < i. \<not> bm_free buf j) \<and> (\<forall>j. bm_free buf' j \<longleftrightarrow> bm_free buf j \<and> j \<noteq> i) \<and>
    (\<forall>c. fs_addr s c \<longrightarrow> c \<notin> {ibm_blk s g, gd_blk s sbi g, sb_blocknr (ext4_block_size s)} \<longrightarrow>
       ext4_read_block s' c = ext4_read_block s c))"
proof -
  have "new_ino_ok s sbi ino s'" using new_inode_spec [OF assms(1-5)] assms(6) by simp
  then obtain g i buf where N: "g < s_groups_count sbi" "inode_bitmap s g = Some buf" "ino_range s sbi g i"
    "bm_free buf i" "\<forall>j < i. \<not> bm_free buf j" "ino = g * s_inodes_per_group sbi + of_nat i + 1"
    "imarked s sbi g (bm_mark buf i) s'" unfolding new_ino_ok_def by blast
  have "unat ino = unat g * unat (s_inodes_per_group sbi) + i + 1"
    using ino_number [OF assms(2) N(1), of i] N(3,6) by (simp add: ino_range_def)
  moreover have "length buf = fs_bsz s"
    by (rule inode_bitmap_len [OF assms(1) N(1,2)])
  then have "bm_free (bm_mark buf i) j \<longleftrightarrow> bm_free buf j \<and> j \<noteq> i" for j
    using N(3) by (subst bm_free_mark) (auto simp: ino_range_def)
  moreover have "inode_bitmap s' g = Some (bm_mark buf i)"
    "\<forall>c. fs_addr s c \<longrightarrow> c \<notin> {ibm_blk s g, gd_blk s sbi g, sb_blocknr (ext4_block_size s)} \<longrightarrow>
       ext4_read_block s' c = ext4_read_block s c"
    using N(1,7) by (auto simp: imarked_def balloc_frame_def disk_frame_def)
  ultimately show ?thesis using N(1-5)
    by (intro conjI exI [of _ g] exI [of _ i] exI [of _ buf] exI [of _ "bm_mark buf i"])
      (simp_all add: ino_range_def word_le_nat_alt)
qed

theorem new_inode_takes_lowest_free_witness:
  "\<exists>s' buf'. ext4_new_inode_in_group demo_fs 0 = (9, s') \<and> inode_bitmap s' 0 = Some buf' \<and>
    \<not> bm_free buf' 8 \<and> bm_free demo_ibm 8"
proof -
  obtain s' where r: "ext4_new_inode_in_group demo_fs 0 = (9, s')" using demo_new_inode by blast
  have "2 \<le> pool_free_count (pool_ialloc demo_fs)" by (simp add: pool_free_count_def)
  from new_inode_takes_lowest_free [OF demo_ino_core demo_ino_fits this _ r] obtain g i buf buf' where
    "g < 1" "unat (9 :: u32) = unat g * 16 + i + 1" "inode_bitmap demo_fs g = Some buf" "inode_bitmap s' g = Some buf'"
    "bm_free buf i" "\<forall>j. bm_free buf' j \<longleftrightarrow> bm_free buf j \<and> j \<noteq> i" by auto
  then have "i = 8" "inode_bitmap s' 0 = Some buf'" "bm_free demo_ibm 8" "\<not> bm_free buf' 8"
    using demo_inode_bitmap by (auto simp: word_less_1)
  with r show ?thesis by blast
qed

text \<open>C19: ext4_new_inode_in_group fails only when no inode is left: when it returns 0, every inode number
  of every group is taken in the bitmap of its group, and the file system has not changed.\<close>

theorem new_inode_fails_only_when_full:
  assumes "ino_core s sbi" "ino_fits sbi" "2 \<le> pool_free_count (pool_ialloc s)" "s_inodes_per_group sbi \<noteq> 0"
    and "ext4_new_inode_in_group s preferred_group = (0, s')"
    and "g < s_groups_count sbi" "inode_bitmap s g = Some buf" "i < unat (s_inodes_per_group sbi)" "i < 8 * fs_bsz s"
    and "unat g * unat (s_inodes_per_group sbi) + i < unat (s_inodes_count sbi)"
  shows "\<not> bm_free buf i \<and> s' = s"
  using new_inode_spec [OF assms(1-5)] assms(6-10) by (auto simp: no_free_ino_def ino_range_def)

lemma demo_fewer_inodes:
  defines "f \<equiv> \<lambda>i :: ext4_sb_info. i\<lparr>s_inodes_count := 8\<rparr>"
  shows "ino_core (upd_sbi f demo_fs) (f demo_sbi)" "inode_bitmap (upd_sbi f demo_fs) 0 = Some demo_ibm"
proof -
  have sel: "s_desc_size (f i) = s_desc_size i" "s_first_data_block (f i) = s_first_data_block i" for i
    by (simp_all add: f_def)
  have loc: "gd_loc (f i) = gd_loc i" "gd_base (f i) = gd_base i" for i
    by (simp_all add: sel gd_loc_def gd_base_def fun_eq_iff Let_def)
  have u: "upd_sbi f demo_fs = demo_fs\<lparr>s_fs_info := Some (f demo_sbi)\<rparr>" by (simp add: upd_sbi_def)
  have fd: "s_groups_count (f demo_sbi) = 1" "s_desc_size (f demo_sbi) = 64" "s_block_size (f demo_sbi) = 1024"
    "s_group_desc (f demo_sbi) = Some demo_gd" by (simp_all add: f_def)
  have gd: "gd_at (upd_sbi f demo_fs) 0 = gd_at demo_fs 0" "gd_blk (upd_sbi f demo_fs) (f demo_sbi) 0 = gd_blk demo_fs demo_sbi 0"
    unfolding u by (simp_all add: gd_at_def gd_blk_def loc fd demo_gd_loc)
  then have ibm: "ibm_blk (upd_sbi f demo_fs) 0 = ibm_blk demo_fs 0" by (simp add: ibm_blk_def)
  then show "inode_bitmap (upd_sbi f demo_fs) 0 = Some demo_ibm"
    using demo_inode_bitmap by (simp add: inode_bitmap_def)
  have io: "fs_io_ok (upd_sbi f demo_fs)" "fs_bsz (upd_sbi f demo_fs) = 1024" "fs_addr (upd_sbi f demo_fs) = fs_addr demo_fs"
    "fs_up (upd_sbi f demo_fs) = fs_up demo_fs" "ext4_block_size (upd_sbi f demo_fs) = 1024"
    "pool_ialloc (upd_sbi f demo_fs) = replicate 8 False"
    unfolding u using fs_io_cong [of "demo_fs\<lparr>s_fs_info := Some (f demo_sbi)\<rparr>" demo_fs] demo_io_ok [of demo_bm] by simp_all
  show "ino_core (upd_sbi f demo_fs) (f demo_sbi)"
    using demo_ino_core fd loc gd ibm io
    by (simp add: ino_core_def gd_table_ok_def igroup_ok_def word_less_1 ialloc_room_def pool_free_count_def)
qed

theorem new_inode_fails_only_when_full_witness:
  "\<exists>s. ext4_new_inode_in_group s 0 = (0, s) \<and> s_fs_info s = Some (demo_sbi\<lparr>s_inodes_count := 8\<rparr>) \<and> \<not> bm_free demo_ibm 7"
proof -
  let ?f = "\<lambda>i :: ext4_sb_info. i\<lparr>s_inodes_count := 8\<rparr>"
  let ?s = "upd_sbi ?f demo_fs" and ?sbi = "demo_sbi\<lparr>s_inodes_count := 8\<rparr>"
  obtain ino s' where r: "ext4_new_inode_in_group ?s 0 = (ino, s')" by fastforce
  have fits: "ino_fits ?sbi" by (simp add: ino_fits_def)
  have pool: "2 \<le> pool_free_count (pool_ialloc ?s)" by (simp add: upd_sbi_def pool_free_count_def)
  have bsz: "fs_bsz ?s = 1024" by (simp add: upd_sbi_def fs_bsz_def)
  have "ino = 0"
  proof (rule ccontr)
    assume "ino \<noteq> 0"
    then have "new_ino_ok ?s ?sbi ino s'" using new_inode_spec [OF demo_fewer_inodes(1) fits pool _ r] by simp
    then obtain i where "ino_range ?s ?sbi 0 i" "bm_free demo_ibm i"
      using demo_fewer_inodes(2) by (auto simp: new_ino_ok_def word_less_1)
    then show False using demo_ibm_free [of i] by (simp add: ino_range_def)
  qed
  with new_inode_fails_only_when_full [OF demo_fewer_inodes(1) fits pool, of 0 s' 0 demo_ibm 7] r bsz demo_fewer_inodes(2)
  have "\<not> bm_free demo_ibm 7" "s' = ?s" by simp_all
  with r \<open>ino = 0\<close> show ?thesis by (intro exI [of _ ?s]) (simp add: upd_sbi_def)
qed

text \<open>C20: Allocating an inode and freeing it restores the inode bitmaps of all groups.\<close>

theorem inode_alloc_free_roundtrip:
  assumes "ino_core s sbi" "ino_fits sbi" "2 \<le> pool_free_count (pool_ialloc s)" "s_inodes_per_group sbi \<noteq> 0"
    and "ext4_new_inode_in_group s preferred_group = (ino, s')" "ino \<noteq> 0"
  shows "\<exists>s''. ext4_free_inode s' ino = Some (True, s'') \<and>
    (\<forall>h < s_groups_count sbi. inode_bitmap s'' h = inode_bitmap s h)"
proof -
  have "new_ino_ok s sbi ino s'" using new_inode_spec [OF assms(1-5)] assms(6) by simp
  then obtain g i buf where N: "g < s_groups_count sbi" "inode_bitmap s g = Some buf" "ino_range s sbi g i"
    "bm_free buf i" "ino = g * s_inodes_per_group sbi + of_nat i + 1" "imarked s sbi g (bm_mark buf i) s'"
    unfolding new_ino_ok_def by blast
  obtain sbi' where C: "ino_core s' sbi'" "sbi_geo sbi' = sbi_geo sbi" using imarked_core [OF N(6)] by blast
  have geo: "s_inodes_per_group sbi' = s_inodes_per_group sbi" "s_groups_count sbi' = s_groups_count sbi"
    using C(2) by (simp_all add: sbi_geo_def)
  have fr: "pool_ialloc s' = pool_ialloc s" "fs_bsz s' = fs_bsz s"
    using N(6) by (auto simp: imarked_def balloc_frame_def disk_frame_def)
  let ?n = "unat (s_inodes_per_group sbi)"
  have "unat ino = unat g * ?n + i + 1"
    using ino_number [OF assms(2) N(1), of i] N(3,5) by (simp add: ino_range_def)
  then have un: "unat (ino - 1) = unat g * ?n + i" by (subst unat_sub_le) (simp_all add: word_le_nat_alt)
  have n: "i < ?n" "0 < ?n" using N(3) by (auto simp: ino_range_def)
  have "(ino - 1) div s_inodes_per_group sbi' = g" by (rule word_eq_by_unat) (use un n geo in \<open>simp add: unat_div\<close>)
  moreover have "unat ((ino - 1) mod s_inodes_per_group sbi') = i" using un n geo by (simp add: unat_mod)
  moreover have bm: "inode_bitmap s' h = (if h = g then Some (bm_mark buf i) else inode_bitmap s h)" if "h < s_groups_count sbi" for h
    using N(6) that by (simp add: imarked_def)
  have len: "length buf = fs_bsz s" by (rule inode_bitmap_len [OF assms(1) N(1,2)])
  moreover have i8: "i < 8 * length buf" using N(3) len by (simp add: ino_range_def)
  ultimately obtain s'' where F: "ext4_free_inode s' ino = Some (True, s'')"
    "if bm_free (bm_mark buf i) i then s'' = s' else imarked s' sbi' g (bm_clear (bm_mark buf i) i) s''"
    using free_inode_spec [OF C(1), of ino g i "bm_mark buf i"] assms(3,4,6) N(1) geo fr bm [OF N(1)] by auto
  have "\<not> bm_free (bm_mark buf i) i" using i8 by (simp add: bm_free_mark)
  with F(2) have "imarked s' sbi' g buf s''" using bm_clear_mark [OF i8 N(4)] by simp
  then have "inode_bitmap s'' h = inode_bitmap s h" if "h < s_groups_count sbi" for h
    using that bm [OF that] geo N(2) by (simp add: imarked_def)
  with F(1) show ?thesis by blast
qed

theorem inode_alloc_free_roundtrip_witness:
  "\<exists>s' s''. ext4_new_inode_in_group demo_fs 0 = (9, s') \<and> ext4_free_inode s' 9 = Some (True, s'') \<and>
    inode_bitmap s'' 0 = Some demo_ibm"
proof -
  obtain s' where r: "ext4_new_inode_in_group demo_fs 0 = (9, s')" using demo_new_inode by blast
  have "2 \<le> pool_free_count (pool_ialloc demo_fs)" by (simp add: pool_free_count_def)
  from inode_alloc_free_roundtrip [OF demo_ino_core demo_ino_fits this _ r] obtain s'' where
    "ext4_free_inode s' 9 = Some (True, s'')" "\<forall>h < s_groups_count demo_sbi. inode_bitmap s'' h = inode_bitmap demo_fs h" by auto
  with r demo_inode_bitmap show ?thesis by (intro exI [of _ s'] exI [of _ s'']) simp
qed

end
