(* ===== verification/Inode_State.thy ===== *)
theory Inode_State
  imports Balloc
begin

text \<open>
  In-memory inodes: the fields of struct inode (include/fs/inode.h) that the file system reads or
  writes, and struct ext4_inode_info behind i_private. The 15 words of i_block are kept as the 60
  bytes they occupy, because the extent code casts them to an extent node. unsigned long has 32
  bits on the target; loff_t and time64_t values are 64-bit words. An inode is the object in the
  slot i_slot of the static pool of fs/inode.c, its private part the buffer ei_buf of the pool of
  fs/ext4/super.c; i_op stands for the pair of tables i_op and i_fop, which the code always sets
  together.
\<close>

datatype op_tables = No_Ops | Ext4_Dir_Ops | Ext4_File_Ops

record ext4_inode_info =
  ei_buf :: nat
  i_block :: bytes
  ei_flags :: u32
  i_alloc_group_hint :: u32

record inode =
  i_slot :: nat
  i_ino :: u32
  i_nlink :: u32
  i_uid :: u32
  i_gid :: u32
  i_mode :: u16
  i_atime :: u64
  i_mtime :: u64
  i_ctime :: u64
  i_size :: u64
  i_blocks :: u32
  i_state :: u32
  i_count :: int
  i_op :: op_tables
  i_private :: "ext4_inode_info option"

abbreviation (input) I_NEW :: u32 where "I_NEW \<equiv> 0x80"
abbreviation (input) I_DIRTY :: u32 where "I_DIRTY \<equiv> 1"
abbreviation (input) S_IFMT :: u16 where "S_IFMT \<equiv> 0xF000"
abbreviation (input) S_IFREG :: u16 where "S_IFREG \<equiv> 0x8000"
abbreviation (input) S_IFDIR :: u16 where "S_IFDIR \<equiv> 0x4000"
abbreviation (input) S_IFLNK :: u16 where "S_IFLNK \<equiv> 0xA000"

definition S_ISREG :: "u16 \<Rightarrow> bool" where
  "S_ISREG m \<longleftrightarrow> m AND S_IFMT = S_IFREG"

definition S_ISDIR :: "u16 \<Rightarrow> bool" where
  "S_ISDIR m \<longleftrightarrow> m AND S_IFMT = S_IFDIR"

definition S_ISLNK :: "u16 \<Rightarrow> bool" where
  "S_ISLNK m \<longleftrightarrow> m AND S_IFMT = S_IFLNK"

text \<open>ino->i_block[k] as a word, and its assignment.\<close>

definition get_iblock :: "ext4_inode_info \<Rightarrow> nat \<Rightarrow> u32" where
  "get_iblock ei k = get32 (i_block ei) (4 * k)"

definition set_iblock :: "nat \<Rightarrow> u32 \<Rightarrow> ext4_inode_info \<Rightarrow> ext4_inode_info" where
  "set_iblock k b ei = ei\<lparr>i_block := put32 (i_block ei) (4 * k) b\<rparr>"

lemma get_set_iblock:
  "length (i_block ei) = 60 \<Longrightarrow> k < 15 \<Longrightarrow> j < 15 \<Longrightarrow>
   get_iblock (set_iblock k b ei) j = (if j = k then b else get_iblock ei j)"
proof (cases "j = k")
  case False
  assume "length (i_block ei) = 60" "k < 15" "j < 15"
  with False have "get32 (put32 (i_block ei) (4 * k) b) (4 * j) = get32 (i_block ei) (4 * j)"
    by (intro le32.get_put_other) auto
  with False show ?thesis by (simp add: get_iblock_def set_iblock_def)
qed (simp add: get_iblock_def set_iblock_def le32.get_put_same)

section \<open>The inode pool, fs/inode.c\<close>

text \<open>The object in a slot after memset and the assignments of vfs_alloc_inode.\<close>

definition vfs_fresh_inode :: "nat \<Rightarrow> inode" where
  "vfs_fresh_inode i =
     \<lparr>i_slot = i, i_ino = of_nat (i + 1), i_nlink = 0, i_uid = 0, i_gid = 0, i_mode = 0,
      i_atime = 0, i_mtime = 0, i_ctime = 0, i_size = 0, i_blocks = 0, i_state = I_NEW,
      i_count = 1, i_op = No_Ops, i_private = None\<rparr>"

definition vfs_alloc_inode :: "kfs \<Rightarrow> inode option \<times> kfs" where
  "vfs_alloc_inode s =
     (case first_unused (vfs_inode_used s) of
        None \<Rightarrow> (None, s)
      | Some i \<Rightarrow> (Some (vfs_fresh_inode i), s\<lparr>vfs_inode_used := (vfs_inode_used s)[i := True]\<rparr>))"

definition vfs_free_inode :: "inode \<Rightarrow> kfs \<Rightarrow> kfs" where
  "vfs_free_inode node s = s\<lparr>vfs_inode_used := (vfs_inode_used s)[i_slot node := False]\<rparr>"

section \<open>Inode objects of ext4, fs/ext4/super.c\<close>

text \<open>
  sizeof (struct ext4_inode_info) is 72: 60 bytes of i_block, two words, and the pointer
  dir_index, which is always NULL and left out.
\<close>

definition ext4_alloc_inode :: "kfs \<Rightarrow> inode option \<times> kfs" where
  "ext4_alloc_inode s =
     (case vfs_alloc_inode s of
        (None, s1) \<Rightarrow> (None, s1)
      | (Some node, s1) \<Rightarrow>
          (case super_malloc 72 s1 of
             (None, s2) \<Rightarrow> (None, vfs_free_inode node s2)
           | (Some p, s2) \<Rightarrow>
               (Some (node\<lparr>i_private := Some \<lparr>ei_buf = p, i_block = replicate 60 0, ei_flags = 0,
                  i_alloc_group_hint = 0\<rparr>\<rparr>), s2)))"

definition ext4_destroy_inode :: "inode \<Rightarrow> kfs \<Rightarrow> kfs" where
  "ext4_destroy_inode node s =
     vfs_free_inode node
       (case i_private node of None \<Rightarrow> s | Some ei \<Rightarrow> super_free (ei_buf ei) s)"

end
