(* ===== verification/Extents.thy ===== *)
theory Extents
  imports Inode_State
begin

text \<open>
  Extent trees, fs/ext4/extents.c. A node is a byte buffer: a header followed by an array of
  extents (depth 0) or index entries; the root is the 60 bytes of i_block in the inode. The
  functions below read and write the arrays inside the buffer as the code does. An array access
  beyond the buffer, undefined in C, reads a short slice here; the theorems exclude it by
  node_ok.
\<close>

section \<open>Nodes\<close>

abbreviation (input) EXT4_EXT_MAX_DEPTH :: nat where "EXT4_EXT_MAX_DEPTH \<equiv> 5"
abbreviation (input) EXT4_EXT_INIT_MAX_LEN :: u32 where "EXT4_EXT_INIT_MAX_LEN \<equiv> 0x7fff"

definition eh_get :: "bytes \<Rightarrow> ext4_extent_header" where
  "eh_get buf = get_struct 12 eh_dec buf 0"

definition eh_put :: "ext4_extent_header \<Rightarrow> bytes \<Rightarrow> bytes" where
  "eh_put h buf = put_struct eh_enc buf 0 h"

definition ext_get :: "bytes \<Rightarrow> nat \<Rightarrow> ext4_extent" where
  "ext_get buf i = get_struct 12 ex_dec buf (12 + 12 * i)"

definition ext_put :: "nat \<Rightarrow> ext4_extent \<Rightarrow> bytes \<Rightarrow> bytes" where
  "ext_put i e buf = put_struct ex_enc buf (12 + 12 * i) e"

definition idx_get :: "bytes \<Rightarrow> nat \<Rightarrow> ext4_extent_idx" where
  "idx_get buf i = get_struct 12 ix_dec buf (12 + 12 * i)"

definition idx_put :: "nat \<Rightarrow> ext4_extent_idx \<Rightarrow> bytes \<Rightarrow> bytes" where
  "idx_put i e buf = put_struct ix_enc buf (12 + 12 * i) e"

definition node_entries :: "bytes \<Rightarrow> nat" where
  "node_entries buf = unat (eh_entries (eh_get buf))"

definition node_max :: "bytes \<Rightarrow> nat" where
  "node_max buf = unat (eh_max (eh_get buf))"

definition set_entries :: "nat \<Rightarrow> bytes \<Rightarrow> bytes" where
  "set_entries n buf = eh_put ((eh_get buf)\<lparr>eh_entries := of_nat n\<rparr>) buf"

text \<open>48-bit physical block numbers.\<close>

definition ext4_extent_pblock :: "ext4_extent \<Rightarrow> u64" where
  "ext4_extent_pblock e = push_bit 32 (ucast (ee_start_hi e)) OR ucast (ee_start_lo e)"

definition ext4_extent_set_pblock :: "u64 \<Rightarrow> ext4_extent \<Rightarrow> ext4_extent" where
  "ext4_extent_set_pblock pblk e =
     e\<lparr>ee_start_hi := ucast (drop_bit 32 pblk), ee_start_lo := ucast (pblk AND 0xffffffff)\<rparr>"

definition ext4_idx_pblock :: "ext4_extent_idx \<Rightarrow> u64" where
  "ext4_idx_pblock ix = push_bit 32 (ucast (ei_leaf_hi ix)) OR ucast (ei_leaf_lo ix)"

definition ext4_idx_set_pblock :: "u64 \<Rightarrow> ext4_extent_idx \<Rightarrow> ext4_extent_idx" where
  "ext4_idx_set_pblock pblk ix =
     ix\<lparr>ei_leaf_hi := ucast (drop_bit 32 pblk), ei_leaf_lo := ucast (pblk AND 0xffffffff)\<rparr>"

definition ext4_extents_init_node :: "nat \<Rightarrow> u16 \<Rightarrow> bytes \<Rightarrow> bytes" where
  "ext4_extents_init_node n depth buf =
     (if n < 12 then buf
      else eh_put \<lparr>eh_magic = EXT4_EXT_MAGIC, eh_entries = 0, eh_max = of_nat ((n - 12) div 12),
                   eh_depth = depth, eh_generation = 0\<rparr>
             (bsplice 0 (replicate n 0) buf))"

definition ext4_extents_init_root :: "bytes \<Rightarrow> bytes" where
  "ext4_extents_init_root buf = ext4_extents_init_node 60 0 buf"

section \<open>Lookup in a leaf\<close>

text \<open>
  The result is the index of the extent, None for -1, and the value stored through
  out_prev_index, None when it is left alone.
\<close>

fun extents_find_loop :: "bytes \<Rightarrow> u32 \<Rightarrow> nat list \<Rightarrow> int \<Rightarrow> nat option \<times> int" where
  "extents_find_loop buf lblock [] last_less = (None, last_less)"
| "extents_find_loop buf lblock (i # is) last_less =
     (let e = ext_get buf i; b = ee_block e; l = (ucast (ee_len e) :: u32) in
      if l = 0 then extents_find_loop buf lblock is last_less
      else if b \<le> lblock \<and> lblock < b + l then (Some i, int i - 1)
      else if b < lblock then extents_find_loop buf lblock is (int i)
      else if b > lblock then (None, last_less)
      else extents_find_loop buf lblock is last_less)"

definition ext4_extents_find :: "bytes \<Rightarrow> u32 \<Rightarrow> nat option \<times> int option" where
  "ext4_extents_find buf lblock =
     (let h = eh_get buf in
      if eh_magic h \<noteq> EXT4_EXT_MAGIC then (None, None)
      else if eh_entries h = 0 then (None, Some (- 1))
      else case extents_find_loop buf lblock [0..<unat (eh_entries h)] (- 1) of
             (r, prev) \<Rightarrow> (r, Some prev))"

definition ext4_extents_lookup_mapped :: "bytes \<Rightarrow> u32 \<Rightarrow> u32 option" where
  "ext4_extents_lookup_mapped leaf lblock =
     (case fst (ext4_extents_find leaf lblock) of
        None \<Rightarrow> None
      | Some i \<Rightarrow> let e = ext_get leaf i in
          Some (ucast (ext4_extent_pblock e + ucast (lblock - ee_block e))))"

section \<open>Insertion into a leaf\<close>

fun ext_insert_pos :: "bytes \<Rightarrow> u32 \<Rightarrow> nat \<Rightarrow> nat" where
  "ext_insert_pos buf key 0 = 0"
| "ext_insert_pos buf key (Suc p) =
     (if ee_block (ext_get buf p) > key then ext_insert_pos buf key p else Suc p)"

text \<open>The two shifting loops: up from pos to n, down onto pos below n - 1.\<close>

definition ext_shift_up :: "nat \<Rightarrow> nat \<Rightarrow> bytes \<Rightarrow> bytes" where
  "ext_shift_up pos n buf = foldl (\<lambda>b i. ext_put i (ext_get b (i - 1)) b) buf (rev [Suc pos..<Suc n])"

definition ext_shift_down :: "nat \<Rightarrow> nat \<Rightarrow> bytes \<Rightarrow> bytes" where
  "ext_shift_down pos n buf = foldl (\<lambda>b i. ext_put i (ext_get b (Suc i)) b) buf [pos..<n - 1]"

definition ext_adjacent :: "ext4_extent \<Rightarrow> ext4_extent \<Rightarrow> bool" where
  "ext_adjacent l r \<longleftrightarrow> ee_block l + ucast (ee_len l) = ee_block r \<and>
     ext4_extent_pblock l + ucast (ee_len l) = ext4_extent_pblock r"

definition merged_len :: "ext4_extent \<Rightarrow> ext4_extent \<Rightarrow> u32" where
  "merged_len l r = ucast (ee_len l) + ucast (ee_len r)"

text \<open>After a merge with the left neighbour, the attempt to merge it with the right one.\<close>

definition extents_fuse_right :: "nat \<Rightarrow> nat \<Rightarrow> bytes \<Rightarrow> bytes" where
  "extents_fuse_right insert_pos entries buf =
     (let left = ext_get buf (insert_pos - 1); right = ext_get buf insert_pos in
      if insert_pos < entries \<and> ext_adjacent left right \<and>
         merged_len left right \<le> EXT4_EXT_INIT_MAX_LEN
      then set_entries (entries - 1)
             (ext_shift_down insert_pos entries
               (ext_put (insert_pos - 1) (left\<lparr>ee_len := ucast (merged_len left right)\<rparr>) buf))
      else buf)"

definition ext4_extents_insert :: "bytes \<Rightarrow> ext4_extent \<Rightarrow> bool \<times> bytes" where
  "ext4_extents_insert buf new_ex =
     (let entries = node_entries buf; max_n = node_max buf in
      if eh_magic (eh_get buf) \<noteq> EXT4_EXT_MAGIC then (False, buf)
      else if entries > max_n then (False, buf)
      else let insert_pos = ext_insert_pos buf (ee_block new_ex) entries;
               left = ext_get buf (insert_pos - 1);
               right = ext_get buf insert_pos
        in if insert_pos > 0 \<and> ext_adjacent left new_ex \<and>
              merged_len left new_ex \<le> EXT4_EXT_INIT_MAX_LEN
           then (True, extents_fuse_right insert_pos entries
                         (ext_put (insert_pos - 1) (left\<lparr>ee_len := ucast (merged_len left new_ex)\<rparr>) buf))
           else if insert_pos < entries \<and> ext_adjacent new_ex right \<and>
                   merged_len right new_ex \<le> EXT4_EXT_INIT_MAX_LEN
           then (True, ext_put insert_pos
                   (right\<lparr>ee_block := ee_block new_ex, ee_start_lo := ee_start_lo new_ex,
                          ee_start_hi := ee_start_hi new_ex, ee_len := ucast (merged_len right new_ex)\<rparr>) buf)
           else if entries = max_n then (False, buf)
           else (True, set_entries (entries + 1)
                         (ext_put insert_pos new_ex (ext_shift_up insert_pos entries buf))))"

section \<open>Paths\<close>

text \<open>
  A path element: the bytes of the node, its block number (0 for the root in the inode), and the
  scratch buffer it occupies. path[i].buf and path[i].eh are one buffer; path[0].eh is the
  i_block of the inode, whose new contents the operations below hand back in the path.
\<close>

record ext4_ext_path =
  ep_node :: bytes
  ep_blocknr :: u32
  ep_buf :: "nat option"

definition ext4_extents_free_path :: "ext4_ext_path list \<Rightarrow> kfs \<Rightarrow> kfs" where
  "ext4_extents_free_path path s =
     foldl (\<lambda>s e. case ep_buf e of None \<Rightarrow> s | Some p \<Rightarrow> extents_free p s) s path"

fun choose_idx :: "bytes \<Rightarrow> u32 \<Rightarrow> nat list \<Rightarrow> nat \<Rightarrow> nat" where
  "choose_idx node lblock [] chosen = chosen"
| "choose_idx node lblock (i # is) chosen =
     (if ei_block (idx_get node i) \<le> lblock then choose_idx node lblock is i else chosen)"

text \<open>
  One level down per element of the list. A failure returns at once: the buffers of the levels
  read so far stay allocated, and so does the one whose contents were rejected.
\<close>

fun read_path_loop ::
  "kfs \<Rightarrow> nat \<Rightarrow> u32 \<Rightarrow> nat list \<Rightarrow> ext4_ext_path list \<Rightarrow> ext4_ext_path list option \<times> kfs" where
  "read_path_loop s root_depth lblock [] path = (Some path, s)"
| "read_path_loop s root_depth lblock (d # ds) path =
     (let cur = ep_node (last path) in
      if node_entries cur = 0 then (None, s)
      else let chosen = idx_get cur (choose_idx cur lblock [0..<node_entries cur] 0);
               child_blk = (ucast (ext4_idx_pblock chosen) :: u32)
        in if child_blk = 0 then (None, s)
           else case extents_malloc (unat (ext4_get_block_size s)) s of
             (None, s1) \<Rightarrow> (None, s1)
           | (Some p, s1) \<Rightarrow>
               (case ext4_read_block s1 child_blk of
                  None \<Rightarrow> (None, extents_free p s1)
                | Some buf \<Rightarrow>
                    if eh_magic (eh_get buf) \<noteq> EXT4_EXT_MAGIC then (None, s1)
                    else if eh_depth (eh_get buf) \<noteq> of_nat (root_depth - (d + 1)) then (None, s1)
                    else read_path_loop s1 root_depth lblock ds
                           (path @ [\<lparr>ep_node = buf, ep_blocknr = child_blk, ep_buf = Some p\<rparr>])))"

definition ext4_extents_read_path :: "kfs \<Rightarrow> bytes \<Rightarrow> u32 \<Rightarrow> ext4_ext_path list option \<times> kfs" where
  "ext4_extents_read_path s root lblock =
     (let h = eh_get root; depth = unat (eh_depth h) in
      if eh_magic h \<noteq> EXT4_EXT_MAGIC then (None, s)
      else if depth > EXT4_EXT_MAX_DEPTH then (None, s)
      else read_path_loop s depth lblock [0..<depth]
             [\<lparr>ep_node = root, ep_blocknr = 0, ep_buf = None\<rparr>])"

definition ext4_extents_write_path_node :: "ext4_ext_path list \<Rightarrow> nat \<Rightarrow> kfs \<Rightarrow> bool \<times> kfs" where
  "ext4_extents_write_path_node path level s =
     (if ep_blocknr (path ! level) \<noteq> 0
      then ext4_write_block s (ep_blocknr (path ! level)) (ep_node (path ! level))
      else (True, s))"

definition set_node :: "nat \<Rightarrow> bytes \<Rightarrow> ext4_ext_path list \<Rightarrow> ext4_ext_path list" where
  "set_node level node path = path[level := (path ! level)\<lparr>ep_node := node\<rparr>]"

section \<open>Allocation of a new extent\<close>

definition ext4_extents_fs_blocks_count :: "kfs \<Rightarrow> u32" where
  "ext4_extents_fs_blocks_count s =
     (let n = ext4_get_blocks_count s in
      case s_fs_info s of
        None \<Rightarrow> n
      | Some sbi \<Rightarrow> if s_blocks_count sbi > 0 \<and> (n = 0 \<or> s_blocks_count sbi < n)
                    then s_blocks_count sbi else n)"

text \<open>The extent and its first block, the inode with the account of the extra blocks.\<close>

definition ext4_extents_alloc_new_extent ::
  "kfs \<Rightarrow> inode \<Rightarrow> u32 \<Rightarrow> u32 \<Rightarrow> (ext4_extent \<times> u32) option \<times> inode \<times> kfs" where
  "ext4_extents_alloc_new_extent s ino lblock fs_blocks_count =
     (let preferred_group = (case i_private ino of None \<Rightarrow> - 1 | Some ei \<Rightarrow> i_alloc_group_hint ei) in
      case ext4_new_blocks_in_group s (ext4_get_prealloc_goal_len s) preferred_group of
        ((new_block, alloc_len), s1) \<Rightarrow>
          if new_block = 0 \<or> fs_blocks_count = 0 \<or> new_block \<ge> fs_blocks_count then (None, ino, s1)
          else let l1 = (if alloc_len = 0 then 1 else alloc_len);
                   l2 = (if l1 > EXT4_EXT_INIT_MAX_LEN then EXT4_EXT_INIT_MAX_LEN else l1);
                   l3 = (if new_block + l2 > fs_blocks_count then fs_blocks_count - new_block else l2)
            in if l3 = 0 then (None, ino, s1)
               else let new_ex = ext4_extent_set_pblock (ucast new_block)
                          \<lparr>ee_block = lblock, ee_len = ucast l3, ee_start_hi = 0, ee_start_lo = 0\<rparr>;
                        sectors_per_block = (ext4_get_block_size s1 + 511) div 512;
                        ino' = (if l3 > 1
                                then ino\<lparr>i_blocks := i_blocks ino + (l3 - 1) * sectors_per_block,
                                         i_state := i_state ino OR I_DIRTY\<rparr>
                                else ino)
                 in (Some (new_ex, new_block), ino', s1))"

definition ext4_extents_insert_at_leaf ::
  "ext4_ext_path list \<Rightarrow> nat \<Rightarrow> ext4_extent \<Rightarrow> kfs \<Rightarrow> bool \<times> ext4_ext_path list \<times> kfs" where
  "ext4_extents_insert_at_leaf path depth new_ex s =
     (case ext4_extents_insert (ep_node (path ! depth)) new_ex of
        (False, node) \<Rightarrow> (False, set_node depth node path, s)
      | (True, node) \<Rightarrow>
          let path' = set_node depth node path in
          (case ext4_extents_write_path_node path' depth s of (ok, s1) \<Rightarrow> (ok, path', s1)))"

section \<open>Splitting\<close>

text \<open>
  The bytes of the right leaf, of the left leaf, and the first extent of the right one. Clearing
  the moved entries runs up to eh_max.
\<close>

definition ext_clear :: "nat \<Rightarrow> nat \<Rightarrow> bytes \<Rightarrow> bytes" where
  "ext_clear a b buf = foldl (\<lambda>buf i. put_struct (\<lambda>x. x) buf (12 + 12 * i) (replicate 12 0)) buf [a..<b]"

definition split_leaf_nodes :: "nat \<Rightarrow> bytes \<Rightarrow> ext4_extent \<Rightarrow> bytes \<times> bytes \<times> ext4_extent" where
  "split_leaf_nodes block_size leaf new_ex =
     (let n = node_entries leaf;
          insert_pos = ext_insert_pos leaf (ee_block new_ex) n;
          right_count = n - insert_pos;
          right0 = ext4_extents_init_node block_size 0 (replicate block_size 0);
          right1 = (if right_count > 0
                    then set_entries right_count
                           (foldl (\<lambda>b i. ext_put i (ext_get leaf (insert_pos + i)) b) right0 [0..<right_count])
                    else right0);
          leaf1 = (if right_count > 0
                   then ext_clear insert_pos (node_max leaf) (set_entries insert_pos leaf)
                   else leaf)
      in if insert_pos = n
         then (set_entries 1 (ext_put 0 new_ex right1), leaf1, new_ex)
         else (right1, set_entries (insert_pos + 1) (ext_put insert_pos new_ex leaf1), ext_get right1 0))"

text \<open>
  On success the block of the right leaf and the first extent of it. The leaf in the path is
  changed before the block for its right half is allocated.
\<close>

definition ext4_extents_split_leaf ::
  "kfs \<Rightarrow> ext4_ext_path list \<Rightarrow> nat \<Rightarrow> u32 \<Rightarrow> ext4_extent \<Rightarrow>
   (u32 \<times> ext4_extent) option \<times> ext4_ext_path list \<times> kfs" where
  "ext4_extents_split_leaf s path depth fs_blocks_count new_ex =
     (let leaf = ep_node (path ! depth); block_size = ext4_get_block_size s in
      if node_entries leaf = 0 \<or> node_entries leaf \<noteq> node_max leaf then (None, path, s)
      else case extents_malloc (unat block_size) s of
        (None, s1) \<Rightarrow> (None, path, s1)
      | (Some p, s1) \<Rightarrow>
          (case split_leaf_nodes (unat block_size) leaf new_ex of
             (right_buf, leaf', split_right) \<Rightarrow>
               let path' = set_node depth leaf' path in
               (case ext4_new_block s1 of
                  (right_blk, s2) \<Rightarrow>
                    if right_blk = 0 \<or> right_blk \<ge> fs_blocks_count then (None, path', extents_free p s2)
                    else case ext4_extents_write_path_node path' depth s2 of
                      (False, s3) \<Rightarrow> (None, path', extents_free p s3)
                    | (True, s3) \<Rightarrow>
                        (case ext4_write_block s3 right_blk right_buf of
                           (False, s4) \<Rightarrow> (None, path', extents_free p s4)
                         | (True, s4) \<Rightarrow> (Some (right_blk, split_right), path', extents_free p s4)))))"

section \<open>Index nodes\<close>

text \<open>memcpy-shifted insertion into an array of index entries.\<close>

definition ext4_extents_insert_entry :: "bytes \<Rightarrow> nat \<Rightarrow> nat \<Rightarrow> nat \<Rightarrow> ext4_extent_idx \<Rightarrow> bytes option" where
  "ext4_extents_insert_entry node n max_n pos new_elem =
     (if n \<ge> max_n then None
      else let pos = min pos n in
        Some (idx_put pos new_elem
               (foldl (\<lambda>b i. idx_put i (idx_get b (i - 1)) b) node (rev [Suc pos..<Suc n]))))"

fun idx_first_above :: "bytes \<Rightarrow> u32 \<Rightarrow> nat list \<Rightarrow> nat \<Rightarrow> nat" where
  "idx_first_above node key [] default_pos = default_pos"
| "idx_first_above node key (j # js) default_pos =
     (if ei_block (idx_get node j) > key then j else idx_first_above node key js default_pos)"

fun idx_insert_pos :: "bytes \<Rightarrow> u32 \<Rightarrow> nat \<Rightarrow> nat" where
  "idx_insert_pos node key 0 = 0"
| "idx_insert_pos node key (Suc p) =
     (if ei_block (idx_get node p) > key then idx_insert_pos node key p else Suc p)"

definition split_index_nodes ::
  "nat \<Rightarrow> bytes \<Rightarrow> ext4_extent_idx \<Rightarrow> bytes \<times> bytes \<times> u32" where
  "split_index_nodes block_size node new_idx =
     (let n = node_entries node;
          insert_pos = idx_insert_pos node (ei_block new_idx) n;
          right_count = n - insert_pos;
          right0 = ext4_extents_init_node block_size (eh_depth (eh_get node)) (replicate block_size 0);
          right1 = (if right_count > 0
                    then set_entries right_count
                           (foldl (\<lambda>b j. idx_put j (idx_get node (insert_pos + j)) b) right0 [0..<right_count])
                    else right0);
          node1 = (if right_count > 0
                   then ext_clear insert_pos (node_max node) (set_entries insert_pos node)
                   else node)
      in if insert_pos = n
         then (set_entries 1 (idx_put 0 new_idx right1), node1, ei_block new_idx)
         else (right1, set_entries (insert_pos + 1) (idx_put insert_pos new_idx node1),
               ei_block (idx_get right1 0)))"

text \<open>
  The level counts down from depth - 1; lev is the number of levels still above. The result is
  the status, need_grow, the right block, the separating key, the path and the state.
\<close>

type_synonym add_index_result = "bool \<times> bool \<times> u32 \<times> u32 \<times> ext4_ext_path list \<times> kfs"

fun ext4_extents_add_index ::
  "nat \<Rightarrow> u32 \<Rightarrow> u32 \<Rightarrow> u32 \<Rightarrow> ext4_ext_path list \<Rightarrow> kfs \<Rightarrow> add_index_result" where
  "ext4_extents_add_index 0 fs_blocks_count right_blk split_key path s =
     (True, True, right_blk, split_key, path, s)"
| "ext4_extents_add_index (Suc level) fs_blocks_count right_blk split_key path s =
     (let node = ep_node (path ! level); block_size = ext4_get_block_size s;
          new_idx = ext4_idx_set_pblock (ucast right_blk)
            \<lparr>ei_block = split_key, ei_leaf_lo = 0, ei_leaf_hi = 0, ei_unused = 0\<rparr>
      in if node_entries node < node_max node
         then let insert_pos = idx_first_above node split_key [0..<node_entries node] (node_entries node) in
           (case ext4_extents_insert_entry node (node_entries node) (node_max node) insert_pos new_idx of
              None \<Rightarrow> (False, False, right_blk, split_key, path, s)
            | Some node1 \<Rightarrow>
                let path' = set_node level (set_entries (node_entries node + 1) node1) path in
                (case ext4_extents_write_path_node path' level s of
                   (ok, s1) \<Rightarrow> (ok, False, right_blk, split_key, path', s1)))
         else if node_entries node = 0 \<or> node_entries node \<noteq> node_max node
         then (False, False, right_blk, split_key, path, s)
         else case extents_malloc (unat block_size) s of
           (None, s1) \<Rightarrow> (False, False, right_blk, split_key, path, s1)
         | (Some p, s1) \<Rightarrow>
             (case split_index_nodes (unat block_size) node new_idx of
                (right_ibuf, node', key') \<Rightarrow>
                  let path' = set_node level node' path in
                  (case ext4_new_block s1 of
                     (new_iblk, s2) \<Rightarrow>
                       if new_iblk = 0 \<or> new_iblk \<ge> fs_blocks_count
                       then (False, False, right_blk, key', path', extents_free p s2)
                       else case ext4_extents_write_path_node path' level s2 of
                         (False, s3) \<Rightarrow> (False, False, right_blk, key', path', extents_free p s3)
                       | (True, s3) \<Rightarrow>
                           (case ext4_write_block s3 new_iblk right_ibuf of
                              (False, s4) \<Rightarrow> (False, False, right_blk, key', path', extents_free p s4)
                            | (True, s4) \<Rightarrow>
                                ext4_extents_add_index level fs_blocks_count new_iblk key' path'
                                  (extents_free p s4)))))"

text \<open>The new contents of the root.\<close>

definition grow_indepth_root :: "bytes \<Rightarrow> u32 \<Rightarrow> u32 \<Rightarrow> u32 \<Rightarrow> bytes" where
  "grow_indepth_root root old_root_blk right_blk split_key =
     (let old = eh_get root;
          first_lblk = (if eh_depth old = 0 then ee_block (ext_get root 0) else ei_block (idx_get root 0));
          root1 = set_entries 2 (ext4_extents_init_node 60 (eh_depth old + 1) root);
          zero = \<lparr>ei_block = 0, ei_leaf_lo = 0, ei_leaf_hi = 0, ei_unused = 0\<rparr>
      in idx_put 1 (ext4_idx_set_pblock (ucast right_blk) (zero\<lparr>ei_block := split_key\<rparr>))
           (idx_put 0 (ext4_idx_set_pblock (ucast old_root_blk) (zero\<lparr>ei_block := first_lblk\<rparr>)) root1))"

definition grow_indepth_child :: "nat \<Rightarrow> bytes \<Rightarrow> bytes" where
  "grow_indepth_child block_size root =
     (let old = eh_get root;
          tmp = set_entries (node_entries root)
                  (ext4_extents_init_node block_size (eh_depth old) (replicate block_size 0))
      in bsplice 12 (bslice 12 (12 * node_entries root) root) tmp)"

definition ext4_extents_grow_indepth ::
  "kfs \<Rightarrow> bytes \<Rightarrow> u32 \<Rightarrow> u32 \<Rightarrow> u32 \<Rightarrow> bool \<times> bytes \<times> kfs" where
  "ext4_extents_grow_indepth s root fs_blocks_count right_blk split_key =
     (if unat (eh_depth (eh_get root)) \<ge> EXT4_EXT_MAX_DEPTH then (False, root, s)
      else if node_entries root = 0 then (False, root, s)
      else case ext4_new_block s of
        (old_root_blk, s1) \<Rightarrow>
          if old_root_blk = 0 \<or> old_root_blk \<ge> fs_blocks_count then (False, root, s1)
          else case extents_malloc (unat (ext4_get_block_size s1)) s1 of
            (None, s2) \<Rightarrow> (False, root, s2)
          | (Some p, s2) \<Rightarrow>
              (case ext4_write_block s2 old_root_blk (grow_indepth_child (unat (ext4_get_block_size s1)) root) of
                 (False, s3) \<Rightarrow> (False, root, extents_free p s3)
               | (True, s3) \<Rightarrow>
                   (True, grow_indepth_root root old_root_blk right_blk split_key, extents_free p s3)))"

section \<open>The mapping of a block\<close>

text \<open>The new block on success; the path with the root, the inode and the state in every case.\<close>

definition ext4_extents_insert_mapped_block ::
  "kfs \<Rightarrow> inode \<Rightarrow> ext4_ext_path list \<Rightarrow> nat \<Rightarrow> u32 \<Rightarrow> u32 \<Rightarrow>
   u32 option \<times> ext4_ext_path list \<times> inode \<times> kfs" where
  "ext4_extents_insert_mapped_block s ino path depth lblock fs_blocks_count =
     (case ext4_extents_alloc_new_extent s ino lblock fs_blocks_count of
        (None, ino1, s1) \<Rightarrow> (None, path, ino1, s1)
      | (Some (new_ex, new_block), ino1, s1) \<Rightarrow>
          (case ext4_extents_insert_at_leaf path depth new_ex s1 of
             (True, path1, s2) \<Rightarrow> (Some new_block, path1, ino1, s2)
           | (False, path1, s2) \<Rightarrow>
               let leaf = ep_node (path1 ! depth) in
               if node_entries leaf < node_max leaf then (None, path1, ino1, s2)
               else case ext4_extents_split_leaf s2 path1 depth fs_blocks_count new_ex of
                 (None, path2, s3) \<Rightarrow> (None, path2, ino1, s3)
               | (Some (right_blk, split_right), path2, s3) \<Rightarrow>
                   (case ext4_extents_add_index depth fs_blocks_count right_blk (ee_block split_right) path2 s3 of
                      (ok, need_grow, right_blk2, key2, path3, s4) \<Rightarrow>
                        if \<not> ok then (None, path3, ino1, s4)
                        else if need_grow
                        then (case ext4_extents_grow_indepth s4 (ep_node (path3 ! 0)) fs_blocks_count right_blk2 key2 of
                                (r, root, s5) \<Rightarrow>
                                  (if r then Some new_block else None, set_node 0 root path3, ino1, s5))
                        else (Some new_block, path3, ino1, s4))))"

definition set_root :: "bytes \<Rightarrow> inode \<Rightarrow> inode" where
  "set_root root ino = ino\<lparr>i_private := map_option (\<lambda>ei. ei\<lparr>i_block := root\<rparr>) (i_private ino)\<rparr>"

text \<open>
  The result of ext4_extents_get_block: None on failure, else the block (0 for a hole) and
  is_new.
\<close>

definition ext4_extents_get_block ::
  "kfs \<Rightarrow> inode \<Rightarrow> u32 \<Rightarrow> bool \<Rightarrow> (u32 \<times> bool) option \<times> inode \<times> kfs" where
  "ext4_extents_get_block s ino lblock create =
     (case i_private ino of
        None \<Rightarrow> (None, ino, s)
      | Some ei \<Rightarrow>
          if ext4_get_block_size s = 0 then (None, ino, s)
          else if \<not> S_ISREG (i_mode ino) \<and> \<not> S_ISDIR (i_mode ino) then (None, ino, s)
          else let bad = (eh_magic (eh_get (i_block ei)) \<noteq> EXT4_EXT_MAGIC) in
            if bad \<and> \<not> create then (Some (0, False), ino, s)
            else let ino1 = (if bad then set_root (ext4_extents_init_root (i_block ei)) ino else ino);
                     root = (if bad then ext4_extents_init_root (i_block ei) else i_block ei)
              in case ext4_extents_read_path s root lblock of
                   (None, s1) \<Rightarrow> (None, ino1, s1)
                 | (Some path, s1) \<Rightarrow>
                     let depth = unat (eh_depth (eh_get root)) in
                     (case ext4_extents_lookup_mapped (ep_node (path ! depth)) lblock of
                        Some b \<Rightarrow> (Some (b, False), ino1, ext4_extents_free_path path s1)
                      | None \<Rightarrow>
                          if \<not> create then (Some (0, False), ino1, ext4_extents_free_path path s1)
                          else case ext4_extents_insert_mapped_block s1 ino1 path depth lblock
                                      (ext4_extents_fs_blocks_count s1) of
                            (r, path2, ino2, s2) \<Rightarrow>
                              (map_option (\<lambda>b. (b, True)) r, set_root (ep_node (path2 ! 0)) ino2,
                               ext4_extents_free_path path2 s2)))"

text \<open>
  ext4_extents_map_blocks: block and length of the mapped run, (0, 0) when there is none. The
  code tests the pointer ex, which ext4_extents_find leaves unset when it finds nothing; the
  parameter stale_ex is the content of that pointer, an extent or NULL.
\<close>

definition ext4_extents_map_blocks ::
  "kfs \<Rightarrow> inode \<Rightarrow> u32 \<Rightarrow> u32 \<Rightarrow> ext4_extent option \<Rightarrow> (u32 \<times> u32) option \<times> kfs" where
  "ext4_extents_map_blocks s ino lblock max_blocks stale_ex =
     (case i_private ino of
        None \<Rightarrow> (None, s)
      | Some ei \<Rightarrow>
          if max_blocks = 0 then (None, s)
          else if eh_magic (eh_get (i_block ei)) \<noteq> EXT4_EXT_MAGIC then (Some (0, 0), s)
          else case ext4_extents_read_path s (i_block ei) lblock of
            (None, s1) \<Rightarrow> (None, s1)
          | (Some path, s1) \<Rightarrow>
              let leaf = ep_node (path ! unat (eh_depth (eh_get (i_block ei))));
                  s2 = ext4_extents_free_path path s1;
                  ex = (case fst (ext4_extents_find leaf lblock) of
                          Some i \<Rightarrow> Some (ext_get leaf i) | None \<Rightarrow> stale_ex)
              in (case ex of
                    None \<Rightarrow> (Some (0, 0), s2)
                  | Some e \<Rightarrow>
                      if lblock < ee_block e then (None, s2)
                      else let off = lblock - ee_block e in
                        if off \<ge> ucast (ee_len e) then (None, s2)
                        else let avail = ucast (ee_len e) - off in
                          (Some (ucast (ext4_extent_pblock e + ucast off),
                                 if avail > max_blocks then max_blocks else avail), s2)))"

end
