(* ===== verification/Extents_Leaf.thy ===== *)
theory Extents_Leaf
  imports Extents
begin

text \<open>
  Leaf nodes as lists of extents. leaf_exts is the list a node holds; exts_map is the
  mapping from logical to physical blocks it stands for. Lookup and insertion are proved against
  the list and the mapping.
\<close>

section \<open>Array accesses\<close>

definition node_ok :: "bytes \<Rightarrow> bool" where
  "node_ok buf \<longleftrightarrow> eh_magic (eh_get buf) = EXT4_EXT_MAGIC \<and> node_entries buf \<le> node_max buf \<and>
     12 + 12 * node_max buf \<le> length buf"

definition leaf_exts :: "bytes \<Rightarrow> ext4_extent list" where
  "leaf_exts buf = map (ext_get buf) [0..<node_entries buf]"

lemma length_leaf_exts [simp]: "length (leaf_exts buf) = node_entries buf"
  by (simp add: leaf_exts_def)

lemma nth_leaf_exts: "i < node_entries buf \<Longrightarrow> leaf_exts buf ! i = ext_get buf i"
  by (simp add: leaf_exts_def)

lemma length_ext_put [simp]: "24 + 12 * i \<le> length buf \<Longrightarrow> length (ext_put i e buf) = length buf"
  by (simp add: ext_put_def pk_ex.length_put)

lemma length_eh_put [simp]: "12 \<le> length buf \<Longrightarrow> length (eh_put h buf) = length buf"
  by (simp add: eh_put_def pk_eh.length_put)

lemma length_set_entries [simp]: "12 \<le> length buf \<Longrightarrow> length (set_entries n buf) = length buf"
  by (simp add: set_entries_def)

lemma ext_get_put: "24 + 12 * i \<le> length buf \<Longrightarrow> ext_get (ext_put i e buf) j = (if j = i then e else ext_get buf j)"
proof (cases "j = i")
  case False
  assume "24 + 12 * i \<le> length buf"
  with False have "get_struct 12 ex_dec (put_struct ex_enc buf (12 + 12 * i) e) (12 + 12 * j) =
      get_struct 12 ex_dec buf (12 + 12 * j)"
    by (intro pk_ex.get_put_other) auto
  with False show ?thesis by (simp add: ext_get_def ext_put_def)
qed (simp add: ext_get_def ext_put_def pk_ex.get_put_same)

lemma eh_get_ext_put [simp]: "24 + 12 * i \<le> length buf \<Longrightarrow> eh_get (ext_put i e buf) = eh_get buf"
  by (simp add: eh_get_def ext_put_def pk_ex.get_put_other)

lemma eh_get_put [simp]: "12 \<le> length buf \<Longrightarrow> eh_get (eh_put h buf) = h"
  by (simp add: eh_get_def eh_put_def pk_eh.get_put_same)

lemma ext_get_eh_put [simp]: "12 \<le> length buf \<Longrightarrow> ext_get (eh_put h buf) j = ext_get buf j"
  by (simp add: ext_get_def eh_put_def pk_eh.get_put_other)

lemma ext_get_set_entries [simp]: "12 \<le> length buf \<Longrightarrow> ext_get (set_entries n buf) j = ext_get buf j"
  by (simp add: set_entries_def)

lemma eh_get_set_entries [simp]:
  "12 \<le> length buf \<Longrightarrow> eh_get (set_entries n buf) = (eh_get buf)\<lparr>eh_entries := of_nat n\<rparr>"
  by (simp add: set_entries_def)

lemma node_entries_set [simp]:
  "12 \<le> length buf \<Longrightarrow> n < 65536 \<Longrightarrow> node_entries (set_entries n buf) = n"
  by (simp add: node_entries_def unat_of_nat_fit)

lemma node_max_set [simp]: "12 \<le> length buf \<Longrightarrow> node_max (set_entries n buf) = node_max buf"
  by (simp add: node_max_def)

lemma node_entries_ext_put [simp]: "24 + 12 * i \<le> length buf \<Longrightarrow> node_entries (ext_put i e buf) = node_entries buf"
  by (simp add: node_entries_def)

lemma node_max_ext_put [simp]: "24 + 12 * i \<le> length buf \<Longrightarrow> node_max (ext_put i e buf) = node_max buf"
  by (simp add: node_max_def)

lemma node_max_less: "node_max buf < 65536"
  using unat_u16_bound by (simp add: node_max_def)

text \<open>The shifting loops.\<close>

lemma ext_shift_up_Suc:
  "pos \<le> m \<Longrightarrow> ext_shift_up pos (Suc m) buf = ext_shift_up pos m (ext_put (Suc m) (ext_get buf m) buf)"
  by (simp add: ext_shift_up_def)

lemma ext_shift_up_props:
  "pos \<le> n \<Longrightarrow> 24 + 12 * n \<le> length buf \<Longrightarrow>
   length (ext_shift_up pos n buf) = length buf \<and> eh_get (ext_shift_up pos n buf) = eh_get buf \<and>
   ext_get (ext_shift_up pos n buf) j = (if pos < j \<and> j \<le> n then ext_get buf (j - 1) else ext_get buf j)"
proof (induction n arbitrary: buf)
  case 0
  then show ?case by (simp add: ext_shift_up_def)
next
  case (Suc n)
  show ?case
  proof (cases "pos = Suc n")
    case True
    then have n: "(pos < j \<and> j \<le> Suc n) = False" by auto
    show ?thesis unfolding n using True by (simp add: ext_shift_up_def)
  next
    case False
    then have le: "pos \<le> n" using Suc.prems by simp
    let ?b = "ext_put (Suc n) (ext_get buf n) buf"
    have lb: "length ?b = length buf" "eh_get ?b = eh_get buf" using Suc.prems by simp_all
    then have "24 + 12 * n \<le> length ?b" using Suc.prems by simp
    from Suc.IH [OF le this] show ?thesis
      using lb le Suc.prems(2) by (auto simp: ext_shift_up_Suc ext_get_put)
  qed
qed

lemma ext_shift_down_Suc:
  "pos \<le> m \<Longrightarrow> ext_shift_down pos (Suc (Suc m)) buf =
     (let b = ext_shift_down pos (Suc m) buf in ext_put m (ext_get b (Suc m)) b)"
  by (simp add: ext_shift_down_def Let_def)

lemma ext_shift_down_props:
  "24 + 12 * n \<le> length buf \<Longrightarrow>
   length (ext_shift_down pos (Suc n) buf) = length buf \<and> eh_get (ext_shift_down pos (Suc n) buf) = eh_get buf \<and>
   (\<forall>j. ext_get (ext_shift_down pos (Suc n) buf) j = (if pos \<le> j \<and> j < n then ext_get buf (Suc j) else ext_get buf j))"
proof (induction n)
  case 0
  then show ?case by (simp add: ext_shift_down_def)
next
  case (Suc n)
  show ?case
  proof (cases "pos \<le> n")
    case True
    let ?b = "ext_shift_down pos (Suc n) buf"
    have IH: "length ?b = length buf" "eh_get ?b = eh_get buf"
      "\<And>j. ext_get ?b j = (if pos \<le> j \<and> j < n then ext_get buf (Suc j) else ext_get buf j)"
      using Suc by simp_all
    show ?thesis
      using True Suc.prems IH by (simp add: ext_shift_down_Suc Let_def ext_get_put less_Suc_eq)
  next
    case False
    then have "[pos..<Suc n] = []" by simp
    then have "ext_shift_down pos (Suc (Suc n)) buf = buf" by (simp add: ext_shift_down_def)
    with False show ?thesis by auto
  qed
qed

section \<open>Extents as a mapping\<close>

definition ext_start :: "ext4_extent \<Rightarrow> nat" where "ext_start e = unat (ee_block e)"
definition ext_len :: "ext4_extent \<Rightarrow> nat" where "ext_len e = unat (ee_len e)"

definition ext_end :: "ext4_extent \<Rightarrow> nat" where "ext_end e = ext_start e + ext_len e"

definition ext_covers :: "ext4_extent \<Rightarrow> u32 \<Rightarrow> bool" where
  "ext_covers e l \<longleftrightarrow> ext_start e \<le> unat l \<and> unat l < ext_end e"

definition ext_block :: "ext4_extent \<Rightarrow> u32 \<Rightarrow> u32" where
  "ext_block e l = ucast (ext4_extent_pblock e + ucast (l - ee_block e))"

text \<open>A valid extent: not empty, within the logical and the physical address range.\<close>

definition ext_wf :: "ext4_extent \<Rightarrow> bool" where
  "ext_wf e \<longleftrightarrow> 0 < ext_len e \<and> ext_end e < 2 ^ 32 \<and> unat (ext4_extent_pblock e) + ext_len e < 2 ^ 48"

definition exts_ok :: "ext4_extent list \<Rightarrow> bool" where
  "exts_ok es \<longleftrightarrow> (\<forall>e \<in> set es. ext_wf e) \<and> sorted_wrt (\<lambda>a b. ext_end a \<le> ext_start b) es"

definition exts_map :: "ext4_extent list \<Rightarrow> u32 \<Rightarrow> u32 option" where
  "exts_map es l = map_option (\<lambda>e. ext_block e l) (find (\<lambda>e. ext_covers e l) es)"

lemma unat_ee_len32: "unat (ucast (ee_len e) :: u32) = ext_len e"
  unfolding ext_len_def using unat_u16_bound [of "ee_len e"] by (intro unat_ucast_fit) simp

lemma ext_wf_end: "ext_wf e \<Longrightarrow> unat (ee_block e + ucast (ee_len e)) = ext_end e"
  unfolding ext_wf_def ext_end_def ext_start_def
  by (subst unat_add_nowrap) (simp_all add: unat_ee_len32)

lemma covers_code:
  "ext_wf e \<Longrightarrow> ee_block e \<le> l \<and> l < ee_block e + ucast (ee_len e) \<longleftrightarrow> ext_covers e l"
  by (simp add: ext_covers_def word_le_nat_alt word_less_nat_alt ext_wf_end ext_start_def)

lemma exts_ok_nth:
  assumes "exts_ok es" "i < j" "j < length es"
  shows "ext_end (es ! i) \<le> ext_start (es ! j)"
  using assms sorted_wrt_nth_less [of "\<lambda>a b. ext_end a \<le> ext_start b" es i j] by (simp add: exts_ok_def)

lemma exts_ok_wf: "exts_ok es \<Longrightarrow> i < length es \<Longrightarrow> ext_wf (es ! i)"
  by (simp add: exts_ok_def)

lemma covers_unique:
  assumes "exts_ok es" "i < length es" "j < length es" "ext_covers (es ! i) l" "ext_covers (es ! j) l"
  shows "i = j"
  using exts_ok_nth [OF assms(1), of i j] exts_ok_nth [OF assms(1), of j i] assms(2-5)
  by (cases i j rule: linorder_cases) (auto simp: ext_covers_def)

lemma exts_map_nth:
  assumes "exts_ok es" "i < length es" "ext_covers (es ! i) l"
  shows "exts_map es l = Some (ext_block (es ! i) l)"
proof -
  have "\<exists>e. find (\<lambda>e. ext_covers e l) es = Some e"
    using assms(2,3) by (metis find_None_iff nth_mem option.exhaust)
  then obtain j where j: "find (\<lambda>e. ext_covers e l) es = Some (es ! j)" "j < length es" "ext_covers (es ! j) l"
    by (auto simp: find_Some_iff)
  then have "j = i" using covers_unique [OF assms(1)] assms(2,3) by blast
  with j show ?thesis by (simp add: exts_map_def)
qed

lemma exts_map_None: "(\<forall>e \<in> set es. \<not> ext_covers e l) \<longleftrightarrow> exts_map es l = None"
  by (auto simp: exts_map_def find_None_iff)

section \<open>Lookup\<close>

lemma extents_find_loop_spec:
  assumes ok: "exts_ok (leaf_exts buf)" and n: "k \<le> node_entries buf"
  shows "fst (extents_find_loop buf l [k..<node_entries buf] last_less) = Some i \<longleftrightarrow>
    k \<le> i \<and> i < node_entries buf \<and> ext_covers (ext_get buf i) l"
  using n
proof (induction "[k..<node_entries buf]" arbitrary: k last_less)
  case Nil
  then have ge: "node_entries buf \<le> k" using upt_eq_Nil_conv [of k "node_entries buf"] by auto
  then have nil: "[k..<node_entries buf] = []" by simp
  from ge show ?case unfolding nil by auto
next
  case (Cons x xs)
  then have lt: "k < node_entries buf" by (metis neq_Nil_conv not_less upt_rec)
  then have xs: "x = k" "xs = [Suc k..<node_entries buf]" "[k..<node_entries buf] = k # [Suc k..<node_entries buf]"
    using Cons.hyps(2) upt_conv_Cons [OF lt] by auto
  let ?e = "ext_get buf k"
  have wf: "ext_wf ?e" using exts_ok_wf [OF ok, of k] lt by (simp add: nth_leaf_exts)
  have "ext_len ?e > 0" using wf by (simp add: ext_wf_def)
  then have l0: "(ucast (ee_len ?e) :: u32) \<noteq> 0" using unat_ee_len32 [of ?e] by auto
  have IH: "fst (extents_find_loop buf l [Suc k..<node_entries buf] ll) = Some i \<longleftrightarrow>
      Suc k \<le> i \<and> i < node_entries buf \<and> ext_covers (ext_get buf i) l" for ll
    using Cons.hyps(1) [OF xs(2)] lt by simp
  have uniq: "i = k" if "i < node_entries buf" "ext_covers (ext_get buf i) l" "ext_covers ?e l" for i
    using covers_unique [OF ok, of i k l] that lt by (simp add: nth_leaf_exts)
  consider (hit) "ext_covers ?e l" | (below) "\<not> ext_covers ?e l" "ee_block ?e < l"
    | (above) "\<not> ext_covers ?e l" "l < ee_block ?e"
  proof -
    have "ext_covers ?e l" if "ee_block ?e = l"
      using wf that by (auto simp: ext_covers_def ext_wf_def ext_end_def ext_start_def)
    then show ?thesis using hit below above by (metis neqE)
  qed
  then show ?case
  proof cases
    case hit
    then show ?thesis
      using covers_code [OF wf, of l] l0 lt uniq [of i] by (auto simp: xs(3) Let_def)
  next
    case below
    then have "\<not> (ee_block ?e \<le> l \<and> l < ee_block ?e + ucast (ee_len ?e))" using covers_code [OF wf] by simp
    then have "extents_find_loop buf l (k # [Suc k..<node_entries buf]) last_less =
        extents_find_loop buf l [Suc k..<node_entries buf] (int k)"
      using below l0 by (simp add: Let_def)
    moreover have "k \<le> i \<longleftrightarrow> i = k \<or> Suc k \<le> i" by auto
    ultimately show ?thesis using IH [of "int k"] below(1) by (auto simp: xs(3) simp del: upt_Suc)
  next
    case above
    then have "\<not> (ee_block ?e \<le> l \<and> l < ee_block ?e + ucast (ee_len ?e))" using covers_code [OF wf] by simp
    then have eq: "extents_find_loop buf l (k # [Suc k..<node_entries buf]) last_less = (None, last_less)"
      using above l0 by (auto simp: Let_def)
    have "\<not> ext_covers (ext_get buf j) l" if "k < j" "j < node_entries buf" for j
    proof -
      have "ext_end ?e \<le> ext_start (ext_get buf j)"
        using exts_ok_nth [OF ok that(1)] that lt by (simp add: nth_leaf_exts)
      then show ?thesis using above(2) by (auto simp: ext_covers_def ext_end_def ext_start_def word_less_nat_alt)
    qed
    then show ?thesis using eq above(1) by (auto simp: xs(3) le_less simp del: upt_Suc)
  qed
qed

lemma extents_find_spec:
  assumes "node_ok buf" "exts_ok (leaf_exts buf)"
  shows "fst (ext4_extents_find buf l) = Some i \<longleftrightarrow> i < node_entries buf \<and> ext_covers (ext_get buf i) l"
  using assms(1) extents_find_loop_spec [OF assms(2), of 0 l "- 1" i]
  by (auto simp: ext4_extents_find_def node_ok_def Let_def node_entries_def split: prod.splits)

lemma lookup_mapped_spec:
  assumes nd: "node_ok buf" and ok: "exts_ok (leaf_exts buf)"
  shows "ext4_extents_lookup_mapped buf l = exts_map (leaf_exts buf) l"
proof -
  note f = extents_find_spec [OF nd ok, of l]
  show ?thesis
  proof (cases "fst (ext4_extents_find buf l)")
    case None
    then have "\<forall>e \<in> set (leaf_exts buf). \<not> ext_covers e l" using f by (auto simp: leaf_exts_def)
    with None show ?thesis by (simp add: ext4_extents_lookup_mapped_def exts_map_None)
  next
    case (Some i)
    with f have "i < node_entries buf" "ext_covers (ext_get buf i) l" by auto
    with Some exts_map_nth [OF ok, of i l] show ?thesis
      by (simp add: ext4_extents_lookup_mapped_def nth_leaf_exts ext_block_def Let_def)
  qed
qed

text \<open>A covering extent maps the blocks behind l to the blocks behind that of l.\<close>

lemma ext_block_linear: "ext_block e (l + d) = ext_block e l + d"
proof -
  have "ext_block e x = ucast (ext4_extent_pblock e) + (x - ee_block e)" for x
    unfolding ext_block_def by (rule word_eq_by_unat)
      (simp add: unsigned_ucast_eq take_bit_eq_mod unat_word_ariths mod_simps mod_mod_cancel)
  then show ?thesis by simp
qed

end
