(* ===== verification/Extents_Insert.thy ===== *)
theory Extents_Insert
  imports Extents_Leaf
begin

text \<open>
  Insertion into a leaf: the new list is the old one with the extent at its place, where
  neighbours that continue each other are joined. Joining keeps the list valid and the mapping.
\<close>

section \<open>Valid lists\<close>

lemma exts_map_Some_iff:
  assumes "exts_ok es"
  shows "exts_map es l = Some b \<longleftrightarrow> (\<exists>e \<in> set es. ext_covers e l \<and> b = ext_block e l)"
proof -
  have "exts_map es l = Some (ext_block e l)" if "e \<in> set es" "ext_covers e l" for e
    using that exts_map_nth [OF assms] by (metis in_set_conv_nth)
  moreover have "\<exists>e \<in> set es. ext_covers e l \<and> b = ext_block e l" if "exts_map es l = Some b"
    using that by (auto simp: exts_map_def find_Some_iff)
  ultimately show ?thesis by auto
qed

lemma exts_map_eqI:
  assumes "exts_ok es" "exts_ok fs"
    and "\<And>b. (\<exists>e \<in> set es. ext_covers e l \<and> b = ext_block e l) \<longleftrightarrow> (\<exists>e \<in> set fs. ext_covers e l \<and> b = ext_block e l)"
  shows "exts_map es l = exts_map fs l"
proof -
  have "exts_map es l = Some b \<longleftrightarrow> exts_map fs l = Some b" for b
    using exts_map_Some_iff [OF assms(1), of l b] exts_map_Some_iff [OF assms(2), of l b] assms(3) [of b] by blast
  then show ?thesis by (metis option.exhaust)
qed

lemma exts_ok_append:
  "exts_ok (xs @ ys) \<longleftrightarrow> exts_ok xs \<and> exts_ok ys \<and> (\<forall>x \<in> set xs. \<forall>y \<in> set ys. ext_end x \<le> ext_start y)"
  by (auto simp: exts_ok_def sorted_wrt_append)

lemma exts_ok_Cons:
  "exts_ok (x # ys) \<longleftrightarrow> ext_wf x \<and> exts_ok ys \<and> (\<forall>y \<in> set ys. ext_end x \<le> ext_start y)"
  by (auto simp: exts_ok_def)

section \<open>Joining neighbours\<close>

definition ext_join :: "ext4_extent \<Rightarrow> ext4_extent \<Rightarrow> ext4_extent" where
  "ext_join l r = l\<lparr>ee_len := ucast (merged_len l r)\<rparr>"

lemma merged_len_nat:
  "unat (merged_len l r) = ext_len l + ext_len r"
proof -
  have "ext_len l < 65536" "ext_len r < 65536"
    using unat_u16_bound [of "ee_len l"] unat_u16_bound [of "ee_len r"] by (simp_all add: ext_len_def)
  then show ?thesis
    unfolding merged_len_def by (subst unat_add_nowrap) (simp_all add: unat_ee_len32)
qed

lemma ext_join_props:
  assumes l: "ext_wf l" and r: "ext_wf r" and adj: "ext_adjacent l r" and le: "merged_len l r \<le> EXT4_EXT_INIT_MAX_LEN"
  shows "ext_start (ext_join l r) = ext_start l" "ext_end (ext_join l r) = ext_end r"
    and "ext_end l = ext_start r" "ext_wf (ext_join l r)"
    and "ext_covers (ext_join l r) x \<longleftrightarrow> ext_covers l x \<or> ext_covers r x"
    and "ext_covers r x \<Longrightarrow> ext_block (ext_join l r) x = ext_block r x"
    and "ext_block (ext_join l r) x = ext_block l x"
proof -
  have "unat (merged_len l r) \<le> unat (0x7fff :: u32)" using le by (simp only: word_le_nat_alt)
  then have m: "ext_len l + ext_len r \<le> 0x7fff" by (simp add: merged_len_nat)
  have "unat (ucast (merged_len l r) :: u16) = ext_len l + ext_len r"
    using m merged_len_nat [of l r] by (subst unat_ucast_fit) simp_all
  then have len: "ext_len (ext_join l r) = ext_len l + ext_len r" by (simp add: ext_len_def ext_join_def)
  show st: "ext_start (ext_join l r) = ext_start l" by (simp add: ext_start_def ext_join_def)
  show e: "ext_end l = ext_start r" using adj ext_wf_end [OF l] by (simp add: ext_adjacent_def ext_start_def)
  show en: "ext_end (ext_join l r) = ext_end r" using e by (simp add: ext_end_def st len)
  have pb: "ext4_extent_pblock (ext_join l r) = ext4_extent_pblock l" by (simp add: ext4_extent_pblock_def ext_join_def)
  have len64: "unat (ucast (ee_len l) :: u64) = ext_len l"
    unfolding ext_len_def using unat_u16_bound [of "ee_len l"] by (intro unat_ucast_fit) simp
  have "unat (ext4_extent_pblock l + ucast (ee_len l)) = unat (ext4_extent_pblock l) + ext_len l"
    using l len64 unat_add_nowrap [of "ext4_extent_pblock l" "ucast (ee_len l)"] by (simp add: ext_wf_def)
  then have pr: "unat (ext4_extent_pblock r) = unat (ext4_extent_pblock l) + ext_len l"
    using adj by (simp add: ext_adjacent_def)
  show "ext_wf (ext_join l r)" using l r by (simp add: ext_wf_def en len pb pr)
  show "ext_covers (ext_join l r) x \<longleftrightarrow> ext_covers l x \<or> ext_covers r x"
    unfolding ext_covers_def st en using e by (auto simp: ext_end_def)
  show "ext_block (ext_join l r) x = ext_block l x" by (simp add: ext_block_def pb) (simp add: ext_join_def)
  assume c: "ext_covers r x"
  have prw: "ext4_extent_pblock r = ext4_extent_pblock l + ucast (ee_len l)"
    using adj by (simp add: ext_adjacent_def)
  have x: "ext_start l \<le> unat x" "ext_start r \<le> unat x"
    using c e by (auto simp: ext_covers_def ext_end_def)
  have "unat (x - ee_block l) = unat x - ext_start l" "unat (x - ee_block r) = unat x - ext_start r"
    using x by (simp_all add: unat_sub_le word_le_nat_alt ext_start_def)
  moreover have "ext_start r = ext_start l + ext_len l" using e by (simp add: ext_end_def)
  ultimately have "unat (x - ee_block l) = ext_len l + unat (x - ee_block r)" using x by simp
  then have "(ucast (x - ee_block l) :: u64) = ucast (ee_len l) + ucast (x - ee_block r)"
    using len64 unat_u32_bound [of "x - ee_block r"] unat_u32_bound [of "x - ee_block l"] unat_u16_bound [of "ee_len l"]
    by (intro word_eq_by_unat) (simp add: unat_add_nowrap unat_ucast_fit ext_len_def)
  then show "ext_block (ext_join l r) x = ext_block r x"
    unfolding ext_block_def pb prw by (simp add: ext_join_def add.assoc)
qed

lemma join_neighbours:
  assumes ok: "exts_ok (xs @ l # r # ys)" and adj: "ext_adjacent l r" and le: "merged_len l r \<le> EXT4_EXT_INIT_MAX_LEN"
  shows "exts_ok (xs @ ext_join l r # ys)" "exts_map (xs @ ext_join l r # ys) x = exts_map (xs @ l # r # ys) x"
proof -
  have w: "ext_wf l" "ext_wf r" using ok by (auto simp: exts_ok_def)
  note J = ext_join_props [OF w adj le]
  show ok': "exts_ok (xs @ ext_join l r # ys)"
    using ok J(1-4) by (auto simp: exts_ok_append exts_ok_Cons)
  show "exts_map (xs @ ext_join l r # ys) x = exts_map (xs @ l # r # ys) x"
    using J(5-7) by (intro exts_map_eqI [OF ok' ok]) auto
qed

section \<open>The place of a new extent\<close>

definition ext_disjoint :: "ext4_extent \<Rightarrow> ext4_extent \<Rightarrow> bool" where
  "ext_disjoint a b \<longleftrightarrow> ext_end a \<le> ext_start b \<or> ext_end b \<le> ext_start a"

lemma ext_insert_pos_props:
  "ext_insert_pos buf key n \<le> n"
  "ext_insert_pos buf key n \<le> i \<Longrightarrow> i < n \<Longrightarrow> key < ee_block (ext_get buf i)"
  "0 < ext_insert_pos buf key n \<Longrightarrow> ee_block (ext_get buf (ext_insert_pos buf key n - 1)) \<le> key"
proof (induction n)
  case (Suc n)
  {
    case 1
    show ?case using Suc.IH(1) by simp
  next
    case 2
    then show ?case using Suc.IH(2) by (auto simp: less_Suc_eq split: if_splits)
  next
    case 3
    then show ?case using Suc.IH(3) by (auto split: if_splits)
  }
qed simp_all

lemma insert_place:
  assumes ok: "exts_ok es" and e: "ext_wf e" and dis: "\<forall>x \<in> set es. ext_disjoint e x"
    and p: "p \<le> length es" "\<And>i. p \<le> i \<Longrightarrow> i < length es \<Longrightarrow> ext_start e < ext_start (es ! i)"
      "0 < p \<Longrightarrow> ext_start (es ! (p - 1)) \<le> ext_start e"
  shows "exts_ok (take p es @ e # drop p es)"
    and "exts_map (take p es @ e # drop p es) x = (if ext_covers e x then Some (ext_block e x) else exts_map es x)"
proof -
  have wf: "\<And>i. i < length es \<Longrightarrow> 0 < ext_len (es ! i)" using exts_ok_wf [OF ok] by (simp add: ext_wf_def)
  have left: "ext_end (es ! i) \<le> ext_start e" if "i < p" for i
  proof -
    have i: "i < length es" using that p(1) by simp
    have "ext_start (es ! i) \<le> ext_start e"
    proof (cases "i = p - 1")
      case False
      then have "ext_end (es ! i) \<le> ext_start (es ! (p - 1))" using that p(1) by (intro exts_ok_nth [OF ok]) auto
      then show ?thesis using p(3) that by (simp add: ext_end_def)
    qed (use p(3) that in auto)
    moreover have "ext_disjoint e (es ! i)" using dis i by simp
    moreover have "0 < ext_len e" using e by (simp add: ext_wf_def)
    ultimately show ?thesis using wf [OF i] by (auto simp: ext_disjoint_def ext_end_def)
  qed
  have right: "ext_end e \<le> ext_start (es ! i)" if "p \<le> i" "i < length es" for i
    using p(2) [OF that] dis that by (auto simp: ext_disjoint_def ext_end_def)
  have spl: "exts_ok (take p es)" "exts_ok (drop p es)" "\<forall>x \<in> set (take p es). \<forall>y \<in> set (drop p es). ext_end x \<le> ext_start y"
    using ok exts_ok_append [of "take p es" "drop p es"] by auto
  have l: "\<forall>x \<in> set (take p es). ext_end x \<le> ext_start e" using left p(1) by (auto simp: in_set_conv_nth)
  have r: "\<forall>y \<in> set (drop p es). ext_end e \<le> ext_start y" using right p(1) by (auto simp: in_set_conv_nth)
  have "ext_start e \<le> ext_end e" by (simp add: ext_end_def)
  with spl l r e show ok': "exts_ok (take p es @ e # drop p es)"
    by (auto simp: exts_ok_append exts_ok_Cons)
  have mem: "set (take p es @ e # drop p es) = insert e (set es)"
    using set_append [of "take p es" "drop p es"] by auto
  show "exts_map (take p es @ e # drop p es) x = (if ext_covers e x then Some (ext_block e x) else exts_map es x)"
  proof (cases "ext_covers e x")
    case True
    then have "exts_map (take p es @ e # drop p es) x = Some (ext_block e x)"
      using exts_map_Some_iff [OF ok', of x "ext_block e x"] unfolding mem by blast
    with True show ?thesis by simp
  next
    case False
    then have "exts_map (take p es @ e # drop p es) x = exts_map es x"
      using mem by (intro exts_map_eqI [OF ok' ok]) simp
    with False show ?thesis by simp
  qed
qed

section \<open>The node operations on lists\<close>

lemma node_ok_lengthD: "node_ok buf \<Longrightarrow> i < node_entries buf \<Longrightarrow> 24 + 12 * i \<le> length buf"
  by (auto simp: node_ok_def)

lemma node_ok_len12: "node_ok buf \<Longrightarrow> 12 \<le> length buf"
  by (simp add: node_ok_def)

lemma leaf_exts_put:
  "node_ok buf \<Longrightarrow> i < node_entries buf \<Longrightarrow> leaf_exts (ext_put i e buf) = (leaf_exts buf)[i := e]"
  using node_ok_lengthD [of buf i]
  by (intro nth_equalityI) (auto simp: nth_leaf_exts ext_get_put nth_list_update)

lemma node_ok_put: "node_ok buf \<Longrightarrow> i < node_entries buf \<Longrightarrow> node_ok (ext_put i e buf)"
  using node_ok_lengthD [of buf i] by (simp add: node_ok_def)

lemma leaf_exts_insert_at:
  fixes e :: ext4_extent
  assumes "node_ok buf" "p \<le> node_entries buf" "node_entries buf < node_max buf"
  defines "out \<equiv> set_entries (node_entries buf + 1) (ext_put p e (ext_shift_up p (node_entries buf) buf))"
  shows "leaf_exts out = take p (leaf_exts buf) @ e # drop p (leaf_exts buf)"
    and "node_ok out" and "length out = length buf"
proof -
  let ?n = "node_entries buf" and ?b = "ext_shift_up p (node_entries buf) buf"
  have len: "24 + 12 * ?n \<le> length buf" using assms by (simp add: node_ok_def)
  note up = ext_shift_up_props [OF assms(2) len]
  have lb: "length ?b = length buf" "eh_get ?b = eh_get buf" using up by auto
  have l12: "12 \<le> length (ext_put p e ?b)" using lb len assms(2) by simp
  have n: "?n + 1 < 65536" using node_max_less [of buf] assms(3) by simp
  have ne: "node_entries out = ?n + 1" unfolding out_def using l12 n by (simp only: node_entries_set)
  show lo: "length out = length buf" unfolding out_def using l12 lb len assms(2) by simp
  have g: "ext_get out j = (if j = p then e else ext_get ?b j)" for j
    unfolding out_def using l12 lb len assms(2) by (simp add: ext_get_put)
  show "leaf_exts out = take p (leaf_exts buf) @ e # drop p (leaf_exts buf)"
  proof (rule nth_equalityI)
    show "length (leaf_exts out) = length (take p (leaf_exts buf) @ e # drop p (leaf_exts buf))"
      using assms(2) by (simp add: ne)
    fix i assume "i < length (leaf_exts out)"
    then have i: "i < ?n + 1" by (simp add: ne)
    then have "leaf_exts out ! i = (if i = p then e else if p < i then ext_get buf (i - 1) else ext_get buf i)"
      using up [of i] by (auto simp: nth_leaf_exts ne g)
    then show "leaf_exts out ! i = (take p (leaf_exts buf) @ e # drop p (leaf_exts buf)) ! i"
      using i assms(2) by (auto simp: nth_append nth_leaf_exts nth_Cons' min_def)
  qed
  have "eh_get out = (eh_get buf)\<lparr>eh_entries := of_nat (?n + 1)\<rparr>"
    unfolding out_def using l12 lb len assms(2) by (simp del: of_nat_add)
  then show "node_ok out" using assms(1,3) ne lo by (simp add: node_ok_def node_max_def)
qed

lemma leaf_exts_delete_at:
  assumes "node_ok buf" "p < node_entries buf"
  defines "out \<equiv> set_entries (node_entries buf - 1) (ext_shift_down p (node_entries buf) buf)"
  shows "leaf_exts out = take p (leaf_exts buf) @ drop (Suc p) (leaf_exts buf)"
    and "node_ok out" and "length out = length buf"
proof -
  obtain m where m: "node_entries buf = Suc m" using assms(2) by (cases "node_entries buf") auto
  let ?b = "ext_shift_down p (Suc m) buf"
  have len: "24 + 12 * m \<le> length buf" using assms by (simp add: node_ok_def m)
  note dn = ext_shift_down_props [OF len, of p]
  have lb: "length ?b = length buf" "eh_get ?b = eh_get buf"
    and g: "\<And>j. ext_get ?b j = (if p \<le> j \<and> j < m then ext_get buf (Suc j) else ext_get buf j)"
    using dn by auto
  have l12: "12 \<le> length ?b" using lb len by simp
  have out: "out = set_entries m ?b" by (simp add: out_def m)
  have mm: "m < 65536" using unat_u16_bound [of "eh_entries (eh_get buf)"] m by (simp add: node_entries_def)
  have ne: "node_entries out = m" unfolding out using l12 mm by simp
  show lo: "length out = length buf" unfolding out using l12 lb by simp
  show "leaf_exts out = take p (leaf_exts buf) @ drop (Suc p) (leaf_exts buf)"
  proof (rule nth_equalityI)
    show "length (leaf_exts out) = length (take p (leaf_exts buf) @ drop (Suc p) (leaf_exts buf))"
      using assms(2) by (simp add: ne m)
    fix i assume "i < length (leaf_exts out)"
    then have i: "i < m" by (simp add: ne)
    have "ext_get out i = (if p \<le> i then ext_get buf (Suc i) else ext_get buf i)"
      using l12 i by (simp add: out g)
    then have "leaf_exts out ! i = (if p \<le> i then ext_get buf (Suc i) else ext_get buf i)"
      using nth_leaf_exts [of i out] i ne by simp
    then show "leaf_exts out ! i = (take p (leaf_exts buf) @ drop (Suc p) (leaf_exts buf)) ! i"
      using i assms(2) m by (auto simp: nth_append nth_leaf_exts min_def)
  qed
  have "eh_get out = (eh_get buf)\<lparr>eh_entries := of_nat m\<rparr>"
    unfolding out using l12 lb by simp
  then show "node_ok out" using assms(1) ne lo m by (simp add: node_ok_def node_max_def)
qed

section \<open>Insertion\<close>

definition inserted :: "bytes \<Rightarrow> ext4_extent \<Rightarrow> bytes \<Rightarrow> bool" where
  "inserted buf e buf' \<longleftrightarrow> node_ok buf' \<and> length buf' = length buf \<and> exts_ok (leaf_exts buf') \<and>
     (\<forall>x. exts_map (leaf_exts buf') x = (if ext_covers e x then Some (ext_block e x) else exts_map (leaf_exts buf) x))"

lemma fuse_right_spec:
  assumes nd: "node_ok buf" and ok: "exts_ok (leaf_exts buf)" and p: "0 < p" "p \<le> node_entries buf"
  shows "node_ok (extents_fuse_right p (node_entries buf) buf)"
    and "length (extents_fuse_right p (node_entries buf) buf) = length buf"
    and "exts_ok (leaf_exts (extents_fuse_right p (node_entries buf) buf))"
    and "exts_map (leaf_exts (extents_fuse_right p (node_entries buf) buf)) x = exts_map (leaf_exts buf) x"
proof -
  let ?es = "leaf_exts buf" and ?n = "node_entries buf"
  let ?l = "ext_get buf (p - 1)" and ?r = "ext_get buf p"
  let ?out = "extents_fuse_right p ?n buf"
  have "node_ok ?out \<and> length ?out = length buf \<and> exts_ok (leaf_exts ?out) \<and> exts_map (leaf_exts ?out) x = exts_map ?es x"
  proof (cases "p < ?n \<and> ext_adjacent ?l ?r \<and> merged_len ?l ?r \<le> EXT4_EXT_INIT_MAX_LEN")
    case False
    then have "?out = buf" unfolding extents_fuse_right_def Let_def by (rule if_not_P)
    then show ?thesis using nd ok by simp
  next
    case True
    let ?b = "ext_put (p - 1) (ext_join ?l ?r) buf"
    have b: "node_ok ?b" "node_entries ?b = ?n" "leaf_exts ?b = ?es[p - 1 := ext_join ?l ?r]" "length ?b = length buf"
      using nd p node_ok_lengthD [OF nd, of "p - 1"] by (simp_all add: node_ok_put leaf_exts_put)
    have out: "?out = set_entries (node_entries ?b - 1) (ext_shift_down p (node_entries ?b) ?b)"
      using True b(2) by (simp add: extents_fuse_right_def Let_def ext_join_def)
    have pb: "p < node_entries ?b" using True b(2) by simp
    note d = leaf_exts_delete_at [OF b(1) pb, folded out]
    obtain xs ys where es: "?es = xs @ ?l # ?r # ys" "length xs = p - 1"
    proof
      show "?es = take (p - 1) ?es @ ?l # ?r # drop (Suc p) ?es"
        using p True nth_leaf_exts [of "p - 1" buf] nth_leaf_exts [of p buf]
        by (metis (no_types, lifting) Cons_nth_drop_Suc Suc_diff_1 id_take_nth_drop
            le_less_trans length_leaf_exts diff_le_self)
    qed (use p in simp)
    have up: "(xs @ a # zs)[p - 1 := c] = xs @ c # zs" for a c :: ext4_extent and zs
      using es(2) by (simp add: list_update_append)
    have "leaf_exts ?b = xs @ ext_join ?l ?r # ?r # ys"
      unfolding b(3) by (subst es(1)) (rule up)
    moreover have "p = Suc (length xs)" using p es(2) by simp
    ultimately have "leaf_exts ?out = xs @ ext_join ?l ?r # ys" unfolding d(1) by simp
    then show ?thesis
      using join_neighbours [of xs ?l ?r ys] ok d(2,3) b(4) True es(1) by simp
  qed
  then show "node_ok ?out" "length ?out = length buf" "exts_ok (leaf_exts ?out)"
    "exts_map (leaf_exts ?out) x = exts_map ?es x" by auto
qed

lemma ext_join_commute_len: "merged_len l r = merged_len r l"
  by (simp add: merged_len_def add.commute)

lemma insert_spec:
  assumes nd: "node_ok buf" and ok: "exts_ok (leaf_exts buf)" and e: "ext_wf e"
    and dis: "\<forall>x \<in> set (leaf_exts buf). ext_disjoint e x"
  shows "case ext4_extents_insert buf e of (done, buf') \<Rightarrow>
    if done then inserted buf e buf' else buf' = buf \<and> node_entries buf = node_max buf"
proof -
  let ?n = "node_entries buf" and ?es = "leaf_exts buf"
  define p where "p = ext_insert_pos buf (ee_block e) ?n"
  let ?l = "ext_get buf (p - 1)" and ?r = "ext_get buf p"
  have pn: "p \<le> ?n" unfolding p_def by (rule ext_insert_pos_props)
  have pos: "p \<le> length ?es" "\<And>i. p \<le> i \<Longrightarrow> i < length ?es \<Longrightarrow> ext_start e < ext_start (?es ! i)"
    "0 < p \<Longrightarrow> ext_start (?es ! (p - 1)) \<le> ext_start e"
    using pn ext_insert_pos_props(2,3) [of buf "ee_block e" ?n] unfolding p_def [symmetric]
    by (auto simp: nth_leaf_exts ext_start_def word_less_nat_alt word_le_nat_alt)
  let ?fs = "take p ?es @ e # drop p ?es"
  have place: "exts_ok ?fs"
    "\<And>x. exts_map ?fs x = (if ext_covers e x then Some (ext_block e x) else exts_map ?es x)"
    by (rule insert_place [OF ok e dis pos(1)]; use pos in blast)+
  have nm: "eh_magic (eh_get buf) = EXT4_EXT_MAGIC" "\<not> ?n > node_max buf" using nd by (auto simp: node_ok_def)
  let ?L = "p > 0 \<and> ext_adjacent ?l e \<and> merged_len ?l e \<le> EXT4_EXT_INIT_MAX_LEN"
  let ?R = "p < ?n \<and> ext_adjacent e ?r \<and> merged_len ?r e \<le> EXT4_EXT_INIT_MAX_LEN"
  have re: "?r\<lparr>ee_block := ee_block e, ee_start_lo := ee_start_lo e, ee_start_hi := ee_start_hi e,
      ee_len := ucast (merged_len ?r e)\<rparr> = ext_join e ?r"
    by (simp add: ext_join_def ext_join_commute_len [of ?r e])
  have code: "ext4_extents_insert buf e =
      (if ?L then (True, extents_fuse_right p ?n (ext_put (p - 1) (ext_join ?l e) buf))
       else if ?R then (True, ext_put p (ext_join e ?r) buf)
       else if ?n = node_max buf then (False, buf)
       else (True, set_entries (?n + 1) (ext_put p e (ext_shift_up p ?n buf))))"
    using nm unfolding ext4_extents_insert_def Let_def p_def [symmetric] re
    by (simp add: ext_join_def)
  consider (left) ?L | (right) "\<not> ?L" ?R | (full) "\<not> ?L" "\<not> ?R" "?n = node_max buf"
    | (room) "\<not> ?L" "\<not> ?R" "?n \<noteq> node_max buf" by blast
  then show ?thesis
  proof cases
    case left
    then have l: "p - 1 < ?n" "0 < p" using pn by auto
    let ?b = "ext_put (p - 1) (ext_join ?l e) buf"
    have b: "node_ok ?b" "node_entries ?b = ?n" "leaf_exts ?b = ?es[p - 1 := ext_join ?l e]" "length ?b = length buf"
      using nd l node_ok_lengthD [OF nd, of "p - 1"] by (simp_all add: node_ok_put leaf_exts_put)
    have tk: "take p ?es = take (p - 1) ?es @ [?l]"
      using l nth_leaf_exts [OF l(1)] take_Suc_conv_app_nth [of "p - 1" ?es] by simp
    have fs: "?fs = take (p - 1) ?es @ ?l # e # drop p ?es" by (simp add: tk)
    have "leaf_exts ?b = take (p - 1) ?es @ ext_join ?l e # drop p ?es"
      unfolding b(3) using l by (simp add: upd_conv_take_nth_drop)
    then have j: "exts_ok (leaf_exts ?b)" "\<And>x. exts_map (leaf_exts ?b) x = exts_map ?fs x"
      using join_neighbours [of "take (p - 1) ?es" ?l e "drop p ?es"] left place(1) unfolding fs by auto
    have "p \<le> node_entries ?b" using pn b(2) by simp
    note f = fuse_right_spec [OF b(1) j(1) l(2) this, unfolded b(2)]
    have "inserted buf e (extents_fuse_right p ?n ?b)"
      unfolding inserted_def using f(1-3) b(4) f(4) [unfolded j(2)] by (simp add: place(2))
    then show ?thesis unfolding code if_P [OF left] by simp
  next
    case right
    then have l: "p < ?n" by simp
    let ?b = "ext_put p (ext_join e ?r) buf"
    have b: "node_ok ?b" "leaf_exts ?b = ?es[p := ext_join e ?r]" "length ?b = length buf"
      using nd l node_ok_lengthD [OF nd, of p] by (simp_all add: node_ok_put leaf_exts_put)
    have "drop p ?es = ?r # drop (Suc p) ?es" using l nth_leaf_exts [OF l] Cons_nth_drop_Suc [of p ?es] by simp
    then have fs: "?fs = take p ?es @ e # ?r # drop (Suc p) ?es" by simp
    have "leaf_exts ?b = take p ?es @ ext_join e ?r # drop (Suc p) ?es"
      using l by (simp add: b(2) upd_conv_take_nth_drop)
    then have "exts_ok (leaf_exts ?b)" "\<And>x. exts_map (leaf_exts ?b) x = exts_map ?fs x"
      using join_neighbours [of "take p ?es" e ?r "drop (Suc p) ?es"] right place(1) ext_join_commute_len [of ?r e]
      unfolding fs by auto
    then show ?thesis
      unfolding code if_not_P [OF right(1)] if_P [OF right(2)] using b by (simp add: inserted_def place(2))
  next
    case full
    show ?thesis unfolding code if_not_P [OF full(1)] if_not_P [OF full(2)] using full(3) by simp
  next
    case room
    then have "?n < node_max buf" using nm by simp
    note i = leaf_exts_insert_at [OF nd pn this, of e]
    show ?thesis
      unfolding code if_not_P [OF room(1)] if_not_P [OF room(2)] if_not_P [OF room(3)]
      using i by (simp add: inserted_def place)
  qed
qed

end
