(* ===== verification/Extents_Split.thy ===== *)
theory Extents_Split
  imports Extents_Insert
begin

text \<open>
  Splitting a full leaf: the two halves hold the extents of the leaf and the new one, in order,
  and the first extent of the right half separates them.
\<close>

section \<open>Fresh nodes, clearing and copying\<close>

lemma length_init_node [simp]: "n \<le> length buf \<Longrightarrow> length (ext4_extents_init_node n d buf) = length buf"
  by (simp add: ext4_extents_init_node_def)

lemma eh_get_init_node:
  "12 \<le> n \<Longrightarrow> n \<le> length buf \<Longrightarrow> eh_get (ext4_extents_init_node n d buf) =
     \<lparr>eh_magic = EXT4_EXT_MAGIC, eh_entries = 0, eh_max = of_nat ((n - 12) div 12), eh_depth = d, eh_generation = 0\<rparr>"
  by (simp add: ext4_extents_init_node_def)

lemma node_max_init:
  "12 \<le> n \<Longrightarrow> n \<le> length buf \<Longrightarrow> (n - 12) div 12 < 65536 \<Longrightarrow>
   node_max (ext4_extents_init_node n d buf) = (n - 12) div 12"
  by (simp add: node_max_def eh_get_init_node unat_of_nat_fit)

lemma node_entries_init: "12 \<le> n \<Longrightarrow> n \<le> length buf \<Longrightarrow> node_entries (ext4_extents_init_node n d buf) = 0"
  by (simp add: node_entries_def eh_get_init_node)

lemma ext_clear_props:
  "12 + 12 * b \<le> length buf \<Longrightarrow>
   length (ext_clear a b buf) = length buf \<and> eh_get (ext_clear a b buf) = eh_get buf \<and>
   (\<forall>j < a. ext_get (ext_clear a b buf) j = ext_get buf j)"
proof (induction b)
  case 0
  then show ?case by (simp add: ext_clear_def)
next
  case (Suc b)
  show ?case
  proof (cases "a \<le> b")
    case True
    let ?c = "ext_clear a b buf"
    have IH: "length ?c = length buf" "eh_get ?c = eh_get buf" "\<And>j. j < a \<Longrightarrow> ext_get ?c j = ext_get buf j"
      using Suc by auto
    have c: "ext_clear a (Suc b) buf = bsplice (12 + 12 * b) (replicate 12 0) ?c"
      using True by (simp add: ext_clear_def put_struct_def)
    have s: "bslice 0 12 (bsplice (12 + 12 * b) (replicate 12 0) ?c) = bslice 0 12 ?c"
      "j < a \<Longrightarrow> bslice (12 + 12 * j) 12 (bsplice (12 + 12 * b) (replicate 12 0) ?c) = bslice (12 + 12 * j) 12 ?c" for j
      using Suc.prems IH(1) True by (auto intro!: slice_splice_other)
    show ?thesis
      using Suc.prems IH s unfolding c by (simp add: eh_get_def ext_get_def get_struct_def)
  next
    case False
    then show ?thesis by (simp add: ext_clear_def)
  qed
qed

lemma ext_copy_props:
  "12 + 12 * k \<le> length buf \<Longrightarrow>
   length (foldl (\<lambda>b i. ext_put i (f i) b) buf [0..<k]) = length buf \<and>
   eh_get (foldl (\<lambda>b i. ext_put i (f i) b) buf [0..<k]) = eh_get buf \<and>
   (\<forall>j < k. ext_get (foldl (\<lambda>b i. ext_put i (f i) b) buf [0..<k]) j = f j)"
proof (induction k)
  case (Suc k)
  then show ?case by (auto simp: ext_get_put less_Suc_eq)
qed simp

section \<open>The two halves\<close>

definition leaf_split_ok :: "nat \<Rightarrow> bytes \<Rightarrow> bool" where
  "leaf_split_ok block_size leaf \<longleftrightarrow> node_ok leaf \<and> node_entries leaf = node_max leaf \<and> node_max leaf \<noteq> 0 \<and>
     node_max leaf \<le> (block_size - 12) div 12 \<and> (block_size - 12) div 12 < 65536 \<and> 24 \<le> block_size"

definition ext_place :: "bytes \<Rightarrow> ext4_extent \<Rightarrow> nat" where
  "ext_place leaf e = ext_insert_pos leaf (ee_block e) (node_entries leaf)"

lemma right_half:
  fixes f :: "nat \<Rightarrow> ext4_extent"
  assumes sp: "leaf_split_ok B leaf" and k: "k \<le> node_max leaf"
  defines "right0 \<equiv> ext4_extents_init_node B 0 (replicate B 0)"
  defines "r \<equiv> (if 0 < k then set_entries k (foldl (\<lambda>b i. ext_put i (f i) b) right0 [0..<k]) else right0)"
  shows "node_ok r" "length r = B" "leaf_exts r = map f [0..<k]" "eh_depth (eh_get r) = 0"
    "node_max r = (B - 12) div 12"
proof -
  have B: "24 \<le> B" "k \<le> (B - 12) div 12" "(B - 12) div 12 < 65536" using sp k by (auto simp: leaf_split_ok_def)
  then have r0: "length right0 = B" "node_max right0 = (B - 12) div 12" "node_entries right0 = 0"
    "eh_magic (eh_get right0) = EXT4_EXT_MAGIC" "eh_depth (eh_get right0) = 0"
    by (simp_all add: right0_def node_max_init node_entries_init eh_get_init_node)
  let ?c = "foldl (\<lambda>b i. ext_put i (f i) b) right0 [0..<k]"
  have "12 + 12 * k \<le> length right0" using B r0(1) by simp
  note c = ext_copy_props [OF this, of f]
  have c12: "12 \<le> length ?c" using c r0 B by simp
  have k16: "k < 65536" using B by simp
  have er: "eh_get r = (eh_get right0)\<lparr>eh_entries := of_nat k\<rparr>"
  proof (cases "0 < k")
    case True
    then show ?thesis unfolding r_def using c c12 by simp
  next
    case False
    then show ?thesis unfolding r_def using r0(3) by (simp add: node_entries_def unat_eq_0)
  qed
  have ne: "node_entries r = k" using k16 by (simp add: node_entries_def er unat_of_nat_fit)
  show nm: "node_max r = (B - 12) div 12" using r0(2) by (simp add: node_max_def er)
  show l: "length r = B" unfolding r_def using c c12 r0 by simp
  show "eh_depth (eh_get r) = 0" using r0 by (simp add: er)
  show "node_ok r" using ne nm l B r0(4) by (simp add: node_ok_def er)
  show "leaf_exts r = map f [0..<k]"
  proof (rule nth_equalityI)
    fix i assume "i < length (leaf_exts r)"
    then have i: "i < k" using ne by simp
    then have "ext_get r i = f i" unfolding r_def using c c12 by simp
    with i ne show "leaf_exts r ! i = map f [0..<k] ! i" by (simp add: nth_leaf_exts)
  qed (simp add: ne)
qed

lemma left_half:
  assumes sp: "leaf_split_ok B leaf" and p: "p < node_entries leaf"
  defines "l \<equiv> ext_clear p (node_max leaf) (set_entries p leaf)"
  shows "node_ok l" "length l = length leaf" "leaf_exts l = take p (leaf_exts leaf)" "node_max l = node_max leaf"
    "node_entries l = p" "eh_depth (eh_get l) = eh_depth (eh_get leaf)"
proof -
  have nd: "node_ok leaf" "12 \<le> length leaf" using sp by (auto simp: leaf_split_ok_def node_ok_def)
  have "12 + 12 * node_max leaf \<le> length (set_entries p leaf)" using nd by (simp add: node_ok_def)
  note c = ext_clear_props [OF this, of p, folded l_def]
  have p16: "p < 65536" using p sp node_max_less [of leaf] by (simp add: leaf_split_ok_def)
  show l: "length l = length leaf" using c nd by simp
  show nm: "node_max l = node_max leaf" using c nd by (simp add: node_max_def)
  show ne: "node_entries l = p" using c nd p16 by (simp add: node_entries_def unat_of_nat_fit)
  show "node_ok l" using c nd l nm ne p by (auto simp: node_ok_def)
  show "eh_depth (eh_get l) = eh_depth (eh_get leaf)" using c nd by simp
  show "leaf_exts l = take p (leaf_exts leaf)"
    using c nd p by (intro nth_equalityI) (auto simp: ne nth_leaf_exts)
qed

lemma leaf_exts_append_one:
  fixes e :: ext4_extent
  assumes nd: "node_ok buf" and room: "node_entries buf < node_max buf"
  defines "out \<equiv> set_entries (node_entries buf + 1) (ext_put (node_entries buf) e buf)"
  shows "leaf_exts out = leaf_exts buf @ [e]" "node_ok out" "length out = length buf"
    "node_max out = node_max buf" "eh_depth (eh_get out) = eh_depth (eh_get buf)"
proof -
  have up: "ext_shift_up (node_entries buf) (node_entries buf) buf = buf" by (simp add: ext_shift_up_def)
  have len: "24 + 12 * node_entries buf \<le> length buf" using nd room by (simp add: node_ok_def)
  note i = leaf_exts_insert_at [OF nd order_refl room, of e, unfolded up, folded out_def]
  show "leaf_exts out = leaf_exts buf @ [e]" "node_ok out" "length out = length buf" using i by simp_all
  show "node_max out = node_max buf" "eh_depth (eh_get out) = eh_depth (eh_get buf)"
    using len by (simp_all add: out_def)
qed

lemma split_leaf_nodes_spec:
  assumes sp: "leaf_split_ok B leaf"
    and split: "split_leaf_nodes B leaf e = (right, left, sep)"
  shows "node_ok left \<and> node_ok right \<and> length left = length leaf \<and> length right = B \<and>
    leaf_exts left @ leaf_exts right = take (ext_place leaf e) (leaf_exts leaf) @ e # drop (ext_place leaf e) (leaf_exts leaf) \<and>
    leaf_exts left \<noteq> [] \<and> leaf_exts right \<noteq> [] \<and> sep = hd (leaf_exts right) \<and>
    eh_depth (eh_get right) = 0 \<and> eh_depth (eh_get left) = eh_depth (eh_get leaf)"
proof -
  let ?n = "node_entries leaf" and ?p = "ext_place leaf e"
  have n: "?n = node_max leaf" "?n \<noteq> 0" "node_ok leaf" using sp by (auto simp: leaf_split_ok_def)
  have p: "?p \<le> ?n" unfolding ext_place_def by (rule ext_insert_pos_props)
  have k: "?n - ?p \<le> node_max leaf" using n by simp
  note R = right_half [OF sp k, of "\<lambda>i. ext_get leaf (?p + i)"]
  let ?r = "if 0 < ?n - ?p
    then set_entries (?n - ?p) (foldl (\<lambda>b i. ext_put i (ext_get leaf (?p + i)) b)
      (ext4_extents_init_node B 0 (replicate B 0)) [0..<?n - ?p])
    else ext4_extents_init_node B 0 (replicate B 0)"
  show ?thesis
  proof (cases "?p = ?n")
    case True
    then have r0: "leaf_exts ?r = []" "node_entries ?r = 0" using R(3) length_leaf_exts [of ?r] by auto
    have code: "(right, left, sep) = (set_entries 1 (ext_put 0 e ?r), leaf, e)"
      using split True by (auto simp: split_leaf_nodes_def Let_def ext_place_def)
    have "node_entries ?r < node_max ?r" using R(5) r0(2) sp n by (simp add: leaf_split_ok_def)
    note A = leaf_exts_append_one [OF R(1) this, of e, unfolded r0]
    have r: "right = set_entries (0 + 1) (ext_put 0 e ?r)" "left = leaf" "sep = e" using code by auto
    have ne: "leaf_exts leaf \<noteq> []" using n(2) by (metis length_leaf_exts list.size(3))
    have tk: "take ?p (leaf_exts leaf) = leaf_exts leaf" "drop ?p (leaf_exts leaf) = []" using True by simp_all
    show ?thesis unfolding r tk using A n(3) ne R(2,4) by simp
  next
    case False
    then have lt: "?p < ?n" using p by simp
    note L = left_half [OF sp lt]
    let ?l = "ext_clear ?p (node_max leaf) (set_entries ?p leaf)"
    have code: "(right, left, sep) = (?r, set_entries (?p + 1) (ext_put ?p e ?l), ext_get ?r 0)"
      using split lt False by (auto simp: split_leaf_nodes_def Let_def ext_place_def)
    have "node_entries ?l < node_max ?l" using L lt n(1) by simp
    note A = leaf_exts_append_one [OF L(1) this, of e, unfolded L(5)]
    have r: "right = ?r" "left = set_entries (?p + 1) (ext_put ?p e ?l)" "sep = ext_get ?r 0" using code by auto
    have re: "leaf_exts ?r = drop ?p (leaf_exts leaf)"
      unfolding R(3) using lt by (intro nth_equalityI) (auto simp: nth_leaf_exts)
    then have ne: "leaf_exts ?r \<noteq> []" using lt by simp
    have "0 < node_entries ?r"
      unfolding length_leaf_exts [of ?r, symmetric] length_greater_0_conv by (rule ne)
    then have hd: "hd (leaf_exts ?r) = ext_get ?r 0" using ne by (simp add: hd_conv_nth nth_leaf_exts)
    have ll: "leaf_exts left @ leaf_exts right = take ?p (leaf_exts leaf) @ e # drop ?p (leaf_exts leaf)"
      unfolding r A(1) re L(3) by simp
    have "leaf_exts left \<noteq> []" unfolding r A(1) by simp
    then show ?thesis using ll A R L ne hd unfolding r by simp
  qed
qed

text \<open>The separator decides which half holds the mapping of a logical block.\<close>

lemma exts_map_split:
  assumes ok: "exts_ok (xs @ ys)" and ne: "ys \<noteq> []"
  shows "exts_map (if l < ee_block (hd ys) then xs else ys) l = exts_map (xs @ ys) l"
proof -
  obtain y zs where ys: "ys = y # zs" using ne by (cases ys) auto
  have o: "exts_ok xs" "exts_ok ys" "\<And>x y. x \<in> set xs \<Longrightarrow> y \<in> set ys \<Longrightarrow> ext_end x \<le> ext_start y"
    using ok by (auto simp: exts_ok_append)
  have le: "ext_start y \<le> ext_start z" if "z \<in> set zs" for z
    using o(2) that by (fastforce simp: ys exts_ok_Cons ext_end_def)
  show ?thesis
  proof (cases "l < ee_block y")
    case True
    then have "\<not> ext_covers z l" if "z \<in> set ys" for z
      using le [of z] that by (auto simp: ys ext_covers_def ext_start_def word_less_nat_alt)
    then have "exts_map xs l = exts_map (xs @ ys) l" by (intro exts_map_eqI [OF o(1) ok]) auto
    then show ?thesis using True ys by simp
  next
    case False
    then have "\<not> ext_covers x l" if "x \<in> set xs" for x
      using o(3) [of x y] that by (auto simp: ys ext_covers_def ext_start_def word_less_nat_alt)
    then have "exts_map ys l = exts_map (xs @ ys) l" by (intro exts_map_eqI [OF o(2) ok]) auto
    then show ?thesis using False ys by simp
  qed
qed

lemma place_ok:
  assumes ok: "exts_ok (leaf_exts leaf)" and e: "ext_wf e"
    and dis: "\<forall>x \<in> set (leaf_exts leaf). ext_disjoint e x"
  defines "fs \<equiv> take (ext_place leaf e) (leaf_exts leaf) @ e # drop (ext_place leaf e) (leaf_exts leaf)"
  shows "exts_ok fs" "exts_map fs x = (if ext_covers e x then Some (ext_block e x) else exts_map (leaf_exts leaf) x)"
proof -
  let ?n = "node_entries leaf" and ?p = "ext_place leaf e"
  have pos: "?p \<le> length (leaf_exts leaf)"
    "\<And>i. ?p \<le> i \<Longrightarrow> i < length (leaf_exts leaf) \<Longrightarrow> ext_start e < ext_start (leaf_exts leaf ! i)"
    "0 < ?p \<Longrightarrow> ext_start (leaf_exts leaf ! (?p - 1)) \<le> ext_start e"
    using ext_insert_pos_props [of leaf "ee_block e" ?n, folded ext_place_def]
    by (auto simp: nth_leaf_exts ext_start_def word_less_nat_alt word_le_nat_alt)
  show "exts_ok fs" "exts_map fs x = (if ext_covers e x then Some (ext_block e x) else exts_map (leaf_exts leaf) x)"
    unfolding fs_def by (rule insert_place [OF ok e dis pos(1)]; use pos in blast)+
qed

lemma split_leaf_lookup:
  assumes sp: "leaf_split_ok B leaf" and ok: "exts_ok (leaf_exts leaf)" and e: "ext_wf e"
    and dis: "\<forall>x \<in> set (leaf_exts leaf). ext_disjoint e x"
    and split: "split_leaf_nodes B leaf e = (right, left, sep)"
  shows "exts_ok (leaf_exts left)" "exts_ok (leaf_exts right)"
    "ext4_extents_lookup_mapped (if l < ee_block sep then left else right) l =
      (if ext_covers e l then Some (ext_block e l) else ext4_extents_lookup_mapped leaf l)"
proof -
  note S = split_leaf_nodes_spec [OF sp split]
  note P = place_ok [OF ok e dis]
  have all: "exts_ok (leaf_exts left @ leaf_exts right)" using P(1) S by simp
  then show lr: "exts_ok (leaf_exts left)" "exts_ok (leaf_exts right)" by (auto simp: exts_ok_append)
  have "exts_map (if l < ee_block sep then leaf_exts left else leaf_exts right) l =
      exts_map (leaf_exts left @ leaf_exts right) l"
    using exts_map_split [OF all, of l] S by simp
  then have m: "exts_map (leaf_exts (if l < ee_block sep then left else right)) l =
      (if ext_covers e l then Some (ext_block e l) else exts_map (leaf_exts leaf) l)"
    using S P(2) by (auto split: if_splits)
  have nd: "node_ok leaf" "node_ok (if l < ee_block sep then left else right)"
    "exts_ok (leaf_exts (if l < ee_block sep then left else right))"
    using S sp lr by (auto simp: leaf_split_ok_def)
  show "ext4_extents_lookup_mapped (if l < ee_block sep then left else right) l =
      (if ext_covers e l then Some (ext_block e l) else ext4_extents_lookup_mapped leaf l)"
    unfolding lookup_mapped_spec [OF nd(2,3)] lookup_mapped_spec [OF nd(1) ok] by (rule m)
qed

end
