(* ===== verification/Extents_Props.thy ===== *)
theory Extents_Props
  imports Extents_Split Balloc_Props
begin

text \<open>
  What the extent code promises: a leaf is a finite map from logical to physical blocks, search
  is its lookup, insertion and splitting are updates of it, and asking for an unmapped block of a
  file with room in its root maps exactly that block.
\<close>

section \<open>The depth of a node\<close>

lemma fuse_right_depth:
  assumes nd: "node_ok buf" and p: "0 < p" "p \<le> node_entries buf"
  shows "eh_depth (eh_get (extents_fuse_right p (node_entries buf) buf)) = eh_depth (eh_get buf)"
proof (cases "p < node_entries buf")
  case False
  then show ?thesis by (simp add: extents_fuse_right_def Let_def)
next
  case True
  then obtain m where m: "node_entries buf = Suc m" "p \<le> m" by (metis less_Suc_eq_le not0_implies_Suc not_less_zero)
  have len: "12 + 12 * Suc m \<le> length buf" using nd m by (auto simp: node_ok_def)
  let ?b = "\<lambda>e. ext_put (p - 1) e buf"
  have b: "length (?b e) = length buf" "eh_get (?b e) = eh_get buf" for e using len m p by simp_all
  have "24 + 12 * m \<le> length (?b e)" for e using b len by simp
  note sh = ext_shift_down_props [OF this]
  have "12 \<le> length buf" using len by simp
  with sh b show ?thesis
    unfolding extents_fuse_right_def Let_def m by (simp del: One_nat_def)
qed

lemma insert_depth:
  assumes nd: "node_ok buf"
  shows "eh_depth (eh_get (snd (ext4_extents_insert buf e))) = eh_depth (eh_get buf)"
proof -
  let ?n = "node_entries buf"
  define p where "p = ext_insert_pos buf (ee_block e) ?n"
  have pn: "p \<le> ?n" unfolding p_def by (rule ext_insert_pos_props)
  have len: "12 + 12 * node_max buf \<le> length buf" and nm: "?n \<le> node_max buf" using nd by (auto simp: node_ok_def)
  have put: "eh_depth (eh_get (ext_put i x buf)) = eh_depth (eh_get buf)" if "i < ?n" for i x
    using that len nm by simp
  have fuse: "eh_depth (eh_get (extents_fuse_right p ?n (ext_put (p - 1) x buf))) = eh_depth (eh_get buf)" if "0 < p" for x
  proof -
    have i: "p - 1 < ?n" using that pn by auto
    then have l: "24 + 12 * (p - 1) \<le> length buf" using len nm by simp
    have "node_ok (ext_put (p - 1) x buf)" using nd i by (simp add: node_ok_put)
    from fuse_right_depth [OF this that] pn l put [OF i] show ?thesis by simp
  qed
  have room: "eh_depth (eh_get (set_entries (?n + 1) (ext_put p e (ext_shift_up p ?n buf)))) = eh_depth (eh_get buf)"
    if "?n \<noteq> node_max buf"
  proof -
    have l: "24 + 12 * ?n \<le> length buf" using that len nm by simp
    from ext_shift_up_props [OF pn l] pn l show ?thesis by simp
  qed
  show ?thesis
    unfolding ext4_extents_insert_def Let_def p_def [symmetric]
    using put fuse room by (auto simp del: One_nat_def)
qed

lemma fuse_right_node:
  assumes nd: "node_ok buf" and p: "0 < p" "p \<le> node_entries buf"
  shows "node_max (extents_fuse_right p (node_entries buf) buf) = node_max buf"
    "node_entries (extents_fuse_right p (node_entries buf) buf) \<le> node_entries buf"
proof -
  have "node_max (extents_fuse_right p (node_entries buf) buf) = node_max buf \<and>
      node_entries (extents_fuse_right p (node_entries buf) buf) \<le> node_entries buf"
  proof (cases "p < node_entries buf")
    case False
    then show ?thesis by (simp add: extents_fuse_right_def Let_def)
  next
    case True
    then obtain m where m: "node_entries buf = Suc m" "p \<le> m" by (metis less_Suc_eq_le not0_implies_Suc not_less_zero)
    have len: "12 + 12 * Suc m \<le> length buf" and mm: "m < 65536"
      using nd m node_max_less [of buf] by (auto simp: node_ok_def)
    let ?b = "\<lambda>e. ext_put (p - 1) e buf"
    have b: "length (?b e) = length buf" "node_max (?b e) = node_max buf" "node_entries (?b e) = Suc m" for e
      using len m p by (simp_all add: m(1))
    have "24 + 12 * m \<le> length (?b e)" for e using b len by simp
    note sh = ext_shift_down_props [OF this]
    have u: "unat (of_nat m :: u16) = m" using mm by (intro unat_of_nat_fit) simp
    have e: "unat (eh_entries (eh_get buf)) = Suc m" using m(1) by (simp add: node_entries_def)
    have "12 \<le> length buf" using len by simp
    with sh b u e show ?thesis
      unfolding extents_fuse_right_def Let_def m
      by (simp add: node_max_def node_entries_def del: One_nat_def)
  qed
  then show "node_max (extents_fuse_right p (node_entries buf) buf) = node_max buf"
    "node_entries (extents_fuse_right p (node_entries buf) buf) \<le> node_entries buf" by auto
qed

text \<open>An insertion keeps the size of a node and adds at most one entry.\<close>

lemma insert_node:
  assumes nd: "node_ok buf"
  shows "node_max (snd (ext4_extents_insert buf e)) = node_max buf \<and>
    node_entries (snd (ext4_extents_insert buf e)) \<le> Suc (node_entries buf)"
proof -
  let ?n = "node_entries buf"
  define p where "p = ext_insert_pos buf (ee_block e) ?n"
  have pn: "p \<le> ?n" unfolding p_def by (rule ext_insert_pos_props)
  have len: "12 + 12 * node_max buf \<le> length buf" and nm: "?n \<le> node_max buf" using nd by (auto simp: node_ok_def)
  have put: "node_max (ext_put i x buf) = node_max buf" "node_entries (ext_put i x buf) = ?n"
    if "i < ?n" for i x using that len nm by simp_all
  have fuse: "node_max (extents_fuse_right p ?n (ext_put (p - 1) x buf)) = node_max buf"
    "node_entries (extents_fuse_right p ?n (ext_put (p - 1) x buf)) \<le> Suc ?n" if "0 < p" for x
  proof -
    have i: "p - 1 < ?n" using that pn by auto
    have "node_ok (ext_put (p - 1) x buf)" using nd i by (simp add: node_ok_put)
    from fuse_right_node [OF this that] pn put [OF i]
    show "node_max (extents_fuse_right p ?n (ext_put (p - 1) x buf)) = node_max buf"
      "node_entries (extents_fuse_right p ?n (ext_put (p - 1) x buf)) \<le> Suc ?n" by (simp_all add: le_SucI)
  qed
  have room: "node_max (set_entries (?n + 1) (ext_put p e (ext_shift_up p ?n buf))) = node_max buf"
    "node_entries (set_entries (?n + 1) (ext_put p e (ext_shift_up p ?n buf))) = Suc ?n"
    if "?n \<noteq> node_max buf"
  proof -
    have l: "24 + 12 * ?n \<le> length buf" using that len nm by simp
    have n: "?n + 1 < 65536" using that nm node_max_less [of buf] by simp
    from ext_shift_up_props [OF pn l] pn l n
    show "node_max (set_entries (?n + 1) (ext_put p e (ext_shift_up p ?n buf))) = node_max buf"
      "node_entries (set_entries (?n + 1) (ext_put p e (ext_shift_up p ?n buf))) = Suc ?n"
      by (simp_all add: node_max_def)
  qed
  show ?thesis
    unfolding ext4_extents_insert_def Let_def p_def [symmetric]
    using put fuse room by (auto simp del: One_nat_def)
qed

section \<open>Search, insertion and splitting\<close>

text \<open>The search of a leaf finds the physical block of the extent that covers the logical block, and
  nothing when no extent covers it.\<close>

theorem lookup_finds_covering_extent:
  assumes "node_ok buf" "exts_ok (leaf_exts buf)"
  shows "(\<forall>i < node_entries buf. ext_covers (ext_get buf i) l \<longrightarrow>
            ext4_extents_lookup_mapped buf l = Some (ext_block (ext_get buf i) l)) \<and>
    ((\<forall>i < node_entries buf. \<not> ext_covers (ext_get buf i) l) \<longrightarrow> ext4_extents_lookup_mapped buf l = None)"
proof (intro conjI allI impI)
  fix i assume i: "i < node_entries buf" "ext_covers (ext_get buf i) l"
  show "ext4_extents_lookup_mapped buf l = Some (ext_block (ext_get buf i) l)"
    using exts_map_nth [OF assms(2), of i l] i by (simp add: lookup_mapped_spec [OF assms] nth_leaf_exts)
next
  assume "\<forall>i < node_entries buf. \<not> ext_covers (ext_get buf i) l"
  then have "\<forall>e \<in> set (leaf_exts buf). \<not> ext_covers e l" by (auto simp: leaf_exts_def)
  then show "ext4_extents_lookup_mapped buf l = None" by (simp add: lookup_mapped_spec [OF assms] exts_map_None)
qed

definition demo_ext :: "u32 \<Rightarrow> u16 \<Rightarrow> u32 \<Rightarrow> ext4_extent" where
  "demo_ext l n b = \<lparr>ee_block = l, ee_len = n, ee_start_hi = 0, ee_start_lo = b\<rparr>"

definition demo_leaf :: bytes where
  "demo_leaf = set_entries 2 (ext_put 1 (demo_ext 9 2 40) (ext_put 0 (demo_ext 3 4 20)
     (ext4_extents_init_root (replicate 60 0))))"

lemmas ext_eval = exts_ok_def ext_wf_def ext_end_def ext_start_def ext_len_def ext4_extent_pblock_def
  demo_ext_def ext_disjoint_def ext_covers_def ext_block_def exts_map_def

lemma demo_root:
  "length (ext4_extents_init_root (replicate 60 0)) = 60"
  "eh_get (ext4_extents_init_root (replicate 60 0)) =
     \<lparr>eh_magic = EXT4_EXT_MAGIC, eh_entries = 0, eh_max = 4, eh_depth = 0, eh_generation = 0\<rparr>"
  by (simp_all add: ext4_extents_init_root_def eh_get_init_node)

lemma demo_leaf_facts:
  "length demo_leaf = 60"
  "eh_get demo_leaf = \<lparr>eh_magic = EXT4_EXT_MAGIC, eh_entries = 2, eh_max = 4, eh_depth = 0, eh_generation = 0\<rparr>"
  "ext_get demo_leaf 0 = demo_ext 3 4 20" "ext_get demo_leaf 1 = demo_ext 9 2 40"
  by (simp_all add: demo_leaf_def demo_root ext_get_put)

lemma demo_leaf_exts: "leaf_exts demo_leaf = [demo_ext 3 4 20, demo_ext 9 2 40]"
  using demo_leaf_facts(3,4) by (simp add: leaf_exts_def node_entries_def demo_leaf_facts(2) upt_rec)

lemma demo_leaf_ok: "node_ok demo_leaf" "exts_ok (leaf_exts demo_leaf)" "node_entries demo_leaf = 2"
    "node_max demo_leaf = 4"
proof -
  show "node_ok demo_leaf" "node_entries demo_leaf = 2" "node_max demo_leaf = 4"
    by (simp_all add: node_ok_def node_entries_def node_max_def demo_leaf_facts)
  show "exts_ok (leaf_exts demo_leaf)" unfolding demo_leaf_exts by (simp add: ext_eval)
qed

theorem lookup_finds_covering_extent_witness:
  "ext4_extents_lookup_mapped demo_leaf 5 = Some 22 \<and> ext4_extents_lookup_mapped demo_leaf 8 = None"
proof -
  have c: "ext_covers (ext_get demo_leaf 0) 5" "ext_block (ext_get demo_leaf 0) 5 = 22"
    "\<not> ext_covers (ext_get demo_leaf 0) 8" "\<not> ext_covers (ext_get demo_leaf 1) 8"
    unfolding demo_leaf_facts(3,4) by (simp_all add: ext_eval)
  note L = lookup_finds_covering_extent [OF demo_leaf_ok(1,2), unfolded demo_leaf_ok(3)]
  have "(0 :: nat) < 2" by simp
  then have "ext4_extents_lookup_mapped demo_leaf 5 = Some 22" using L [of 5] c(1,2) by metis
  moreover have "\<forall>i < 2. \<not> ext_covers (ext_get demo_leaf i) 8" using c(3,4) by (auto simp: less_2_cases_iff)
  then have "ext4_extents_lookup_mapped demo_leaf 8 = None" using L [of 8] by blast
  ultimately show ?thesis by blast
qed

text \<open>C8: Inserting an extent that overlaps no other updates the map of the leaf at exactly the logical
  blocks the extent covers, merges included, and keeps the extents sorted, disjoint and within the
  node; when it does not succeed the leaf is full and unchanged.\<close>

theorem insert_updates_map:
  assumes "node_ok buf" "exts_ok (leaf_exts buf)" "ext_wf e" "\<forall>x \<in> set (leaf_exts buf). ext_disjoint e x"
  shows "case ext4_extents_insert buf e of (done, buf') \<Rightarrow>
    if done
    then node_ok buf' \<and> exts_ok (leaf_exts buf') \<and> length buf' = length buf \<and>
      (\<forall>l. ext4_extents_lookup_mapped buf' l =
             (if ext_covers e l then Some (ext_block e l) else ext4_extents_lookup_mapped buf l))
    else buf' = buf \<and> node_entries buf = node_max buf"
proof -
  obtain d buf' where r: "ext4_extents_insert buf e = (d, buf')" by (cases "ext4_extents_insert buf e")
  from insert_spec [OF assms] r lookup_mapped_spec [OF assms(1,2)] lookup_mapped_spec [of buf']
  show ?thesis by (auto simp: inserted_def split: if_splits)
qed

theorem insert_updates_map_witness:
  "\<exists>buf'. ext4_extents_insert demo_leaf (demo_ext 7 2 24) = (True, buf') \<and>
     ext4_extents_lookup_mapped buf' 8 = Some 25 \<and> ext4_extents_lookup_mapped buf' 5 = Some 22"
proof -
  have c: "\<forall>x \<in> set (leaf_exts demo_leaf). ext_disjoint (demo_ext 7 2 24) x" "ext_wf (demo_ext 7 2 24)"
    "ext_covers (demo_ext 7 2 24) 8" "ext_block (demo_ext 7 2 24) 8 = 25" "\<not> ext_covers (demo_ext 7 2 24) 5"
    unfolding demo_leaf_exts by (simp_all add: ext_eval)
  have "exts_map (leaf_exts demo_leaf) 5 = Some 22" unfolding demo_leaf_exts by (simp add: ext_eval)
  then have l: "ext4_extents_lookup_mapped demo_leaf 5 = Some 22" by (simp add: lookup_mapped_spec [OF demo_leaf_ok(1,2)])
  obtain d buf' where r: "ext4_extents_insert demo_leaf (demo_ext 7 2 24) = (d, buf')"
    by (cases "ext4_extents_insert demo_leaf (demo_ext 7 2 24)")
  from insert_updates_map [OF demo_leaf_ok(1,2) c(2,1)] show ?thesis
    using r c(3-5) l by (simp add: demo_leaf_ok(3,4) split: if_splits)
qed

text \<open>C10: When a full leaf is split for a new extent, descending by the separator into the left or the
  right half finds every block where the full leaf had it, and the blocks of the new extent.\<close>

theorem split_keeps_lookups:
  assumes "leaf_split_ok block_size leaf" "exts_ok (leaf_exts leaf)" "ext_wf e"
    and "\<forall>x \<in> set (leaf_exts leaf). ext_disjoint e x"
    and "split_leaf_nodes block_size leaf e = (right, left, sep)"
  shows "ext4_extents_lookup_mapped (if l < ee_block sep then left else right) l =
    (if ext_covers e l then Some (ext_block e l) else ext4_extents_lookup_mapped leaf l)"
  by (rule split_leaf_lookup(3) [OF assms])

definition demo_full_leaf :: bytes where
  "demo_full_leaf = set_entries 4 (ext_put 3 (demo_ext 30 2 70) (ext_put 2 (demo_ext 20 2 60) demo_leaf))"

lemma demo_full_leaf_facts:
  "length demo_full_leaf = 60" "eh_get demo_full_leaf =
      \<lparr>eh_magic = EXT4_EXT_MAGIC, eh_entries = 4, eh_max = 4, eh_depth = 0, eh_generation = 0\<rparr>"
  "ext_get demo_full_leaf 0 = demo_ext 3 4 20" "ext_get demo_full_leaf 1 = demo_ext 9 2 40"
  "ext_get demo_full_leaf 2 = demo_ext 20 2 60" "ext_get demo_full_leaf 3 = demo_ext 30 2 70"
  by (simp_all add: demo_full_leaf_def demo_leaf_facts ext_get_put demo_leaf_facts [unfolded One_nat_def])

lemma demo_full_leaf_ok: "leaf_split_ok 1024 demo_full_leaf" "exts_ok (leaf_exts demo_full_leaf)"
    "ext_wf (demo_ext 15 2 90)" "\<forall>x \<in> set (leaf_exts demo_full_leaf). ext_disjoint (demo_ext 15 2 90) x"
    "\<not> ext_covers (demo_ext 15 2 90) 21" "ext4_extents_lookup_mapped demo_full_leaf 21 = Some 61"
proof -
  note f = demo_full_leaf_facts
  from f have es: "leaf_exts demo_full_leaf = [demo_ext 3 4 20, demo_ext 9 2 40, demo_ext 20 2 60, demo_ext 30 2 70]"
    by (simp add: leaf_exts_def node_entries_def upt_conv_Cons numeral_2_eq_2 [symmetric] numeral_3_eq_3 [symmetric])
  have nd: "node_ok demo_full_leaf" using f by (simp add: node_ok_def node_entries_def node_max_def)
  then show "leaf_split_ok 1024 demo_full_leaf"
    by (simp add: leaf_split_ok_def) (simp add: f node_entries_def node_max_def)
  show ok: "exts_ok (leaf_exts demo_full_leaf)" unfolding es by (simp add: ext_eval)
  show "ext_wf (demo_ext 15 2 90)" "\<not> ext_covers (demo_ext 15 2 90) 21" by (simp_all add: ext_eval)
  show "\<forall>x \<in> set (leaf_exts demo_full_leaf). ext_disjoint (demo_ext 15 2 90) x" unfolding es by (simp add: ext_eval)
  show "ext4_extents_lookup_mapped demo_full_leaf 21 = Some 61"
    unfolding lookup_mapped_spec [OF nd ok] es by (simp add: ext_eval)
qed

theorem split_keeps_lookups_witness:
  "case split_leaf_nodes 1024 demo_full_leaf (demo_ext 15 2 90) of (right, left, sep) \<Rightarrow>
     ext4_extents_lookup_mapped (if 21 < ee_block sep then left else right) 21 = Some 61"
proof -
  obtain right left sep where s: "split_leaf_nodes 1024 demo_full_leaf (demo_ext 15 2 90) = (right, left, sep)"
    by (metis prod_cases3)
  from split_keeps_lookups [OF demo_full_leaf_ok(1-4) s, of 21] demo_full_leaf_ok(5,6) show ?thesis
    by (simp add: s)
qed

section \<open>Mapping a block of a file\<close>

text \<open>Two extents that overlap have a logical block in common.\<close>

lemma extents_overlap_block:
  assumes "ext_wf a" and n: "ext_start e < ext_end e" "ext_end e < 2 ^ 32"
    and free: "\<And>y. ext_start e \<le> unat y \<Longrightarrow> unat y < ext_end e \<Longrightarrow> \<not> ext_covers a y"
  shows "ext_disjoint e a"
proof (rule ccontr)
  assume "\<not> ext_disjoint e a"
  then have o: "ext_start a < ext_end e" "ext_start e < ext_end a" by (auto simp: ext_disjoint_def)
  let ?y = "of_nat (max (ext_start a) (ext_start e)) :: u32"
  have y: "unat ?y = max (ext_start a) (ext_start e)" using o n by (intro unat_of_nat_fit) auto
  have "ext_start a < ext_end a" using assms(1) by (simp add: ext_wf_def ext_end_def)
  then have "ext_covers a ?y" unfolding ext_covers_def y using o by auto
  moreover have "ext_start e \<le> unat ?y" "unat ?y < ext_end e" unfolding y using o n by auto
  ultimately show False using free by blast
qed

lemma path_root:
  "node_ok root \<Longrightarrow> eh_depth (eh_get root) = 0 \<Longrightarrow>
   ext4_extents_read_path s root l = (Some [\<lparr>ep_node = root, ep_blocknr = 0, ep_buf = None\<rparr>], s)"
  by (simp add: ext4_extents_read_path_def node_ok_def Let_def)

lemma get_block_root:
  assumes "i_private ino = Some ei" "ext4_get_block_size s \<noteq> 0" "S_ISREG (i_mode ino)"
    and "node_ok (i_block ei)" "eh_depth (eh_get (i_block ei)) = 0"
  shows "ext4_extents_get_block s ino l False =
    (Some (case ext4_extents_lookup_mapped (i_block ei) l of None \<Rightarrow> 0 | Some b \<Rightarrow> b, False), ino, s)"
  using assms
  by (simp add: ext4_extents_get_block_def path_root ext4_extents_free_path_def node_ok_def Let_def split: option.splits)

text \<open>The extent an allocation makes for a run of n blocks.\<close>

definition run_extent :: "u32 \<Rightarrow> u32 \<Rightarrow> u32 \<Rightarrow> ext4_extent" where
  "run_extent l b n = ext4_extent_set_pblock (ucast b) \<lparr>ee_block = l, ee_len = ucast n, ee_start_hi = 0, ee_start_lo = 0\<rparr>"

lemma run_extent_spec:
  fixes l b n :: u32
  assumes n: "0 < unat n" "unat n \<le> 0x7fff" "unat l + unat n < 2 ^ 32"
  shows "ext_wf (run_extent l b n)" "ext_start (run_extent l b n) = unat l"
    "ext_end (run_extent l b n) = unat l + unat n"
    "ext_covers (run_extent l b n) x \<longleftrightarrow> unat l \<le> unat x \<and> unat x < unat l + unat n"
    "ext_block (run_extent l b n) x = b + (x - l)"
proof -
  let ?e = "run_extent l b n"
  have dz: "drop_bit 32 (ucast b :: u64) = 0"
  proof -
    have "unat (ucast b :: u64) = unat b" using unat_u32_bound [of b] by (intro unat_ucast_fit) simp
    then have "unat (drop_bit 32 (ucast b :: u64)) = unat b div 2 ^ 32"
      by (simp add: unat_drop_bit_eq drop_bit_eq_div [where 'a = nat])
    then have "unat (drop_bit 32 (ucast b :: u64)) = 0" using unat_u32_bound [of b] by simp
    then show ?thesis using unat_eq_zero by blast
  qed
  have hi: "ee_start_hi ?e = 0" unfolding run_extent_def ext4_extent_set_pblock_def dz by simp
  have lo: "ee_start_lo ?e = b"
  proof -
    have "(ucast b :: u64) AND 0xffffffff = take_bit 32 (ucast b)"
      by (simp add: take_bit_eq_mask mask_eq_exp_minus_1)
    also have "\<dots> = ucast b"
      using dz by (simp only: take_bit_eq_self_iff_drop_bit_eq_0)
    finally have "ee_start_lo ?e = ucast (ucast b :: u64)" by (simp add: run_extent_def ext4_extent_set_pblock_def)
    also have "\<dots> = b" by (rule ucast_up_ucast_id) (simp add: is_up)
    finally show ?thesis .
  qed
  have pb: "ext4_extent_pblock ?e = ucast b" by (simp add: ext4_extent_pblock_def hi lo)
  have f: "ee_block ?e = l" "ee_len ?e = ucast n" by (simp_all add: run_extent_def ext4_extent_set_pblock_def)
  have len: "ext_len ?e = unat n" unfolding ext_len_def f using n(2) by (intro unat_ucast_fit) simp
  show st: "ext_start ?e = unat l" and en: "ext_end ?e = unat l + unat n"
    by (simp_all add: ext_start_def ext_end_def len f)
  show "ext_wf ?e"
    using n unat_u32_bound [of b] by (simp add: ext_wf_def en len pb unat_ucast_fit)
  show "ext_covers ?e x \<longleftrightarrow> unat l \<le> unat x \<and> unat x < unat l + unat n"
    unfolding ext_covers_def st en by simp
  have "ext_block ?e (l + 0) = b"
    unfolding ext_block_def f pb by (simp add: ucast_up_ucast_id is_up)
  then show "ext_block ?e x = b + (x - l)" using ext_block_linear [of ?e l "x - l"] by simp
qed

text \<open>The account of a run of more than one block in the inode.\<close>

definition run_account :: "kfs \<Rightarrow> u32 \<Rightarrow> inode \<Rightarrow> inode" where
  "run_account s n ino = (if n > 1
     then ino\<lparr>i_blocks := i_blocks ino + (n - 1) * ((ext4_get_block_size s + 511) div 512),
              i_state := i_state ino OR I_DIRTY\<rparr>
     else ino)"

text \<open>What the allocator promises of a run for one request of this file.\<close>

definition run_given :: "kfs \<Rightarrow> u32 \<Rightarrow> u32 \<Rightarrow> u32 \<Rightarrow> bool" where
  "run_given s l b n \<longleftrightarrow> b \<noteq> 0 \<and> 0 < unat n \<and> unat n \<le> 0x7fff \<and> unat l + unat n < 2 ^ 32 \<and>
     unat b + unat n \<le> unat (ext4_extents_fs_blocks_count s)"

lemma alloc_run:
  assumes alloc: "ext4_new_blocks_in_group s (ext4_get_prealloc_goal_len s) (i_alloc_group_hint ei) = ((b, n), s')"
    and p: "i_private ino = Some ei" and g: "run_given s l b n"
  shows "ext4_extents_alloc_new_extent s ino l (ext4_extents_fs_blocks_count s) =
    (Some (run_extent l b n, b), run_account s' n ino, s')"
proof -
  let ?m = "ext4_extents_fs_blocks_count s"
  have n: "n \<noteq> 0" "\<not> n > 0x7fff" using g by (auto simp: run_given_def word_less_nat_alt)
  have m: "?m \<noteq> 0" "\<not> b \<ge> ?m" "b \<noteq> 0" using g by (auto simp: run_given_def word_le_nat_alt)
  have "unat (b + n) = unat b + unat n"
    using g unat_u32_bound [of ?m] by (intro unat_add_nowrap) (simp add: run_given_def)
  then have "\<not> b + n > ?m" using g by (simp add: run_given_def word_less_nat_alt)
  then show ?thesis
    using n m by (simp add: ext4_extents_alloc_new_extent_def p alloc run_extent_def run_account_def Let_def)
qed

text \<open>The new root after a run was mapped, for any state in which the block map is asked again.\<close>

definition run_mapped :: "bytes \<Rightarrow> u32 \<Rightarrow> u32 \<Rightarrow> u32 \<Rightarrow> bytes \<Rightarrow> bool" where
  "run_mapped root l b n root' \<longleftrightarrow> node_ok root' \<and> exts_ok (leaf_exts root') \<and>
     eh_depth (eh_get root') = 0 \<and> length root' = length root \<and> node_max root' = node_max root \<and>
     node_entries root' \<le> Suc (node_entries root) \<and>
     (\<forall>x. ext4_extents_lookup_mapped root' x =
        (if unat l \<le> unat x \<and> unat x < unat l + unat n then Some (b + (x - l))
         else ext4_extents_lookup_mapped root x))"

lemma get_block_new_run:
  assumes "i_private ino = Some ei" "S_ISREG (i_mode ino)" "ext4_get_block_size s \<noteq> 0"
    and root: "node_ok (i_block ei)" "exts_ok (leaf_exts (i_block ei))" "eh_depth (eh_get (i_block ei)) = 0"
      "node_entries (i_block ei) < node_max (i_block ei)"
    and unmapped: "\<And>x. unat l \<le> unat x \<Longrightarrow> unat x < unat l + unat n \<Longrightarrow> ext4_extents_lookup_mapped (i_block ei) x = None"
    and alloc: "ext4_new_blocks_in_group s (ext4_get_prealloc_goal_len s) (i_alloc_group_hint ei) = ((b, n), s')"
      "run_given s l b n"
  shows "\<exists>root'. ext4_extents_get_block s ino l True =
      (Some (b, True), set_root root' (run_account s' n ino), s') \<and> run_mapped (i_block ei) l b n root'"
proof -
  let ?r = "i_block ei" and ?e = "run_extent l b n"
  have n: "0 < unat n" "unat n \<le> 0x7fff" "unat l + unat n < 2 ^ 32" using alloc(2) by (auto simp: run_given_def)
  note E = run_extent_spec [OF n, of b]
  have "\<not> ext_covers x y" if "x \<in> set (leaf_exts ?r)" "unat l \<le> unat y" "unat y < unat l + unat n" for x y
    using unmapped [OF that(2,3)] that(1) exts_map_None [of "leaf_exts ?r" y] lookup_mapped_spec [OF root(1,2)] by simp
  then have dis: "\<forall>x \<in> set (leaf_exts ?r). ext_disjoint ?e x"
    using root(2) n by (intro ballI extents_overlap_block) (auto simp: exts_ok_def E(2,3))
  obtain d buf' where r: "ext4_extents_insert ?r ?e = (d, buf')" by (cases "ext4_extents_insert ?r ?e")
  have d: "d" and I: "inserted ?r ?e buf'"
    using insert_spec [OF root(1,2) E(1) dis] r root(4) by (auto split: if_splits)
  have depth: "eh_depth (eh_get buf') = 0" using insert_depth [OF root(1), of ?e] r root(3) by simp
  have ok': "node_ok buf'" "exts_ok (leaf_exts buf')" using I by (auto simp: inserted_def)
  have "ext4_extents_get_block s ino l True = (Some (b, True), set_root buf' (run_account s' n ino), s')"
    using assms(1-3) root unmapped [of l] n alloc_run [OF alloc(1) assms(1) alloc(2)] r d
    by (simp add: ext4_extents_get_block_def path_root node_ok_def Let_def ext4_extents_free_path_def
        ext4_extents_insert_mapped_block_def ext4_extents_insert_at_leaf_def set_node_def
        ext4_extents_write_path_node_def)
  moreover have "run_mapped ?r l b n buf'"
    using I ok' depth insert_node [OF root(1), of ?e] r lookup_mapped_spec [OF ok'] lookup_mapped_spec [OF root(1,2)]
    by (simp add: run_mapped_def inserted_def E(4,5))
  ultimately show ?thesis by blast
qed


definition demo_file :: "bytes \<Rightarrow> inode" where
  "demo_file root = \<lparr>i_slot = 0, i_ino = 12, i_nlink = 1, i_uid = 0, i_gid = 0, i_mode = 0x81A4,
     i_atime = 0, i_mtime = 0, i_ctime = 0, i_size = 0, i_blocks = 0, i_state = 0, i_count = 2,
     i_op = Ext4_File_Ops,
     i_private = Some \<lparr>ei_buf = 0, i_block = root, ei_flags = EXT4_INODE_FLAG_EXTENTS, i_alloc_group_hint = 0\<rparr>\<rparr>"

text \<open>The demo file system with a preallocation length of 32.\<close>

definition perf_fs :: kfs where
  "perf_fs = demo_fs\<lparr>ext4_prealloc_goal_len := 32\<rparr>"

lemma perf_same: "g_disk perf_fs = g_disk demo_fs" "g_default_bdev perf_fs = g_default_bdev demo_fs"
    "ext4_block_size perf_fs = ext4_block_size demo_fs" "s_fs_info perf_fs = s_fs_info demo_fs"
    "pool_balloc perf_fs = pool_balloc demo_fs" "fs_bsz perf_fs = fs_bsz demo_fs"
  by (simp_all add: perf_fs_def fs_bsz_def)

lemma perf_alloc_ok: "alloc_ok perf_fs demo_sbi" "geo_bounds perf_fs demo_sbi" "balloc_geometry perf_fs = Some (64, 64, 1)"
    "group_bitmap perf_fs 0 = group_bitmap demo_fs 0"
proof -
  note cong = fs_io_cong [OF perf_same(1-3)] ext4_read_block_cong [OF perf_same(1-3)]
  have gd: "gd_at perf_fs = gd_at demo_fs" by (simp add: gd_at_def fun_eq_iff perf_same cong split: option.splits)
  then have bm: "bm_blk perf_fs = bm_blk demo_fs" by (simp add: bm_blk_def fun_eq_iff)
  then have gb: "group_bitmap perf_fs = group_bitmap demo_fs" by (simp add: group_bitmap_def fun_eq_iff cong)
  then show "group_bitmap perf_fs 0 = group_bitmap demo_fs 0" by simp
  have "gd_blk perf_fs = gd_blk demo_fs" by (simp add: gd_blk_def fun_eq_iff perf_same)
  then show "alloc_ok perf_fs demo_sbi"
    using demo_alloc_ok [OF length_demo_bm(1)]
    by (simp add: alloc_ok_def alloc_core_def cache_clean_def gd_table_ok_def group_ok_def perf_same cong gd bm gb)
  show "geo_bounds perf_fs demo_sbi" using demo_geo_bounds [of demo_bm] by (simp add: geo_bounds_def perf_same)
  show "balloc_geometry perf_fs = Some (64, 64, 1)"
    by (simp add: perf_fs_def balloc_geometry_def demo_with_def demo_sbi_def ext4_get_block_size_def balloc_blocks_count_def
        balloc_clip_device_def ext4_get_blocks_count_def blkdev_nr_sectors_def ata_disk_bdev_def Let_def)
qed

lemma perf_alloc:
  "\<exists>b n s'. ext4_new_blocks_in_group perf_fs 32 0 = ((b, n), s') \<and> b \<noteq> 0 \<and> 0 < unat n \<and> unat n \<le> 32 \<and>
     unat b + unat n \<le> 64"
proof -
  obtain b n s' where r: "ext4_new_blocks_in_group perf_fs 32 0 = ((b, n), s')" by (metis surj_pair)
  have nz: "b \<noteq> 0"
  proof
    assume "b = 0"
    with new_blocks_spec(2) [OF perf_alloc_ok(1,2) r] perf_alloc_ok(3)
    have "group_full perf_fs 0 (blocks_of_group (64, 64, 1) 0)" by (auto simp: all_full_def)
    then show False using demo_free_bit
      by (simp add: group_full_def perf_alloc_ok(4) demo_group_bitmap blocks_of_group_def)
  qed
  from new_blocks_spec(1) [OF perf_alloc_ok(1,2) r nz] obtain g i where
    t: "run_taken perf_fs demo_sbi (64, 64, 1) g i b n s'" "unat n \<le> 32" "g < 1"
    by (auto simp: perf_alloc_ok(3))
  then have "0 < unat n" "unat b + unat n \<le> 64"
    by (auto simp: run_taken_def blocks_of_group_def word_less_1)
  with r nz t(2) show ?thesis by blast
qed


section \<open>A split that fails\<close>

text \<open>C34: When no block is left for the right half of a split leaf, ext4_extents_split_leaf fails after
  it has already cut the leaf in memory: no logical block from the separator on is mapped any more
  in the node it leaves behind.\<close>

theorem split_failure_drops_right_half:
  assumes "depth < length path" "leaf_split_ok (unat (ext4_get_block_size s)) (ep_node (path ! depth))"
    and "exts_ok (leaf_exts (ep_node (path ! depth)))" "ext_wf e"
    and "\<forall>x \<in> set (leaf_exts (ep_node (path ! depth))). ext_disjoint e x"
    and "extents_malloc (unat (ext4_get_block_size s)) s = (Some p, s1)" "ext4_new_block s1 = (0, s2)"
    and "split_leaf_nodes (unat (ext4_get_block_size s)) (ep_node (path ! depth)) e = (right, left, sep)"
  shows "ext4_extents_split_leaf s path depth n e = (None, set_node depth left path, extents_free p s2) \<and>
    (\<forall>l. ee_block sep \<le> l \<longrightarrow> ext4_extents_lookup_mapped (ep_node (set_node depth left path ! depth)) l = None)"
proof
  let ?leaf = "ep_node (path ! depth)"
  note S = split_leaf_nodes_spec [OF assms(2,8)]
  have "node_entries ?leaf = node_max ?leaf" "node_entries ?leaf \<noteq> 0" using assms(2) by (auto simp: leaf_split_ok_def)
  then show "ext4_extents_split_leaf s path depth n e = (None, set_node depth left path, extents_free p s2)"
    using assms(6-8) by (simp add: ext4_extents_split_leaf_def Let_def)
  have all: "exts_ok (leaf_exts left @ leaf_exts right)" using place_ok(1) [OF assms(3-5)] S by simp
  then have lo: "exts_ok (leaf_exts left)" by (simp add: exts_ok_append)
  have "\<not> ext_covers x l" if "ee_block sep \<le> l" "x \<in> set (leaf_exts left)" for x l
  proof -
    have "sep \<in> set (leaf_exts right)" using S by simp
    with all that(2) have "ext_end x \<le> ext_start sep" by (simp add: exts_ok_append)
    with that(1) show ?thesis by (simp add: ext_covers_def ext_start_def word_le_nat_alt)
  qed
  then have "exts_map (leaf_exts left) l = None" if "ee_block sep \<le> l" for l
    using that exts_map_None [of "leaf_exts left" l] by blast
  moreover have "ext4_extents_lookup_mapped left l = exts_map (leaf_exts left) l" for l
    by (rule lookup_mapped_spec [OF _ lo]) (use S in simp)
  ultimately show "\<forall>l. ee_block sep \<le> l \<longrightarrow> ext4_extents_lookup_mapped (ep_node (set_node depth left path ! depth)) l = None"
    using assms(1) by (simp add: set_node_def)
qed

lemma no_sbi_new_block: "s_fs_info s = None \<Longrightarrow> fst (ext4_new_block s) = 0"
  by (simp add: ext4_new_block_def ext4_new_blocks_def ext4_new_blocks_in_group_def balloc_geometry_def
      split: prod.splits)

theorem split_failure_drops_right_half_witness:
  "\<exists>path'. fst (snd (ext4_extents_split_leaf (demo_fs\<lparr>s_fs_info := None\<rparr>)
       [\<lparr>ep_node = demo_full_leaf, ep_blocknr = 0, ep_buf = None\<rparr>] 0 64 (demo_ext 15 2 90))) = path' \<and>
     ext4_extents_lookup_mapped demo_full_leaf 21 = Some 61 \<and>
     ext4_extents_lookup_mapped (ep_node (path' ! 0)) 21 = None"
proof -
  let ?s = "demo_fs\<lparr>s_fs_info := None\<rparr>" and ?path = "[\<lparr>ep_node = demo_full_leaf, ep_blocknr = 0, ep_buf = None\<rparr>]"
  have bs: "unat (ext4_get_block_size ?s) = 1024" by (simp add: ext4_get_block_size_def)
  obtain p s1 where m: "extents_malloc 1024 ?s = (Some p, s1)" "s_fs_info s1 = None"
    by (auto simp: extents_malloc_def simple_malloc_def demo_with_def numeral_eq_Suc)
  obtain s2 where n: "ext4_new_block s1 = (0, s2)" using no_sbi_new_block [OF m(2)] by (metis prod.collapse)
  obtain right left sep where sp: "split_leaf_nodes 1024 demo_full_leaf (demo_ext 15 2 90) = (right, left, sep)"
    by (metis prod_cases3)
  have sep: "ee_block sep \<le> 21"
  proof -
    have pos: "ext_insert_pos demo_full_leaf 15 4 = 2"
      using demo_full_leaf_facts ext_insert_pos.simps(2) [of demo_full_leaf 15 3]
        ext_insert_pos.simps(2) [of demo_full_leaf 15 2] ext_insert_pos.simps(2) [of demo_full_leaf 15 1]
      by (simp add: demo_ext_def numeral_2_eq_2 [symmetric] del: ext_insert_pos.simps)
    have "length (ext4_extents_init_node 1024 0 (replicate 1024 0)) = 1024" by simp
    then have "sep = ext_get demo_full_leaf 2"
      using sp demo_full_leaf_facts(1,2)
      by (simp add: split_leaf_nodes_def Let_def pos node_entries_def demo_ext_def upt_conv_Cons ext_get_put
          numeral_2_eq_2 [symmetric] numeral_3_eq_3 [symmetric])
    then show ?thesis by (simp add: demo_full_leaf_facts demo_ext_def)
  qed
  from split_failure_drops_right_half [of 0 ?path ?s "demo_ext 15 2 90" p s1 s2 right left sep 64, unfolded bs]
    demo_full_leaf_ok m n sp sep show ?thesis by simp
qed

end
