(* ===== verification/Inode_Disk.thy ===== *)
theory Inode_Disk
  imports Inode_State
begin

text \<open>
  Inodes on disk: struct ext4_inode of include/fs/ext4/ext4.h with its packed layout, and the
  functions of fs/ext4/super.c that locate, read and write an inode. The layout has 140 bytes:
  i_file_acl_high, i_uid_high and i_gid_high have 32 bits here.
\<close>

section \<open>The structure\<close>

text \<open>The 60 bytes of i_block[15] as one little-endian number.\<close>

type_synonym iblocks = "480 word"

definition dec480 :: "bytes \<Rightarrow> iblocks" where
  "dec480 bs = word_of_nat (nat_of_le bs)"

definition enc480 :: "iblocks \<Rightarrow> bytes" where
  "enc480 x = le_of_nat 60 (unat x)"

lemma length_enc480 [simp]: "length (enc480 x) = 60"
  by (simp add: enc480_def)

lemma dec480_enc480 [simp]: "dec480 (enc480 x) = x"
proof -
  have "unat x < 256 ^ 60" using unsigned_less [of x] by simp
  then show ?thesis by (simp add: dec480_def enc480_def nat_of_le_of_nat)
qed

lemma enc480_dec480: "length bs = 60 \<Longrightarrow> enc480 (dec480 bs) = bs"
  using nat_of_le_bound [of bs] le_of_nat_of_le [of bs]
  by (simp add: enc480_def dec480_def unat_of_nat)

record ext4_inode =
  raw_i_mode :: u16
  raw_i_uid :: u16
  raw_i_size_lo :: u32
  raw_i_atime :: u32
  raw_i_ctime :: u32
  raw_i_mtime :: u32
  raw_i_dtime :: u32
  raw_i_gid :: u16
  raw_i_links_count :: u16
  raw_i_blocks_lo :: u32
  raw_i_flags :: u32
  raw_i_osd1 :: u32
  raw_i_block :: iblocks
  raw_i_generation :: u32
  raw_i_file_acl_lo :: u32
  raw_i_size_high :: u32
  raw_i_obso_faddr :: u32
  raw_i_obso_osd2 :: u16
  raw_i_blocks_hi :: u16
  raw_i_file_acl_high :: u32
  raw_i_uid_high :: u32
  raw_i_gid_high :: u32
  raw_i_checksum_lo :: u32
  raw_i_reserved2 :: u32

definition raw_dec :: "bytes \<Rightarrow> ext4_inode" where
  "raw_dec bs =
     \<lparr>raw_i_mode = dec16 (bslice 0 2 bs),
      raw_i_uid = dec16 (bslice 2 2 bs),
      raw_i_size_lo = dec32 (bslice 4 4 bs),
      raw_i_atime = dec32 (bslice 8 4 bs),
      raw_i_ctime = dec32 (bslice 12 4 bs),
      raw_i_mtime = dec32 (bslice 16 4 bs),
      raw_i_dtime = dec32 (bslice 20 4 bs),
      raw_i_gid = dec16 (bslice 24 2 bs),
      raw_i_links_count = dec16 (bslice 26 2 bs),
      raw_i_blocks_lo = dec32 (bslice 28 4 bs),
      raw_i_flags = dec32 (bslice 32 4 bs),
      raw_i_osd1 = dec32 (bslice 36 4 bs),
      raw_i_block = dec480 (bslice 40 60 bs),
      raw_i_generation = dec32 (bslice 100 4 bs),
      raw_i_file_acl_lo = dec32 (bslice 104 4 bs),
      raw_i_size_high = dec32 (bslice 108 4 bs),
      raw_i_obso_faddr = dec32 (bslice 112 4 bs),
      raw_i_obso_osd2 = dec16 (bslice 116 2 bs),
      raw_i_blocks_hi = dec16 (bslice 118 2 bs),
      raw_i_file_acl_high = dec32 (bslice 120 4 bs),
      raw_i_uid_high = dec32 (bslice 124 4 bs),
      raw_i_gid_high = dec32 (bslice 128 4 bs),
      raw_i_checksum_lo = dec32 (bslice 132 4 bs),
      raw_i_reserved2 = dec32 (bslice 136 4 bs)\<rparr>"

definition raw_enc :: "ext4_inode \<Rightarrow> bytes" where
  "raw_enc r =
     enc16 (raw_i_mode r) @ enc16 (raw_i_uid r) @ enc32 (raw_i_size_lo r) @
     enc32 (raw_i_atime r) @ enc32 (raw_i_ctime r) @ enc32 (raw_i_mtime r) @
     enc32 (raw_i_dtime r) @ enc16 (raw_i_gid r) @ enc16 (raw_i_links_count r) @
     enc32 (raw_i_blocks_lo r) @ enc32 (raw_i_flags r) @ enc32 (raw_i_osd1 r) @
     enc480 (raw_i_block r) @ enc32 (raw_i_generation r) @ enc32 (raw_i_file_acl_lo r) @
     enc32 (raw_i_size_high r) @ enc32 (raw_i_obso_faddr r) @ enc16 (raw_i_obso_osd2 r) @
     enc16 (raw_i_blocks_hi r) @ enc32 (raw_i_file_acl_high r) @ enc32 (raw_i_uid_high r) @
     enc32 (raw_i_gid_high r) @ enc32 (raw_i_checksum_lo r) @ enc32 (raw_i_reserved2 r)"

lemma raw_enc_dec: "length bs = 140 \<Longrightarrow> raw_enc (raw_dec bs) = bs"
  by (simp add: raw_enc_def raw_dec_def enc_dec_raw enc480_dec480 layout_simps)

interpretation pk_raw: packed 140 raw_dec raw_enc
  by (rule packed.intro, simp add: raw_enc_def, simp add: raw_enc_def raw_dec_def layout_simps,
      erule raw_enc_dec)

section \<open>Place of an inode\<close>

abbreviation (input) EXT4_DISK_INODE_SIZE :: u32 where "EXT4_DISK_INODE_SIZE \<equiv> 256"

text \<open>Block and offset, and the state, which only the scratch buffer passes through.\<close>

definition ext4_get_inode_disk_loc :: "kfs \<Rightarrow> u32 \<Rightarrow> (u32 \<times> u32) option \<times> kfs" where
  "ext4_get_inode_disk_loc s ino =
     (case s_fs_info s of
        None \<Rightarrow> (None, s)
      | Some sbi \<Rightarrow>
          if s_group_desc sbi = None \<or> ino = 0 then (None, s)
          else if s_inodes_per_group sbi = 0 then (None, s)
          else let block_size = s_block_size sbi;
                   grp = (ino - 1) div s_inodes_per_group sbi;
                   index = (ino - 1) mod s_inodes_per_group sbi
            in if grp \<ge> s_groups_count sbi then (None, s)
               else case gd_loc sbi block_size grp of
                 None \<Rightarrow> (None, s)
               | Some (gd_block, gd_off, copy_sz) \<Rightarrow>
                   (case super_malloc (unat block_size) s of
                      (None, s1) \<Rightarrow> (None, s1)
                    | (Some p, s1) \<Rightarrow>
                        (case ext4_read_block s1 gd_block of
                           None \<Rightarrow> (None, super_free p s1)
                         | Some gd_buf \<Rightarrow>
                             let gd = gd_copy_out gd_buf gd_off copy_sz;
                                 inode_offset = index * EXT4_DISK_INODE_SIZE;
                                 inode_table_block = bg_inode_table_lo gd + inode_offset div block_size
                             in if inode_table_block \<ge> s_blocks_count sbi then (None, super_free p s1)
                                else (Some (inode_table_block, inode_offset mod block_size), super_free p s1))))"

section \<open>Conversion\<close>

definition ext4_fill_inode_info :: "ext4_inode \<Rightarrow> u32 \<Rightarrow> u32 \<Rightarrow> ext4_inode_info \<Rightarrow> ext4_inode_info" where
  "ext4_fill_inode_info raw ino inodes_per_group ei =
     ei\<lparr>i_block := enc480 (raw_i_block raw), ei_flags := raw_i_flags raw,
        i_alloc_group_hint := (if inodes_per_group = 0 then 0 else (ino - 1) div inodes_per_group)\<rparr>"

text \<open>i_blocks is an unsigned long of 32 bits: the assignment drops i_blocks_hi.\<close>

definition ext4_fill_inode :: "u32 \<Rightarrow> ext4_inode \<Rightarrow> u32 \<Rightarrow> inode \<Rightarrow> inode" where
  "ext4_fill_inode ino raw inodes_per_group node =
     node\<lparr>i_ino := ino, i_mode := raw_i_mode raw,
       i_size := ucast (raw_i_size_lo raw) OR push_bit 32 (ucast (raw_i_size_high raw)),
       i_blocks := ucast ((ucast (raw_i_blocks_lo raw) OR push_bit 32 (ucast (raw_i_blocks_hi raw))) :: u64),
       i_atime := ucast (raw_i_atime raw), i_mtime := ucast (raw_i_mtime raw), i_ctime := ucast (raw_i_ctime raw),
       i_uid := ucast (raw_i_uid raw) OR push_bit 16 (raw_i_uid_high raw),
       i_gid := ucast (raw_i_gid raw) OR push_bit 16 (raw_i_gid_high raw),
       i_nlink := ucast (raw_i_links_count raw),
       i_op := (if S_ISDIR (raw_i_mode raw) then Ext4_Dir_Ops else Ext4_File_Ops),
       i_private := map_option (ext4_fill_inode_info raw ino inodes_per_group) (i_private node)\<rparr>"

text \<open>The fields write_inode assigns; the others keep the value they have on disk.\<close>

definition raw_of_inode :: "inode \<Rightarrow> ext4_inode_info \<Rightarrow> ext4_inode \<Rightarrow> ext4_inode" where
  "raw_of_inode node ei raw =
     raw\<lparr>raw_i_mode := i_mode node,
       raw_i_size_lo := ucast (i_size node AND 0xffffffff), raw_i_size_high := ucast (drop_bit 32 (i_size node)),
       raw_i_blocks_lo := ucast (ucast (i_blocks node) AND (0xffffffff :: u64)),
       raw_i_blocks_hi := ucast (drop_bit 32 (ucast (i_blocks node) :: u64) AND 0xffff),
       raw_i_atime := ucast (i_atime node), raw_i_mtime := ucast (i_mtime node), raw_i_ctime := ucast (i_ctime node),
       raw_i_uid := ucast (i_uid node AND 0xffff), raw_i_uid_high := drop_bit 16 (i_uid node) AND 0xffff,
       raw_i_gid := ucast (i_gid node AND 0xffff), raw_i_gid_high := drop_bit 16 (i_gid node) AND 0xffff,
       raw_i_links_count := ucast (i_nlink node),
       raw_i_block := dec480 (i_block ei), raw_i_flags := ei_flags ei\<rparr>"

section \<open>Reading and writing an inode\<close>

text \<open>
  None is the null pointer that ext4_iget passes on when no inode object is left. A failed
  malloc makes ext4_read_block fail on its NULL buffer.
\<close>

definition ext4_iget :: "kfs \<Rightarrow> u32 \<Rightarrow> (inode option \<times> kfs) option" where
  "ext4_iget s ino =
     (case ext4_get_inode_disk_loc s ino of
        (None, s1) \<Rightarrow> Some (None, s1)
      | (Some (blk, off), s1) \<Rightarrow>
          (case s_fs_info s1 of
             None \<Rightarrow> None
           | Some sbi \<Rightarrow>
               (case super_malloc (unat (s_block_size sbi)) s1 of
                  (None, s2) \<Rightarrow> Some (None, s2)
                | (Some p, s2) \<Rightarrow>
                    (case ext4_read_block s2 blk of
                       None \<Rightarrow> Some (None, super_free p s2)
                     | Some buf \<Rightarrow>
                         (case ext4_alloc_inode s2 of
                            (None, s3) \<Rightarrow> None
                          | (Some node, s3) \<Rightarrow>
                              Some (Some (ext4_fill_inode ino (get_struct 140 raw_dec buf (unat off))
                                            (s_inodes_per_group sbi) node),
                                    super_free p s3))))))"

definition ext4_write_inode :: "kfs \<Rightarrow> inode \<Rightarrow> bool \<times> kfs" where
  "ext4_write_inode s node =
     (case s_fs_info s of
        None \<Rightarrow> (False, s)
      | Some sbi \<Rightarrow>
          if i_ino node = 0 then (False, s)
          else case ext4_get_inode_disk_loc s (i_ino node) of
            (None, s1) \<Rightarrow> (False, s1)
          | (Some (blk, off), s1) \<Rightarrow>
              (case super_malloc (unat (s_block_size sbi)) s1 of
                 (None, s2) \<Rightarrow> (False, s2)
               | (Some p, s2) \<Rightarrow>
                   (case ext4_read_block s2 blk of
                      None \<Rightarrow> (False, super_free p s2)
                    | Some buf \<Rightarrow>
                        (case i_private node of
                           None \<Rightarrow> (False, super_free p s2)
                         | Some ei \<Rightarrow>
                             let raw = raw_of_inode node ei (get_struct 140 raw_dec buf (unat off)) in
                             (case ext4_write_block s2 blk (put_struct raw_enc buf (unat off) raw) of
                                (ok, s3) \<Rightarrow> (ok, super_free p s3))))))"

end
