(* ===== verification/Dir_Map.thy ===== *)
theory Dir_Map
  imports Extents Inode_Disk "HOL-Library.Monad_Syntax"
begin

text \<open>
  The blocks of a directory, fs/ext4/dir.c: logical block to physical block through the extent
  tree, the twelve direct pointers or the single indirect block, and the growth of that map.
  The result type is an option where the code may reach an undefined operation: None is the
  dereference or the division that ext4_free_block performs on a superblock without geometry.
\<close>

section \<open>Effects shared by the files that call the block allocator\<close>

text \<open>(void)ext4_free_block(sb, blocknr)\<close>

definition free_block_void :: "u32 \<Rightarrow> kfs \<Rightarrow> kfs option" where
  "free_block_void blocknr s = map_option snd (ext4_free_block s blocknr)"

text \<open>An array of little-endian words in a buffer: ents[i] and its assignment.\<close>

definition ents_get :: "bytes \<Rightarrow> nat \<Rightarrow> u32" where
  "ents_get buf i = get32 buf (4 * i)"

definition ents_put :: "nat \<Rightarrow> u32 \<Rightarrow> bytes \<Rightarrow> bytes" where
  "ents_put i x buf = put32 buf (4 * i) x"

text \<open>ei->i_block[k] = b in the private part of an inode.\<close>

definition inode_set_iblock :: "nat \<Rightarrow> u32 \<Rightarrow> inode \<Rightarrow> inode" where
  "inode_set_iblock k b node = node\<lparr>i_private := map_option (set_iblock k b) (i_private node)\<rparr>"

definition zero_block :: "u32 \<Rightarrow> bytes" where
  "zero_block block_size = replicate (unat block_size) 0"

section \<open>Reading the map\<close>

definition ext4_dir_get_blocknr :: "kfs \<Rightarrow> inode \<Rightarrow> u32 \<Rightarrow> u32 option \<times> kfs" where
  "ext4_dir_get_blocknr s dir lblock =
     (case i_private dir of
        None \<Rightarrow> (None, s)
      | Some ei \<Rightarrow>
          if ei_flags ei AND EXT4_INODE_FLAG_EXTENTS \<noteq> 0
          then (case ext4_extents_get_block s dir lblock False of
                  (r, _, s1) \<Rightarrow>
                    (case r of None \<Rightarrow> (None, s1)
                     | Some (phys, _) \<Rightarrow> (if phys = 0 then None else Some phys, s1)))
          else if lblock < 12
          then (if get_iblock ei (unat lblock) = 0 then None else Some (get_iblock ei (unat lblock)), s)
          else let idx = lblock - 12; block_size = ext4_get_block_size s; iblk = get_iblock ei 12 in
            if block_size = 0 \<or> block_size AND 3 \<noteq> 0 then (None, s)
            else if idx \<ge> block_size div 4 then (None, s)
            else if iblk = 0 then (None, s)
            else case dir_malloc (unat block_size) s of
              (None, s1) \<Rightarrow> (None, s1)
            | (Some p, s1) \<Rightarrow>
                (case ext4_read_block s1 iblk of
                   None \<Rightarrow> (None, dir_free p s1)
                 | Some ibuf \<Rightarrow>
                     let phys = ents_get ibuf (unat idx) in
                     (if phys = 0 then None else Some phys, dir_free p s1)))"

section \<open>Growing the map\<close>

text \<open>
  Success, the inode and the state. The pointer to a fresh indirect block is stored before the
  block is written; a failed write leaves it behind.
\<close>

definition ext4_dir_set_blocknr :: "kfs \<Rightarrow> inode \<Rightarrow> u32 \<Rightarrow> u32 \<Rightarrow> (bool \<times> inode \<times> kfs) option" where
  "ext4_dir_set_blocknr s dir lblock phys =
     (let block_size = ext4_get_block_size s; idx = lblock - 12;
          store = (\<lambda>ibuf iblk p dir s1.
            (case ext4_write_block s1 iblk (ents_put (unat idx) phys ibuf) of
               (ok, s2) \<Rightarrow> Some (ok, dir, dir_free p s2)))
      in case i_private dir of
           None \<Rightarrow> Some (False, dir, s)
         | Some ei \<Rightarrow>
             if phys = 0 then Some (False, dir, s)
             else if lblock < 12 then Some (True, inode_set_iblock (unat lblock) phys dir, s)
             else if ei_flags ei AND EXT4_INODE_FLAG_EXTENTS \<noteq> 0 then Some (False, dir, s)
             else if block_size = 0 \<or> block_size AND 3 \<noteq> 0 then Some (False, dir, s)
             else if idx \<ge> block_size div 4 then Some (False, dir, s)
             else if get_iblock ei 12 = 0
             then (case ext4_new_block s of
                     (iblk, s1) \<Rightarrow>
                       if iblk = 0 then Some (False, dir, s1)
                       else (case dir_malloc (unat block_size) s1 of
                               (None, s2) \<Rightarrow> do { s3 \<leftarrow> free_block_void iblk s2;
                                                  Some (False, inode_set_iblock 12 0 dir, s3) }
                             | (Some p, s2) \<Rightarrow>
                                 store (zero_block block_size) iblk p
                                   ((inode_set_iblock 12 iblk dir)
                                      \<lparr>i_blocks := i_blocks dir + block_size div 512\<rparr>) s2))
             else (case dir_malloc (unat block_size) s of
                     (None, s1) \<Rightarrow> Some (False, dir, s1)
                   | (Some p, s1) \<Rightarrow>
                       (case ext4_read_block s1 (get_iblock ei 12) of
                          None \<Rightarrow> Some (False, dir, dir_free p s1)
                        | Some ibuf \<Rightarrow> store ibuf (get_iblock ei 12) p dir s1)))"

end
