(* ===== verification/Htree.thy ===== *)
theory Htree
  imports Dir_Map
begin

text \<open>
  Hashed directories, fs/ext4/htree.c: the name hash, parsing of the root and of an index node,
  the choice of a leaf, insertion into a leaf, and the split of a full leaf. Buffers are byte
  lists and structures in them are read and written at byte offsets; a name is the list of its
  bytes. Reads beyond the end of a buffer, undefined in C, give short slices here.
\<close>

section \<open>The name hash\<close>

fun dx_hack_loop :: "(u8 \<Rightarrow> u32) \<Rightarrow> bytes \<Rightarrow> u32 \<Rightarrow> u32 \<Rightarrow> u32" where
  "dx_hack_loop conv [] hash0 hash1 = hash0"
| "dx_hack_loop conv (c # cs) hash0 hash1 =
     (let h = hash1 + (hash0 XOR (conv c * 7152373));
          h' = (if h AND 0x80000000 \<noteq> 0 then h - 0x7fffffff else h)
      in dx_hack_loop conv cs h' hash0)"

definition dx_hack_hash_signed :: "bytes \<Rightarrow> u32" where
  "dx_hack_hash_signed name = push_bit 1 (dx_hack_loop scast name 0x12a3fe2d 0x37abe8f9)"

definition dx_hack_hash_unsigned :: "bytes \<Rightarrow> u32" where
  "dx_hack_hash_unsigned name = push_bit 1 (dx_hack_loop ucast name 0x12a3fe2d 0x37abe8f9)"

definition ext4_htree_name_hash32 :: "kfs \<Rightarrow> bytes \<Rightarrow> u32" where
  "ext4_htree_name_hash32 s name =
     (let ver = (case s_fs_info s of None \<Rightarrow> EXT4_DX_HASH_LEGACY | Some sbi \<Rightarrow> s_def_hash_version sbi);
          hash = (if ver = EXT4_DX_HASH_LEGACY_UNSIGNED then dx_hack_hash_unsigned name
                  else dx_hack_hash_signed name);
          hash = hash AND NOT 1
      in if hash = 0xffffffff then 0xfffffffe else hash)"

section \<open>The block map, with the buffers of this file\<close>

definition htree_dir_get_blocknr :: "kfs \<Rightarrow> inode \<Rightarrow> u32 \<Rightarrow> u32 option \<times> kfs" where
  "htree_dir_get_blocknr s dir lblock =
     (case i_private dir of
        None \<Rightarrow> (None, s)
      | Some ei \<Rightarrow>
          if ei_flags ei AND EXT4_INODE_FLAG_EXTENTS \<noteq> 0
          then (case ext4_extents_get_block s dir lblock False of
                  (r, _, s1) \<Rightarrow>
                    (case r of None \<Rightarrow> (None, s1)
                     | Some (phys, _) \<Rightarrow> (if phys = 0 then None else Some phys, s1)))
          else if lblock < 12
          then (if get_iblock ei (unat lblock) = 0 then None else Some (get_iblock ei (unat lblock)), s)
          else let idx = lblock - 12; block_size = ext4_get_block_size s; iblk = get_iblock ei 12 in
            if block_size = 0 \<or> block_size AND 3 \<noteq> 0 then (None, s)
            else if idx \<ge> block_size div 4 then (None, s)
            else if iblk = 0 then (None, s)
            else case htree_malloc (unat block_size) s of
              (None, s1) \<Rightarrow> (None, s1)
            | (Some p, s1) \<Rightarrow>
                (case ext4_read_block s1 iblk of
                   None \<Rightarrow> (None, htree_free p s1)
                 | Some ibuf \<Rightarrow>
                     let phys = ents_get ibuf (unat idx) in
                     (if phys = 0 then None else Some phys, htree_free p s1)))"

section \<open>Index blocks\<close>

definition de_get :: "bytes \<Rightarrow> nat \<Rightarrow> ext4_dir_entry" where
  "de_get buf off = get_struct 8 de_dec buf off"

definition de_put :: "nat \<Rightarrow> ext4_dir_entry \<Rightarrow> bytes \<Rightarrow> bytes" where
  "de_put off de buf = put_struct de_enc buf off de"

text \<open>The first n name bytes of the entry at off, and memcpy of a name into it.\<close>

definition de_name :: "bytes \<Rightarrow> nat \<Rightarrow> nat \<Rightarrow> bytes" where
  "de_name buf off n = bslice (off + 8) n buf"

definition de_put_name :: "nat \<Rightarrow> bytes \<Rightarrow> bytes \<Rightarrow> bytes" where
  "de_put_name off name buf = bsplice (off + 8) name buf"

definition dx_get :: "bytes \<Rightarrow> nat \<Rightarrow> nat \<Rightarrow> ext4_dx_entry" where
  "dx_get buf base i = get_struct 8 dx_dec buf (base + 8 * i)"

definition dx_cl_get :: "bytes \<Rightarrow> nat \<Rightarrow> ext4_dx_countlimit" where
  "dx_cl_get buf base = get_struct 4 dx_cl_dec buf base"

definition dx_set_hash :: "nat \<Rightarrow> nat \<Rightarrow> u32 \<Rightarrow> bytes \<Rightarrow> bytes" where
  "dx_set_hash base i h buf = put32 buf (base + 8 * i) h"

definition dx_set_block :: "nat \<Rightarrow> nat \<Rightarrow> u32 \<Rightarrow> bytes \<Rightarrow> bytes" where
  "dx_set_block base i b buf = put32 buf (base + 8 * i + 4) b"

definition dx_set_count :: "nat \<Rightarrow> nat \<Rightarrow> bytes \<Rightarrow> bytes" where
  "dx_set_count base n buf = put16 buf (base + 2) (of_nat n)"

text \<open>Offsets of the root info and of the entries, capacity and count.\<close>

definition ext4_htree_parse_root :: "bytes \<Rightarrow> u32 \<Rightarrow> (nat \<times> nat \<times> nat \<times> nat) option" where
  "ext4_htree_parse_root root block_size =
     (let r1 = unat (de_rec_len (de_get root 0));
          dotdot = de_get root r1;
          r2 = unat (de_rec_len dotdot);
          dotdot_min = EXT4_DIR_REC_LEN (unat (de_name_len dotdot));
          dotdot_end = r1 + r2;
          info = r1 + dotdot_min;
          entries = info + 8;
          cl = dx_cl_get root entries;
          cap = unat (dx_limit cl);
          nent = unat (dx_count cl)
      in if r1 = 0 \<or> r2 = 0 then None
         else if r1 + r2 > unat block_size then None
         else if r2 < dotdot_min then None
         else if info + 8 > dotdot_end then None
         else if entries + 8 > dotdot_end then None
         else if cap < 1 \<or> nent < 1 \<or> nent > cap then None
         else if entries + 8 * cap > dotdot_end then None
         else if dxi_info_length (get_struct 8 dx_info_dec root info) \<noteq> 8 then None
         else Some (info, entries, cap, nent))"

text \<open>struct ext4_dx_node: a fake entry of 8 bytes, a root info of 8 bytes, then the entries.\<close>

abbreviation (input) dx_node_base :: nat where "dx_node_base \<equiv> 16"

definition ext4_htree_parse_node :: "bytes \<Rightarrow> u32 \<Rightarrow> (nat \<times> nat \<times> nat) option" where
  "ext4_htree_parse_node node block_size =
     (let cl = dx_cl_get node dx_node_base; cap = unat (dx_limit cl); nent = unat (dx_count cl)
      in if cap < 1 \<or> nent < 1 \<or> nent > cap then None
         else if dx_node_base + 8 * cap > unat block_size then None
         else Some (dx_node_base, cap, nent))"

fun dx_pick :: "bytes \<Rightarrow> nat \<Rightarrow> u32 \<Rightarrow> nat list \<Rightarrow> u32 \<Rightarrow> u32" where
  "dx_pick buf base h32 [] chosen = chosen"
| "dx_pick buf base h32 (i # is) chosen =
     (if h32 < dx_hash (dx_get buf base i) then chosen
      else dx_pick buf base h32 is (dx_block (dx_get buf base i)))"

definition ext4_htree_pick_leaf_lblock :: "bytes \<Rightarrow> nat \<Rightarrow> nat \<Rightarrow> u32 \<Rightarrow> u32" where
  "ext4_htree_pick_leaf_lblock buf base n h32 =
     (if n = 0 then 0 else dx_pick buf base h32 [1..<n] (dx_block (dx_get buf base 0)))"

definition ext4_htree_find_dx_index_for_lblock :: "bytes \<Rightarrow> nat \<Rightarrow> nat \<Rightarrow> u32 \<Rightarrow> nat option" where
  "ext4_htree_find_dx_index_for_lblock buf base n lblk =
     find (\<lambda>i. dx_block (dx_get buf base i) = lblk) [0..<n]"

section \<open>Mapping of new directory blocks\<close>

text \<open>The logical block that was taken, the directory and the state.\<close>

definition ext4_htree_alloc_lblock ::
  "kfs \<Rightarrow> inode \<Rightarrow> u32 \<Rightarrow> nat \<Rightarrow> (nat option \<times> inode \<times> kfs) option" where
  "ext4_htree_alloc_lblock s dir phys start_lblk =
     (case i_private dir of
        None \<Rightarrow> Some (None, dir, s)
      | Some ei \<Rightarrow>
          if phys = 0 then Some (None, dir, s)
          else case find (\<lambda>j. get_iblock ei j = 0) [start_lblk..<12] of
            Some j \<Rightarrow> Some (Some j, inode_set_iblock j phys dir, s)
          | None \<Rightarrow>
              let block_size = ext4_get_block_size s;
                  idx_start = start_lblk - 12;
                  scan = (\<lambda>ibuf iblk p dir s1.
                    (case find (\<lambda>i. ents_get ibuf i = 0) [idx_start..<unat (block_size div 4)] of
                       None \<Rightarrow> Some (None, dir, htree_free p s1)
                     | Some i \<Rightarrow>
                         (case ext4_write_block s1 iblk (ents_put i phys ibuf) of
                            (ok, s2) \<Rightarrow> Some (if ok then Some (i + 12) else None, dir, htree_free p s2))))
              in if block_size = 0 \<or> block_size AND 3 \<noteq> 0 then Some (None, dir, s)
                 else if idx_start \<ge> unat (block_size div 4) then Some (None, dir, s)
                 else if get_iblock ei 12 = 0
                 then (case ext4_new_block s of
                         (iblk, s1) \<Rightarrow>
                           if iblk = 0 then Some (None, dir, s1)
                           else (case htree_malloc (unat block_size) s1 of
                                   (None, s2) \<Rightarrow> do { s3 \<leftarrow> free_block_void iblk s2;
                                                      Some (None, inode_set_iblock 12 0 dir, s3) }
                                 | (Some p, s2) \<Rightarrow>
                                     scan (zero_block block_size) iblk p (inode_set_iblock 12 iblk dir) s2))
                 else (case htree_malloc (unat block_size) s of
                         (None, s1) \<Rightarrow> Some (None, dir, s1)
                       | (Some p, s1) \<Rightarrow>
                           (case ext4_read_block s1 (get_iblock ei 12) of
                              None \<Rightarrow> Some (None, dir, htree_free p s1)
                            | Some ibuf \<Rightarrow> scan ibuf (get_iblock ei 12) p dir s1)))"

definition ext4_htree_unmap_lblock :: "kfs \<Rightarrow> inode \<Rightarrow> nat \<Rightarrow> bool \<times> inode \<times> kfs" where
  "ext4_htree_unmap_lblock s dir lblk =
     (case i_private dir of
        None \<Rightarrow> (False, dir, s)
      | Some ei \<Rightarrow>
          if lblk < 12 then (True, inode_set_iblock lblk 0 dir, s)
          else let block_size = ext4_get_block_size s; idx = lblk - 12 in
            if block_size = 0 \<or> block_size AND 3 \<noteq> 0 then (False, dir, s)
            else if idx \<ge> unat (block_size div 4) then (False, dir, s)
            else if get_iblock ei 12 = 0 then (False, dir, s)
            else case htree_malloc (unat block_size) s of
              (None, s1) \<Rightarrow> (False, dir, s1)
            | (Some p, s1) \<Rightarrow>
                (case ext4_read_block s1 (get_iblock ei 12) of
                   None \<Rightarrow> (False, dir, htree_free p s1)
                 | Some ibuf \<Rightarrow>
                     (case ext4_write_block s1 (get_iblock ei 12) (ents_put idx 0 ibuf) of
                        (ok, s2) \<Rightarrow> (ok, dir, htree_free p s2))))"

definition ext4_htree_pick_leaf_from_root ::
  "kfs \<Rightarrow> inode \<Rightarrow> u32 \<Rightarrow> bytes \<Rightarrow> u32 \<Rightarrow> u32 option \<times> kfs" where
  "ext4_htree_pick_leaf_from_root s dir block_size root_buf h32 =
     (case ext4_htree_parse_root root_buf block_size of
        None \<Rightarrow> (None, s)
      | Some (info, entries, cap, nent) \<Rightarrow>
          let levels = dxi_indirect_levels (get_struct 8 dx_info_dec root_buf info);
              next_lblk = ext4_htree_pick_leaf_lblock root_buf entries nent h32
          in if levels = 0 then (Some next_lblk, s)
             else if levels \<noteq> 1 then (None, s)
             else case htree_dir_get_blocknr s dir next_lblk of
               (None, s1) \<Rightarrow> (None, s1)
             | (Some next_phys, s1) \<Rightarrow>
                 (case htree_malloc (unat block_size) s1 of
                    (None, s2) \<Rightarrow> (None, s2)
                  | (Some p, s2) \<Rightarrow>
                      (case ext4_read_block s2 next_phys of
                         None \<Rightarrow> (None, htree_free p s2)
                       | Some node \<Rightarrow>
                           (case ext4_htree_parse_node node block_size of
                              None \<Rightarrow> (None, htree_free p s2)
                            | Some (nbase, ncap, ncnt) \<Rightarrow>
                                (Some (ext4_htree_pick_leaf_lblock node nbase ncnt h32), htree_free p s2)))))"

end
