(* ===== verification/Htree_Leaf.thy ===== *)
theory Htree_Leaf
  imports Htree
begin

text \<open>
  Leaves of hashed directories, fs/ext4/htree.c: insertion into a leaf, collecting, sorting and
  packing of entries, and ext4_htree_split_leaf, which divides a full leaf in two and enters the
  new one into the index.
\<close>

section \<open>Insertion into a leaf\<close>

text \<open>
  The leaf with the entry and the entry's offset. An existing entry that has room keeps the
  first need_rec bytes of its record and the new entry gets the rest; need_rec is the size of
  the new entry.
\<close>

definition htree_insert_here :: "bytes \<Rightarrow> nat \<Rightarrow> bytes \<Rightarrow> u32 \<Rightarrow> nat \<Rightarrow> bytes \<times> nat" where
  "htree_insert_here leaf off name ino need_rec =
     (let de = de_get leaf off; old_rec = de_rec_len de in
      if de_inode de \<noteq> 0 \<and> unat old_rec > need_rec
      then (let off' = off + need_rec;
                leaf1 = de_put off (de\<lparr>de_rec_len := of_nat need_rec\<rparr>) leaf
            in (de_put_name off' name
                  (de_put off' \<lparr>de_inode = ino, de_rec_len = old_rec - of_nat need_rec,
                     de_name_len = of_nat (length name), de_file_type = 0\<rparr> leaf1), off'))
      else (de_put_name off name
              (de_put off \<lparr>de_inode = ino, de_rec_len = old_rec,
                 de_name_len = of_nat (length name), de_file_type = 0\<rparr> leaf), off))"

text \<open>Stepping over a record that is not empty comes closer to the end of the block.\<close>

lemma rec_step:
  "(r :: u16) \<noteq> 0 \<Longrightarrow> off \<le> b \<Longrightarrow> Suc b - (off + unat r) < Suc b - off"
  "(r :: u16) \<noteq> 0 \<Longrightarrow> off < b \<Longrightarrow> b - (off + unat r) < b - off"
  using unat_gt_0 [of r] by linarith+

function htree_insert_scan :: "bytes \<Rightarrow> nat \<Rightarrow> bytes \<Rightarrow> u32 \<Rightarrow> nat \<Rightarrow> nat \<Rightarrow> (bytes \<times> nat) option" where
  "htree_insert_scan leaf block_size name ino need_rec off =
     (if off + need_rec > block_size then None
      else let de = de_get leaf off;
               used = (if de_name_len de = 0 then 0 else EXT4_DIR_REC_LEN (unat (de_name_len de)))
        in if de_rec_len de = 0 then None
           else if de_inode de = 0 \<or> de_rec_len de \<ge> of_nat (need_rec + used)
           then Some (htree_insert_here leaf off name ino need_rec)
           else htree_insert_scan leaf block_size name ino need_rec (off + unat (de_rec_len de)))"
  by pat_completeness auto
termination
  by (relation "measure (\<lambda>(leaf, block_size, name, ino, need_rec, off). Suc block_size - off)")
    (auto intro!: rec_step)

declare htree_insert_scan.simps [simp del]

definition ext4_htree_try_insert_leaf :: "bytes \<Rightarrow> u32 \<Rightarrow> bytes \<Rightarrow> u32 \<Rightarrow> u16 \<Rightarrow> (bytes \<times> nat) option" where
  "ext4_htree_try_insert_leaf leaf block_size name ino need_rec =
     htree_insert_scan leaf (unat block_size) name ino (unat need_rec) 0"

section \<open>Entries of a leaf\<close>

record htree_leaf_item =
  hi_hash :: u32
  hi_ino :: u32
  hi_name :: bytes

abbreviation (input) EXT4_HTREE_SPLIT_MAX_NAMES :: nat where "EXT4_HTREE_SPLIT_MAX_NAMES \<equiv> 512"

function htree_collect :: "kfs \<Rightarrow> bytes \<Rightarrow> nat \<Rightarrow> nat \<Rightarrow> htree_leaf_item list \<Rightarrow> htree_leaf_item list option" where
  "htree_collect s leaf block_size off items =
     (if off \<ge> block_size then Some items
      else let de = de_get leaf off; nl = unat (de_name_len de); name = de_name leaf off nl in
        if de_rec_len de = 0 then None
        else if de_inode de \<noteq> 0 \<and> nl > 0
        then if length items \<ge> EXT4_HTREE_SPLIT_MAX_NAMES then None
             else htree_collect s leaf block_size (off + unat (de_rec_len de))
                    (items @ [\<lparr>hi_hash = ext4_htree_name_hash32 s name, hi_ino = de_inode de, hi_name = name\<rparr>])
        else htree_collect s leaf block_size (off + unat (de_rec_len de)) items)"
  by pat_completeness auto
termination
  by (relation "measure (\<lambda>(s, leaf, block_size, off, items). block_size - off)")
    (auto intro!: rec_step)

declare htree_collect.simps [simp del]

definition ext4_htree_leaf_collect :: "kfs \<Rightarrow> bytes \<Rightarrow> u32 \<Rightarrow> htree_leaf_item list option" where
  "ext4_htree_leaf_collect s leaf block_size = htree_collect s leaf (unat block_size) 0 []"

text \<open>The two loops of the exchange sort.\<close>

definition item_exchange :: "nat \<Rightarrow> htree_leaf_item list \<Rightarrow> nat \<Rightarrow> htree_leaf_item list" where
  "item_exchange i items j =
     (if hi_hash (items ! i) > hi_hash (items ! j) then items[i := items ! j, j := items ! i] else items)"

definition ext4_htree_sort_items :: "htree_leaf_item list \<Rightarrow> htree_leaf_item list" where
  "ext4_htree_sort_items items =
     (let n = length items in
      foldl (\<lambda>xs i. foldl (item_exchange i) xs [Suc i..<n]) items [0..<n - 1])"

text \<open>The leaf and the position behind the packed entries.\<close>

definition pack_one :: "bytes \<times> nat \<Rightarrow> htree_leaf_item \<Rightarrow> bytes \<times> nat" where
  "pack_one st it =
     (case st of (leaf, pos) \<Rightarrow>
        let rl = EXT4_DIR_REC_LEN (length (hi_name it)) in
        (de_put_name pos (hi_name it)
           (de_put pos \<lparr>de_inode = hi_ino it, de_rec_len = of_nat rl,
              de_name_len = of_nat (length (hi_name it)), de_file_type = 0\<rparr> leaf),
         pos + rl))"

definition ext4_htree_pack_leaf :: "u32 \<Rightarrow> htree_leaf_item list \<Rightarrow> bytes" where
  "ext4_htree_pack_leaf block_size items =
     (case foldl pack_one (zero_block block_size, 0) items of
        (leaf, pos) \<Rightarrow>
          if pos < unat block_size
          then de_put pos \<lparr>de_inode = 0, de_rec_len = of_nat (unat block_size - pos),
                 de_name_len = 0, de_file_type = 0\<rparr> leaf
          else leaf)"

section \<open>Size of the directory\<close>

definition highest_used :: "(nat \<Rightarrow> u32) \<Rightarrow> nat list \<Rightarrow> nat \<Rightarrow> nat" where
  "highest_used f is cnt = foldl (\<lambda>c i. if f i \<noteq> 0 then Suc i else c) cnt is"

definition ext4_htree_refresh_dir_inode_size :: "kfs \<Rightarrow> inode \<Rightarrow> u32 \<Rightarrow> inode \<times> kfs" where
  "ext4_htree_refresh_dir_inode_size s dir block_size =
     (case i_private dir of
        None \<Rightarrow> (dir, s)
      | Some ei \<Rightarrow>
          let cnt0 = highest_used (get_iblock ei) [0..<12] 0; iblk = get_iblock ei 12;
              finish = (\<lambda>cnt. dir\<lparr>i_size := ucast block_size * of_nat cnt,
                i_blocks := (block_size div 512) * of_nat cnt + (if iblk \<noteq> 0 then block_size div 512 else 0)\<rparr>)
          in if iblk = 0 then (finish cnt0, s)
             else case htree_malloc (unat block_size) s of
               (None, s1) \<Rightarrow> (finish cnt0, s1)
             | (Some p, s1) \<Rightarrow>
                 (case ext4_read_block s1 iblk of
                    None \<Rightarrow> (finish cnt0, htree_free p s1)
                  | Some ibuf \<Rightarrow>
                      let cnt = foldl (\<lambda>c i. if ents_get ibuf i \<noteq> 0 then 12 + i + 1 else c) cnt0
                                  [0..<unat (block_size div 4)]
                      in (finish cnt, htree_free p s1)))"

section \<open>Splitting a leaf\<close>

text \<open>
  The index block that names the leaf: the root, or the node below it when there is one level of
  nodes. dt_pool is the buffer of the node, None for the root, which belongs to the caller.
\<close>

record dx_target =
  dt_buf :: bytes
  dt_base :: nat
  dt_cap :: nat
  dt_nent :: nat
  dt_phys :: u32
  dt_pool :: "nat option"

definition dt_free :: "dx_target \<Rightarrow> kfs \<Rightarrow> kfs" where
  "dt_free t s = (case dt_pool t of None \<Rightarrow> s | Some p \<Rightarrow> htree_free p s)"

definition split_target ::
  "kfs \<Rightarrow> inode \<Rightarrow> u32 \<Rightarrow> bytes \<Rightarrow> u32 \<Rightarrow> bytes \<Rightarrow> (nat \<times> nat \<times> nat \<times> nat) \<Rightarrow> dx_target option \<times> kfs" where
  "split_target s dir block_size root_buf root_phys name root =
     (case root of (info, entries, cap, nent) \<Rightarrow>
        if dxi_indirect_levels (get_struct 8 dx_info_dec root_buf info) \<noteq> 1
        then (Some \<lparr>dt_buf = root_buf, dt_base = entries, dt_cap = cap, dt_nent = nent,
                dt_phys = root_phys, dt_pool = None\<rparr>, s)
        else case htree_dir_get_blocknr s dir
               (ext4_htree_pick_leaf_lblock root_buf entries nent (ext4_htree_name_hash32 s name)) of
          (None, s1) \<Rightarrow> (None, s1)
        | (Some node_phys, s1) \<Rightarrow>
            (case htree_malloc (unat block_size) s1 of
               (None, s2) \<Rightarrow> (None, s2)
             | (Some p, s2) \<Rightarrow>
                 (case ext4_read_block s2 node_phys of
                    None \<Rightarrow> (None, htree_free p s2)
                  | Some node \<Rightarrow>
                      (case ext4_htree_parse_node node block_size of
                         None \<Rightarrow> (None, htree_free p s2)
                       | Some (nbase, ncap, ncnt) \<Rightarrow>
                           (Some \<lparr>dt_buf = node, dt_base = nbase, dt_cap = ncap, dt_nent = ncnt,
                              dt_phys = node_phys, dt_pool = Some p\<rparr>, s2)))))"

text \<open>Entry idx + 1 of an index with n entries becomes (h, lblk), the later ones move up.\<close>

definition dx_insert_after :: "bytes \<Rightarrow> nat \<Rightarrow> nat \<Rightarrow> nat \<Rightarrow> u32 \<Rightarrow> nat \<Rightarrow> bytes" where
  "dx_insert_after buf base n idx h lblk =
     (let buf1 = (if idx + 1 < n
                  then bsplice (base + 8 * (idx + 2)) (bslice (base + 8 * (idx + 1)) (8 * (n - idx - 1)) buf) buf
                  else buf)
      in dx_set_block base (idx + 1) (of_nat lblk) (dx_set_hash base (idx + 1) h buf1))"

text \<open>
  The node that takes over the entries of a full root. All of them are copied, entry 0 with its
  hash, whose place in both blocks is the count and limit.
\<close>

definition dx_grow_node :: "u32 \<Rightarrow> bytes \<Rightarrow> nat \<Rightarrow> nat \<Rightarrow> nat \<Rightarrow> nat \<Rightarrow> u32 \<Rightarrow> nat \<Rightarrow> bytes" where
  "dx_grow_node block_size root info entries nent idx h lblk =
     (let node0 = de_put 0 \<lparr>de_inode = 0, de_rec_len = ucast block_size, de_name_len = 0, de_file_type = 0\<rparr>
                    (zero_block block_size);
          node1 = put_struct dx_info_enc node0 8
                    \<lparr>dxi_reserved_zero = 0,
                     dxi_hash_version = dxi_hash_version (get_struct 8 dx_info_dec root info),
                     dxi_info_length = 8, dxi_indirect_levels = 0, dxi_unused_flags = 0\<rparr>;
          node2 = put_struct dx_cl_enc node1 dx_node_base
                    \<lparr>dx_limit = of_nat ((unat block_size - 20) div 8), dx_count = of_nat (nent + 1)\<rparr>;
          node3 = bsplice dx_node_base (bslice entries (8 * nent) root) node2
      in dx_insert_after node3 dx_node_base nent idx h lblk)"

definition dx_grow_root :: "bytes \<Rightarrow> nat \<Rightarrow> nat \<Rightarrow> nat \<Rightarrow> bytes" where
  "dx_grow_root root info entries node_lblk =
     (let root1 = dx_set_block entries 0 (of_nat node_lblk) (dx_set_count entries 1 root);
          di = get_struct 8 dx_info_dec root1 info
      in put_struct dx_info_enc root1 info (di\<lparr>dxi_indirect_levels := 1\<rparr>))"

text \<open>A full root with no level of nodes: the new node takes its entries.\<close>

definition split_grow_root ::
  "kfs \<Rightarrow> inode \<Rightarrow> u32 \<Rightarrow> dx_target \<Rightarrow> nat \<Rightarrow> nat \<Rightarrow> u32 \<Rightarrow> nat \<Rightarrow> (bool \<times> inode \<times> kfs) option" where
  "split_grow_root s dir block_size t info idx h new_lblk =
     (case htree_malloc (unat block_size) s of
        (None, s1) \<Rightarrow> Some (False, dir, s1)
      | (Some p, s1) \<Rightarrow>
          (case ext4_new_block s1 of
             (node_phys, s2) \<Rightarrow>
               if node_phys = 0 then Some (False, dir, htree_free p s2)
               else do {
                 (r, dir1, s3) \<leftarrow> ext4_htree_alloc_lblock s2 dir node_phys 1;
                 case r of
                   None \<Rightarrow> do { s4 \<leftarrow> free_block_void node_phys s3; Some (False, dir1, htree_free p s4) }
                 | Some node_lblk \<Rightarrow>
                     (case ext4_write_block s3 node_phys
                             (dx_grow_node block_size (dt_buf t) info (dt_base t) (dt_nent t) idx h new_lblk) of
                        (False, s4) \<Rightarrow> Some (False, dir1, htree_free p s4)
                      | (True, s4) \<Rightarrow>
                          (case ext4_write_block (htree_free p s4) (dt_phys t)
                                  (dx_grow_root (dt_buf t) info (dt_base t) node_lblk) of
                             (ok, s5) \<Rightarrow> Some (ok, dir1, s5)))
               }))"

text \<open>The new leaf enters the index, with the hash of its first entry.\<close>

definition split_enter ::
  "kfs \<Rightarrow> inode \<Rightarrow> u32 \<Rightarrow> dx_target \<Rightarrow> nat \<Rightarrow> u8 \<Rightarrow> nat \<Rightarrow> u32 \<Rightarrow> nat \<Rightarrow> (bool \<times> inode \<times> kfs) option" where
  "split_enter s dir block_size t info levels idx h new_lblk =
     (if dt_nent t + 1 > dt_cap t
      then if dt_pool t = None \<and> levels = 0
           then split_grow_root s dir block_size t info idx h new_lblk
           else Some (False, dir, dt_free t s)
      else case ext4_write_block s (dt_phys t)
                  (dx_set_count (dt_base t) (dt_nent t + 1)
                     (dx_insert_after (dt_buf t) (dt_base t) (dt_nent t) idx h new_lblk)) of
             (ok, s1) \<Rightarrow> Some (ok, dir, dt_free t s1))"

text \<open>The sorted entries of the leaf with the new one.\<close>

definition split_items :: "kfs \<Rightarrow> bytes \<Rightarrow> u32 \<Rightarrow> bytes \<Rightarrow> u32 \<Rightarrow> htree_leaf_item list option" where
  "split_items s leaf block_size name ino =
     (case ext4_htree_leaf_collect s leaf block_size of
        None \<Rightarrow> None
      | Some items \<Rightarrow>
          if length items \<ge> EXT4_HTREE_SPLIT_MAX_NAMES then None
          else Some (ext4_htree_sort_items
                 (items @ [\<lparr>hi_hash = ext4_htree_name_hash32 s name, hi_ino = ino, hi_name = name\<rparr>])))"

text \<open>
  Both halves on disk: the old leaf is overwritten with the lower half before the block of the
  upper half is allocated. The logical block of the new leaf.
\<close>

definition split_write_halves ::
  "kfs \<Rightarrow> inode \<Rightarrow> u32 \<Rightarrow> u32 \<Rightarrow> htree_leaf_item list \<Rightarrow> nat \<Rightarrow> (nat option \<times> inode \<times> kfs) option" where
  "split_write_halves s dir block_size leaf_phys items mid =
     (case ext4_write_block s leaf_phys (ext4_htree_pack_leaf block_size (take mid items)) of
        (False, s1) \<Rightarrow> Some (None, dir, s1)
      | (True, s1) \<Rightarrow>
          (case ext4_new_block s1 of
             (new_phys, s2) \<Rightarrow>
               if new_phys = 0 then Some (None, dir, s2)
               else do {
                 (r, dir1, s3) \<leftarrow> ext4_htree_alloc_lblock s2 dir new_phys 1;
                 case r of
                   None \<Rightarrow> do { s4 \<leftarrow> free_block_void new_phys s3; Some (None, dir1, s4) }
                 | Some new_lblk \<Rightarrow>
                     (case ext4_write_block s3 new_phys (ext4_htree_pack_leaf block_size (drop mid items)) of
                        (True, s4) \<Rightarrow> Some (Some new_lblk, dir1, s4)
                      | (False, s4) \<Rightarrow>
                          (case ext4_htree_unmap_lblock s4 dir1 new_lblk of
                             (_, dir2, s5) \<Rightarrow> do { s6 \<leftarrow> free_block_void new_phys s5; Some (None, dir2, s6) }))
               }))"

definition ext4_htree_split_leaf ::
  "kfs \<Rightarrow> inode \<Rightarrow> u32 \<Rightarrow> bytes \<Rightarrow> u32 \<Rightarrow> u32 \<Rightarrow> bytes \<Rightarrow> u32 \<Rightarrow> (bool \<times> inode \<times> kfs) option" where
  "ext4_htree_split_leaf s dir block_size root_buf root_phys leaf_lblk name ino =
     (case ext4_htree_parse_root root_buf block_size of
        None \<Rightarrow> Some (False, dir, s)
      | Some root \<Rightarrow>
          let info = fst root; levels = dxi_indirect_levels (get_struct 8 dx_info_dec root_buf info) in
          (case split_target s dir block_size root_buf root_phys name root of
             (None, s1) \<Rightarrow> Some (False, dir, s1)
           | (Some t, s1) \<Rightarrow>
               (case ext4_htree_find_dx_index_for_lblock (dt_buf t) (dt_base t) (dt_nent t) leaf_lblk of
                  None \<Rightarrow> Some (False, dir, dt_free t s1)
                | Some idx \<Rightarrow>
                    (case htree_dir_get_blocknr s1 dir leaf_lblk of
                       (None, s2) \<Rightarrow> Some (False, dir, dt_free t s2)
                     | (Some leaf_phys, s2) \<Rightarrow>
                         (case htree_malloc (unat block_size) s2 of
                            (None, s3) \<Rightarrow> Some (False, dir, dt_free t s3)
                          | (Some p, s3) \<Rightarrow>
                              let give_up = (\<lambda>dir s. Some (False, dir, htree_free p (dt_free t s))) in
                              (case ext4_read_block s3 leaf_phys of
                                 None \<Rightarrow> give_up dir s3
                               | Some leaf_buf \<Rightarrow>
                                   (case split_items s3 leaf_buf block_size name ino of
                                      None \<Rightarrow> give_up dir s3
                                    | Some items \<Rightarrow>
                                        let mid = length items div 2 in
                                        if mid < 1 \<or> mid \<ge> length items then give_up dir s3
                                        else do {
                                          (r, dir1, s4) \<leftarrow> split_write_halves s3 dir block_size leaf_phys items mid;
                                          case r of
                                            None \<Rightarrow> give_up dir1 s4
                                          | Some new_lblk \<Rightarrow> do {
                                              (ok, dir2, s5) \<leftarrow> split_enter (htree_free p s4) dir1 block_size t
                                                 info levels idx (hi_hash (items ! mid)) new_lblk;
                                              if \<not> ok then Some (False, dir2, s5)
                                              else case ext4_htree_refresh_dir_inode_size s5 dir2 block_size of
                                                (dir3, s6) \<Rightarrow> Some (True, dir3, snd (ext4_write_inode s6 dir3))
                                            }
                                        })))))))"

end
