(* ===== verification/Dir.thy ===== *)
theory Dir
  imports Htree_Leaf
begin

text \<open>
  Directories, fs/ext4/dir.c: lookup, insertion and removal of entries, iteration over them, and
  the conversion of a linear directory into a hashed one. The loops over the entries of one
  block are functions of the block; the loops over the blocks pass the state. The in-memory
  index of the file is switched off in the source: its lookup always fails and it is left out.
\<close>

section \<open>One block\<close>

definition de_matches :: "bytes \<Rightarrow> nat \<Rightarrow> bytes \<Rightarrow> bool" where
  "de_matches buf off name \<longleftrightarrow>
     (let de = de_get buf off in
      de_inode de \<noteq> 0 \<and> unat (de_name_len de) = length name \<and> de_name buf off (length name) = name)"

text \<open>Result of a search: a corrupt record, nothing, or the offset and the inode number.\<close>

datatype 'a scan_result = Scan_Bad | Scan_None | Scan_Hit 'a

function find_in_block :: "bytes \<Rightarrow> nat \<Rightarrow> bytes \<Rightarrow> nat \<Rightarrow> (nat \<times> u32) scan_result" where
  "find_in_block buf block_size name off =
     (if off \<ge> block_size then Scan_None
      else let de = de_get buf off in
        if de_rec_len de = 0 then Scan_Bad
        else if de_matches buf off name then Scan_Hit (off, de_inode de)
        else find_in_block buf block_size name (off + unat (de_rec_len de)))"
  by pat_completeness auto
termination
  by (relation "measure (\<lambda>(buf, block_size, name, off). block_size - off)") (auto intro!: rec_step)

declare find_in_block.simps [simp del]

text \<open>
  Insertion into the first record with room: it keeps the length it needs, the rest becomes the
  new entry; a record without inode is taken over.
\<close>

definition add_here :: "bytes \<Rightarrow> nat \<Rightarrow> nat \<Rightarrow> bytes \<Rightarrow> u32 \<Rightarrow> bytes" where
  "add_here buf off used_len name ino =
     (let de = de_get buf off; old_rec = de_rec_len de;
          nde = \<lparr>de_inode = ino, de_rec_len = old_rec, de_name_len = of_nat (length name), de_file_type = 0\<rparr>
      in if de_inode de \<noteq> 0
         then let off' = off + used_len in
           de_put_name off' name
             (de_put off' (nde\<lparr>de_rec_len := old_rec - of_nat used_len\<rparr>)
               (de_put off (de\<lparr>de_rec_len := of_nat used_len\<rparr>) buf))
         else de_put_name off name (de_put off nde buf))"

function add_in_block :: "bytes \<Rightarrow> nat \<Rightarrow> bytes \<Rightarrow> u32 \<Rightarrow> nat \<Rightarrow> nat \<Rightarrow> bytes scan_result" where
  "add_in_block buf block_size name ino rec_len off =
     (if off + rec_len > block_size then Scan_None
      else let de = de_get buf off; d_rec = de_rec_len de;
               used_len = (if de_inode de \<noteq> 0 then EXT4_DIR_REC_LEN (unat (de_name_len de)) else 0)
        in if d_rec = 0 \<or> d_rec AND 3 \<noteq> 0 \<or> off + unat d_rec > block_size then Scan_Bad
           else if used_len > unat d_rec then Scan_Bad
           else if d_rec \<ge> of_nat (used_len + rec_len) then Scan_Hit (add_here buf off used_len name ino)
           else add_in_block buf block_size name ino rec_len (off + unat d_rec))"
  by pat_completeness auto
termination
  by (relation "measure (\<lambda>(buf, block_size, name, ino, rec_len, off). Suc block_size - off)")
    (auto intro!: rec_step)

declare add_in_block.simps [simp del]

text \<open>
  Removal: the record is joined to the one before it; the first record of a block only loses
  its inode. prev is the offset of the record before, None at the start of the block.
\<close>

definition remove_here :: "bytes \<Rightarrow> nat \<Rightarrow> nat option \<Rightarrow> bytes" where
  "remove_here buf off prev =
     (let de = de_get buf off in
      case prev of
        None \<Rightarrow> de_put off (de\<lparr>de_inode := 0, de_name_len := 0, de_file_type := 0\<rparr>) buf
      | Some prev_off \<Rightarrow>
          let pde = de_get buf prev_off in
          de_put prev_off (pde\<lparr>de_rec_len := de_rec_len pde + de_rec_len de\<rparr>) buf)"

text \<open>The length of the name is compared after a cast to 16 bits; only the removal has no limit of 255 before it.\<close>

definition remove_matches :: "bytes \<Rightarrow> nat \<Rightarrow> bytes \<Rightarrow> bool" where
  "remove_matches buf off name \<longleftrightarrow>
     (let de = de_get buf off; nl = unat (de_name_len de) in
      de_inode de \<noteq> 0 \<and> nl = length name mod 2 ^ 16 \<and> de_name buf off nl = take nl name)"

function remove_in_block :: "bytes \<Rightarrow> nat \<Rightarrow> bytes \<Rightarrow> nat \<Rightarrow> nat option \<Rightarrow> bytes scan_result" where
  "remove_in_block buf block_size name off prev =
     (if off \<ge> block_size then Scan_None
      else let de = de_get buf off in
        if de_rec_len de = 0 then Scan_Bad
        else if remove_matches buf off name then Scan_Hit (remove_here buf off prev)
        else remove_in_block buf block_size name (off + unat (de_rec_len de)) (Some off))"
  by pat_completeness auto
termination
  by (relation "measure (\<lambda>(buf, block_size, name, off, prev). block_size - off)") (auto intro!: rec_step)

declare remove_in_block.simps [simp del]

text \<open>
  Iteration with a callback, which sees the name and the inode number and says whether to stop.
  Scan_Hit carries the context and the stop flag.
\<close>

function foreach_in_block ::
  "('c \<Rightarrow> bytes \<Rightarrow> u32 \<Rightarrow> 'c \<times> bool) \<Rightarrow> bytes \<Rightarrow> nat \<Rightarrow> nat \<Rightarrow> 'c \<Rightarrow> 'c \<times> bool scan_result" where
  "foreach_in_block filldir buf block_size off ctx =
     (if off \<ge> block_size then (ctx, Scan_None)
      else let de = de_get buf off; nl = unat (de_name_len de) in
        if de_rec_len de = 0 then (ctx, Scan_Bad)
        else if de_inode de \<noteq> 0 \<and> nl > 0
        then (case filldir ctx (de_name buf off nl) (de_inode de) of
                (ctx', stop) \<Rightarrow>
                  if stop then (ctx', Scan_Hit True)
                  else foreach_in_block filldir buf block_size (off + unat (de_rec_len de)) ctx')
        else foreach_in_block filldir buf block_size (off + unat (de_rec_len de)) ctx)"
  by pat_completeness auto
termination
  by (relation "measure (\<lambda>(filldir, buf, block_size, off, ctx). block_size - off)") (auto intro!: rec_step)

declare foreach_in_block.simps [simp del]

section \<open>Loops over the blocks\<close>

text \<open>
  blk_idx is a uint32_t and the loop ends at the first block the directory does not map. The
  outer None is the case that no block is missing: the counter wraps around and the loop never
  ends.
\<close>

function find_blocks :: "kfs \<Rightarrow> inode \<Rightarrow> bytes \<Rightarrow> nat \<Rightarrow> ((u32 \<times> u32 \<times> nat) option \<times> kfs) option" where
  "find_blocks s dir name blk_idx =
     (if blk_idx \<ge> 2 ^ 32 then None
      else case ext4_dir_get_blocknr s dir (of_nat blk_idx) of
        (None, s1) \<Rightarrow> Some (None, s1)
      | (Some blocknr, s1) \<Rightarrow>
          (case ext4_read_block s1 blocknr of
             None \<Rightarrow> Some (None, s1)
           | Some buf \<Rightarrow>
               (case find_in_block buf (unat (ext4_get_block_size s)) name 0 of
                  Scan_Bad \<Rightarrow> Some (None, s1)
                | Scan_Hit (off, ino) \<Rightarrow> Some (Some (ino, blocknr, off), s1)
                | Scan_None \<Rightarrow> find_blocks s1 dir name (Suc blk_idx))))"
  by pat_completeness auto
termination
  by (relation "measure (\<lambda>(s, dir, name, blk_idx). 2 ^ 32 - blk_idx)") auto

declare find_blocks.simps [simp del]

function remove_blocks :: "kfs \<Rightarrow> inode \<Rightarrow> bytes \<Rightarrow> nat \<Rightarrow> (bool \<times> kfs) option" where
  "remove_blocks s dir name blk_idx =
     (if blk_idx \<ge> 2 ^ 32 then None
      else case ext4_dir_get_blocknr s dir (of_nat blk_idx) of
        (None, s1) \<Rightarrow> Some (False, s1)
      | (Some blocknr, s1) \<Rightarrow>
          (case ext4_read_block s1 blocknr of
             None \<Rightarrow> Some (False, s1)
           | Some buf \<Rightarrow>
               (case remove_in_block buf (unat (ext4_get_block_size s)) name 0 None of
                  Scan_Bad \<Rightarrow> Some (False, s1)
                | Scan_Hit buf' \<Rightarrow> Some (ext4_write_block s1 blocknr buf')
                | Scan_None \<Rightarrow> remove_blocks s1 dir name (Suc blk_idx))))"
  by pat_completeness auto
termination
  by (relation "measure (\<lambda>(s, dir, name, blk_idx). 2 ^ 32 - blk_idx)") auto

declare remove_blocks.simps [simp del]

function foreach_blocks ::
  "('c \<Rightarrow> bytes \<Rightarrow> u32 \<Rightarrow> 'c \<times> bool) \<Rightarrow> kfs \<Rightarrow> inode \<Rightarrow> nat \<Rightarrow> 'c \<Rightarrow> (bool \<times> 'c \<times> kfs) option" where
  "foreach_blocks filldir s dir blk_idx ctx =
     (if blk_idx \<ge> 2 ^ 32 then None
      else case ext4_dir_get_blocknr s dir (of_nat blk_idx) of
        (None, s1) \<Rightarrow> Some (True, ctx, s1)
      | (Some blocknr, s1) \<Rightarrow>
          (case ext4_read_block s1 blocknr of
             None \<Rightarrow> Some (False, ctx, s1)
           | Some buf \<Rightarrow>
               (case foreach_in_block filldir buf (unat (ext4_get_block_size s)) 0 ctx of
                  (ctx', r) \<Rightarrow>
                    (case r of
                       Scan_Bad \<Rightarrow> Some (False, ctx', s1)
                     | Scan_Hit _ \<Rightarrow> Some (True, ctx', s1)
                     | Scan_None \<Rightarrow> foreach_blocks filldir s1 dir (Suc blk_idx) ctx'))))"
  by pat_completeness auto
termination
  by (relation "measure (\<lambda>(filldir, s, dir, blk_idx, ctx). 2 ^ 32 - blk_idx)") auto

declare foreach_blocks.simps [simp del]

section \<open>Lookup, removal and iteration\<close>

text \<open>The search through the index: None to fall back to the linear scan.\<close>

definition find_in_leaf :: "kfs \<Rightarrow> u32 \<Rightarrow> u32 \<Rightarrow> bytes \<Rightarrow> (u32 \<times> u32 \<times> nat) option option \<times> kfs" where
  "find_in_leaf s block_size leaf_phys name =
     (case dir_malloc (unat block_size) s of
        (None, s1) \<Rightarrow> (Some None, s1)
      | (Some q, s1) \<Rightarrow>
          (case ext4_read_block s1 leaf_phys of
             None \<Rightarrow> (None, dir_free q s1)
           | Some buf \<Rightarrow>
               (case find_in_block buf (unat block_size) name 0 of
                  Scan_Hit (off, ino) \<Rightarrow> (Some (Some (ino, leaf_phys, off)), dir_free q s1)
                | _ \<Rightarrow> (None, dir_free q s1))))"

definition find_indexed :: "kfs \<Rightarrow> inode \<Rightarrow> bytes \<Rightarrow> (u32 \<times> u32 \<times> nat) option option \<times> kfs" where
  "find_indexed s dir name =
     (let block_size = ext4_get_block_size s in
      case dir_malloc (unat block_size) s of
        (None, s1) \<Rightarrow> (Some None, s1)
      | (Some p, s1) \<Rightarrow>
          (case ext4_dir_get_blocknr s1 dir 0 of
             (None, s2) \<Rightarrow> (None, dir_free p s2)
           | (Some root_phys, s2) \<Rightarrow>
               (case ext4_read_block s2 root_phys of
                  None \<Rightarrow> (None, dir_free p s2)
                | Some buf_root \<Rightarrow>
                    (case ext4_htree_pick_leaf_from_root s2 dir block_size buf_root
                            (ext4_htree_name_hash32 s2 name) of
                       (None, s3) \<Rightarrow> (None, dir_free p s3)
                     | (Some leaf_lblk, s3) \<Rightarrow>
                         (case ext4_dir_get_blocknr s3 dir leaf_lblk of
                            (None, s4) \<Rightarrow> (None, dir_free p s4)
                          | (Some leaf_phys, s4) \<Rightarrow> find_in_leaf (dir_free p s4) block_size leaf_phys name)))))"

definition ext4_find_entry :: "kfs \<Rightarrow> inode \<Rightarrow> bytes \<Rightarrow> ((u32 \<times> u32 \<times> nat) option \<times> kfs) option" where
  "ext4_find_entry s dir name =
     (case i_private dir of
        None \<Rightarrow> Some (None, s)
      | Some ei \<Rightarrow>
          if length name = 0 \<or> length name > 255 then Some (None, s)
          else case (if ei_flags ei AND EXT4_INODE_FLAG_INDEX \<noteq> 0 then find_indexed s dir name else (None, s)) of
            (Some r, s1) \<Rightarrow> Some (r, s1)
          | (None, s1) \<Rightarrow>
              (case dir_malloc (unat (ext4_get_block_size s)) s1 of
                 (None, s2) \<Rightarrow> Some (None, s2)
               | (Some p, s2) \<Rightarrow> do { (r, s3) \<leftarrow> find_blocks s2 dir name 0; Some (r, dir_free p s3) }))"

definition ext4_remove_entry :: "kfs \<Rightarrow> inode \<Rightarrow> bytes \<Rightarrow> (bool \<times> kfs) option" where
  "ext4_remove_entry s dir name =
     (if i_private dir = None \<or> length name = 0 then Some (False, s)
      else case dir_malloc (unat (ext4_get_block_size s)) s of
        (None, s1) \<Rightarrow> Some (False, s1)
      | (Some p, s1) \<Rightarrow> do { (r, s2) \<leftarrow> remove_blocks s1 dir name 0; Some (r, dir_free p s2) })"

definition ext4_dir_foreach ::
  "('c \<Rightarrow> bytes \<Rightarrow> u32 \<Rightarrow> 'c \<times> bool) \<Rightarrow> kfs \<Rightarrow> inode \<Rightarrow> 'c \<Rightarrow> (bool \<times> 'c \<times> kfs) option" where
  "ext4_dir_foreach filldir s dir ctx =
     (if i_private dir = None then Some (False, ctx, s)
      else case dir_malloc (unat (ext4_get_block_size s)) s of
        (None, s1) \<Rightarrow> Some (False, ctx, s1)
      | (Some p, s1) \<Rightarrow>
          do { (r, ctx', s2) \<leftarrow> foreach_blocks filldir s1 dir 0 ctx; Some (r, ctx', dir_free p s2) })"

end
