(* ===== verification/Dir_Block.thy ===== *)
theory Dir_Block
  imports Dir
begin

text \<open>
  What a directory block means: the records of a well-formed block tile it, and the live ones
  are an association list from names to inode numbers. The lemmas relate the byte-level search,
  insertion, removal and iteration of Dir to that list.
\<close>

section \<open>Records of a block\<close>

definition rec_of :: "bytes \<Rightarrow> nat \<Rightarrow> nat" where
  "rec_of buf off = unat (de_rec_len (de_get buf off))"

definition name_len_of :: "bytes \<Rightarrow> nat \<Rightarrow> nat" where
  "name_len_of buf off = unat (de_name_len (de_get buf off))"

definition live :: "bytes \<Rightarrow> nat \<Rightarrow> bool" where
  "live buf off \<longleftrightarrow> de_inode (de_get buf off) \<noteq> 0 \<and> name_len_of buf off > 0"

definition dirent_at :: "bytes \<Rightarrow> nat \<Rightarrow> bytes \<times> u32" where
  "dirent_at buf off = (de_name buf off (name_len_of buf off), de_inode (de_get buf off))"

definition dirents :: "bytes \<Rightarrow> nat list \<Rightarrow> (bytes \<times> u32) list" where
  "dirents buf offs = map (dirent_at buf) (filter (live buf) offs)"

definition rec_ok :: "bytes \<Rightarrow> nat \<Rightarrow> bool" where
  "rec_ok buf off \<longleftrightarrow>
     8 \<le> rec_of buf off \<and> rec_of buf off mod 4 = 0 \<and> off + rec_of buf off \<le> length buf \<and>
     (de_inode (de_get buf off) \<noteq> 0 \<longrightarrow> EXT4_DIR_REC_LEN (name_len_of buf off) \<le> rec_of buf off)"

text \<open>The records at the offsets offs follow one another from off to fin.\<close>

fun tiles :: "bytes \<Rightarrow> nat \<Rightarrow> nat list \<Rightarrow> nat \<Rightarrow> bool" where
  "tiles buf off [] fin \<longleftrightarrow> off = fin"
| "tiles buf off (p # ps) fin \<longleftrightarrow> p = off \<and> rec_ok buf off \<and> tiles buf (off + rec_of buf off) ps fin"

function rec_offs :: "bytes \<Rightarrow> nat \<Rightarrow> nat list" where
  "rec_offs buf off =
     (if off \<ge> length buf \<or> de_rec_len (de_get buf off) = 0 then []
      else off # rec_offs buf (off + rec_of buf off))"
  by pat_completeness auto
termination
  by (relation "measure (\<lambda>(buf, off). length buf - off)") (auto simp: rec_of_def intro!: rec_step)

declare rec_offs.simps [simp del]

definition dir_block_ok :: "bytes \<Rightarrow> bool" where
  "dir_block_ok buf \<longleftrightarrow> length buf < 2 ^ 16 \<and> tiles buf 0 (rec_offs buf 0) (length buf)"

definition dir_view :: "bytes \<Rightarrow> (bytes \<times> u32) list" where
  "dir_view buf = dirents buf (rec_offs buf 0)"

lemma rec_ok_pos: "rec_ok buf off \<Longrightarrow> de_rec_len (de_get buf off) \<noteq> 0"
  by (auto simp: rec_ok_def rec_of_def)

lemma tiles_le: "tiles buf off ps fin \<Longrightarrow> off \<le> fin"
  by (induction ps arbitrary: off) (auto dest!: add_leD1)

lemma tiles_offs: "tiles buf off ps (length buf) \<Longrightarrow> rec_offs buf off = ps"
proof (induction ps arbitrary: off)
  case Nil
  then show ?case by (simp add: rec_offs.simps)
next
  case (Cons p ps)
  then have r: "rec_ok buf off" by simp
  then have "off < length buf" by (auto simp: rec_ok_def)
  with Cons rec_ok_pos [OF r] show ?case by (simp add: rec_offs.simps [of buf off])
qed

lemma block_okI:
  "tiles buf 0 ps (length buf) \<Longrightarrow> length buf < 2 ^ 16 \<Longrightarrow> dir_block_ok buf \<and> dir_view buf = dirents buf ps"
  using tiles_offs [of buf 0 ps] by (simp add: dir_block_ok_def dir_view_def)

lemma tiles_append:
  "tiles buf off (ps @ qs) fin \<longleftrightarrow> (\<exists>m. tiles buf off ps m \<and> tiles buf m qs fin)"
  by (induction ps arbitrary: off) auto

lemma dirents_simps [simp]:
  "dirents buf [] = []"
  "dirents buf (p # ps) = (if live buf p then dirent_at buf p # dirents buf ps else dirents buf ps)"
  "dirents buf (ps @ qs) = dirents buf ps @ dirents buf qs"
  by (simp_all add: dirents_def)

section \<open>Locality\<close>

text \<open>Two buffers with the same bytes in a range have the same records there.\<close>

definition agree :: "bytes \<Rightarrow> bytes \<Rightarrow> nat \<Rightarrow> nat \<Rightarrow> bool" where
  "agree buf buf' a b \<longleftrightarrow> length buf' = length buf \<and> b \<le> length buf \<and> (\<forall>i. a \<le> i \<and> i < b \<longrightarrow> buf' ! i = buf ! i)"

lemma agree_slice:
  "agree buf buf' a b \<Longrightarrow> a \<le> off \<Longrightarrow> off + n \<le> b \<Longrightarrow> bslice off n buf' = bslice off n buf"
  by (rule nth_equalityI) (auto simp: agree_def nth_bslice)

lemma agree_sub: "agree buf buf' a b \<Longrightarrow> a \<le> a' \<Longrightarrow> b' \<le> b \<Longrightarrow> agree buf buf' a' b'"
  by (auto simp: agree_def)

lemma agree_de:
  assumes "agree buf buf' a b" "a \<le> off" "off + 8 \<le> b"
  shows "de_get buf' off = de_get buf off" "rec_of buf' off = rec_of buf off"
    "name_len_of buf' off = name_len_of buf off" "live buf' off = live buf off"
  using assms by (simp_all add: de_get_def get_struct_def agree_slice rec_of_def name_len_of_def live_def)

lemma rec_ok_name:
  "rec_ok buf off \<Longrightarrow> live buf off \<Longrightarrow> off + 8 + name_len_of buf off \<le> off + rec_of buf off"
  using rec_len_bounds(1) [of "name_len_of buf off"] by (auto simp: rec_ok_def live_def)

lemma agree_rec:
  assumes ag: "agree buf buf' off b" and r: "rec_ok buf off" and b: "off + rec_of buf off \<le> b"
  shows "rec_ok buf' off" "live buf off \<Longrightarrow> dirent_at buf' off = dirent_at buf off"
proof -
  have h: "off + 8 \<le> b" using r b by (auto simp: rec_ok_def)
  note de = agree_de [OF ag order_refl h]
  show "rec_ok buf' off" using r ag by (simp add: rec_ok_def de agree_def)
  show "dirent_at buf' off = dirent_at buf off" if "live buf off"
    using rec_ok_name [OF r that] b
    by (simp add: dirent_at_def de de_name_def agree_slice [OF ag])
qed

lemma tiles_agree:
  "tiles buf off ps fin \<Longrightarrow> agree buf buf' off fin \<Longrightarrow>
   tiles buf' off ps fin \<and> dirents buf' ps = dirents buf ps"
proof (induction ps arbitrary: off)
  case (Cons p ps)
  let ?m = "off + rec_of buf off"
  from Cons.prems have p: "p = off" and r: "rec_ok buf off" and t: "tiles buf ?m ps fin" by simp_all
  have m: "?m \<le> fin" by (rule tiles_le [OF t])
  have h: "off + 8 \<le> fin" using r m by (auto simp: rec_ok_def)
  note de = agree_de [OF Cons.prems(2) order_refl h]
  note ar = agree_rec [OF Cons.prems(2) r m]
  have "agree buf buf' ?m fin" by (rule agree_sub [OF Cons.prems(2)]) simp_all
  from Cons.IH [OF t this] show ?case using p ar de by simp
qed simp

section \<open>Search\<close>

lemma matches_dirent:
  assumes "name \<noteq> []" "rec_ok buf off"
  shows "de_matches buf off name \<longleftrightarrow> live buf off \<and> fst (dirent_at buf off) = name"
proof (cases "live buf off")
  case True
  with rec_ok_name [OF assms(2) True] assms(2)
  have "length (de_name buf off (name_len_of buf off)) = name_len_of buf off"
    by (auto simp: de_name_def rec_ok_def)
  with True assms(1) show ?thesis
    by (auto simp: de_matches_def live_def dirent_at_def name_len_of_def Let_def)
next
  case False
  with assms(1) show ?thesis by (auto simp: de_matches_def live_def name_len_of_def Let_def)
qed

lemma find_tiles:
  assumes "name \<noteq> []"
  shows "tiles buf off ps (length buf) \<Longrightarrow>
    (case find_in_block buf (length buf) name off of
       Scan_Bad \<Rightarrow> False
     | Scan_None \<Rightarrow> map_of (dirents buf ps) name = None
     | Scan_Hit (q, ino) \<Rightarrow> map_of (dirents buf ps) name = Some ino \<and> q \<in> set ps \<and> de_matches buf q name)"
proof (induction ps arbitrary: off)
  case Nil
  then show ?case by (simp add: find_in_block.simps)
next
  case (Cons p ps)
  then have p: "p = off" and r: "rec_ok buf off" and t: "tiles buf (off + rec_of buf off) ps (length buf)"
    by simp_all
  have lt: "\<not> off \<ge> length buf" using r by (auto simp: rec_ok_def)
  show ?case
  proof (cases "de_matches buf off name")
    case True
    then show ?thesis using p lt rec_ok_pos [OF r] matches_dirent [OF assms r]
      by (simp add: find_in_block.simps [of buf _ _ off] Let_def) (simp add: dirent_at_def)
  next
    case False
    with matches_dirent [OF assms r]
    have "map_of (dirents buf (off # ps)) name = map_of (dirents buf ps) name"
      by (cases "dirent_at buf off") auto
    then show ?thesis using Cons.IH [OF t] False p lt rec_ok_pos [OF r]
      by (auto simp: find_in_block.simps [of buf _ _ off] Let_def rec_of_def
          split: scan_result.splits prod.splits)
  qed
qed

lemma find_block_spec:
  assumes "dir_block_ok buf" "name \<noteq> []"
  shows "case find_in_block buf (length buf) name 0 of
       Scan_Bad \<Rightarrow> False
     | Scan_None \<Rightarrow> map_of (dir_view buf) name = None
     | Scan_Hit (q, ino) \<Rightarrow> map_of (dir_view buf) name = Some ino"
  using find_tiles [OF assms(2), of buf 0 "rec_offs buf 0"] assms(1)
  by (auto simp: dir_block_ok_def dir_view_def split: scan_result.splits)

section \<open>Iteration\<close>

fun visit :: "('c \<Rightarrow> bytes \<Rightarrow> u32 \<Rightarrow> 'c \<times> bool) \<Rightarrow> (bytes \<times> u32) list \<Rightarrow> 'c \<Rightarrow> 'c \<times> bool" where
  "visit f [] ctx = (ctx, False)"
| "visit f ((name, ino) # es) ctx =
     (case f ctx name ino of (ctx', stop) \<Rightarrow> if stop then (ctx', True) else visit f es ctx')"

lemma foreach_tiles:
  "tiles buf off ps (length buf) \<Longrightarrow>
   foreach_in_block f buf (length buf) off ctx =
     (case visit f (dirents buf ps) ctx of (ctx', stop) \<Rightarrow> (ctx', if stop then Scan_Hit True else Scan_None))"
proof (induction ps arbitrary: off ctx)
  case Nil
  then show ?case by (simp add: foreach_in_block.simps)
next
  case (Cons p ps)
  then have p: "p = off" and r: "rec_ok buf off" and t: "tiles buf (off + rec_of buf off) ps (length buf)"
    by simp_all
  have lt: "\<not> off \<ge> length buf" using r by (auto simp: rec_ok_def)
  show ?case using Cons.IH [OF t] p lt rec_ok_pos [OF r]
    by (simp add: foreach_in_block.simps [of f buf _ off] Let_def live_def rec_of_def dirent_at_def
        name_len_of_def split: prod.splits)
qed

lemma foreach_block_spec:
  "dir_block_ok buf \<Longrightarrow>
   foreach_in_block f buf (length buf) 0 ctx =
     (case visit f (dir_view buf) ctx of (ctx', stop) \<Rightarrow> (ctx', if stop then Scan_Hit True else Scan_None))"
  by (simp add: dir_block_ok_def dir_view_def foreach_tiles)

end
