(* ===== verification/Dir_Edit.thy ===== *)
theory Dir_Edit
  imports Dir_Block
begin

text \<open>
  Insertion into and removal from a directory block, as edits of the association list of its
  live records.
\<close>

section \<open>One header or name written\<close>

lemma length_de_put [simp]: "off + 8 \<le> length buf \<Longrightarrow> length (de_put off de buf) = length buf"
  by (simp add: de_put_def pk_de.length_put)

lemma length_de_put_name [simp]:
  "off + 8 + length name \<le> length buf \<Longrightarrow> length (de_put_name off name buf) = length buf"
  by (simp add: de_put_name_def)

lemma de_get_put [simp]: "off + 8 \<le> length buf \<Longrightarrow> de_get (de_put off de buf) off = de"
  by (simp add: de_put_def de_get_def pk_de.get_put_same)

lemma agree_de_put:
  "off + 8 \<le> length buf \<Longrightarrow> b \<le> length buf \<Longrightarrow> b \<le> off \<or> off + 8 \<le> a \<Longrightarrow> agree buf (de_put off de buf) a b"
  by (auto simp: agree_def de_put_def pk_de.length_put intro!: pk_de.nth_put_other)

lemma agree_de_put_name:
  "off + 8 + length name \<le> length buf \<Longrightarrow> b \<le> length buf \<Longrightarrow> b \<le> off + 8 \<or> off + 8 + length name \<le> a \<Longrightarrow>
   agree buf (de_put_name off name buf) a b"
  by (auto simp: agree_def de_put_name_def nth_bsplice)

lemma agree_trans: "agree x y a b \<Longrightarrow> agree y z a b \<Longrightarrow> agree x z a b"
  by (auto simp: agree_def)

lemma de_get_agree: "agree buf buf' off (off + 8) \<Longrightarrow> de_get buf' off = de_get buf off"
  by (rule agree_de) auto

section \<open>A new entry\<close>

text \<open>A header and a name written one after the other at off.\<close>

lemma put_entry:
  fixes de :: ext4_dir_entry
  assumes fit: "off + 8 + length name \<le> length buf"
    and nl: "unat (de_name_len de) = length name" and nm: "name \<noteq> []" and ino: "de_inode de \<noteq> 0"
    and r: "EXT4_DIR_REC_LEN (length name) \<le> unat (de_rec_len de)" "unat (de_rec_len de) mod 4 = 0"
      "off + unat (de_rec_len de) \<le> length buf"
  defines "buf' \<equiv> de_put_name off name (de_put off de buf)"
  shows "de_get buf' off = de" "rec_ok buf' off" "live buf' off" "dirent_at buf' off = (name, de_inode de)"
    "length buf' = length buf"
    "b \<le> length buf \<Longrightarrow> b \<le> off \<or> off + 8 + length name \<le> a \<Longrightarrow> agree buf buf' a b"
proof -
  let ?b1 = "de_put off de buf"
  have l1: "length ?b1 = length buf" using fit by simp
  show len: "length buf' = length buf" using fit by (simp add: buf'_def)
  have "agree ?b1 buf' off (off + 8)"
    unfolding buf'_def using fit by (intro agree_de_put_name) simp_all
  from de_get_agree [OF this] show get: "de_get buf' off = de" using fit by simp
  have "de_name buf' off (length name) = name"
    unfolding buf'_def de_name_def de_put_name_def using fit by (intro slice_splice_same) simp_all
  then show "dirent_at buf' off = (name, de_inode de)"
    by (simp add: dirent_at_def name_len_of_def get nl)
  show "live buf' off" using nm ino by (simp add: live_def name_len_of_def get nl)
  show "rec_ok buf' off"
    using r rec_len_bounds(1) [of "length name"] by (simp add: rec_ok_def rec_of_def name_len_of_def get nl len)
  show "agree buf buf' a b" if "b \<le> length buf" "b \<le> off \<or> off + 8 + length name \<le> a"
    unfolding buf'_def using fit that
    by (intro agree_trans [OF agree_de_put agree_de_put_name]) auto
qed

text \<open>Taking over a record without an inode.\<close>

lemma add_here_free:
  fixes used :: nat
  assumes r: "rec_ok buf off" and dead: "de_inode (de_get buf off) = 0"
    and room: "EXT4_DIR_REC_LEN (length name) \<le> rec_of buf off" and nm: "name \<noteq> []" "length name \<le> 255" and ino: "ino \<noteq> 0"
  defines "buf' \<equiv> add_here buf off used name ino"
  shows "rec_ok buf' off" "rec_of buf' off = rec_of buf off" "dirents buf' [off] = [(name, ino)]"
    "length buf' = length buf" "agree buf buf' 0 off" "agree buf buf' (off + rec_of buf off) (length buf)"
proof -
  let ?de = "\<lparr>de_inode = ino, de_rec_len = de_rec_len (de_get buf off), de_name_len = of_nat (length name), de_file_type = 0\<rparr>"
  have b: "buf' = de_put_name off name (de_put off ?de buf)"
    by (simp add: buf'_def add_here_def dead Let_def)
  have fit: "off + 8 + length name \<le> length buf" and end_le: "off + rec_of buf off \<le> length buf"
    using r room rec_len_bounds(1) [of "length name"] by (auto simp: rec_ok_def)
  have nl: "unat (of_nat (length name) :: u8) = length name" by (rule unat_of_nat_fit) (use nm in simp)
  note pe = put_entry [of off name buf ?de, folded b]
  show "rec_ok buf' off" "dirents buf' [off] = [(name, ino)]" "length buf' = length buf"
    using pe(2,3,4,5) fit nl nm ino room r by (simp_all add: rec_of_def rec_ok_def)
  show "rec_of buf' off = rec_of buf off"
    using pe(1) fit nl nm ino room r by (simp add: rec_of_def rec_ok_def)
  show "agree buf buf' 0 off" "agree buf buf' (off + rec_of buf off) (length buf)"
    using fit nl nm ino room r end_le rec_len_bounds(1) [of "length name"]
    by (auto intro!: pe(6) simp: rec_of_def rec_ok_def)
qed

text \<open>Splitting a used record.\<close>

lemma add_here_used:
  assumes r: "rec_ok buf off" and used: "de_inode (de_get buf off) \<noteq> 0"
    and u: "u = EXT4_DIR_REC_LEN (name_len_of buf off)"
    and room: "u + EXT4_DIR_REC_LEN (length name) \<le> rec_of buf off"
    and nm: "name \<noteq> []" "length name \<le> 255" and ino: "ino \<noteq> 0"
  defines "buf' \<equiv> add_here buf off u name ino"
  shows "tiles buf' off [off, off + u] (off + rec_of buf off)"
    "dirents buf' [off, off + u] = dirents buf [off] @ [(name, ino)]"
    "length buf' = length buf" "agree buf buf' 0 off" "agree buf buf' (off + rec_of buf off) (length buf)"
proof -
  let ?r = "rec_of buf off"
  let ?old = "(de_get buf off)\<lparr>de_rec_len := of_nat u\<rparr>"
  let ?de = "\<lparr>de_inode = ino, de_rec_len = de_rec_len (de_get buf off) - of_nat u,
              de_name_len = of_nat (length name), de_file_type = 0\<rparr>"
  let ?b1 = "de_put off ?old buf"
  have b: "buf' = de_put_name (off + u) name (de_put (off + u) ?de ?b1)"
    by (simp add: buf'_def add_here_def used Let_def)
  have end_le: "off + ?r \<le> length buf" and al: "?r mod 4 = 0" using r by (auto simp: rec_ok_def)
  have u8: "8 + name_len_of buf off \<le> u" unfolding u using rec_len_bounds(1) [of "name_len_of buf off"] by simp
  have um: "u mod 4 = 0" unfolding u by simp
  have nb: "length name + 8 \<le> EXT4_DIR_REC_LEN (length name)" by (rule rec_len_bounds)
  have r16: "?r < 65536" unfolding rec_of_def by (rule unat_u16_bound)
  have ru: "unat (of_nat u :: u16) = u" by (rule unat_of_nat_fit) (use room r16 in simp)
  have rr: "unat (de_rec_len (de_get buf off) - of_nat u) = ?r - u"
    using room unfolding rec_of_def by (subst unat_sub_le) (simp_all add: word_le_nat_alt ru rec_of_def [symmetric])
  have nl: "unat (of_nat (length name) :: u8) = length name" by (rule unat_of_nat_fit) (use nm in simp)
  have l1: "length ?b1 = length buf" using end_le room u8 by simp
  have fit: "off + u + 8 + length name \<le> length ?b1" using l1 end_le room nb by simp
  have rm: "(?r - u) mod 4 = 0" using al um room by (metis dvd_diff_nat dvd_eq_mod_eq_0)
  note pe = put_entry [of "off + u" name ?b1 ?de, folded b]
  have prem: "unat (de_name_len ?de) = length name" "de_inode ?de \<noteq> 0"
      "EXT4_DIR_REC_LEN (length name) \<le> unat (de_rec_len ?de)" "unat (de_rec_len ?de) mod 4 = 0"
      "off + u + unat (de_rec_len ?de) \<le> length ?b1"
    using nl ino room rm end_le l1 by (simp_all add: rr)
  note pe' = pe(1) [OF fit prem(1) nm(1) prem(2-5)] pe(2) [OF fit prem(1) nm(1) prem(2-5)]
    pe(3) [OF fit prem(1) nm(1) prem(2-5)] pe(4) [OF fit prem(1) nm(1) prem(2-5)]
    pe(5) [OF fit prem(1) nm(1) prem(2-5)] pe(6) [OF fit prem(1) nm(1) prem(2-5)]
  show len: "length buf' = length buf" using pe'(5) l1 by simp
  have ag1: "agree ?b1 buf' 0 (off + u)" by (rule pe'(6)) (use l1 fit in simp_all)
  have h8: "off + 8 \<le> length buf" using end_le room u8 by simp
  have head: "de_get buf' off = ?old"
    using agree_de(1) [OF ag1 le0, of off] u8 h8 by simp
  have name_same: "de_name buf' off (name_len_of buf off) = de_name buf off (name_len_of buf off)"
  proof -
    have "agree buf ?b1 (off + 8) (off + u)" by (rule agree_de_put) (use h8 l1 fit in simp_all)
    moreover have "agree ?b1 buf' (off + 8) (off + u)" by (rule agree_sub [OF ag1]) simp_all
    ultimately have "agree buf buf' (off + 8) (off + u)" by (rule agree_trans)
    then show ?thesis unfolding de_name_def by (rule agree_slice) (use u8 in simp_all)
  qed
  have nlen: "name_len_of buf' off = name_len_of buf off" by (simp add: name_len_of_def head)
  have rec1: "rec_of buf' off = u" by (simp add: rec_of_def head ru)
  have ok1: "rec_ok buf' off" using u8 um end_le room u by (simp add: rec_ok_def rec1 nlen len)
  have rec2: "rec_of buf' (off + u) = ?r - u" by (simp add: rec_of_def pe'(1) rr)
  show "tiles buf' off [off, off + u] (off + ?r)"
    using ok1 pe'(2) room by (simp add: rec1 rec2)
  have "dirents buf' [off] = dirents buf [off]"
    by (simp add: live_def nlen head dirent_at_def name_same)
  then show "dirents buf' [off, off + u] = dirents buf [off] @ [(name, ino)]"
    using pe'(3,4) by (simp split: if_splits)
  have "agree buf ?b1 0 off" by (rule agree_de_put) (use h8 in simp_all)
  moreover have "agree ?b1 buf' 0 off" by (rule agree_sub [OF ag1]) simp_all
  ultimately show "agree buf buf' 0 off" by (rule agree_trans)
  have "agree buf ?b1 (off + ?r) (length buf)" by (rule agree_de_put) (use h8 room u8 in simp_all)
  moreover have "agree ?b1 buf' (off + ?r) (length buf)" by (rule pe'(6)) (use l1 room nb in simp_all)
  ultimately show "agree buf buf' (off + ?r) (length buf)" by (rule agree_trans)
qed

section \<open>Insertion\<close>

definition edit_insert :: "bytes \<Rightarrow> bytes \<Rightarrow> u32 \<Rightarrow> bytes \<Rightarrow> bool" where
  "edit_insert buf name ino buf' \<longleftrightarrow>
     dir_block_ok buf' \<and> length buf' = length buf \<and>
     (\<exists>xs ys. dir_view buf = xs @ ys \<and> dir_view buf' = xs @ (name, ino) # ys)"

text \<open>The records around the edited one stay, so an edit of one record is an edit of the view.\<close>

lemma edit_segment:
  assumes 1: "tiles buf 0 ps a" and 2: "tiles buf a os b" and 3: "tiles buf b qs (length buf)"
    and len: "length buf < 2 ^ 16" "length buf' = length buf"
    and ag: "agree buf buf' 0 a" "agree buf buf' b (length buf)" and mid: "tiles buf' a ms b"
  shows "dir_block_ok buf'" "dir_view buf = dirents buf ps @ dirents buf os @ dirents buf qs"
    "dir_view buf' = dirents buf ps @ dirents buf' ms @ dirents buf qs"
proof -
  from tiles_agree [OF 1 ag(1)] tiles_agree [OF 3 ag(2)] mid
  have "tiles buf' 0 (ps @ ms @ qs) (length buf')" by (auto simp: tiles_append len)
  from block_okI [OF this] tiles_agree [OF 1 ag(1)] tiles_agree [OF 3 ag(2)] len
  show "dir_block_ok buf'" "dir_view buf' = dirents buf ps @ dirents buf' ms @ dirents buf qs" by simp_all
  have "tiles buf 0 (ps @ os @ qs) (length buf)" using 1 2 3 by (auto simp: tiles_append)
  from block_okI [OF this len(1)]
  show "dir_view buf = dirents buf ps @ dirents buf os @ dirents buf qs" by simp
qed

lemma tiles_split:
  "tiles buf 0 (ps @ p # qs) n \<Longrightarrow>
   tiles buf 0 ps p \<and> rec_ok buf p \<and> tiles buf p [p] (p + rec_of buf p) \<and> tiles buf (p + rec_of buf p) qs n"
  by (auto simp: tiles_append)

lemma edit_around:
  assumes "tiles buf 0 (ps @ p # qs) (length buf)" "length buf < 2 ^ 16" "length buf' = length buf"
    and "agree buf buf' 0 p" "agree buf buf' (p + rec_of buf p) (length buf)"
    and "tiles buf' p ms (p + rec_of buf p)"
  shows "dir_block_ok buf'" "dir_view buf = dirents buf ps @ dirents buf [p] @ dirents buf qs"
    "dir_view buf' = dirents buf ps @ dirents buf' ms @ dirents buf qs"
  using edit_segment [of buf ps p "[p]" "p + rec_of buf p" qs buf' ms] tiles_split [OF assms(1)] assms(2-)
  by blast+

lemma add_here_edit:
  assumes t: "tiles buf 0 (ps @ p # qs) (length buf)" and len: "length buf < 2 ^ 16"
    and nm: "name \<noteq> []" "length name \<le> 255" and ino: "ino \<noteq> 0"
    and u: "u = (if de_inode (de_get buf p) \<noteq> 0 then EXT4_DIR_REC_LEN (name_len_of buf p) else 0)"
    and room: "u + EXT4_DIR_REC_LEN (length name) \<le> rec_of buf p"
  shows "edit_insert buf name ino (add_here buf p u name ino)"
proof -
  have r: "rec_ok buf p" using t by (auto simp: tiles_append)
  show ?thesis
  proof (cases "de_inode (de_get buf p) = 0")
    case True
    with room have rm: "EXT4_DIR_REC_LEN (length name) \<le> rec_of buf p" using u by simp
    note f = add_here_free [OF r True rm nm ino, of u]
    have "tiles (add_here buf p u name ino) p [p] (p + rec_of buf p)" using f(1,2) by simp
    note e = edit_around [OF t len f(4-6) this]
    have "dirents buf [p] = []" using True by (simp add: live_def)
    then have "dir_view buf = dirents buf ps @ dirents buf qs" using e(2) by simp
    then show ?thesis unfolding edit_insert_def using e(1,3) f(3,4) by (metis append_Cons append_Nil)
  next
    case False
    with u have u': "u = EXT4_DIR_REC_LEN (name_len_of buf p)" by simp
    note f = add_here_used [OF r False u' room nm ino]
    note e = edit_around [OF t len f(3-5) f(1)]
    have "dir_view buf = (dirents buf ps @ dirents buf [p]) @ dirents buf qs" using e(2) by simp
    moreover have "dir_view (add_here buf p u name ino) = (dirents buf ps @ dirents buf [p]) @ (name, ino) # dirents buf qs"
      unfolding e(3) f(2) by simp
    ultimately show ?thesis unfolding edit_insert_def using e(1) f(3) by blast
  qed
qed

lemma room_u16:
  assumes "length name \<le> 255" "u \<le> EXT4_DIR_REC_LEN 255"
  shows "(d :: u16) \<ge> of_nat (u + EXT4_DIR_REC_LEN (length name)) \<longleftrightarrow> u + EXT4_DIR_REC_LEN (length name) \<le> unat d"
proof -
  have "EXT4_DIR_REC_LEN (length name) \<le> EXT4_DIR_REC_LEN 255" by (rule rec_len_mono [OF assms(1)])
  then have "unat (of_nat (u + EXT4_DIR_REC_LEN (length name)) :: u16) = u + EXT4_DIR_REC_LEN (length name)"
    using assms(2) by (intro unat_of_nat_fit) (simp add: EXT4_DIR_REC_LEN_def)
  then show ?thesis by (simp add: word_le_nat_alt)
qed

text \<open>Room for a name in some record of the list.\<close>

definition has_room :: "bytes \<Rightarrow> nat \<Rightarrow> nat \<Rightarrow> bool" where
  "has_room buf n p \<longleftrightarrow>
     (if de_inode (de_get buf p) \<noteq> 0 then EXT4_DIR_REC_LEN (name_len_of buf p) else 0) + EXT4_DIR_REC_LEN n \<le> rec_of buf p"

lemma add_tiles:
  assumes len: "length buf < 2 ^ 16" and nm: "name \<noteq> []" "length name \<le> 255" and ino: "ino \<noteq> 0"
  shows "tiles buf 0 ps off \<Longrightarrow> tiles buf off qs (length buf) \<Longrightarrow>
    (case add_in_block buf (length buf) name ino (EXT4_DIR_REC_LEN (length name)) off of
       Scan_Bad \<Rightarrow> False
     | Scan_None \<Rightarrow> \<forall>q \<in> set qs. \<not> has_room buf (length name) q
     | Scan_Hit buf' \<Rightarrow> edit_insert buf name ino buf')"
proof (induction qs arbitrary: off ps)
  case Nil
  then show ?case using rec_len_bounds(1) [of "length name"] by (simp add: add_in_block.simps)
next
  case (Cons q qs)
  let ?need = "EXT4_DIR_REC_LEN (length name)"
  let ?u = "if de_inode (de_get buf off) \<noteq> 0 then EXT4_DIR_REC_LEN (name_len_of buf off) else 0"
  from Cons.prems have q: "q = off" and r: "rec_ok buf off"
    and t: "tiles buf (off + rec_of buf off) qs (length buf)" by simp_all
  have end_le: "off + rec_of buf off \<le> length buf" using r by (simp add: rec_ok_def)
  have t1: "tiles buf 0 (ps @ [q]) (off + rec_of buf off)" using Cons.prems r by (auto simp: tiles_append)
  have "name_len_of buf off \<le> 255" using unat_u8_bound [of "de_name_len (de_get buf off)"] by (simp add: name_len_of_def)
  then have u255: "?u \<le> EXT4_DIR_REC_LEN 255" using rec_len_mono by auto
  have al: "\<not> (de_rec_len (de_get buf off) AND 3 \<noteq> 0)"
  proof -
    have "de_rec_len (de_get buf off) AND 3 = de_rec_len (de_get buf off) mod 4"
      using take_bit_eq_mask [of 2 "de_rec_len (de_get buf off)"] by (simp add: take_bit_eq_mod mask_eq_exp_minus_1)
    moreover have "unat (de_rec_len (de_get buf off) mod 4) = 0" using r by (simp add: unat_mod rec_ok_def rec_of_def)
    ultimately show ?thesis using unat_eq_zero by metis
  qed
  have ule: "?u \<le> rec_of buf off" using r by (simp add: rec_ok_def)
  show ?case
  proof (cases "off + ?need > length buf")
    case True
    have "\<not> has_room buf (length name) x" if "x \<in> set (q # qs)" for x
    proof -
      from that have "off \<le> x \<and> x + rec_of buf x \<le> length buf" using Cons.prems(2)
      proof (induction "q # qs" arbitrary: q qs off)
        case (Cons q qs)
        then show ?case by (cases qs) (auto simp: rec_ok_def)
      qed
      with True show ?thesis by (auto simp: has_room_def)
    qed
    then show ?thesis using True by (simp add: add_in_block.simps)
  next
    case False
    note step = add_in_block.simps [of buf "length buf" name ino ?need off]
    have eq: "add_in_block buf (length buf) name ino ?need off =
        (if ?u + ?need \<le> rec_of buf off then Scan_Hit (add_here buf off ?u name ino)
         else add_in_block buf (length buf) name ino ?need (off + rec_of buf off))"
    proof -
      have c1: "\<not> (de_rec_len (de_get buf off) = 0 \<or> de_rec_len (de_get buf off) AND 3 \<noteq> 0 \<or>
          off + rec_of buf off > length buf)"
        using rec_ok_pos [OF r] al end_le by auto
      have c2: "\<not> ?u > rec_of buf off" using ule by simp
      have c3: "of_nat (?u + ?need) \<le> de_rec_len (de_get buf off) \<longleftrightarrow> ?u + ?need \<le> rec_of buf off"
        unfolding rec_of_def by (rule room_u16 [OF nm(2) u255])
      show ?thesis
        unfolding step Let_def name_len_of_def [symmetric] rec_of_def [symmetric] c3
        by (simp only: False c1 c2 if_False)
    qed
    show ?thesis
    proof (cases "?u + ?need \<le> rec_of buf off")
      case True
      have "tiles buf 0 (ps @ off # qs) (length buf)" using Cons.prems q by (auto simp: tiles_append)
      from add_here_edit [OF this len nm ino refl True] show ?thesis using eq True by simp
    next
      case False
      have "\<not> has_room buf (length name) q" using False q by (simp add: has_room_def)
      then show ?thesis using Cons.IH [OF t1 t] eq False by (auto split: scan_result.splits)
    qed
  qed
qed

lemma add_block_spec:
  assumes "dir_block_ok buf" "name \<noteq> []" "length name \<le> 255" "ino \<noteq> 0"
  shows "case add_in_block buf (length buf) name ino (EXT4_DIR_REC_LEN (length name)) 0 of
       Scan_Bad \<Rightarrow> False
     | Scan_None \<Rightarrow> \<forall>q \<in> set (rec_offs buf 0). \<not> has_room buf (length name) q
     | Scan_Hit buf' \<Rightarrow> edit_insert buf name ino buf'"
  using add_tiles [of buf name ino "[]" 0 "rec_offs buf 0"] assms by (simp add: dir_block_ok_def)

section \<open>Removal\<close>

definition edit_remove :: "bytes \<Rightarrow> bytes \<Rightarrow> bytes \<Rightarrow> bool" where
  "edit_remove buf name buf' \<longleftrightarrow>
     dir_block_ok buf' \<and> length buf' = length buf \<and>
     (\<exists>xs ino ys. dir_view buf = xs @ (name, ino) # ys \<and> dir_view buf' = xs @ ys \<and> name \<notin> fst ` set xs)"

lemma remove_first:
  assumes r: "rec_ok buf off"
  defines "buf' \<equiv> remove_here buf off None"
  shows "tiles buf' off [off] (off + rec_of buf off)" "dirents buf' [off] = []" "length buf' = length buf"
    "agree buf buf' 0 off" "agree buf buf' (off + rec_of buf off) (length buf)"
proof -
  have h: "off + 8 \<le> length buf" "off + rec_of buf off \<le> length buf" "8 \<le> rec_of buf off"
    using r by (auto simp: rec_ok_def)
  have b: "buf' = de_put off ((de_get buf off)\<lparr>de_inode := 0, de_name_len := 0, de_file_type := 0\<rparr>) buf"
    by (simp add: buf'_def remove_here_def Let_def)
  show "length buf' = length buf" "agree buf buf' 0 off" "agree buf buf' (off + rec_of buf off) (length buf)"
    unfolding b using h by (auto intro!: agree_de_put)
  have g: "de_get buf' off = (de_get buf off)\<lparr>de_inode := 0, de_name_len := 0, de_file_type := 0\<rparr>"
    unfolding b using h by simp
  then show "dirents buf' [off] = []" by (simp add: live_def)
  have "rec_of buf' off = rec_of buf off" by (simp add: rec_of_def g)
  then show "tiles buf' off [off] (off + rec_of buf off)"
    using r by (simp add: rec_ok_def g) (simp add: b h)
qed

lemma remove_join:
  assumes p: "rec_ok buf p" and off: "off = p + rec_of buf p" and r: "rec_ok buf off" and n: "length buf < 2 ^ 16"
  defines "buf' \<equiv> remove_here buf off (Some p)"
  shows "tiles buf' p [p] (off + rec_of buf off)" "dirents buf' [p] = dirents buf [p]" "length buf' = length buf"
    "agree buf buf' 0 p" "agree buf buf' (off + rec_of buf off) (length buf)"
proof -
  let ?pde = "(de_get buf p)\<lparr>de_rec_len := de_rec_len (de_get buf p) + de_rec_len (de_get buf off)\<rparr>"
  have h: "p + 8 \<le> off" "off + rec_of buf off \<le> length buf" "8 \<le> rec_of buf off" "8 \<le> rec_of buf p"
    using p r off by (auto simp: rec_ok_def)
  have b: "buf' = de_put p ?pde buf" by (simp add: buf'_def remove_here_def Let_def)
  show len: "length buf' = length buf" and "agree buf buf' 0 p"
    and "agree buf buf' (off + rec_of buf off) (length buf)"
    unfolding b using h by (auto intro!: agree_de_put)
  have g: "de_get buf' p = ?pde" unfolding b using h by simp
  have "rec_of buf p + rec_of buf off < 2 ^ LENGTH(16)" using h n off by simp
  then have rec: "rec_of buf' p = rec_of buf p + rec_of buf off"
    unfolding rec_of_def g by (simp add: unat_add_nowrap)
  have nl: "name_len_of buf' p = name_len_of buf p" by (simp add: name_len_of_def g)
  have "rec_ok buf' p"
    using p r h off unfolding rec_ok_def rec nl len g by (auto simp: mod_add_eq [symmetric] add.assoc)
  then show "tiles buf' p [p] (off + rec_of buf off)" by (simp add: rec off)
  have "de_name buf' p (name_len_of buf p) = de_name buf p (name_len_of buf p)"
  proof -
    have "agree buf buf' (p + 8) (length buf)" unfolding b by (rule agree_de_put) (use h in simp_all)
    moreover have "bslice (p + 8) n buf' = bslice (p + 8) n buf" if "agree buf buf' (p + 8) (length buf)" for n
      using that len by (intro nth_equalityI) (auto simp: agree_def nth_bslice)
    ultimately show ?thesis by (simp add: de_name_def)
  qed
  then show "dirents buf' [p] = dirents buf [p]" by (simp add: live_def nl g dirent_at_def)
qed

lemma remove_here_edit:
  assumes t: "tiles buf 0 (ps @ off # qs) (length buf)" and n: "length buf < 2 ^ 16"
    and m: "de_matches buf off name" and nm: "name \<noteq> []" and new: "name \<notin> fst ` set (dirents buf ps)"
  shows "edit_remove buf name (remove_here buf off (if ps = [] then None else Some (last ps)))"
proof -
  note ts = tiles_split [OF t]
  have r: "rec_ok buf off" using ts by simp
  obtain ino where d: "dirents buf [off] = [(name, ino)]"
    using m matches_dirent [OF nm r] by (cases "dirent_at buf off") auto
  show ?thesis
  proof (cases ps rule: rev_cases)
    case Nil
    note f = remove_first [OF r]
    note e = edit_around [OF t n f(3-5,1)]
    have "dir_view buf = [] @ (name, ino) # dirents buf qs" unfolding e(2) d using Nil by simp
    moreover have "dir_view (remove_here buf off None) = [] @ dirents buf qs"
      unfolding e(3) f(2) using Nil by simp
    ultimately have "edit_remove buf name (remove_here buf off None)"
      unfolding edit_remove_def using e(1) f(3) by (metis empty_iff image_empty list.set(1))
    then show ?thesis using Nil by simp
  next
    case (snoc ps' p)
    have "tiles buf 0 (ps' @ p # off # qs) (length buf)" using t snoc by simp
    note ts' = tiles_split [OF this]
    from ts' have off: "off = p + rec_of buf p" and p: "rec_ok buf p" and t1: "tiles buf 0 ps' p" by auto
    have t2: "tiles buf p [p, off] (off + rec_of buf off)" using p r off by simp
    have t3: "tiles buf (off + rec_of buf off) qs (length buf)" using ts by simp
    note f = remove_join [OF p off r n]
    note e = edit_segment [OF t1 t2 t3 n f(3-5,1)]
    have dd: "dirents buf [p, off] = dirents buf [p] @ [(name, ino)]" using d by (auto split: if_splits)
    have "dir_view buf = dirents buf ps @ (name, ino) # dirents buf qs"
      unfolding e(2) dd snoc by simp
    moreover have "dir_view (remove_here buf off (Some p)) = dirents buf ps @ dirents buf qs"
      unfolding e(3) f(2) snoc by simp
    ultimately have "edit_remove buf name (remove_here buf off (Some p))"
      unfolding edit_remove_def using e(1) f(3) new by blast
    then show ?thesis using snoc by simp
  qed
qed

lemma remove_matches_short: "length name < 2 ^ 16 \<Longrightarrow> remove_matches buf off name = de_matches buf off name"
  by (auto simp: remove_matches_def de_matches_def Let_def)

lemma remove_tiles:
  assumes n: "length buf < 2 ^ 16" and nm: "name \<noteq> []" and nl: "length name < 2 ^ 16"
  shows "tiles buf 0 ps off \<Longrightarrow> tiles buf off qs (length buf) \<Longrightarrow> name \<notin> fst ` set (dirents buf ps) \<Longrightarrow>
    (case remove_in_block buf (length buf) name off (if ps = [] then None else Some (last ps)) of
       Scan_Bad \<Rightarrow> False
     | Scan_None \<Rightarrow> name \<notin> fst ` set (dirents buf (ps @ qs))
     | Scan_Hit buf' \<Rightarrow> edit_remove buf name buf')"
proof (induction qs arbitrary: off ps)
  case Nil
  then show ?case by (simp add: remove_in_block.simps)
next
  case (Cons q qs)
  from Cons.prems have q: "q = off" and r: "rec_ok buf off"
    and t: "tiles buf (off + rec_of buf off) qs (length buf)" by simp_all
  have lt: "\<not> off \<ge> length buf" using r by (auto simp: rec_ok_def)
  note step = remove_in_block.simps [of buf "length buf" name off, unfolded remove_matches_short [OF nl]]
  show ?case
  proof (cases "de_matches buf off name")
    case True
    have "tiles buf 0 (ps @ off # qs) (length buf)" using Cons.prems q by (auto simp: tiles_append)
    from remove_here_edit [OF this n True nm Cons.prems(3)] show ?thesis
      using True lt rec_ok_pos [OF r] by (simp add: step Let_def)
  next
    case False
    have t1: "tiles buf 0 (ps @ [q]) (off + rec_of buf off)" using Cons.prems r by (auto simp: tiles_append)
    have "name \<notin> fst ` set (dirents buf (ps @ [q]))"
      using False matches_dirent [OF nm r] Cons.prems(3) q by auto
    from Cons.IH [OF t1 t this] show ?thesis
      using False lt rec_ok_pos [OF r] q
      by (auto simp: step Let_def rec_of_def split: scan_result.splits if_splits)
  qed
qed

lemma remove_block_spec:
  assumes "dir_block_ok buf" "name \<noteq> []" "length name < 2 ^ 16"
  shows "case remove_in_block buf (length buf) name 0 None of
       Scan_Bad \<Rightarrow> False
     | Scan_None \<Rightarrow> name \<notin> fst ` set (dir_view buf)
     | Scan_Hit buf' \<Rightarrow> edit_remove buf name buf'"
  using remove_tiles [of buf name "[]" 0 "rec_offs buf 0"] assms
  by (simp add: dir_block_ok_def dir_view_def split: scan_result.splits)

end
