(* ===== verification/Dir_Add.thy ===== *)
theory Dir_Add
  imports Dir
begin

text \<open>
  Insertion of directory entries, fs/ext4/dir.c: the linear scan, the growth of a directory by a
  block, and ext4_dir_upgrade_to_htree, which turns a full linear directory into a hashed one.
\<close>

section \<open>Size of a directory\<close>

text \<open>How many logical blocks are mapped from the first one on, up to a bound.\<close>

fun count_mapped :: "kfs \<Rightarrow> inode \<Rightarrow> nat list \<Rightarrow> nat \<Rightarrow> nat \<times> kfs" where
  "count_mapped s dir [] cnt = (cnt, s)"
| "count_mapped s dir (i # is) cnt =
     (case ext4_dir_get_blocknr s dir (of_nat i) of
        (None, s1) \<Rightarrow> (cnt, s1)
      | (Some _, s1) \<Rightarrow> count_mapped s1 dir is (Suc cnt))"

definition ext4_dir_refresh_size_blocks :: "kfs \<Rightarrow> inode \<Rightarrow> inode \<times> kfs" where
  "ext4_dir_refresh_size_blocks s dir =
     (let block_size = ext4_get_block_size s;
          max_lblocks = 12 + (if block_size \<noteq> 0 \<and> block_size AND 3 = 0 then unat (block_size div 4) else 0)
      in case i_private dir of
           None \<Rightarrow> (dir, s)
         | Some ei \<Rightarrow>
             if block_size = 0 then (dir, s)
             else case count_mapped s dir [0..<max_lblocks] 0 of
               (cnt, s1) \<Rightarrow>
                 (dir\<lparr>i_size := ucast block_size * of_nat cnt,
                    i_blocks := (block_size div 512) * of_nat cnt +
                      (if get_iblock ei 12 \<noteq> 0 then block_size div 512 else 0)\<rparr>, s1))"

section \<open>From a linear to a hashed directory\<close>

function leaf_max_hash :: "kfs \<Rightarrow> bytes \<Rightarrow> nat \<Rightarrow> nat \<Rightarrow> u32 option \<Rightarrow> u32 option option" where
  "leaf_max_hash s leaf block_size off acc =
     (if off \<ge> block_size then Some acc
      else let de = de_get leaf off; nl = unat (de_name_len de); rec_len = de_rec_len de in
        if rec_len = 0 \<or> rec_len AND 3 \<noteq> 0 \<or> off + unat rec_len > block_size then None
        else if de_inode de \<noteq> 0 \<and> nl > 0
        then let h = ext4_htree_name_hash32 s (de_name leaf off nl) in
          leaf_max_hash s leaf block_size (off + unat rec_len)
            (case acc of None \<Rightarrow> Some h | Some m \<Rightarrow> Some (if h > m then h else m))
        else leaf_max_hash s leaf block_size (off + unat rec_len) acc)"
  by pat_completeness auto
termination
  by (relation "measure (\<lambda>(s, leaf, block_size, off, acc). block_size - off)") (auto intro!: rec_step)

declare leaf_max_hash.simps [simp del]

definition ext4_dir_leaf_calc_max_hash :: "kfs \<Rightarrow> bytes \<Rightarrow> u32 \<Rightarrow> u32 option" where
  "ext4_dir_leaf_calc_max_hash s leaf block_size =
     map_option (\<lambda>acc. case acc of None \<Rightarrow> 0 | Some m \<Rightarrow> m) (leaf_max_hash s leaf (unat block_size) 0 None)"

text \<open>A block that holds one free record.\<close>

definition empty_dir_block :: "u32 \<Rightarrow> bytes" where
  "empty_dir_block block_size =
     de_put 0 \<lparr>de_inode = 0, de_rec_len = ucast block_size, de_name_len = 0, de_file_type = 0\<rparr>
       (zero_block block_size)"

definition dot_name :: bytes where "dot_name = [46]"
definition dotdot_name :: bytes where "dotdot_name = [46, 46]"

text \<open>All entries of the old first block but the two dots go to the new leaf.\<close>

function migrate_entries :: "bytes \<Rightarrow> nat \<Rightarrow> nat \<Rightarrow> bytes \<Rightarrow> bytes option" where
  "migrate_entries root_old block_size off leaf =
     (if off \<ge> block_size then Some leaf
      else let de = de_get root_old off; nl = unat (de_name_len de); rec_len = de_rec_len de;
               name = de_name root_old off nl in
        if rec_len = 0 \<or> rec_len AND 3 \<noteq> 0 \<or> off + unat rec_len > block_size then None
        else if de_inode de \<noteq> 0 \<and> nl > 0 \<and> name \<noteq> dot_name \<and> name \<noteq> dotdot_name
        then case htree_insert_scan leaf block_size name (de_inode de) (EXT4_DIR_REC_LEN nl) 0 of
               None \<Rightarrow> None
             | Some (leaf', _) \<Rightarrow> migrate_entries root_old block_size (off + unat rec_len) leaf'
        else migrate_entries root_old block_size (off + unat rec_len) leaf)"
  by pat_completeness auto
termination
  by (relation "measure (\<lambda>(root_old, block_size, off, leaf). block_size - off)") (auto intro!: rec_step)

declare migrate_entries.simps [simp del]

record ext4_dir_leaf_meta =
  lm_lblk :: u32
  lm_max_hash :: u32

fun collect_meta :: "kfs \<Rightarrow> inode \<Rightarrow> u32 \<Rightarrow> nat list \<Rightarrow> ext4_dir_leaf_meta list \<Rightarrow>
    ext4_dir_leaf_meta list option \<times> kfs" where
  "collect_meta s dir block_size [] acc = (Some acc, s)"
| "collect_meta s dir block_size (l # ls) acc =
     (case ext4_dir_get_blocknr s dir (of_nat l) of
        (None, s1) \<Rightarrow> (None, s1)
      | (Some phys, s1) \<Rightarrow>
          (case ext4_read_block s1 phys of
             None \<Rightarrow> (None, s1)
           | Some buf \<Rightarrow>
               (case ext4_dir_leaf_calc_max_hash s1 buf block_size of
                  None \<Rightarrow> (None, s1)
                | Some h \<Rightarrow> collect_meta s1 dir block_size ls (acc @ [\<lparr>lm_lblk = of_nat l, lm_max_hash = h\<rparr>]))))"

definition meta_exchange :: "nat \<Rightarrow> ext4_dir_leaf_meta list \<Rightarrow> nat \<Rightarrow> ext4_dir_leaf_meta list" where
  "meta_exchange i ms j =
     (if lm_max_hash (ms ! i) > lm_max_hash (ms ! j) then ms[i := ms ! j, j := ms ! i] else ms)"

definition sort_meta :: "ext4_dir_leaf_meta list \<Rightarrow> ext4_dir_leaf_meta list" where
  "sort_meta ms =
     (let n = length ms in foldl (\<lambda>ms i. foldl (meta_exchange i) ms [Suc i..<n]) ms [0..<n - 1])"

text \<open>
  The new first block: the two dots, the root info at offset 24 and the entries at offset 32.
  Entry i > 0 gets the largest hash of leaf i - 1, plus one. None when the entries do not fit.
\<close>

definition dx_root_put_entry :: "ext4_dir_leaf_meta list \<Rightarrow> bytes \<Rightarrow> nat \<Rightarrow> bytes" where
  "dx_root_put_entry ms buf i =
     (let buf1 = dx_set_block 32 i (lm_lblk (ms ! i)) buf in
      if i > 0
      then let h = lm_max_hash (ms ! (i - 1)) in dx_set_hash 32 i (if h \<noteq> 0xffffffff then h + 1 else h) buf1
      else buf1)"

definition build_dx_root :: "kfs \<Rightarrow> u32 \<Rightarrow> u32 \<Rightarrow> u32 \<Rightarrow> ext4_dir_leaf_meta list \<Rightarrow> bytes option" where
  "build_dx_root s block_size dir_ino parent_ino ms =
     (let rec1 = EXT4_DIR_REC_LEN 1;
          limit = (unat block_size - (rec1 + EXT4_DIR_REC_LEN 2 + 8)) div 8;
          version = (case s_fs_info s of None \<Rightarrow> EXT4_DX_HASH_LEGACY | Some sbi \<Rightarrow> s_def_hash_version sbi);
          buf1 = de_put_name 0 dot_name (de_put 0
                   \<lparr>de_inode = dir_ino, de_rec_len = of_nat rec1, de_name_len = 1, de_file_type = 2\<rparr>
                   (zero_block block_size));
          buf2 = de_put_name rec1 dotdot_name (de_put rec1
                   \<lparr>de_inode = parent_ino, de_rec_len = of_nat (unat block_size - rec1), de_name_len = 2,
                    de_file_type = 2\<rparr> buf1);
          buf3 = put_struct dx_info_enc buf2 24
                   \<lparr>dxi_reserved_zero = 0, dxi_hash_version = version, dxi_info_length = 8,
                    dxi_indirect_levels = 0, dxi_unused_flags = 0\<rparr>;
          buf4 = put_struct dx_cl_enc buf3 32 \<lparr>dx_limit = of_nat limit, dx_count = of_nat (length ms)\<rparr>
      in if length ms = 0 \<or> length ms > limit then None
         else Some (foldl (dx_root_put_entry ms) buf4 [0..<length ms]))"

definition ei_or_flags :: "u32 \<Rightarrow> inode \<Rightarrow> inode" where
  "ei_or_flags f node = node\<lparr>i_private := map_option (\<lambda>ei. ei\<lparr>ei_flags := ei_flags ei OR f\<rparr>) (i_private node)\<rparr>"

text \<open>
  The work between the allocation of the buffers and the label out: success, the inode, the
  buffer of the leaf table when it was allocated, and the state.
\<close>

definition upgrade_work ::
  "kfs \<Rightarrow> inode \<Rightarrow> u32 \<Rightarrow> u32 \<Rightarrow> nat \<Rightarrow> nat \<Rightarrow> u32 \<Rightarrow> bool \<times> inode \<times> nat option \<times> kfs" where
  "upgrade_work s dir block_size root_phys old_last new_leaf_lblk new_leaf_phys =
     (case ext4_read_block s root_phys of
        None \<Rightarrow> (False, dir, None, s)
      | Some root_old \<Rightarrow>
          let dotdot = de_get root_old (EXT4_DIR_REC_LEN 1);
              parent_ino = (if unat (de_rec_len dotdot) \<ge> EXT4_DIR_REC_LEN 2 then de_inode dotdot else i_ino dir)
          in case migrate_entries root_old (unat block_size) 0 (empty_dir_block block_size) of
               None \<Rightarrow> (False, dir, None, s)
             | Some leaf \<Rightarrow>
               (case ext4_write_block s new_leaf_phys leaf of
                  (False, s1) \<Rightarrow> (False, dir, None, s1)
                | (True, s1) \<Rightarrow>
                  (case dir_malloc (8 * (old_last + 1)) s1 of
                     (None, s2) \<Rightarrow> (False, dir, None, s2)
                   | (Some mp, s2) \<Rightarrow>
                     (case collect_meta s2 dir block_size [1..<Suc old_last] [] of
                        (None, s3) \<Rightarrow> (False, dir, Some mp, s3)
                      | (Some ms, s3) \<Rightarrow>
                        (case Option.bind (ext4_read_block s3 new_leaf_phys)
                                (\<lambda>tmp. ext4_dir_leaf_calc_max_hash s3 tmp block_size) of
                           None \<Rightarrow> (False, dir, Some mp, s3)
                         | Some h \<Rightarrow>
                           (case build_dx_root s3 block_size (i_ino dir) parent_ino
                                   (sort_meta (ms @ [\<lparr>lm_lblk = of_nat new_leaf_lblk, lm_max_hash = h\<rparr>])) of
                              None \<Rightarrow> (False, dir, Some mp, s3)
                            | Some root_new \<Rightarrow>
                              (case ext4_write_block s3 root_phys root_new of
                                 (False, s4) \<Rightarrow> (False, dir, Some mp, s4)
                               | (True, s4) \<Rightarrow>
                                 (case ext4_dir_refresh_size_blocks s4 (ei_or_flags EXT4_INODE_FLAG_INDEX dir) of
                                    (dir1, s5) \<Rightarrow>
                                      (True, dir1, Some mp, snd (ext4_write_inode s5 dir1))))))))))"

definition upgrade_rollback :: "kfs \<Rightarrow> inode \<Rightarrow> u32 \<Rightarrow> nat \<Rightarrow> u32 \<Rightarrow> (inode \<times> kfs) option" where
  "upgrade_rollback s dir block_size new_leaf_lblk new_leaf_phys =
     (let iblk = (case i_private dir of None \<Rightarrow> 0 | Some ei \<Rightarrow> get_iblock ei 12);
          idx = new_leaf_lblk - 12;
          dir1 = (if new_leaf_lblk < 12 then inode_set_iblock new_leaf_lblk 0 dir else dir);
          s1 = (if iblk \<noteq> 0 \<and> new_leaf_lblk \<ge> 12
                then (case dir_malloc (unat block_size) s of
                        (None, t) \<Rightarrow> t
                      | (Some p, t) \<Rightarrow>
                          (case ext4_read_block t iblk of
                             None \<Rightarrow> dir_free p t
                           | Some ib \<Rightarrow>
                               if idx < unat (block_size div 4)
                               then dir_free p (snd (ext4_write_block t iblk (ents_put idx 0 ib)))
                               else dir_free p t))
                else s)
      in do { s2 \<leftarrow> free_block_void new_leaf_phys s1; Some (dir1, s2) })"

fun dir_mallocs :: "nat \<Rightarrow> nat \<Rightarrow> kfs \<Rightarrow> nat option list \<times> kfs" where
  "dir_mallocs 0 n s = ([], s)"
| "dir_mallocs (Suc k) n s =
     (case dir_malloc n s of (r, s1) \<Rightarrow> (case dir_mallocs k n s1 of (rs, s2) \<Rightarrow> (r # rs, s2)))"

definition dir_frees :: "nat option list \<Rightarrow> kfs \<Rightarrow> kfs" where
  "dir_frees ps s = foldl (\<lambda>s p. case p of None \<Rightarrow> s | Some i \<Rightarrow> dir_free i s) s ps"

definition ext4_dir_upgrade_to_htree :: "kfs \<Rightarrow> inode \<Rightarrow> (bool \<times> inode \<times> kfs) option" where
  "ext4_dir_upgrade_to_htree s dir =
     (let block_size = ext4_get_block_size s; max_lblocks = 12 + unat (block_size div 4) in
      case i_private dir of
        None \<Rightarrow> Some (False, dir, s)
      | Some ei \<Rightarrow>
          if ei_flags ei AND (EXT4_INODE_FLAG_INDEX OR EXT4_INODE_FLAG_EXTENTS) \<noteq> 0 then Some (False, dir, s)
          else if block_size = 0 \<or> block_size AND 3 \<noteq> 0 then Some (False, dir, s)
          else case count_mapped s dir [0..<max_lblocks] 0 of
            (old_cnt, s1) \<Rightarrow>
              if old_cnt = 0 then Some (False, dir, s1)
              else case ext4_dir_get_blocknr s1 dir 0 of
                (None, s2) \<Rightarrow> Some (False, dir, s2)
              | (Some root_phys, s2) \<Rightarrow>
                  if old_cnt \<ge> max_lblocks then Some (False, dir, s2)
                  else case ext4_new_block s2 of
                    (new_leaf_phys, s3) \<Rightarrow>
                      if new_leaf_phys = 0 then Some (False, dir, s3)
                      else do {
                        (mapped, dir1, s4) \<leftarrow> ext4_dir_set_blocknr s3 dir (of_nat old_cnt) new_leaf_phys;
                        if \<not> mapped
                        then do { s5 \<leftarrow> free_block_void new_leaf_phys s4; Some (False, dir1, s5) }
                        else case dir_mallocs 4 (unat block_size) s4 of
                          (bufs, s5) \<Rightarrow>
                            (case (if None \<in> set bufs then (False, dir1, None, s5)
                                   else upgrade_work s5 dir1 block_size root_phys (old_cnt - 1) old_cnt new_leaf_phys) of
                               (ok, dir2, meta, s6) \<Rightarrow>
                                 if ok then Some (True, dir2, dir_frees (bufs @ [meta]) s6)
                                 else do {
                                   (dir3, s7) \<leftarrow> upgrade_rollback s6 dir2 block_size old_cnt new_leaf_phys;
                                   Some (False, dir3, dir_frees (bufs @ [meta]) s7)
                                 })
                      })"

section \<open>Insertion of an entry\<close>

text \<open>Through the index; the buffer p belongs to the caller.\<close>

definition add_indexed_with :: "kfs \<Rightarrow> inode \<Rightarrow> bytes \<Rightarrow> u32 \<Rightarrow> (bool \<times> inode \<times> kfs) option" where
  "add_indexed_with s dir name ino =
     (let block_size = ext4_get_block_size s in
      case ext4_dir_get_blocknr s dir 0 of
        (None, s1) \<Rightarrow> Some (False, dir, s1)
      | (Some root_phys, s1) \<Rightarrow>
          (case ext4_read_block s1 root_phys of
             None \<Rightarrow> Some (False, dir, s1)
           | Some buf_root \<Rightarrow>
               (case ext4_htree_pick_leaf_from_root s1 dir block_size buf_root (ext4_htree_name_hash32 s1 name) of
                  (None, s2) \<Rightarrow> Some (False, dir, s2)
                | (Some leaf_lblk, s2) \<Rightarrow>
                    (case ext4_dir_get_blocknr s2 dir leaf_lblk of
                       (None, s3) \<Rightarrow> Some (False, dir, s3)
                     | (Some leaf_phys, s3) \<Rightarrow>
                         (case ext4_read_block s3 leaf_phys of
                            None \<Rightarrow> Some (False, dir, s3)
                          | Some buf_leaf \<Rightarrow>
                              (case ext4_htree_try_insert_leaf buf_leaf block_size name ino
                                      (of_nat (EXT4_DIR_REC_LEN (length name))) of
                                 Some (leaf', _) \<Rightarrow>
                                   (case ext4_write_block s3 leaf_phys leaf' of (ok, s4) \<Rightarrow> Some (ok, dir, s4))
                               | None \<Rightarrow>
                                   ext4_htree_split_leaf s3 dir block_size buf_root root_phys leaf_lblk name ino))))))"

definition add_indexed :: "kfs \<Rightarrow> inode \<Rightarrow> bytes \<Rightarrow> u32 \<Rightarrow> (bool \<times> inode \<times> kfs) option" where
  "add_indexed s dir name ino =
     (case dir_mallocs 2 (unat (ext4_get_block_size s)) s of
        (bufs, s1) \<Rightarrow>
          if None \<in> set bufs then Some (False, dir, dir_frees bufs s1)
          else do { (ok, dir1, s2) \<leftarrow> add_indexed_with s1 dir name ino; Some (ok, dir1, dir_frees bufs s2) })"

text \<open>One block: the insertion into it, or None to try the next block.\<close>

definition add_try_block :: "kfs \<Rightarrow> u32 \<Rightarrow> bytes \<Rightarrow> u32 \<Rightarrow> bool option \<times> kfs" where
  "add_try_block s blocknr name ino =
     (case ext4_read_block s blocknr of
        None \<Rightarrow> (Some False, s)
      | Some buf \<Rightarrow>
          (case add_in_block buf (unat (ext4_get_block_size s)) name ino (EXT4_DIR_REC_LEN (length name)) 0 of
             Scan_Bad \<Rightarrow> (Some False, s)
           | Scan_None \<Rightarrow> (None, s)
           | Scan_Hit buf' \<Rightarrow> (case ext4_write_block s blocknr buf' of (ok, s1) \<Rightarrow> (Some ok, s1))))"

text \<open>A new block at logical block blk_idx: its number, or None on failure.\<close>

definition dir_grow :: "kfs \<Rightarrow> inode \<Rightarrow> u32 \<Rightarrow> (u32 option \<times> inode \<times> kfs) option" where
  "dir_grow s dir blk_idx =
     (let block_size = ext4_get_block_size s;
          init = (\<lambda>blocknr dir s1.
            (case ext4_write_block s1 blocknr (empty_dir_block block_size) of
               (False, s2) \<Rightarrow> do { s3 \<leftarrow> free_block_void blocknr s2; Some (None, dir, s3) }
             | (True, s2) \<Rightarrow>
                 let dir1 = dir\<lparr>i_size := i_size dir + ucast block_size,
                              i_blocks := i_blocks dir + block_size div 512\<rparr>
                 in Some (Some blocknr, dir1, snd (ext4_write_inode s2 dir1))))
      in case i_private dir of
           None \<Rightarrow> Some (None, dir, s)
         | Some ei \<Rightarrow>
             if ei_flags ei AND EXT4_INODE_FLAG_EXTENTS \<noteq> 0
             then (case ext4_extents_get_block s dir blk_idx True of
                     (r, dir1, s1) \<Rightarrow>
                       (case r of
                          None \<Rightarrow> Some (None, dir1, s1)
                        | Some (blocknr, is_new) \<Rightarrow>
                            if blocknr = 0 then Some (None, dir1, s1)
                            else if is_new then init blocknr dir1 s1
                            else Some (Some blocknr, dir1, s1)))
             else (case ext4_new_block s of
                     (blocknr, s1) \<Rightarrow>
                       if blocknr = 0 then Some (None, dir, s1)
                       else do {
                         (ok, dir1, s2) \<leftarrow> ext4_dir_set_blocknr s1 dir blk_idx blocknr;
                         if \<not> ok then do { s3 \<leftarrow> free_block_void blocknr s2; Some (None, dir1, s3) }
                         else init blocknr dir1 s2
                       }))"

fun add_blocks :: "kfs \<Rightarrow> inode \<Rightarrow> bytes \<Rightarrow> u32 \<Rightarrow> nat list \<Rightarrow> (bool \<times> inode \<times> kfs) option" where
  "add_blocks s dir name ino [] = Some (False, dir, s)"
| "add_blocks s dir name ino (i # is) =
     (case ext4_dir_get_blocknr s dir (of_nat i) of
        (Some blocknr, s1) \<Rightarrow>
          (case add_try_block s1 blocknr name ino of
             (Some ok, s2) \<Rightarrow> Some (ok, dir, s2)
           | (None, s2) \<Rightarrow> add_blocks s2 dir name ino is)
      | (None, s1) \<Rightarrow>
          do {
            (upgraded, dir1, s2) \<leftarrow>
              (if (case i_private dir of None \<Rightarrow> False
                   | Some ei \<Rightarrow> ei_flags ei AND (EXT4_INODE_FLAG_INDEX OR EXT4_INODE_FLAG_EXTENTS) = 0) \<and> i \<ge> 1
               then ext4_dir_upgrade_to_htree s1 dir else Some (False, dir, s1));
            if upgraded then add_indexed s2 dir1 name ino
            else do {
              (r, dir2, s3) \<leftarrow> dir_grow s2 dir1 (of_nat i);
              case r of
                None \<Rightarrow> Some (False, dir2, s3)
              | Some blocknr \<Rightarrow>
                  (case add_try_block s3 blocknr name ino of
                     (Some ok, s4) \<Rightarrow> Some (ok, dir2, s4)
                   | (None, s4) \<Rightarrow> add_blocks s4 dir2 name ino is)
            }
          })"

text \<open>
  After an upgrade the code frees its buffer and calls itself; that call finds the index flag
  set and allocates the buffer again, so the buffer is held here throughout.
\<close>

definition ext4_add_entry :: "kfs \<Rightarrow> inode \<Rightarrow> bytes \<Rightarrow> u32 \<Rightarrow> (bool \<times> inode \<times> kfs) option" where
  "ext4_add_entry s dir name ino =
     (case i_private dir of
        None \<Rightarrow> Some (False, dir, s)
      | Some ei \<Rightarrow>
          if length name = 0 \<or> length name > 255 then Some (False, dir, s)
          else case dir_malloc (unat (ext4_get_block_size s)) s of
            (None, s1) \<Rightarrow> Some (False, dir, s1)
          | (Some p, s1) \<Rightarrow>
              let max_lblocks = (if ei_flags ei AND EXT4_INODE_FLAG_EXTENTS \<noteq> 0 then 12
                                 else 12 + unat (ext4_get_block_size s div 4))
              in do {
                (ok, dir1, s2) \<leftarrow>
                  (if ei_flags ei AND EXT4_INODE_FLAG_INDEX \<noteq> 0 then add_indexed s1 dir name ino
                   else add_blocks s1 dir name ino [0..<max_lblocks]);
                Some (ok, dir1, dir_free p s2)
              })"

end
