(* ===== verification/Inode_Free.thy ===== *)
theory Inode_Free
  imports Dir_Add
begin

text \<open>
  Release of the blocks of an inode, first half of fs/ext4/inode.c: the walk over the extent
  tree, the walk over the direct and indirect blocks, and ext4_free_inode_data_blocks.
\<close>

section \<open>Extent trees\<close>

definition ext4_extent_pblock_from_ex :: "ext4_extent \<Rightarrow> u64" where
  "ext4_extent_pblock_from_ex ex = push_bit 32 (ucast (ee_start_hi ex)) OR ucast (ee_start_lo ex)"

definition ext4_extent_child_pblock :: "ext4_extent_idx \<Rightarrow> u64" where
  "ext4_extent_child_pblock ix = push_bit 32 (ucast (ei_leaf_hi ix)) OR ucast (ei_leaf_lo ix)"

fun free_blocks_void :: "u32 list \<Rightarrow> kfs \<Rightarrow> kfs option" where
  "free_blocks_void [] s = Some s"
| "free_blocks_void (b # bs) s = do { s1 \<leftarrow> free_block_void b s; free_blocks_void bs s1 }"

text \<open>The blocks of one extent and of a leaf, in the order they are released.\<close>

definition extent_blocks :: "ext4_extent \<Rightarrow> u32 list" where
  "extent_blocks ex =
     (let pblk = ext4_extent_pblock_from_ex ex in
      if ee_len ex = 0 \<or> pblk = 0 then [] else map (\<lambda>j. ucast (pblk + of_nat j)) [0..<unat (ee_len ex)])"

definition leaf_blocks :: "bytes \<Rightarrow> u32 list" where
  "leaf_blocks buf = concat (map (\<lambda>i. extent_blocks (ext_get buf i)) [0..<node_entries buf])"

text \<open>
  The children of an index node. Every level of the recursion holds one of the four buffers of
  this file, so its depth is bounded by the number of free buffers; fuel counts the levels.
\<close>

fun free_extent_children :: "nat \<Rightarrow> kfs \<Rightarrow> bytes \<Rightarrow> nat list \<Rightarrow> kfs option" where
  "free_extent_children fuel s buf [] = Some s"
| "free_extent_children fuel s buf (i # is) =
     (let child_block = (ucast (ext4_extent_child_pblock (idx_get buf i)) :: u32) in
      if child_block = 0 then free_extent_children fuel s buf is
      else case inode_malloc (unat (ext4_get_block_size s)) s of
        (None, s1) \<Rightarrow> do { s2 \<leftarrow> free_block_void child_block s1; free_extent_children fuel s2 buf is }
      | (Some p, s1) \<Rightarrow> do {
          s2 \<leftarrow> (case ext4_read_block s1 child_block of
                  None \<Rightarrow> Some s1
                | Some child \<Rightarrow>
                    if eh_magic (eh_get child) \<noteq> EXT4_EXT_MAGIC then Some s1
                    else if eh_depth (eh_get child) = 0 then free_blocks_void (leaf_blocks child) s1
                    else (case fuel of 0 \<Rightarrow> None
                          | Suc k \<Rightarrow> free_extent_children k s1 child [0..<node_entries child]));
          s3 \<leftarrow> free_block_void child_block (inode_free p s2);
          free_extent_children fuel s3 buf is
        })"

definition ext4_free_extent_tree_node :: "kfs \<Rightarrow> bytes \<Rightarrow> kfs option" where
  "ext4_free_extent_tree_node s buf =
     (if eh_magic (eh_get buf) \<noteq> EXT4_EXT_MAGIC then Some s
      else if eh_depth (eh_get buf) = 0 then free_blocks_void (leaf_blocks buf) s
      else free_extent_children (length (pool_inode s)) s buf [0..<node_entries buf])"

section \<open>Direct and indirect blocks\<close>

definition nonzero_ents :: "bytes \<Rightarrow> u32 \<Rightarrow> u32 list" where
  "nonzero_ents buf block_size = filter (\<lambda>b. b \<noteq> 0) (map (ents_get buf) [0..<unat (block_size div 4)])"

text \<open>The data blocks of a single indirect block, then the block itself.\<close>

definition free_indirect :: "kfs \<Rightarrow> u32 \<Rightarrow> u32 \<Rightarrow> kfs option" where
  "free_indirect s block_size ind_blk =
     (case inode_malloc (unat block_size) s of
        (None, s1) \<Rightarrow> free_block_void ind_blk s1
      | (Some p, s1) \<Rightarrow> do {
          s2 \<leftarrow> (case ext4_read_block s1 ind_blk of
                  None \<Rightarrow> Some s1
                | Some buf \<Rightarrow> free_blocks_void (nonzero_ents buf block_size) s1);
          free_block_void ind_blk (inode_free p s2)
        })"

fun free_indirects :: "kfs \<Rightarrow> u32 \<Rightarrow> u32 list \<Rightarrow> kfs option" where
  "free_indirects s block_size [] = Some s"
| "free_indirects s block_size (b # bs) = do { s1 \<leftarrow> free_indirect s block_size b; free_indirects s1 block_size bs }"

definition free_double_indirect :: "kfs \<Rightarrow> u32 \<Rightarrow> u32 \<Rightarrow> kfs option" where
  "free_double_indirect s block_size l1_blk =
     (case inode_malloc (unat block_size) s of
        (None, s1) \<Rightarrow> free_block_void l1_blk s1
      | (Some p, s1) \<Rightarrow> do {
          s2 \<leftarrow> (case ext4_read_block s1 l1_blk of
                  None \<Rightarrow> Some s1
                | Some buf \<Rightarrow> free_indirects s1 block_size (nonzero_ents buf block_size));
          free_block_void l1_blk (inode_free p s2)
        })"

fun free_direct :: "kfs \<Rightarrow> inode \<Rightarrow> nat list \<Rightarrow> (inode \<times> kfs) option" where
  "free_direct s node [] = Some (node, s)"
| "free_direct s node (i # is) =
     (let b = (case i_private node of None \<Rightarrow> 0 | Some ei \<Rightarrow> get_iblock ei i) in
      if b = 0 then free_direct s node is
      else do { s1 \<leftarrow> free_block_void b s; free_direct s1 (inode_set_iblock i 0 node) is })"

definition ext4_free_legacy_data_blocks :: "kfs \<Rightarrow> inode \<Rightarrow> (inode \<times> kfs) option" where
  "ext4_free_legacy_data_blocks s node =
     (let block_size = ext4_get_block_size s;
          blk = (\<lambda>node k. case i_private node of None \<Rightarrow> 0 | Some ei \<Rightarrow> get_iblock ei k)
      in do {
        (node1, s1) \<leftarrow> free_direct s node [0..<12];
        s2 \<leftarrow> (if blk node1 12 \<noteq> 0 then free_indirect s1 block_size (blk node1 12) else Some s1);
        let node2 = (if blk node1 12 \<noteq> 0 then inode_set_iblock 12 0 node1 else node1);
        s3 \<leftarrow> (if blk node2 13 \<noteq> 0 then free_double_indirect s2 block_size (blk node2 13) else Some s2);
        let node3 = (if blk node2 13 \<noteq> 0 then inode_set_iblock 13 0 node2 else node2);
        s4 \<leftarrow> (if blk node3 14 \<noteq> 0 then free_block_void (blk node3 14) s3 else Some s3);
        Some (if blk node3 14 \<noteq> 0 then inode_set_iblock 14 0 node3 else node3, s4)
      })"

section \<open>All blocks of an inode\<close>

definition ext4_free_inode_data_blocks :: "kfs \<Rightarrow> inode \<Rightarrow> (inode \<times> kfs) option" where
  "ext4_free_inode_data_blocks s node =
     (case i_private node of
        None \<Rightarrow> Some (node, s)
      | Some ei \<Rightarrow> do {
          (node1, s1) \<leftarrow>
            (if S_ISREG (i_mode node) \<and> ei_flags ei AND EXT4_INODE_FLAG_EXTENTS \<noteq> 0
             then do {
               s1 \<leftarrow> ext4_free_extent_tree_node s (i_block ei);
               Some (set_root (replicate 60 0) node, s1)
             }
             else ext4_free_legacy_data_blocks s node);
          Some (node1\<lparr>i_size := 0, i_blocks := 0\<rparr>, s1)
        })"

end
