(* ===== verification/Inode_Ops.thy ===== *)
theory Inode_Ops
  imports Inode_Free Ialloc
begin

text \<open>
  The inode operations of directories, second half of fs/ext4/inode.c: lookup, create, mkdir,
  unlink and rmdir. Errors are the negated errno values of the code. Where the code calls
  d_instantiate on its dentry argument, the operation returns the inode it passes; where it takes
  the dentry out of the cache, it says so. None is an undefined operation of C: a division by a
  group size of 0, or the null pointer that ext4_iget follows when no inode object is left.
\<close>

abbreviation (input) EPERM_neg :: int where "EPERM_neg \<equiv> - 1"
abbreviation (input) ENOENT_neg :: int where "ENOENT_neg \<equiv> - 2"
abbreviation (input) EIO_neg :: int where "EIO_neg \<equiv> - 5"
abbreviation (input) ENOMEM_neg :: int where "ENOMEM_neg \<equiv> - 12"
abbreviation (input) ENOSPC_neg :: int where "ENOSPC_neg \<equiv> - 28"
abbreviation (input) ENOTEMPTY_neg :: int where "ENOTEMPTY_neg \<equiv> - 39"

section \<open>Groups, lookup\<close>

definition ext4_inode_group_of_ino :: "kfs \<Rightarrow> u32 \<Rightarrow> u32" where
  "ext4_inode_group_of_ino s ino =
     (if ino = 0 then 0
      else case s_fs_info s of
        None \<Rightarrow> 0
      | Some sbi \<Rightarrow> if s_inodes_per_group sbi = 0 then 0 else (ino - 1) div s_inodes_per_group sbi)"

definition ext4_lookup :: "kfs \<Rightarrow> inode \<Rightarrow> bytes \<Rightarrow> (inode option \<times> kfs) option" where
  "ext4_lookup s dir name = do {
     (r, s1) \<leftarrow> ext4_find_entry s dir name;
     case r of None \<Rightarrow> Some (None, s1) | Some (ino, _, _) \<Rightarrow> ext4_iget s1 ino
   }"

section \<open>Creation\<close>

definition release_inode_number :: "kfs \<Rightarrow> u32 \<Rightarrow> kfs option" where
  "release_inode_number s ino = map_option snd (ext4_free_inode s ino)"

text \<open>The fields a new inode gets from create and mkdir alike.\<close>

definition stamp_inode :: "kfs \<Rightarrow> u32 \<Rightarrow> u16 \<Rightarrow> u32 \<Rightarrow> op_tables \<Rightarrow> inode \<Rightarrow> inode" where
  "stamp_inode s ino mode nlink ops node =
     node\<lparr>i_ino := ino, i_mode := mode, i_nlink := nlink,
       i_atime := ucast (rtc_unix_time s), i_mtime := ucast (rtc_unix_time s),
       i_ctime := ucast (rtc_unix_time s), i_op := ops\<rparr>"

definition regular_private :: "kfs \<Rightarrow> u32 \<Rightarrow> ext4_inode_info \<Rightarrow> ext4_inode_info" where
  "regular_private s ino ei =
     ei\<lparr>i_block := eh_put \<lparr>eh_magic = EXT4_EXT_MAGIC, eh_entries = 0, eh_max = 4, eh_depth = 0,
                        eh_generation = 0\<rparr> (replicate 60 0),
        i_alloc_group_hint := ext4_inode_group_of_ino s ino,
        ei_flags := ei_flags ei OR EXT4_INODE_FLAG_EXTENTS\<rparr>"

definition ext4_create :: "kfs \<Rightarrow> inode \<Rightarrow> bytes \<Rightarrow> u16 \<Rightarrow> (int \<times> inode \<times> inode option \<times> kfs) option" where
  "ext4_create s dir name mode =
     (case ext4_new_inode_in_group s (ext4_inode_group_of_ino s (i_ino dir)) of
        (ino, s1) \<Rightarrow>
          if ino = 0 then Some (ENOSPC_neg, dir, None, s1)
          else case ext4_alloc_inode s1 of
            (None, s2) \<Rightarrow> do { s3 \<leftarrow> release_inode_number s2 ino; Some (ENOMEM_neg, dir, None, s3) }
          | (Some node0, s2) \<Rightarrow>
              let node = (stamp_inode s2 ino (S_IFREG OR (mode AND 0x1ff)) 1 Ext4_File_Ops node0)
                           \<lparr>i_size := 0, i_blocks := 0,
                            i_private := map_option (regular_private s2 ino) (i_private node0)\<rparr>;
                  s3 = snd (ext4_write_inode s2 node)
              in do {
                (ok, dir1, s4) \<leftarrow> ext4_add_entry s3 dir name ino;
                if ok then Some (0, dir1, Some node, s4)
                else do {
                  s5 \<leftarrow> release_inode_number (ext4_destroy_inode node s4) ino;
                  Some (ENOSPC_neg, dir1, None, s5)
                }
              })"

text \<open>The first block of a directory: the two dots and a free record.\<close>

definition mkdir_block :: "u32 \<Rightarrow> u32 \<Rightarrow> u32 \<Rightarrow> bytes" where
  "mkdir_block block_size ino parent_ino =
     (let rec1 = EXT4_DIR_REC_LEN 1; rec2 = EXT4_DIR_REC_LEN 2;
          buf1 = de_put_name 0 dot_name (de_put 0
                   \<lparr>de_inode = ino, de_rec_len = of_nat rec1, de_name_len = 1, de_file_type = 2\<rparr>
                   (zero_block block_size));
          buf2 = de_put_name rec1 dotdot_name (de_put rec1
                   \<lparr>de_inode = parent_ino, de_rec_len = of_nat rec2, de_name_len = 2, de_file_type = 2\<rparr> buf1)
      in de_put (rec1 + rec2)
           \<lparr>de_inode = 0, de_rec_len = of_nat (unat block_size - rec1 - rec2), de_name_len = 0,
            de_file_type = 0\<rparr> buf2)"

definition mkdir_node :: "kfs \<Rightarrow> u32 \<Rightarrow> u32 \<Rightarrow> u32 \<Rightarrow> u16 \<Rightarrow> inode \<Rightarrow> inode" where
  "mkdir_node s block_size ino blocknr mode node0 =
     (stamp_inode s ino (S_IFDIR OR (mode AND 0x1ff)) 2 Ext4_Dir_Ops node0)
       \<lparr>i_size := ucast block_size, i_blocks := block_size div 512,
        i_private := map_option (\<lambda>ei. (set_iblock 0 blocknr (ei\<lparr>i_block := replicate 60 0\<rparr>))
          \<lparr>i_alloc_group_hint := ext4_inode_group_of_ino s ino\<rparr>) (i_private node0)\<rparr>"

text \<open>
  The count of directories is kept in the cached descriptor of group 0, whatever the group of
  the new inode is; only for group 0 it is written.
\<close>

definition count_dir :: "(u16 \<Rightarrow> u16) \<Rightarrow> u32 \<Rightarrow> kfs \<Rightarrow> kfs" where
  "count_dir f ino s =
     (case s_fs_info s of
        None \<Rightarrow> s
      | Some sbi \<Rightarrow>
          (case s_group_desc sbi of
             None \<Rightarrow> s
           | Some gd \<Rightarrow>
               snd (ext4_write_group_desc_cached
                 (upd_sbi (\<lambda>k. k\<lparr>s_group_desc := Some (gd\<lparr>bg_used_dirs_count_lo := f (bg_used_dirs_count_lo gd)\<rparr>)\<rparr>) s)
                 (ext4_inode_group_of_ino s ino))))"

definition ext4_mkdir :: "kfs \<Rightarrow> inode \<Rightarrow> bytes \<Rightarrow> u16 \<Rightarrow> (int \<times> inode \<times> inode option \<times> kfs) option" where
  "ext4_mkdir s dir name mode =
     (let block_size = ext4_get_block_size s; parent_group = ext4_inode_group_of_ino s (i_ino dir) in
      case ext4_new_inode_in_group s parent_group of
        (ino, s1) \<Rightarrow>
          if ino = 0 then Some (ENOSPC_neg, dir, None, s1)
          else case ext4_new_block_in_group s1 parent_group of
            (blocknr, s2) \<Rightarrow>
              if blocknr = 0
              then do { s3 \<leftarrow> release_inode_number s2 ino; Some (ENOSPC_neg, dir, None, s3) }
              else let undo = (\<lambda>err dir s. do {
                         t1 \<leftarrow> free_block_void blocknr s;
                         t2 \<leftarrow> release_inode_number t1 ino;
                         Some (err, dir, None, t2) })
                in case ext4_alloc_inode s2 of
                  (None, s3) \<Rightarrow> undo ENOMEM_neg dir s3
                | (Some node0, s3) \<Rightarrow>
                    let node = mkdir_node s3 block_size ino blocknr mode node0;
                        undo_node = (\<lambda>err dir s. undo err dir (ext4_destroy_inode node s))
                    in (case inode_malloc (unat block_size) s3 of
                          (None, s4) \<Rightarrow> undo_node ENOMEM_neg dir s4
                        | (Some p, s4) \<Rightarrow>
                            if (ucast (block_size - 24) :: u16) < 8 then undo_node EIO_neg dir (inode_free p s4)
                            else (case ext4_write_block s4 blocknr (mkdir_block block_size ino (i_ino dir)) of
                              (False, s5) \<Rightarrow> undo_node EIO_neg dir (inode_free p s5)
                            | (True, s5) \<Rightarrow> do {
                                (ok, dir1, s6) \<leftarrow>
                                  ext4_add_entry (snd (ext4_write_inode (inode_free p s5) node)) dir name ino;
                                if \<not> ok then undo_node ENOSPC_neg dir1 s6
                                else let dir2 = dir1\<lparr>i_nlink := i_nlink dir1 + 1\<rparr>;
                                         s7 = (if s_fs_info s6 = None then s6 else snd (ext4_write_inode s6 dir2))
                                  in Some (0, dir2, Some node, count_dir (\<lambda>n. n + 1) ino s7)
                              })))"

section \<open>Removal\<close>

text \<open>The entry count of a directory without the two dots, an int of the code.\<close>

definition count_non_dot_entries :: "nat \<Rightarrow> bytes \<Rightarrow> u32 \<Rightarrow> nat \<times> bool" where
  "count_non_dot_entries n name ino =
     (if name = dot_name then (n, False) else if name = dotdot_name then (n, False) else (Suc n, False))"

text \<open>
  Result of unlink and rmdir: the status, whether the dentry was taken out of the cache, the
  directory, the inode object and the state. A destroyed inode object has no private part and a
  free slot.
\<close>

type_synonym remove_result = "int \<times> bool \<times> inode \<times> inode \<times> kfs"

definition destroyed :: "inode \<Rightarrow> inode" where
  "destroyed node = node\<lparr>i_private := None\<rparr>"

definition ext4_unlink :: "kfs \<Rightarrow> inode \<Rightarrow> bytes \<Rightarrow> inode \<Rightarrow> remove_result option" where
  "ext4_unlink s dir name node = do {
     (removed, s1) \<leftarrow> ext4_remove_entry s dir name;
     if \<not> removed then Some (EPERM_neg, False, dir, node, s1)
     else let node1 = node\<lparr>i_nlink := i_nlink node - 1\<rparr> in
       if i_nlink node1 = 0
       then do {
         (node2, s2) \<leftarrow> ext4_free_inode_data_blocks s1 node1;
         let node3 = node2\<lparr>i_mode := 0, i_size := 0, i_blocks := 0\<rparr>;
         let (wr, s3) = ext4_write_inode s2 node3;
         (fr, s4) \<leftarrow> ext4_free_inode s3 (i_ino node3);
         if \<not> wr \<or> \<not> fr then Some (EIO_neg, True, dir, node3, s4)
         else Some (0, True, dir, destroyed node3, ext4_destroy_inode node3 s4)
       }
       else (case ext4_write_inode s1 node1 of
               (ok, s2) \<Rightarrow> Some (if ok then 0 else EIO_neg, True, dir, node1, s2))
   }"

definition ext4_rmdir :: "kfs \<Rightarrow> inode \<Rightarrow> bytes \<Rightarrow> inode \<Rightarrow> remove_result option" where
  "ext4_rmdir s dir name node = do {
     (_, n, s1) \<leftarrow> ext4_dir_foreach count_non_dot_entries s node 0;
     if n > 0 then Some (ENOTEMPTY_neg, False, dir, node, s1)
     else do {
       (removed, s2) \<leftarrow> ext4_remove_entry s1 dir name;
       if \<not> removed then Some (ENOENT_neg, False, dir, node, s2)
       else do {
         let dir1 = dir\<lparr>i_nlink := i_nlink dir - 1\<rparr>;
         (node2, s3) \<leftarrow> ext4_free_inode_data_blocks s2 (node\<lparr>i_nlink := i_nlink node - 2\<rparr>);
         let node3 = node2\<lparr>i_mode := 0, i_size := 0, i_blocks := 0\<rparr>;
         let (wr, s4) = ext4_write_inode s3 node3;
         if \<not> wr then Some (EIO_neg, True, dir1, node3, s4)
         else do {
           (fr, s5) \<leftarrow> ext4_free_inode s4 (i_ino node3);
           if \<not> fr then Some (EIO_neg, True, dir1, node3, s5)
           else let s6 = snd (ext4_write_inode (ext4_destroy_inode node3 s5) dir1);
                    s7 = (case s_fs_info s6 of
                            None \<Rightarrow> s6
                          | Some sbi \<Rightarrow>
                              if (case s_group_desc sbi of None \<Rightarrow> False | Some gd \<Rightarrow> bg_used_dirs_count_lo gd > 0)
                              then count_dir (\<lambda>n. n - 1) (i_ino node3) s6 else s6)
             in Some (0, True, dir1, destroyed node3, s7)
         }
       }
     }
   }"

end
