(* ===== verification/Mkfs.thy ===== *)
theory Mkfs
  imports Dir_Add
begin

text \<open>
  Formatting, ext4_mkfs of fs/ext4/super.c, in its steps: the geometry, the superblock, the
  descriptor table, the backups, the bitmaps, and the root directory with its inode. The
  arithmetic is that of uint32_t; structures are built in the buffers as the code builds them.
  None stands for the division by a group size of 0 that a disk without blocks leads to.
\<close>

section \<open>Geometry\<close>

fun log2_loop :: "nat \<Rightarrow> u32 \<Rightarrow> u32" where
  "log2_loop v log = (if v > 1 then log2_loop (v div 2) (log + 1) else log)"

declare log2_loop.simps [simp del]

definition ext4_block_size_to_log :: "u32 \<Rightarrow> u32 option" where
  "ext4_block_size_to_log block_size =
     (if block_size < EXT4_MIN_BLOCK_SIZE \<or> block_size > EXT4_MAX_BLOCK_SIZE then None
      else if block_size AND (block_size - 1) \<noteq> 0 then None
      else let v = drop_bit 10 block_size in
        if v = 0 then None else Some (log2_loop (unat v) 0))"

record mkfs_geom =
  mg_block_size :: u32
  mg_total :: u32
  mg_bpg :: u32
  mg_ipg :: u32
  mg_groups :: u32
  mg_first_data :: u32
  mg_reserved :: u32
  mg_itable :: u32
  mg_gd_blocks :: u32

definition mkfs_geometry :: "u32 \<Rightarrow> u32 \<Rightarrow> mkfs_geom" where
  "mkfs_geometry block_size total_blocks =
     (let max_bpg = block_size * 8;
          bpg = (if total_blocks \<le> max_bpg then total_blocks else max_bpg);
          groups = (total_blocks + bpg - 1) div bpg
      in \<lparr>mg_block_size = block_size, mg_total = total_blocks, mg_bpg = bpg, mg_ipg = bpg, mg_groups = groups,
          mg_first_data = (if block_size = 1024 then 1 else 0),
          mg_reserved = (if bpg \<ge> 10 then 10 else if bpg \<ge> 2 then 2 else bpg),
          mg_itable = (bpg * 256 + block_size - 1) div block_size,
          mg_gd_blocks = (groups * 32 + block_size - 1) div block_size\<rparr>)"

section \<open>Superblock\<close>

abbreviation (input) sizeof_super_block :: nat where "sizeof_super_block \<equiv> 1412"

definition put_fields :: "(nat \<times> bytes) list \<Rightarrow> bytes \<Rightarrow> bytes" where
  "put_fields fs buf = foldl (\<lambda>b (off, xs). bsplice off xs b) buf fs"

text \<open>The free block count of the superblock, computed before the groups are laid out.\<close>

definition mkfs_free_blocks :: "mkfs_geom \<Rightarrow> u32" where
  "mkfs_free_blocks g =
     (let reserved = mg_total g div 20;
          itable0 = (if mg_block_size g = 1024 then 5 else 4);
          system0 = itable0 + mg_itable g + 1;
          system_blocks = (if system0 > mg_bpg g then mg_bpg g else system0);
          group_free = mg_bpg g - system_blocks
      in if mg_groups g = 1 then (if group_free > reserved then group_free - reserved else 0)
         else mg_total g - reserved - system_blocks)"

text \<open>The assigned fields with their offsets; every other byte of the structure is 0.\<close>

definition mkfs_super :: "mkfs_geom \<Rightarrow> u32 \<Rightarrow> u32 \<Rightarrow> bytes" where
  "mkfs_super g log now =
     put_fields
       [(0, enc32 (mg_groups g * mg_ipg g)), (4, enc32 (mg_total g)), (8, enc32 (mg_total g div 20)),
        (16, enc32 (mg_groups g * mg_ipg g - mg_reserved g)), (20, enc32 (mg_first_data g)),
        (24, enc32 log), (28, enc32 log), (32, enc32 (mg_bpg g)), (36, enc32 (mg_bpg g)),
        (40, enc32 (mg_ipg g)), (44, enc32 now), (48, enc32 now), (52, enc16 0), (54, enc16 0xFFFF),
        (56, enc16 EXT4_SUPER_MAGIC), (58, enc16 1), (60, enc16 1), (62, enc16 0), (64, enc32 now),
        (68, enc32 0), (72, enc32 0), (76, enc32 1), (80, enc16 0), (82, enc16 0),
        (84, enc32 (mg_reserved g + 1)), (88, enc16 256), (90, enc16 0),
        (92, enc32 0x20), (96, enc32 (0x2 OR 0x40)), (100, enc32 0), (264, enc32 now),
        (224, enc32 0), (228, enc32 0), (232, enc32 0), (236, replicate 16 0), (252, [0]), (253, [0]),
        (254, enc16 32), (104, map (\<lambda>i. of_nat (i * 17)) [0..<16]), (120, replicate 16 0),
        (136, replicate 64 0), (336, enc32 0), (340, enc32 0), (344, enc32 0),
        (12, enc32 (mkfs_free_blocks g))]
       (replicate sizeof_super_block 0)"

section \<open>Group descriptors\<close>

definition mkfs_group_blocks :: "mkfs_geom \<Rightarrow> u32 \<Rightarrow> u32" where
  "mkfs_group_blocks g grp =
     (let start = grp * mg_bpg g in
      if start + mg_bpg g > mg_total g then mg_total g - start else mg_bpg g)"

definition mkfs_used_blocks :: "mkfs_geom \<Rightarrow> u32 \<Rightarrow> u32" where
  "mkfs_used_blocks g grp =
     (let used = 1 + mg_gd_blocks g + 1 + 1 + mg_itable g + (if grp = 0 then 1 else 0) in
      if used > mkfs_group_blocks g grp then mkfs_group_blocks g grp else used)"

definition mkfs_gd :: "mkfs_geom \<Rightarrow> u32 \<Rightarrow> ext4_group_desc" where
  "mkfs_gd g grp =
     (let start = grp * mg_bpg g; bitmap = start + 1 + mg_gd_blocks g;
          free_inodes = (if grp = 0 then mg_ipg g - mg_reserved g else mg_ipg g)
      in (gd_dec (replicate 64 0))
           \<lparr>bg_block_bitmap_lo := bitmap, bg_inode_bitmap_lo := bitmap + 1, bg_inode_table_lo := bitmap + 2,
            bg_free_blocks_count_lo := ucast ((mkfs_group_blocks g grp - mkfs_used_blocks g grp) AND 0xffff),
            bg_free_inodes_count_lo := ucast (free_inodes AND 0xffff),
            bg_used_dirs_count_lo := (if grp = 0 then 1 else 0)\<rparr>)"

definition mkfs_root_dir_block :: "mkfs_geom \<Rightarrow> u32" where
  "mkfs_root_dir_block g = bg_inode_table_lo (mkfs_gd g 0) + mg_itable g"

text \<open>Entries of 32 bytes; only fields of the first 32 bytes of the structure are assigned.\<close>

definition mkfs_gd_table :: "mkfs_geom \<Rightarrow> bytes" where
  "mkfs_gd_table g =
     foldl (\<lambda>b i. bsplice (32 * i) (take 32 (gd_enc (mkfs_gd g (of_nat i)))) b)
       (replicate (unat (mg_gd_blocks g * mg_block_size g)) 0) [0..<unat (mg_groups g)]"

definition mkfs_gd_block :: "mkfs_geom \<Rightarrow> u32" where
  "mkfs_gd_block g = (if mg_block_size g = 1024 then 2 else mg_first_data g + 1)"

text \<open>Blocks of the table in order; the first failing write ends the loop.\<close>

fun write_table :: "mkfs_geom \<Rightarrow> bytes \<Rightarrow> u32 \<Rightarrow> nat list \<Rightarrow> kfs \<Rightarrow> bool \<times> kfs" where
  "write_table g table first [] s = (True, s)"
| "write_table g table first (i # is) s =
     (case ext4_write_block s (first + of_nat i)
             (bslice (i * unat (mg_block_size g)) (unat (mg_block_size g)) table) of
        (False, s1) \<Rightarrow> (False, s1)
      | (True, s1) \<Rightarrow> write_table g table first is s1)"

text \<open>
  The backups: superblock and table at the start of every later group. The third component of a
  failure says whether the table buffer is released; two of the three exits leave it allocated.
\<close>

fun mkfs_backups :: "mkfs_geom \<Rightarrow> bytes \<Rightarrow> bytes \<Rightarrow> nat list \<Rightarrow> kfs \<Rightarrow> bool \<times> bool \<times> kfs" where
  "mkfs_backups g esb table [] s = (True, True, s)"
| "mkfs_backups g esb table (grp # gs) s =
     (let start = of_nat grp * mg_bpg g in
      case super_malloc (unat (mg_block_size g)) s of
        (None, s1) \<Rightarrow> (False, False, s1)
      | (Some p, s1) \<Rightarrow>
          (case ext4_write_block s1 start (bsplice 0 esb (zero_block (mg_block_size g))) of
             (ok, s2) \<Rightarrow>
               let s3 = super_free p s2 in
               if \<not> ok then (False, False, s3)
               else (case write_table g table (start + 1) [0..<unat (mg_gd_blocks g)] s3 of
                       (False, s4) \<Rightarrow> (False, True, s4)
                     | (True, s4) \<Rightarrow> mkfs_backups g esb table gs s4)))"

section \<open>Bitmaps\<close>

definition set_bits :: "nat list \<Rightarrow> bytes \<Rightarrow> bytes" where
  "set_bits is buf = foldl (\<lambda>b i. if i div 8 < length buf then bm_mark b i else b) buf is"

definition mkfs_block_bitmap :: "mkfs_geom \<Rightarrow> u32 \<Rightarrow> bytes" where
  "mkfs_block_bitmap g grp =
     set_bits [unat (mkfs_group_blocks g grp)..<unat (mg_block_size g * 8)]
       (set_bits [0..<unat (mkfs_used_blocks g grp)] (zero_block (mg_block_size g)))"

definition mkfs_inode_bitmap :: "mkfs_geom \<Rightarrow> u32 \<Rightarrow> bytes" where
  "mkfs_inode_bitmap g grp =
     set_bits [unat (mg_ipg g)..<unat (mg_block_size g * 8)]
       (set_bits (if grp = 0 then [0..<unat (mg_reserved g)] else []) (zero_block (mg_block_size g)))"

fun mkfs_bitmaps :: "mkfs_geom \<Rightarrow> nat list \<Rightarrow> kfs \<Rightarrow> bool \<times> kfs" where
  "mkfs_bitmaps g [] s = (True, s)"
| "mkfs_bitmaps g (grp # gs) s =
     (let gd = mkfs_gd g (of_nat grp) in
      case ext4_write_block s (bg_block_bitmap_lo gd) (mkfs_block_bitmap g (of_nat grp)) of
        (False, s1) \<Rightarrow> (False, s1)
      | (True, s1) \<Rightarrow>
          (case ext4_write_block s1 (bg_inode_bitmap_lo gd) (mkfs_inode_bitmap g (of_nat grp)) of
             (False, s2) \<Rightarrow> (False, s2)
           | (True, s2) \<Rightarrow> mkfs_bitmaps g gs s2))"

section \<open>Root directory\<close>

definition mkfs_root_inode :: "mkfs_geom \<Rightarrow> u32 \<Rightarrow> ext4_inode" where
  "mkfs_root_inode g now =
     (raw_dec (replicate 140 0))
       \<lparr>raw_i_mode := 0x41ED, raw_i_size_lo := mg_block_size g, raw_i_atime := now, raw_i_ctime := now,
        raw_i_mtime := now, raw_i_links_count := 2, raw_i_blocks_lo := mg_block_size g div 512,
        raw_i_block := dec480 (put32 (replicate 60 0) 0 (mkfs_root_dir_block g))\<rparr>"

definition mkfs_inode_table_block :: "mkfs_geom \<Rightarrow> u32 \<Rightarrow> bytes" where
  "mkfs_inode_table_block g now = put_struct raw_enc (zero_block (mg_block_size g)) 256 (mkfs_root_inode g now)"

definition mkfs_root_dir :: "mkfs_geom \<Rightarrow> bytes" where
  "mkfs_root_dir g =
     (let rec1 = EXT4_DIR_REC_LEN 1; rec2 = EXT4_DIR_REC_LEN 2;
          buf1 = de_put_name 0 dot_name (de_put 0
                   \<lparr>de_inode = 2, de_rec_len = of_nat rec1, de_name_len = 1, de_file_type = 2\<rparr>
                   (zero_block (mg_block_size g)));
          buf2 = de_put_name rec1 dotdot_name (de_put rec1
                   \<lparr>de_inode = 2, de_rec_len = of_nat rec2, de_name_len = 2, de_file_type = 2\<rparr> buf1)
      in de_put (rec1 + rec2)
           \<lparr>de_inode = 0, de_rec_len = of_nat (unat (mg_block_size g) - rec1 - rec2), de_name_len = 0,
            de_file_type = 0\<rparr> buf2)"

section \<open>ext4_mkfs\<close>

text \<open>Everything after the table is in its buffer; the flag says whether both buffers are released.\<close>

definition mkfs_write_groups :: "mkfs_geom \<Rightarrow> bytes \<Rightarrow> u32 \<Rightarrow> kfs \<Rightarrow> bool \<times> bool \<times> kfs" where
  "mkfs_write_groups g esb now s =
     (let table = mkfs_gd_table g; gd_blocks = [0..<unat (mg_gd_blocks g)] in
      case write_table g table (mkfs_gd_block g) gd_blocks s of
        (False, s1) \<Rightarrow> (False, True, s1)
      | (True, s1) \<Rightarrow>
          (case mkfs_backups g esb table [1..<unat (mg_groups g)] s1 of
             (False, release, s2) \<Rightarrow> (False, release, s2)
           | (True, _, s2) \<Rightarrow>
               (case mkfs_bitmaps g [0..<unat (mg_groups g)] s2 of
                  (False, s3) \<Rightarrow> (False, True, s3)
                | (True, s3) \<Rightarrow>
                    (case ext4_write_block s3 (bg_inode_table_lo (mkfs_gd g 0)) (mkfs_inode_table_block g now) of
                       (False, s4) \<Rightarrow> (False, True, s4)
                     | (True, s4) \<Rightarrow>
                         (case ext4_write_block s4 (mkfs_root_dir_block g) (mkfs_root_dir g) of
                            (ok, s5) \<Rightarrow> (ok, True, s5))))))"

definition ext4_mkfs :: "u32 \<Rightarrow> u32 \<Rightarrow> kfs \<Rightarrow> (bool \<times> kfs) option" where
  "ext4_mkfs block_size total_blocks s =
     (case ext4_block_size_to_log block_size of
        None \<Rightarrow> Some (False, s)
      | Some log \<Rightarrow>
          let s0 = ext4_set_block_size block_size s;
              g = mkfs_geometry block_size total_blocks;
              buf_size = (if block_size > 4096 then unat block_size else 4096)
          in if mg_bpg g = 0 then None
             else Some (case super_malloc buf_size s0 of
               (None, s1) \<Rightarrow> (False, s1)
             | (Some p, s1) \<Rightarrow>
                 (case ext4_read_block_buf s1 (sb_blocknr block_size) (replicate buf_size 0) of
                    (False, _) \<Rightarrow> (False, super_free p s1)
                  | (True, buf) \<Rightarrow>
                      let esb = mkfs_super g log (rtc_unix_time s1) in
                      (case ext4_write_block s1 (sb_blocknr block_size) (bsplice (sb_offset block_size) esb buf) of
                         (False, s2) \<Rightarrow> (False, super_free p s2)
                       | (True, s2) \<Rightarrow>
                           (case super_malloc (unat (mg_gd_blocks g * block_size)) s2 of
                              (None, s3) \<Rightarrow> (False, super_free p s3)
                            | (Some q, s3) \<Rightarrow>
                                (case mkfs_write_groups g esb (rtc_unix_time s1) s3 of
                                   (ok, release, s4) \<Rightarrow>
                                     (ok, super_free p (if release then super_free q s4 else s4))))))))"

end
