(* ===== verification/Inode_Store.thy ===== *)
theory Inode_Store
  imports Inode_Disk Demo_State
begin

text \<open>
  Inodes on disk as a store: where an inode lies without the scratch buffers of the code, what
  ext4_write_inode leaves in its place and everywhere else, and what ext4_iget makes of it.
\<close>

unbundle bit_operations_syntax

section \<open>Words cut into halves and joined\<close>

lemma join_size:
  "(ucast (ucast (x AND 0xffffffff) :: u32) OR push_bit 32 (ucast (ucast (drop_bit 32 x) :: u32)) :: u64) = x"
proof -
  have m: "(0xffffffff :: u64) = mask 32" by (simp add: mask_eq_exp_minus_1)
  show ?thesis unfolding m by (rule bit_word_eqI) (auto simp: bit_simps not_le)
qed

lemma join_id:
  "(ucast (ucast (x AND 0xffff) :: u16) OR push_bit 16 (drop_bit 16 x AND 0xffff) :: u32) = x"
proof -
  have m: "(0xffff :: u32) = mask 16" by (simp add: mask_eq_exp_minus_1)
  have e: "\<not> n < 16 \<Longrightarrow> 16 + (n - 16) = n" for n :: nat by simp
  show ?thesis unfolding m by (rule bit_word_eqI) (auto simp: bit_simps not_le, metis e)
qed

lemmas join_id_simp = join_id [simplified]

lemma aligned_apart:
  assumes "(a :: nat) mod 256 = 0" "b mod 256 = 0" "a \<noteq> b"
  shows "a + 140 \<le> b \<or> b + 140 \<le> a"
proof -
  obtain k l where "a = 256 * k" "b = 256 * l" using assms(1,2) by (auto simp: mod_eq_0_iff_dvd dvd_def)
  with assms(3) show ?thesis by (cases k l rule: linorder_cases) auto
qed

lemma join_blocks:
  "(ucast ((ucast (ucast (ucast (x :: u32) AND (0xffffffff :: u64)) :: u32) OR
     push_bit 32 (ucast (ucast (drop_bit 32 (ucast x :: u64) AND 0xffff) :: u16))) :: u64) :: u32) = x"
proof -
  have m: "(0xffffffff :: u64) = mask 32" by (simp add: mask_eq_exp_minus_1)
  show ?thesis unfolding m by (rule bit_word_eqI) (auto simp: bit_simps not_le)
qed

section \<open>The place of an inode\<close>

definition inode_loc :: "kfs \<Rightarrow> u32 \<Rightarrow> (u32 \<times> u32) option" where
  "inode_loc s ino =
     (case s_fs_info s of
        None \<Rightarrow> None
      | Some sbi \<Rightarrow>
          if s_group_desc sbi = None \<or> ino = 0 \<or> s_inodes_per_group sbi = 0 \<or>
             (ino - 1) div s_inodes_per_group sbi \<ge> s_groups_count sbi then None
          else case gd_loc sbi (s_block_size sbi) ((ino - 1) div s_inodes_per_group sbi) of
            None \<Rightarrow> None
          | Some (gd_block, gd_off, copy_sz) \<Rightarrow>
              (case ext4_read_block s gd_block of
                 None \<Rightarrow> None
               | Some gd_buf \<Rightarrow>
                   let pos = ((ino - 1) mod s_inodes_per_group sbi) * EXT4_DISK_INODE_SIZE;
                       b = bg_inode_table_lo (gd_copy_out gd_buf gd_off copy_sz) + pos div s_block_size sbi
                   in if b \<ge> s_blocks_count sbi then None else Some (b, pos mod s_block_size sbi)))"

definition super_room :: "kfs \<Rightarrow> bool" where
  "super_room s \<longleftrightarrow> 0 < pool_free_count (pool_super s) \<and>
     (case s_fs_info s of None \<Rightarrow> True | Some sbi \<Rightarrow> unat (s_block_size sbi) \<le> 65536)"

lemma get_inode_disk_loc_eq:
  assumes "super_room s"
  shows "ext4_get_inode_disk_loc s ino = (inode_loc s ino, s)"
proof (cases "s_fs_info s")
  case None
  then show ?thesis by (simp add: ext4_get_inode_disk_loc_def inode_loc_def)
next
  case (Some sbi)
  then obtain p s1 where m: "super_malloc (unat (s_block_size sbi)) s = (Some p, s1)"
    using assms super_malloc_room [of "unat (s_block_size sbi)" s] by (auto simp: super_room_def)
  have "ext4_read_block s1 = ext4_read_block s"
    by (subst super_malloc_Some(1) [OF m]) simp
  then show ?thesis
    using Some m super_malloc_Some(2) [OF m]
    by (simp add: ext4_get_inode_disk_loc_def inode_loc_def Let_def split: option.splits)
qed

definition raw_at :: "kfs \<Rightarrow> u32 \<times> u32 \<Rightarrow> ext4_inode option" where
  "raw_at s p = (case p of (b, pos) \<Rightarrow> map_option (\<lambda>buf. get_struct 140 raw_dec buf (unat pos)) (ext4_read_block s b))"

section \<open>Writing\<close>

lemma write_inode_eq:
  assumes "super_room s" "i_ino node \<noteq> 0"
  shows "ext4_write_inode s node =
    (case (inode_loc s (i_ino node), i_private node) of
       (Some (b, pos), Some ei) \<Rightarrow>
         (case ext4_read_block s b of
            None \<Rightarrow> (False, s)
          | Some buf \<Rightarrow>
              ext4_write_block s b (put_struct raw_enc buf (unat pos)
                (raw_of_inode node ei (get_struct 140 raw_dec buf (unat pos)))))
     | _ \<Rightarrow> (False, s))"
proof (cases "s_fs_info s")
  case None
  then show ?thesis by (simp add: ext4_write_inode_def inode_loc_def split: option.splits)
next
  case (Some sbi)
  then obtain p s1 where m: "super_malloc (unat (s_block_size sbi)) s = (Some p, s1)"
    using assms super_malloc_room [of "unat (s_block_size sbi)" s] by (auto simp: super_room_def)
  have rd: "ext4_read_block s1 = ext4_read_block s"
    by (subst super_malloc_Some(1) [OF m]) simp
  have wr: "(case ext4_write_block s1 b buf of (ok, s2) \<Rightarrow> (ok, super_free p s2)) = ext4_write_block s b buf" for b buf
  proof -
    obtain ok t where w: "ext4_write_block s b buf = (ok, t)" by fastforce
    obtain d where t: "t = s\<lparr>g_disk := d\<rparr>" using ext4_write_block_disk [OF w] by blast
    obtain q where s1: "s1 = s\<lparr>pool_super := q\<rparr>" using super_malloc_Some(1) [OF m] by blast
    have "ext4_write_block s1 b buf = (ok, s1\<lparr>g_disk := d\<rparr>)"
      using w by (simp add: s1 t write_block_pool)
    then show ?thesis using w t super_malloc_Some(3) [OF m] by simp
  qed
  show ?thesis
    using assms(2) Some m super_malloc_Some(2) [OF m] rd wr
    by (simp add: ext4_write_inode_def get_inode_disk_loc_eq [OF assms(1)] Let_def split: option.splits)
qed

text \<open>The block and offset fit the device and the structure fits the block.\<close>

definition loc_ok :: "kfs \<Rightarrow> u32 \<times> u32 \<Rightarrow> bool" where
  "loc_ok s p \<longleftrightarrow> (case p of (b, pos) \<Rightarrow> fs_addr s b \<and> unat pos mod 256 = 0 \<and> unat pos + 256 \<le> fs_bsz s)"

lemma write_inode_stores:
  assumes io: "fs_io_ok s" "super_room s" "i_ino node \<noteq> 0"
    and loc: "inode_loc s (i_ino node) = Some p" "loc_ok s p" "i_private node = Some ei"
    and w: "ext4_write_inode s node = (True, s')"
  shows "raw_at s' p = map_option (raw_of_inode node ei) (raw_at s p)" "raw_at s p \<noteq> None"
    and "loc_ok s q \<Longrightarrow> q \<noteq> p \<Longrightarrow> raw_at s' q = raw_at s q"
    and "fs_addr s c \<Longrightarrow> c \<noteq> fst p \<Longrightarrow> ext4_read_block s' c = ext4_read_block s c"
    and "fs_io_ok s'" "s' = s\<lparr>g_disk := g_disk s'\<rparr>"
proof -
  obtain b o1 where p: "p = (b, o1)" by fastforce
  have ad: "fs_addr s b" and al: "unat o1 mod 256 = 0" and fit: "unat o1 + 256 \<le> fs_bsz s"
    using loc(2) by (auto simp: p loc_ok_def)
  obtain buf where r: "ext4_read_block s b = Some buf" and
    wr: "ext4_write_block s b (put_struct raw_enc buf (unat o1)
           (raw_of_inode node ei (get_struct 140 raw_dec buf (unat o1)))) = (True, s')"
    using w loc(1,3) by (auto simp: write_inode_eq [OF io(2,3)] p split: option.splits)
  let ?new = "put_struct raw_enc buf (unat o1) (raw_of_inode node ei (get_struct 140 raw_dec buf (unat o1)))"
  have len: "length buf = fs_bsz s" by (rule io.rd_len [OF io(1) ad r])
  then have nl: "length ?new = fs_bsz s" using fit by (simp add: pk_raw.length_put)
  have rd: "ext4_read_block s' b = Some ?new" by (rule io.wr_same [OF io(1) ad nl wr])
  show "raw_at s p \<noteq> None" by (simp add: raw_at_def p r)
  show "raw_at s' p = map_option (raw_of_inode node ei) (raw_at s p)"
    using fit len by (simp add: raw_at_def p r rd pk_raw.get_put_same)
  show other: "ext4_read_block s' c = ext4_read_block s c" if "fs_addr s c" "c \<noteq> fst p" for c
    by (rule io.wr_other [OF io(1) ad that(1) nl wr]) (use that in \<open>simp add: p\<close>)
  show "fs_io_ok s'" using io.wr_good [OF io(1) ad nl wr] by simp
  show "s' = s\<lparr>g_disk := g_disk s'\<rparr>" by (rule ext4_write_block_disk [OF wr])
  show "raw_at s' q = raw_at s q" if q: "loc_ok s q" "q \<noteq> p" for q
  proof -
    obtain c o2 where qq: "q = (c, o2)" by fastforce
    show ?thesis
    proof (cases "c = b")
      case False
      with q other [of c] show ?thesis by (simp add: raw_at_def qq p loc_ok_def)
    next
      case True
      then have "unat o2 \<noteq> unat o1" "unat o2 mod 256 = 0"
        using q by (auto simp: qq p loc_ok_def dest: word_eq_by_unat)
      then have "unat o2 + 140 \<le> unat o1 \<or> unat o1 + 140 \<le> unat o2"
        using aligned_apart al by metis
      then have "get_struct 140 raw_dec ?new (unat o2) = get_struct 140 raw_dec buf (unat o2)"
        using fit len by (intro pk_raw.get_put_other) auto
      then show ?thesis using True by (simp add: raw_at_def qq r rd)
    qed
  qed
qed

section \<open>Reading\<close>

lemma iget_eq:
  assumes "super_room s" "inode_loc s ino = Some p" "raw_at s p = Some raw"
    and sbi: "s_fs_info s = Some sbi" and al: "super_malloc (unat (s_block_size sbi)) s = (Some b, s1)"
    "ext4_alloc_inode s1 = (Some node, s2)"
  shows "ext4_iget s ino = Some (Some (ext4_fill_inode ino raw (s_inodes_per_group sbi) node), super_free b s2)"
proof -
  have rd: "ext4_read_block s1 = ext4_read_block s"
    by (subst super_malloc_Some(1) [OF al(1)]) simp
  obtain b' o' where "p = (b', o')" by fastforce
  with assms rd show ?thesis
    by (auto simp: ext4_iget_def get_inode_disk_loc_eq raw_at_def split: option.splits)
qed

text \<open>The fields of an inode that survive on disk.\<close>

definition same_inode :: "inode \<Rightarrow> inode \<Rightarrow> bool" where
  "same_inode a b \<longleftrightarrow> i_ino a = i_ino b \<and> i_mode a = i_mode b \<and> i_size a = i_size b \<and> i_blocks a = i_blocks b \<and>
     i_uid a = i_uid b \<and> i_gid a = i_gid b \<and> i_nlink a = i_nlink b \<and>
     i_atime a = i_atime b \<and> i_mtime a = i_mtime b \<and> i_ctime a = i_ctime b \<and>
     map_option i_block (i_private a) = map_option i_block (i_private b) \<and>
     map_option ei_flags (i_private a) = map_option ei_flags (i_private b)"

lemma ucast_small:
  "unat (x :: u64) < 2 ^ 32 \<Longrightarrow> (ucast (ucast x :: u32) :: u64) = x"
  "unat (y :: u32) < 2 ^ 16 \<Longrightarrow> (ucast (ucast y :: u16) :: u32) = y"
  by (rule word_eq_by_unat, simp add: unat_ucast_fit)+

lemma fill_of_raw:
  assumes "i_private node = Some ei" "length (i_block ei) = 60" "i_private fresh \<noteq> None"
    and "unat (i_atime node) < 2 ^ 32" "unat (i_mtime node) < 2 ^ 32" "unat (i_ctime node) < 2 ^ 32"
    and "unat (i_nlink node) < 2 ^ 16"
  shows "same_inode (ext4_fill_inode (i_ino node) (raw_of_inode node ei raw) ipg fresh) node"
  using assms
  by (auto simp: same_inode_def ext4_fill_inode_def raw_of_inode_def ext4_fill_inode_info_def ucast_small
      enc480_dec480 join_size join_id join_id_simp join_blocks)

end
