(* ===== verification/Inode_Props.thy ===== *)
theory Inode_Props
  imports Inode_Store
begin

text \<open>
  Writing an inode replaces its slot of the inode table and nothing else, and reading it back
  gives the inode that was written.
\<close>

definition demo_node :: inode where
  "demo_node = \<lparr>i_slot = 3, i_ino = 12, i_nlink = 1, i_uid = 1000, i_gid = 100, i_mode = 0x81A4,
     i_atime = 50, i_mtime = 60, i_ctime = 70, i_size = 5000000000, i_blocks = 8, i_state = I_DIRTY, i_count = 2,
     i_op = Ext4_File_Ops,
     i_private = Some \<lparr>ei_buf = 4, i_block = replicate 60 1, ei_flags = EXT4_INODE_FLAG_EXTENTS, i_alloc_group_hint = 0\<rparr>\<rparr>"

lemma demo_gd_block_read: "ext4_read_block demo_fs 2 = Some (gd_enc demo_gd @ replicate 448 0 @ replicate 512 0)"
  by (subst demo_read) (simp_all add: demo_disk_def)

lemma demo_gd_copy: "gd_copy_out (gd_enc demo_gd @ replicate 448 0 @ replicate 512 0) 0 64 = demo_gd"
  by (simp add: gd_copy_out_def bslice_def pk_gd.len_enc pk_gd.dec_enc)

lemma demo_inode_loc: "inode_loc demo_fs 12 = Some (7, 768)"
  by (simp add: inode_loc_def demo_gd_loc demo_gd_block_read demo_gd_copy Let_def)
    (simp add: demo_gd_def)

lemma demo_loc_ok: "loc_ok demo_fs (7, 768)"
  by (simp add: loc_ok_def fs_addr_def)

lemma demo_pools: "pool_super demo_fs = replicate 256 False" "vfs_inode_used demo_fs = replicate 128 False"
  by (simp_all add: demo_with_def)

lemma demo_super_room: "super_room demo_fs"
  by (simp add: super_room_def demo_pools pool_free_count_def)

lemma demo_write_inode: "\<exists>s'. ext4_write_inode demo_fs demo_node = (True, s')"
proof -
  have ino: "i_ino demo_node = 12" by (simp add: demo_node_def)
  obtain ei where p: "i_private demo_node = Some ei" by (auto simp: demo_node_def)
  have ad: "fs_addr demo_fs 7" using demo_loc_ok by (simp add: loc_ok_def)
  note io = demo_io_ok [OF length_demo_bm(1)]
  obtain buf where r: "ext4_read_block demo_fs 7 = Some buf" using io.rd_up [OF io ad] demo_up by fastforce
  have "length buf = 1024" using io.rd_len [OF io ad r] by simp
  then have "fst (ext4_write_block demo_fs 7 (put_struct raw_enc buf 768 x))" for x
    using io.wr_up [OF io ad, of "put_struct raw_enc buf 768 x"] demo_up by (simp add: pk_raw.length_put)
  then have w: "\<exists>s'. ext4_write_block demo_fs 7 (put_struct raw_enc buf 768 x) = (True, s')" for x
    by (metis prod.collapse)
  show ?thesis
    using write_inode_eq [OF demo_super_room, of demo_node] w by (simp add: ino demo_inode_loc p r)
qed

section \<open>Writing\<close>

text \<open>C15: A successful ext4_write_inode leaves at the place of the inode the structure it had there with
  the fields of the inode filled in, leaves every other inode slot as it was, the neighbours in the
  same block included, changes no other block, and changes nothing of the state but the disk.\<close>

theorem write_inode_replaces_one_slot:
  assumes "fs_io_ok s" "super_room s" "i_ino node \<noteq> 0"
    and "inode_loc s (i_ino node) = Some p" "loc_ok s p" "i_private node = Some ei"
    and "ext4_write_inode s node = (True, s')"
  shows "raw_at s' p = map_option (raw_of_inode node ei) (raw_at s p) \<and>
    (\<forall>q. loc_ok s q \<and> q \<noteq> p \<longrightarrow> raw_at s' q = raw_at s q) \<and>
    (\<forall>c. fs_addr s c \<and> c \<noteq> fst p \<longrightarrow> ext4_read_block s' c = ext4_read_block s c) \<and>
    s' = s\<lparr>g_disk := g_disk s'\<rparr>"
  using write_inode_stores [OF assms] by blast

theorem write_inode_replaces_one_slot_witness:
  "\<exists>s'. ext4_write_inode demo_fs demo_node = (True, s') \<and>
     raw_at s' (7, 512) = raw_at demo_fs (7, 512) \<and> ext4_read_block s' 2 = ext4_read_block demo_fs 2"
proof -
  obtain s' where w: "ext4_write_inode demo_fs demo_node = (True, s')" using demo_write_inode by blast
  have "loc_ok demo_fs (7, 512)" "fs_addr demo_fs 2" by (simp_all add: loc_ok_def fs_addr_def)
  with write_inode_replaces_one_slot [OF demo_io_ok [OF length_demo_bm(1)] demo_super_room, of demo_node "(7, 768)" _ s']
    w demo_inode_loc demo_loc_ok show ?thesis
    by (auto simp: demo_node_def)
qed

section \<open>Reading back\<close>

lemma alloc_inode_room:
  assumes "first_unused (vfs_inode_used s) \<noteq> None" "0 < pool_free_count (pool_super s)"
  shows "\<exists>node s'. ext4_alloc_inode s = (Some node, s') \<and> i_private node \<noteq> None"
proof -
  obtain i where i: "first_unused (vfs_inode_used s) = Some i" using assms(1) by auto
  let ?s = "s\<lparr>vfs_inode_used := (vfs_inode_used s)[i := True]\<rparr>"
  obtain p t where "super_malloc 72 ?s = (Some p, t)"
    using super_malloc_room [of 72 ?s] assms(2) by auto
  then show ?thesis by (simp add: ext4_alloc_inode_def vfs_alloc_inode_def i)
qed

text \<open>C14: Reading an inode with ext4_iget after ext4_write_inode wrote it gives an inode with the same
  number, mode, size, block count, owner, group, link count, times, block map and flags, provided
  the times and the link count fit their fields on disk, the descriptor of its group is not in the
  block written, and the pools have an object left.\<close>

theorem iget_after_write_inode:
  assumes "fs_io_ok s" "super_room s" "i_ino node \<noteq> 0" "s_fs_info s = Some sbi"
    and "inode_loc s (i_ino node) = Some p" "loc_ok s p" "i_private node = Some ei" "length (i_block ei) = 60"
    and "gd_loc sbi (s_block_size sbi) ((i_ino node - 1) div s_inodes_per_group sbi) = Some (gb, go, gc)"
    and "fs_addr s gb" "gb \<noteq> fst p"
    and "first_unused (vfs_inode_used s) \<noteq> None" "2 \<le> pool_free_count (pool_super s)"
    and "unat (i_atime node) < 2 ^ 32" "unat (i_mtime node) < 2 ^ 32" "unat (i_ctime node) < 2 ^ 32"
    and "unat (i_nlink node) < 2 ^ 16"
    and "ext4_write_inode s node = (True, s')"
  shows "\<exists>node' s''. ext4_iget s' (i_ino node) = Some (Some node', s'') \<and> same_inode node' node"
proof -
  note W = write_inode_stores [OF assms(1-3,5-7,18)]
  obtain d where s': "s' = s\<lparr>g_disk := d\<rparr>" using W(6) by blast
  obtain raw where raw: "raw_at s p = Some raw" using W(2) by blast
  have raw': "raw_at s' p = Some (raw_of_inode node ei raw)" using W(1) raw by simp
  have gd: "ext4_read_block s' gb = ext4_read_block s gb" by (rule W(4) [OF assms(10,11)])
  have sbi': "s_fs_info s' = Some sbi" using assms(4) by (simp add: s')
  have "inode_loc s' (i_ino node) = inode_loc s (i_ino node)"
    by (simp add: inode_loc_def sbi' assms(4,9) gd)
  with assms(5) have loc': "inode_loc s' (i_ino node) = Some p" by simp
  have room': "super_room s'" using assms(2) by (simp add: super_room_def s')
  obtain b s1 where m: "super_malloc (unat (s_block_size sbi)) s' = (Some b, s1)"
    using super_malloc_room [of "unat (s_block_size sbi)" s'] assms(2,4) by (auto simp: super_room_def s')
  have "Suc (pool_free_count (pool_super s1)) = pool_free_count (pool_super s')"
    using m by (auto simp: super_malloc_def split: prod.splits dest: pool_free_count_malloc)
  moreover have "vfs_inode_used s1 = vfs_inode_used s'" by (subst super_malloc_Some(1) [OF m]) simp
  ultimately obtain fresh s2 where a: "ext4_alloc_inode s1 = (Some fresh, s2)" "i_private fresh \<noteq> None"
    using alloc_inode_room [of s1] assms(12,13) by (auto simp: s')
  from iget_eq [OF room' loc' raw' sbi' m a(1)] fill_of_raw [OF assms(7,8) a(2) assms(14-17)]
  show ?thesis by blast
qed

theorem iget_after_write_inode_witness:
  "\<exists>s' node' s''. ext4_write_inode demo_fs demo_node = (True, s') \<and>
     ext4_iget s' 12 = Some (Some node', s'') \<and> i_size node' = 5000000000 \<and> i_uid node' = 1000"
proof -
  obtain s' where w: "ext4_write_inode demo_fs demo_node = (True, s')" using demo_write_inode by blast
  have "first_unused (vfs_inode_used demo_fs) \<noteq> None" "2 \<le> pool_free_count (pool_super demo_fs)"
    by (simp_all add: demo_pools first_unused_None_iff pool_free_count_def)
  moreover have "fs_addr demo_fs 2" "gd_loc demo_sbi (s_block_size demo_sbi) 0 = Some (2, 0, 64)"
    by (simp_all add: fs_addr_def demo_gd_loc)
  ultimately have "\<exists>node' s''. ext4_iget s' (i_ino demo_node) = Some (Some node', s'') \<and> same_inode node' demo_node"
    by (intro iget_after_write_inode [OF demo_io_ok [OF length_demo_bm(1)] demo_super_room, where s' = s' and p = "(7, 768)"
        and sbi = demo_sbi and gb = 2 and go = 0 and gc = 64 and
        ei = "\<lparr>ei_buf = 4, i_block = replicate 60 1, ei_flags = EXT4_INODE_FLAG_EXTENTS, i_alloc_group_hint = 0\<rparr>"]) (use w demo_inode_loc demo_loc_ok in \<open>simp_all add: demo_node_def\<close>)
  with w show ?thesis by (auto simp: same_inode_def demo_node_def)
qed

end
