(* ===== verification/File.thy ===== *)
theory File
  imports Inode_Free
begin

text \<open>
  Regular files and directory streams, fs/ext4/file.c: the two block maps, open with truncation,
  read, write, release and readdir. Positions are 64-bit words compared as signed numbers, as
  loff_t is; a data buffer is the list of the bytes that remain of it. None stands for the
  division by a block size of 0.
\<close>

section \<open>The direct and indirect map\<close>

definition legacy_preferred_group :: "kfs \<Rightarrow> inode \<Rightarrow> ext4_inode_info \<Rightarrow> u32" where
  "legacy_preferred_group s node ei =
     (if i_ino node = 0 then 0
      else case s_fs_info s of
        None \<Rightarrow> i_alloc_group_hint ei
      | Some sbi \<Rightarrow>
          if i_alloc_group_hint ei \<noteq> 0 \<or> s_inodes_per_group sbi = 0 then i_alloc_group_hint ei
          else (i_ino node - 1) div s_inodes_per_group sbi)"

text \<open>
  A slot of an indirect block that is in the buffer: the block it names, or a new one that is
  entered and written back. The block (0 for a hole) and is_new.
\<close>

definition map_slot :: "kfs \<Rightarrow> u32 \<Rightarrow> u32 \<Rightarrow> bytes \<Rightarrow> nat \<Rightarrow> bool \<Rightarrow> (u32 \<times> bool) option \<times> kfs" where
  "map_slot s grp blk buf idx create =
     (if ents_get buf idx = 0 \<and> create
      then (case ext4_new_block_in_group s grp of
              (data_blk, s1) \<Rightarrow>
                if data_blk = 0 then (None, s1)
                else (case ext4_write_block s1 blk (ents_put idx data_blk buf) of
                        (ok, s2) \<Rightarrow> (if ok then Some (data_blk, True) else None, s2)))
      else (Some (ents_get buf idx, False), s))"

text \<open>
  A top-level indirect block i_block[k]: its contents, read or freshly zeroed and written. The
  result is None for an error, Some None for a hole.
\<close>

definition top_indirect ::
  "kfs \<Rightarrow> inode \<Rightarrow> ext4_inode_info \<Rightarrow> u32 \<Rightarrow> nat \<Rightarrow> bool \<Rightarrow> (u32 \<times> bytes) option option \<times> inode \<times> kfs" where
  "top_indirect s node ei grp k create =
     (let blk = get_iblock ei k in
      if blk \<noteq> 0
      then (case ext4_read_block s blk of
              None \<Rightarrow> (None, node, s)
            | Some buf \<Rightarrow> (Some (Some (blk, buf)), node, s))
      else if \<not> create then (Some None, node, s)
      else (case ext4_new_block_in_group s grp of
              (b, s1) \<Rightarrow>
                if b = 0 then (None, node, s1)
                else (case ext4_write_block s1 b (zero_block (ext4_get_block_size s)) of
                        (ok, s2) \<Rightarrow>
                          (if ok then Some (Some (b, zero_block (ext4_get_block_size s))) else None,
                           inode_set_iblock k b node, s2))))"

definition legacy_single ::
  "kfs \<Rightarrow> inode \<Rightarrow> ext4_inode_info \<Rightarrow> u32 \<Rightarrow> nat \<Rightarrow> bool \<Rightarrow> (u32 \<times> bool) option \<times> inode \<times> kfs" where
  "legacy_single s node ei grp idx create =
     (case file_malloc (unat (ext4_get_block_size s)) s of
        (None, s1) \<Rightarrow> (None, node, s1)
      | (Some p, s1) \<Rightarrow>
          (case top_indirect s1 node ei grp 12 create of
             (None, node1, s2) \<Rightarrow> (None, node1, file_free p s2)
           | (Some None, node1, s2) \<Rightarrow> (Some (0, False), node1, file_free p s2)
           | (Some (Some (blk, buf)), node1, s2) \<Rightarrow>
               (case map_slot s2 grp blk buf idx create of (r, s3) \<Rightarrow> (r, node1, file_free p s3))))"

text \<open>The second level of a double indirect map: the block named by first_buf[first_index].\<close>

definition second_indirect ::
  "kfs \<Rightarrow> u32 \<Rightarrow> u32 \<Rightarrow> bytes \<Rightarrow> nat \<Rightarrow> bool \<Rightarrow> (u32 \<times> bytes) option option \<times> kfs" where
  "second_indirect s grp first_blk first_buf i create =
     (let b = ents_get first_buf i; zeros = zero_block (ext4_get_block_size s) in
      if b \<noteq> 0
      then (case ext4_read_block s b of None \<Rightarrow> (None, s) | Some buf \<Rightarrow> (Some (Some (b, buf)), s))
      else if \<not> create then (Some None, s)
      else (case ext4_new_block_in_group s grp of
              (b, s1) \<Rightarrow>
                if b = 0 then (None, s1)
                else (case ext4_write_block s1 first_blk (ents_put i b first_buf) of
                        (False, s2) \<Rightarrow> (None, s2)
                      | (True, s2) \<Rightarrow>
                          (case ext4_write_block s2 b zeros of
                             (ok, s3) \<Rightarrow> (if ok then Some (Some (b, zeros)) else None, s3)))))"

definition legacy_double ::
  "kfs \<Rightarrow> inode \<Rightarrow> ext4_inode_info \<Rightarrow> u32 \<Rightarrow> u32 \<Rightarrow> bool \<Rightarrow> (u32 \<times> bool) option \<times> inode \<times> kfs" where
  "legacy_double s node ei grp lblock create =
     (let block_size = ext4_get_block_size s; ptrs = block_size div 4 in
      if lblock \<ge> ptrs * ptrs then (Some (0, False), node, s)
      else case file_malloc (unat block_size) s of
        (None, s1) \<Rightarrow> (None, node, s1)
      | (Some p, s1) \<Rightarrow>
          (case top_indirect s1 node ei grp 13 create of
             (None, node1, s2) \<Rightarrow> (None, node1, file_free p s2)
           | (Some None, node1, s2) \<Rightarrow> (Some (0, False), node1, file_free p s2)
           | (Some (Some (first_blk, first_buf)), node1, s2) \<Rightarrow>
               (case file_malloc (unat block_size) s2 of
                  (None, s3) \<Rightarrow> (None, node1, file_free p s3)
                | (Some q, s3) \<Rightarrow>
                    (case second_indirect s3 grp first_blk first_buf (unat (lblock div ptrs)) create of
                       (None, s4) \<Rightarrow> (None, node1, file_free q (file_free p s4))
                     | (Some None, s4) \<Rightarrow> (Some (0, False), node1, file_free q (file_free p s4))
                     | (Some (Some (second_blk, ind_buf)), s4) \<Rightarrow>
                         (case map_slot s4 grp second_blk ind_buf (unat (lblock mod ptrs)) create of
                            (r, s5) \<Rightarrow> (r, node1, file_free q (file_free p s5)))))))"

definition ext4_legacy_get_data_block ::
  "kfs \<Rightarrow> inode \<Rightarrow> u32 \<Rightarrow> bool \<Rightarrow> (u32 \<times> bool) option \<times> inode \<times> kfs" where
  "ext4_legacy_get_data_block s node lblock create =
     (let ptrs = ext4_get_block_size s div 4 in
      case i_private node of
        None \<Rightarrow> (None, node, s)
      | Some ei \<Rightarrow>
          let grp = legacy_preferred_group s node ei in
          if ext4_get_block_size s = 0 then (None, node, s)
          else if lblock < 12
          then (if get_iblock ei (unat lblock) = 0 \<and> create
                then (case ext4_new_block_in_group s grp of
                        (blk, s1) \<Rightarrow>
                          if blk = 0 then (None, node, s1)
                          else (Some (blk, True), inode_set_iblock (unat lblock) blk node, s1))
                else (Some (get_iblock ei (unat lblock), False), node, s))
          else if lblock - 12 < ptrs then legacy_single s node ei grp (unat (lblock - 12)) create
          else legacy_double s node ei grp (lblock - 12 - ptrs) create)"

section \<open>The block map of a file\<close>

text \<open>Asking a regular file for a block to write turns the extents flag on.\<close>

definition ext4_get_data_block ::
  "kfs \<Rightarrow> inode \<Rightarrow> u32 \<Rightarrow> bool \<Rightarrow> (u32 \<times> bool) option \<times> inode \<times> kfs" where
  "ext4_get_data_block s node lblock create =
     (case i_private node of
        None \<Rightarrow> ext4_legacy_get_data_block s node lblock create
      | Some ei \<Rightarrow>
          if S_ISREG (i_mode node)
          then let node1 = (if create then ei_or_flags EXT4_INODE_FLAG_EXTENTS node else node) in
            if create \<or> ei_flags ei AND EXT4_INODE_FLAG_EXTENTS \<noteq> 0
            then ext4_extents_get_block s node1 lblock create
            else ext4_legacy_get_data_block s node1 lblock create
          else ext4_legacy_get_data_block s node lblock create)"

section \<open>Open and release\<close>

abbreviation (input) O_CREAT :: u32 where "O_CREAT \<equiv> 0x40"
abbreviation (input) O_EXCL :: u32 where "O_EXCL \<equiv> 0x80"
abbreviation (input) O_TRUNC :: u32 where "O_TRUNC \<equiv> 0x200"

definition write_dirty :: "kfs \<Rightarrow> inode \<Rightarrow> inode \<times> kfs" where
  "write_dirty s node =
     (case ext4_write_inode s node of
        (ok, s1) \<Rightarrow> (if ok then node\<lparr>i_state := i_state node AND NOT I_DIRTY\<rparr> else node, s1))"

definition ext4_file_open :: "kfs \<Rightarrow> inode \<Rightarrow> u32 \<Rightarrow> (inode \<times> kfs) option" where
  "ext4_file_open s node f_flags =
     (if S_ISREG (i_mode node) \<and> f_flags AND O_TRUNC \<noteq> 0 \<and> f_flags AND 3 \<noteq> 0
      then do {
        (node1, s1) \<leftarrow> ext4_free_inode_data_blocks s node;
        Some (write_dirty s1 (node1\<lparr>i_state := i_state node1 OR I_DIRTY\<rparr>))
      }
      else Some (node, s))"

definition ext4_file_release :: "kfs \<Rightarrow> inode \<Rightarrow> inode \<times> kfs" where
  "ext4_file_release s node =
     (if i_state node AND I_DIRTY \<noteq> 0 then write_dirty s node else (node, s))"

section \<open>Reading\<close>

lemma map_blocks_len:
  "ext4_extents_map_blocks s node l max_blocks stale = (Some (b, n), s') \<Longrightarrow> n \<le> max_blocks"
  by (auto simp: ext4_extents_map_blocks_def Let_def split: option.splits if_splits prod.splits)

text \<open>
  The result of an iteration: an error, the end of the loop, or the bytes read and the state.
\<close>

datatype 'a loop_step = Step_Error kfs | Step_Break kfs | Step_Go 'a kfs

definition read_step ::
  "ext4_extent option \<Rightarrow> kfs \<Rightarrow> inode \<Rightarrow> u64 \<Rightarrow> nat \<Rightarrow> bytes loop_step" where
  "read_step stale s node pos count =
     (let block_size = ext4_get_block_size s;
          pos32 = (ucast (pos AND 0xffffffff) :: u32);
          block_idx = pos32 div block_size;
          off_in_block = unat (pos32 mod block_size);
          to_copy = min (unat block_size - off_in_block) count
      in if off_in_block = 0 \<and> to_copy = unat block_size \<and> S_ISREG (i_mode node) \<and>
            (case i_private node of None \<Rightarrow> False | Some ei \<Rightarrow> ei_flags ei AND EXT4_INODE_FLAG_EXTENTS \<noteq> 0)
         then (case ext4_extents_map_blocks s node block_idx (of_nat (min (count div unat block_size) 64)) stale of
                 (None, s1) \<Rightarrow> Step_Error s1
               | (Some (blocknr, run_blocks), s1) \<Rightarrow>
                   if blocknr = 0 \<or> run_blocks = 0 then Step_Break s1
                   else if run_blocks > 1
                   then (case ext4_read_blocks s1 blocknr run_blocks
                               (replicate (unat run_blocks * unat block_size) 0) of
                           (ok, buf) \<Rightarrow> if ok then Step_Go buf s1 else Step_Error s1)
                   else (case ext4_read_block s1 blocknr of
                           None \<Rightarrow> Step_Error s1 | Some buf \<Rightarrow> Step_Go buf s1))
         else (case ext4_get_data_block s node block_idx False of
                 (None, _, s1) \<Rightarrow> Step_Error s1
               | (Some (blocknr, _), _, s1) \<Rightarrow>
                   if blocknr = 0 then Step_Break s1
                   else (case ext4_read_block s1 blocknr of
                           None \<Rightarrow> Step_Error s1
                         | Some buf \<Rightarrow> Step_Go (bslice off_in_block to_copy buf) s1)))"

text \<open>
  The loop: every step that goes on reads at least one byte and at most count. The recursion
  makes that explicit; a step without progress, which a block size of 0 would give, ends it with
  None.
\<close>

function read_loop ::
  "ext4_extent option \<Rightarrow> kfs \<Rightarrow> inode \<Rightarrow> u64 \<Rightarrow> nat \<Rightarrow> bytes \<Rightarrow> (bytes option \<times> u64 \<times> kfs) option" where
  "read_loop stale s node pos count acc =
     (if count = 0 then Some (Some acc, pos, s)
      else if ext4_get_block_size s = 0 then None
      else case read_step stale s node pos count of
        Step_Error s1 \<Rightarrow> Some (None, pos, s1)
      | Step_Break s1 \<Rightarrow> Some (Some acc, pos, s1)
      | Step_Go xs s1 \<Rightarrow>
          if xs = [] then None
          else read_loop stale s1 node (pos + of_nat (length xs)) (count - length xs) (acc @ xs))"
  by pat_completeness auto
termination
  by (relation "measure (\<lambda>(stale, s, node, pos, count, acc). count)") auto

declare read_loop.simps [simp del]

text \<open>The bytes read, None for -1, the new position and the state.\<close>

definition ext4_file_read ::
  "ext4_extent option \<Rightarrow> kfs \<Rightarrow> inode \<Rightarrow> u64 \<Rightarrow> u32 \<Rightarrow> (bytes option \<times> u64 \<times> kfs) option" where
  "ext4_file_read stale s node pos count =
     (let end_raw = pos + ucast count;
          end_pos = (if sint end_raw > sint (i_size node) then i_size node else end_raw)
      in if i_private node = None then Some (None, pos, s)
         else if sint pos \<ge> sint (i_size node) then Some (Some [], pos, s)
         else let n = (ucast (end_pos - pos) :: u32) in
           if n = 0 then Some (Some [], pos, s)
           else case file_malloc (unat (ext4_get_block_size s)) s of
             (None, s1) \<Rightarrow> Some (None, pos, s1)
           | (Some p, s1) \<Rightarrow> do {
               (r, pos', s2) \<leftarrow> read_loop stale s1 node pos (unat n) [];
               Some (r, pos', file_free p s2)
             })"

section \<open>Writing\<close>

text \<open>
  The search for following blocks that are contiguous on disk. A block the map allocates for a
  logical block that turns out not to be contiguous ends the search and is not counted.
\<close>

fun probe_run :: "kfs \<Rightarrow> inode \<Rightarrow> nat \<Rightarrow> u32 \<Rightarrow> u32 \<Rightarrow> nat \<Rightarrow> nat \<Rightarrow> nat \<times> nat \<times> inode \<times> kfs" where
  "probe_run s node 0 next_lblock prev_pblock run_blocks new_blocks = (run_blocks, new_blocks, node, s)"
| "probe_run s node (Suc k) next_lblock prev_pblock run_blocks new_blocks =
     (case ext4_get_data_block s node next_lblock True of
        (None, node1, s1) \<Rightarrow> (run_blocks, new_blocks, node1, s1)
      | (Some (pblk2, is_new2), node1, s1) \<Rightarrow>
          if pblk2 = 0 \<or> pblk2 \<noteq> prev_pblock + 1 then (run_blocks, new_blocks, node1, s1)
          else probe_run s1 node1 k (next_lblock + 1) pblk2 (Suc run_blocks)
                 (if is_new2 then Suc new_blocks else new_blocks))"

definition account_blocks :: "nat \<Rightarrow> u32 \<Rightarrow> inode \<Rightarrow> inode" where
  "account_blocks n sectors_per_block node =
     (if n > 0 then node\<lparr>i_blocks := i_blocks node + of_nat n * sectors_per_block,
                         i_state := i_state node OR I_DIRTY\<rparr> else node)"

text \<open>One iteration of the write loop: how many bytes it took.\<close>

definition write_step :: "kfs \<Rightarrow> inode \<Rightarrow> u64 \<Rightarrow> bytes \<Rightarrow> (nat \<times> inode) loop_step \<times> inode" where
  "write_step s node pos data =
     (let block_size = ext4_get_block_size s; bsz = unat block_size;
          sectors_per_block = (block_size + 511) div 512;
          pos32 = (ucast (pos AND 0xffffffff) :: u32);
          block_idx = pos32 div block_size;
          off_in_block = unat (pos32 mod block_size)
      in case ext4_get_data_block s node block_idx True of
           (None, node1, s1) \<Rightarrow> (Step_Error s1, node1)
         | (Some (blocknr, is_new), node1, s1) \<Rightarrow>
             if blocknr = 0 then (Step_Break s1, node1)
             else let to_copy = min (bsz - off_in_block) (length data) in
               if off_in_block = 0 \<and> to_copy = bsz
               then (case probe_run s1 node1 (min (length data div bsz) 64 - 1) (block_idx + 1) blocknr 1
                             (if is_new then 1 else 0) of
                       (run_blocks, new_blocks, node2, s2) \<Rightarrow>
                         (case (if run_blocks > 1
                                then ext4_write_blocks s2 blocknr (of_nat run_blocks) (take (run_blocks * bsz) data)
                                else ext4_write_block s2 blocknr (take bsz data)) of
                            (ok, s3) \<Rightarrow>
                              if ok then (Step_Go (run_blocks * bsz, account_blocks new_blocks sectors_per_block node2) s3, node2)
                              else (Step_Error s3, node2)))
               else (case (if is_new then Some (zero_block block_size) else ext4_read_block s1 blocknr) of
                       None \<Rightarrow> (Step_Error s1, node1)
                     | Some block_buf \<Rightarrow>
                         (case ext4_write_block s1 blocknr (bsplice off_in_block (take to_copy data) block_buf) of
                            (ok, s2) \<Rightarrow>
                              if ok then (Step_Go (to_copy, account_blocks (if is_new then 1 else 0) sectors_per_block node1) s2, node1)
                              else (Step_Error s2, node1))))"

function write_loop ::
  "kfs \<Rightarrow> inode \<Rightarrow> u64 \<Rightarrow> bytes \<Rightarrow> nat \<Rightarrow> (nat option \<times> inode \<times> u64 \<times> kfs) option" where
  "write_loop s node pos data written =
     (if data = [] then Some (Some written, node, pos, s)
      else if ext4_get_block_size s = 0 then None
      else case write_step s node pos data of
        (Step_Error s1, node1) \<Rightarrow> Some (None, node1, pos, s1)
      | (Step_Break s1, node1) \<Rightarrow> Some (Some written, node1, pos, s1)
      | (Step_Go (n, node1) s1, _) \<Rightarrow>
          if n = 0 then None
          else write_loop s1 node1 (pos + of_nat n) (drop n data) (written + n))"
  by pat_completeness auto
termination
  by (relation "measure (\<lambda>(s, node, pos, data, written). length data)") auto

declare write_loop.simps [simp del]

text \<open>The number of bytes written, None for -1. After an error the size is not updated.\<close>

definition ext4_file_write :: "kfs \<Rightarrow> inode \<Rightarrow> u64 \<Rightarrow> bytes \<Rightarrow> (nat option \<times> inode \<times> u64 \<times> kfs) option" where
  "ext4_file_write s node pos data =
     (let end_pos = pos + of_nat (length data) in
      if i_private node = None then Some (None, node, pos, s)
      else case file_malloc (unat (ext4_get_block_size s)) s of
        (None, s1) \<Rightarrow> Some (None, node, pos, s1)
      | (Some p, s1) \<Rightarrow> do {
          (r, node1, pos', s2) \<leftarrow> write_loop s1 node pos data 0;
          case r of
            None \<Rightarrow> Some (None, node1, pos', file_free p s2)
          | Some written \<Rightarrow>
              let node2 = (if sint end_pos > sint (i_size node1)
                           then node1\<lparr>i_size := end_pos, i_state := i_state node1 OR I_DIRTY\<rparr> else node1)
              in Some (Some written, node2, pos', file_free p s2)
        })"

section \<open>Directory streams\<close>

text \<open>
  The callback of readdir skips the entries before the stream position and hands the others to
  filldir with their offset; the context is the context of filldir and the offset.
\<close>

definition ext4_readdir_fill ::
  "('d \<Rightarrow> bytes \<Rightarrow> u64 \<Rightarrow> u32 \<Rightarrow> 'd \<times> bool) \<Rightarrow> u64 \<Rightarrow> 'd \<times> u64 \<Rightarrow> bytes \<Rightarrow> u32 \<Rightarrow> ('d \<times> u64) \<times> bool" where
  "ext4_readdir_fill filldir start_pos ctx name ino =
     (case ctx of (dirent, offset) \<Rightarrow>
        if sint offset < sint start_pos then ((dirent, offset + 1), False)
        else case filldir dirent name offset ino of
          (dirent', stop) \<Rightarrow> if stop then ((dirent', offset), True) else ((dirent', offset + 1), False))"

text \<open>Success, the context of filldir, the new position and the state.\<close>

definition ext4_dir_readdir ::
  "('d \<Rightarrow> bytes \<Rightarrow> u64 \<Rightarrow> u32 \<Rightarrow> 'd \<times> bool) \<Rightarrow> kfs \<Rightarrow> inode \<Rightarrow> u64 \<Rightarrow> 'd \<Rightarrow> (bool \<times> 'd \<times> u64 \<times> kfs) option" where
  "ext4_dir_readdir filldir s node f_pos dirent = do {
     (ok, (dirent', offset), s1) \<leftarrow>
       ext4_dir_foreach (ext4_readdir_fill filldir f_pos) s node (dirent, 0);
     Some (ok, dirent', offset, s1)
   }"

end
