(* ===== verification/Dcache.thy ===== *)
theory Dcache
  imports Inode_Ops File
begin

text \<open>
  The dentry cache, fs/dcache.c, over the state of the virtual file system. Inode and dentry
  objects live in static pools; a pointer to one is its index. The inode operations of ext4 take
  an inode as a value and hand it back; the functions here store it under its slot.
\<close>

section \<open>State of the virtual file system\<close>

record dentry =
  d_count :: int
  d_name :: bytes
  d_hash :: u32
  d_parent :: "nat option"
  d_subdirs :: "nat list"
  d_linked :: bool
  d_inode :: "nat option"

text \<open>
  d_linked says that d_child is in a list, which is then the d_subdirs list of d_parent; new
  entries go to its head.
\<close>

record vfs_file =
  f_inode :: "nat option"
  f_path_dentry :: "nat option"
  f_op :: op_tables
  f_pos :: u64
  f_flags :: u32
  f_mode :: u32

record vfs_super =
  sb_root :: "nat option"
  sb_dev :: u32
  sb_blocksize :: u32

record vfs =
  v_fs :: kfs
  v_inodes :: "inode list"
  v_dentries :: "dentry list"
  v_dused :: pool
  v_super :: vfs_super
  v_root_sb :: bool
  v_sb_listed :: bool
  v_cwd :: "nat option"
  v_files :: "vfs_file list"
  v_fd_used :: pool

text \<open>
  v_super is the static superblock of fs/super.c, v_root_sb whether vfs_root_sb points to it,
  v_sb_listed whether the list super_blocks has it, v_cwd the variable vfs_cwd of fs/dir.c,
  v_files and v_fd_used the descriptor table of fs/open.c. What the superblock has in s_fs_info
  and s_bdev is in v_fs.
\<close>

definition v_inode :: "vfs \<Rightarrow> nat \<Rightarrow> inode" where
  "v_inode v k = v_inodes v ! k"

definition v_put_inode :: "inode \<Rightarrow> vfs \<Rightarrow> vfs" where
  "v_put_inode node v = v\<lparr>v_inodes := (v_inodes v)[i_slot node := node]\<rparr>"

definition v_dentry :: "vfs \<Rightarrow> nat \<Rightarrow> dentry" where
  "v_dentry v i = v_dentries v ! i"

definition v_upd_dentry :: "nat \<Rightarrow> (dentry \<Rightarrow> dentry) \<Rightarrow> vfs \<Rightarrow> vfs" where
  "v_upd_dentry i f v = v\<lparr>v_dentries := (v_dentries v)[i := f (v_dentries v ! i)]\<rparr>"

section \<open>Names\<close>

text \<open>A C string: no NUL byte.\<close>

fun hash_step :: "bytes \<Rightarrow> u32 \<Rightarrow> u32" where
  "hash_step [] hash = hash"
| "hash_step (c # cs) hash = hash_step cs ((push_bit 5 hash - hash) + ucast c)"

definition d_hash_string :: "bytes \<Rightarrow> u32" where
  "d_hash_string name = hash_step name 0"

record qstr =
  q_name :: bytes
  q_hash :: u32

definition qstr_init :: "bytes \<Rightarrow> qstr" where
  "qstr_init name = \<lparr>q_name = name, q_hash = d_hash_string name\<rparr>"

section \<open>Reference counts and allocation\<close>

definition dget :: "nat \<Rightarrow> vfs \<Rightarrow> vfs" where
  "dget i v = v_upd_dentry i (\<lambda>d. d\<lparr>d_count := d_count d + 1\<rparr>) v"

definition DNAME_INLINE_LEN :: nat where "DNAME_INLINE_LEN = 32"

text \<open>
  The slot is cleared before the length of the name is looked at; a name of 32 bytes or more
  leaves it free.
\<close>

definition d_alloc :: "nat option \<Rightarrow> qstr \<Rightarrow> vfs \<Rightarrow> nat option \<times> vfs" where
  "d_alloc parent name v =
     (case first_unused (v_dused v) of
        None \<Rightarrow> (None, v)
      | Some i \<Rightarrow>
          let blank = \<lparr>d_count = 1, d_name = [], d_hash = 0, d_parent = None, d_subdirs = [],
                       d_linked = False, d_inode = None\<rparr>;
              v0 = v_upd_dentry i (\<lambda>_. blank) v
          in if length (q_name name) < DNAME_INLINE_LEN
             then let v1 = (v_upd_dentry i (\<lambda>_. blank\<lparr>d_name := q_name name, d_hash := q_hash name, d_parent := parent\<rparr>) v0)
                             \<lparr>v_dused := (v_dused v)[i := True]\<rparr>
                  in (Some i, case parent of None \<Rightarrow> v1 | Some p \<Rightarrow> dget p v1)
             else (None, v0))"

fun find_child :: "vfs \<Rightarrow> bytes \<Rightarrow> nat list \<Rightarrow> nat option" where
  "find_child v name [] = None"
| "find_child v name (c # cs) = (if d_name (v_dentry v c) = name then Some c else find_child v name cs)"

definition d_lookup :: "nat \<Rightarrow> qstr \<Rightarrow> vfs \<Rightarrow> nat option \<times> vfs" where
  "d_lookup parent name v =
     (case find_child v (q_name name) (d_subdirs (v_dentry v parent)) of
        None \<Rightarrow> (None, v)
      | Some c \<Rightarrow> (Some c, dget c v))"

section \<open>Release\<close>

text \<open>list_del of d_child.\<close>

definition d_unlink_child :: "nat \<Rightarrow> vfs \<Rightarrow> vfs" where
  "d_unlink_child i v =
     (let d = v_dentry v i in
      if d_linked d
      then (case d_parent d of
              None \<Rightarrow> v
            | Some p \<Rightarrow> v_upd_dentry i (\<lambda>d. d\<lparr>d_linked := False\<rparr>)
                          (v_upd_dentry p (\<lambda>q. q\<lparr>d_subdirs := remove1 i (d_subdirs q)\<rparr>) v))
      else v)"

text \<open>The inode of a dentry that goes away: one reference less, destroyed at one or none.\<close>

definition d_drop_inode :: "nat \<Rightarrow> vfs \<Rightarrow> vfs" where
  "d_drop_inode i v =
     (case d_inode (v_dentry v i) of
        None \<Rightarrow> v
      | Some k \<Rightarrow>
          let v1 = v_upd_dentry i (\<lambda>d. d\<lparr>d_inode := None\<rparr>) v;
              node = v_inode v1 k;
              node1 = (if i_count node > 0 then node\<lparr>i_count := i_count node - 1\<rparr> else node)
          in if i_count node1 \<le> 1
             then (v1\<lparr>v_fs := ext4_destroy_inode (node1\<lparr>i_slot := k\<rparr>) (v_fs v1),
                      v_inodes := (v_inodes v1)[k := destroyed node1]\<rparr>)
             else v1\<lparr>v_inodes := (v_inodes v1)[k := node1]\<rparr>)"

text \<open>The dentry at count 0 without its children list: out of its list, parent and inode dropped, slot free.\<close>

definition d_kill :: "nat \<Rightarrow> vfs \<Rightarrow> vfs" where
  "d_kill i v =
     (let v1 = v_upd_dentry i (\<lambda>d. d\<lparr>d_parent := None\<rparr>) (d_unlink_child i v) in
      (\<lambda>w. w\<lparr>v_dused := (v_dused w)[i := False]\<rparr>) (d_drop_inode i v1))"

definition parent_links :: "dentry list \<Rightarrow> nat" where
  "parent_links ds = length (filter (\<lambda>d. d_parent d \<noteq> None) ds)"

text \<open>
  The release of the parent is a recursion; each one follows a parent link that the release
  itself has cut.
\<close>

lemma parent_links_update:
  "i < length ds \<Longrightarrow> d_parent d = None \<Longrightarrow> d_parent (ds ! i) \<noteq> None \<Longrightarrow>
   parent_links (ds[i := d]) < parent_links ds"
proof (induction ds arbitrary: i)
  case (Cons x xs)
  show ?case
  proof (cases i)
    case 0
    with Cons.prems show ?thesis by (simp add: parent_links_def)
  next
    case (Suc j)
    with Cons.prems have "parent_links (xs[j := d]) < parent_links xs" by (intro Cons.IH) simp_all
    then show ?thesis using Suc by (simp add: parent_links_def)
  qed
qed simp

lemma parent_links_same:
  "d_parent d = d_parent (ds ! i) \<Longrightarrow> parent_links (ds[i := d]) = parent_links ds"
proof (induction ds arbitrary: i)
  case (Cons x xs)
  then show ?case by (cases i) (auto simp: parent_links_def)
qed simp

lemma d_parent_update:
  "d_parent d = d_parent (ds ! i) \<Longrightarrow> d_parent (ds[i := d] ! j) = d_parent (ds ! j)"
  by (cases "i < length ds"; cases "i = j") (simp_all add: list_update_beyond)

lemma unlink_child_parents [simp]:
  "length (v_dentries (d_unlink_child i v)) = length (v_dentries v)"
  "d_parent (v_dentries (d_unlink_child i v) ! j) = d_parent (v_dentries v ! j)"
  "parent_links (v_dentries (d_unlink_child i v)) = parent_links (v_dentries v)"
  by (simp_all add: d_unlink_child_def v_upd_dentry_def Let_def d_parent_update parent_links_same
      split: option.splits)

lemma drop_inode_links [simp]:
  "parent_links (v_dentries (d_drop_inode i w)) = parent_links (v_dentries w)"
  by (simp add: d_drop_inode_def v_upd_dentry_def Let_def parent_links_same split: option.splits)

lemma parent_links_kill:
  assumes i: "i < length (v_dentries v)" and p: "d_parent (v_dentry v i) = Some p"
  shows "parent_links (v_dentries (d_kill i v)) < parent_links (v_dentries v)"
proof -
  let ?u = "d_unlink_child i v"
  have "parent_links ((v_dentries ?u)[i := (v_dentries ?u ! i)\<lparr>d_parent := None\<rparr>])
      < parent_links (v_dentries ?u)"
    using i p by (intro parent_links_update) (simp_all add: v_dentry_def)
  then show ?thesis by (simp add: d_kill_def Let_def v_upd_dentry_def)
qed

function dput :: "nat \<Rightarrow> vfs \<Rightarrow> vfs" where
  "dput i v =
     (if i \<ge> length (v_dentries v) then v
      else let d = v_dentry v i; c = (if d_count d > 0 then d_count d - 1 else d_count d);
               v1 = v_upd_dentry i (\<lambda>d. d\<lparr>d_count := c\<rparr>) v
        in if c \<noteq> 0 then v1
           else case d_parent d of
             None \<Rightarrow> d_kill i v1
           | Some p \<Rightarrow> if p = i then d_kill i v1 else dput p (d_kill i v1))"
  by pat_completeness auto
termination
proof (relation "measure (\<lambda>(i, v). parent_links (v_dentries v))")
  fix i :: nat and v :: vfs and d c v1 p
  assume i: "\<not> length (v_dentries v) \<le> i" and d: "d = v_dentry v i"
    and v1: "v1 = v_upd_dentry i (\<lambda>d. d\<lparr>d_count := c\<rparr>) v" and p: "d_parent d = Some p"
  have "parent_links (v_dentries (d_kill i v1)) < parent_links (v_dentries v1)"
    using i d p by (intro parent_links_kill [of _ _ p]) (simp_all add: v1 v_upd_dentry_def v_dentry_def)
  also have "\<dots> = parent_links (v_dentries v)"
    by (simp add: v1 v_upd_dentry_def parent_links_same)
  finally show "((p, d_kill i v1), i, v) \<in> measure (\<lambda>(i, v). parent_links (v_dentries v))" by simp
qed simp

declare dput.simps [simp del]

section \<open>Attaching an inode\<close>

definition d_link_child :: "nat \<Rightarrow> vfs \<Rightarrow> vfs" where
  "d_link_child i v =
     (case d_parent (v_dentry v i) of
        None \<Rightarrow> v
      | Some p \<Rightarrow> v_upd_dentry i (\<lambda>d. d\<lparr>d_linked := True\<rparr>)
                    (v_upd_dentry p (\<lambda>q. q\<lparr>d_subdirs := i # d_subdirs q\<rparr>) v))"

definition d_add :: "nat \<Rightarrow> nat option \<Rightarrow> vfs \<Rightarrow> vfs" where
  "d_add i node v =
     (let v1 = v_upd_dentry i (\<lambda>d. d\<lparr>d_inode := node\<rparr>) v in
      if node \<noteq> None then d_link_child i v1 else v1)"

definition d_instantiate :: "nat \<Rightarrow> nat option \<Rightarrow> vfs \<Rightarrow> vfs" where
  "d_instantiate i node v =
     (let v1 = v_upd_dentry i (\<lambda>d. d\<lparr>d_inode := node\<rparr>) v in
      case node of
        None \<Rightarrow> v1
      | Some k \<Rightarrow>
          let v2 = v1\<lparr>v_inodes := (v_inodes v1)[k := (v_inode v1 k)\<lparr>i_count := i_count (v_inode v1 k) + 1\<rparr>]\<rparr>
          in if d_linked (v_dentry v2 i) then v2 else d_link_child i v2)"

end
