(* ===== verification/Namei.thy ===== *)
theory Namei
  imports Dcache
begin

text \<open>
  Path lookup, fs/namei.c. A path is the bytes of a C string before its NUL. The table of inode
  operations with a lookup is the one of directories.
\<close>

section \<open>Components of a path\<close>

abbreviation (input) slash :: u8 where "slash \<equiv> 0x2f"
abbreviation (input) dot :: u8 where "dot \<equiv> 0x2e"

definition skip_slashes :: "bytes \<Rightarrow> bytes" where
  "skip_slashes path = dropWhile (\<lambda>c. c = slash) path"

text \<open>
  The next component and the rest of the path; None is the end of the path. The name buffer gets
  at most 255 bytes, while the length counts them all.
\<close>

definition next_component :: "bytes \<Rightarrow> (bytes \<times> bytes) option" where
  "next_component path =
     (let p = skip_slashes path in
      if p = [] then None
      else Some (takeWhile (\<lambda>c. c \<noteq> slash) p, dropWhile (\<lambda>c. c \<noteq> slash) p))"

text \<open>
  The len bytes that qstr_init hashes and the cache compares, from a buffer of 256 bytes with a
  NUL after the first 255: reading more is undefined.
\<close>

definition name_buf :: "bytes \<Rightarrow> bytes option" where
  "name_buf name =
     (if length name \<le> 255 then Some name
      else if length name = 256 then Some (take 255 name @ [0])
      else None)"

section \<open>One step\<close>

text \<open>
  The lookup operation of a directory inode on a fresh dentry: a name that is not found, or an
  inode that cannot be read, leaves the dentry without inode.
\<close>

definition op_lookup :: "nat \<Rightarrow> nat \<Rightarrow> vfs \<Rightarrow> vfs option" where
  "op_lookup dir child v = do {
     (r, fs) \<leftarrow> ext4_lookup (v_fs v) (v_inode v dir) (d_name (v_dentry v child));
     let v1 = v\<lparr>v_fs := fs\<rparr>;
     Some (case r of
             None \<Rightarrow> v1
           | Some node \<Rightarrow> d_instantiate child (Some (i_slot node)) (v_put_inode node v1))
   }"

definition has_lookup :: "vfs \<Rightarrow> nat \<Rightarrow> bool" where
  "has_lookup v k \<longleftrightarrow> i_op (v_inode v k) = Ext4_Dir_Ops"

text \<open>The child of that name from the cache, or a new dentry that the file system fills.\<close>

definition lookup_child :: "nat \<Rightarrow> nat \<Rightarrow> bytes \<Rightarrow> vfs \<Rightarrow> (nat option \<times> vfs) option" where
  "lookup_child cur dir name v =
     (case d_lookup cur (qstr_init name) v of
        (Some c, v1) \<Rightarrow> Some (Some c, v1)
      | (None, v1) \<Rightarrow>
          (case d_alloc (Some cur) (qstr_init name) v1 of
             (None, v2) \<Rightarrow> Some (None, v2)
           | (Some c, v2) \<Rightarrow> do { v3 \<leftarrow> op_lookup dir c v2; Some (Some c, v3) }))"

text \<open>
  One component from the dentry cur, of which the walk holds a reference. The walk goes on with a
  reference of the dentry it returns, or has released all of them.
\<close>

definition walk_step :: "nat \<Rightarrow> bytes \<Rightarrow> vfs \<Rightarrow> (nat option \<times> vfs) option" where
  "walk_step cur name v =
     (if name = [dot] then Some (Some cur, v)
      else if name = [dot, dot]
      then Some (case d_parent (v_dentry v cur) of
                   None \<Rightarrow> (Some cur, v)
                 | Some p \<Rightarrow> (Some p, dput cur (dget p v)))
      else case d_inode (v_dentry v cur) of
        None \<Rightarrow> Some (None, dput cur v)
      | Some dir \<Rightarrow>
          if \<not> has_lookup v dir then Some (None, dput cur v)
          else do {
            name \<leftarrow> name_buf name;
            (child, v1) \<leftarrow> lookup_child cur dir name v;
            Some (case child of
                    None \<Rightarrow> (None, dput cur v1)
                  | Some c \<Rightarrow>
                      if d_inode (v_dentry v1 c) = None then (None, dput cur (dput c v1))
                      else (Some c, dput cur v1))
          })"

section \<open>The walk\<close>

lemma skip_slashes_len: "length (skip_slashes p) \<le> length p"
  by (simp add: skip_slashes_def length_dropWhile_le)

lemma next_component_len:
  "next_component p = Some (name, rest) \<Longrightarrow> length (skip_slashes rest) < length p"
proof -
  assume n: "next_component p = Some (name, rest)"
  let ?q = "skip_slashes p"
  have q: "?q \<noteq> []" "rest = dropWhile (\<lambda>c. c \<noteq> slash) ?q"
    using n by (auto simp: next_component_def Let_def split: if_splits)
  have "hd ?q \<noteq> slash" using q(1) hd_dropWhile [of "\<lambda>c. c = slash" p] by (simp add: skip_slashes_def)
  with q(1) have "length (dropWhile (\<lambda>c. c \<noteq> slash) ?q) < length ?q"
    by (cases ?q) (auto simp: le_imp_less_Suc length_dropWhile_le)
  then show ?thesis using q(2) skip_slashes_len [of rest] skip_slashes_len [of p] by simp
qed

function walk :: "nat \<Rightarrow> bytes \<Rightarrow> vfs \<Rightarrow> (nat option \<times> vfs) option" where
  "walk cur p v =
     (case next_component p of
        None \<Rightarrow> Some (Some cur, v)
      | Some (name, rest) \<Rightarrow>
          (case walk_step cur name v of
             None \<Rightarrow> None
           | Some (None, v1) \<Rightarrow> Some (None, v1)
           | Some (Some c, v1) \<Rightarrow>
               let p' = skip_slashes rest in
               if p' = [] then Some (Some c, v1) else walk c p' v1))"
  by pat_completeness auto
termination
  by (relation "measure (\<lambda>(cur, p, v). length p)") (auto dest: next_component_len)

declare walk.simps [simp del]

text \<open>The NULL pointers of the two arguments are None.\<close>

definition vfs_path_lookup :: "nat option \<Rightarrow> bytes option \<Rightarrow> vfs \<Rightarrow> (nat option \<times> vfs) option" where
  "vfs_path_lookup start path v =
     (case (start, path) of
        (Some d, Some p) \<Rightarrow>
          if d_inode (v_dentry v d) = None then Some (None, v)
          else let v1 = dget d v; p1 = skip_slashes p in
            if p1 = [] then Some (Some d, v1) else walk d p1 v1
      | _ \<Rightarrow> Some (None, v))"

definition vfs_lookup_root :: "vfs_super option \<Rightarrow> bytes option \<Rightarrow> vfs \<Rightarrow> (nat option \<times> vfs) option" where
  "vfs_lookup_root sb path v =
     (case sb of
        None \<Rightarrow> Some (None, v)
      | Some k \<Rightarrow> (case sb_root k of None \<Rightarrow> Some (None, v) | Some r \<Rightarrow> vfs_path_lookup (Some r) path v))"

end
