(* ===== verification/Dcache_Refs.thy ===== *)
theory Dcache_Refs
  imports Namei "HOL-Library.Multiset"
begin

text \<open>
  Reference counts of the dentry cache. The count of a dentry in use is the number of references
  the callers hold, a multiset, plus one for each dentry in use that has it as parent. The lemmas
  say how each operation of fs/dcache.c changes the multiset of held references.
\<close>

section \<open>The invariant\<close>

definition dc_used :: "vfs \<Rightarrow> nat \<Rightarrow> bool" where
  "dc_used v i \<longleftrightarrow> i < length (v_dused v) \<and> v_dused v ! i"

text \<open>The reference a dentry in use holds on its parent; the root is its own parent and holds none.\<close>

definition own_ref :: "vfs \<Rightarrow> nat \<Rightarrow> nat multiset" where
  "own_ref v j =
     (if dc_used v j
      then (case d_parent (v_dentry v j) of None \<Rightarrow> {#} | Some p \<Rightarrow> if p = j then {#} else {#p#})
      else {#})"

definition parent_refs :: "vfs \<Rightarrow> nat multiset" where
  "parent_refs v = (\<Sum>j<length (v_dused v). own_ref v j)"

text \<open>The list of children of a dentry: dentries in use that have it as parent and know they are listed.\<close>

definition kids_ok :: "vfs \<Rightarrow> nat \<Rightarrow> bool" where
  "kids_ok v i \<longleftrightarrow> distinct (d_subdirs (v_dentry v i)) \<and>
     (\<forall>c \<in> set (d_subdirs (v_dentry v i)).
        c \<noteq> i \<and> dc_used v c \<and> d_parent (v_dentry v c) = Some i \<and> d_linked (v_dentry v c))"

definition listed_ok :: "vfs \<Rightarrow> nat \<Rightarrow> bool" where
  "listed_ok v c \<longleftrightarrow> (d_linked (v_dentry v c) \<longrightarrow>
     (\<exists>p. d_parent (v_dentry v c) = Some p \<and> dc_used v p \<and> c \<in> set (d_subdirs (v_dentry v p))))"

definition dc_inv :: "nat multiset \<Rightarrow> vfs \<Rightarrow> bool" where
  "dc_inv R v \<longleftrightarrow> length (v_dentries v) = length (v_dused v) \<and>
     (\<forall>i. dc_used v i \<longrightarrow> d_count (v_dentry v i) = int (count R i + count (parent_refs v) i)) \<and>
     (\<forall>i. dc_used v i \<longleftrightarrow> 0 < count R i + count (parent_refs v) i) \<and>
     (\<forall>i. dc_used v i \<longrightarrow> kids_ok v i \<and> listed_ok v i)"

lemma dc_invD:
  assumes "dc_inv R v"
  shows "length (v_dentries v) = length (v_dused v)"
    and "dc_used v i \<Longrightarrow> d_count (v_dentry v i) = int (count R i + count (parent_refs v) i)"
    and "dc_used v i \<longleftrightarrow> 0 < count R i + count (parent_refs v) i"
    and "dc_used v i \<Longrightarrow> kids_ok v i" and "dc_used v i \<Longrightarrow> listed_ok v i"
proof -
  note I = assms [unfolded dc_inv_def]
  show "length (v_dentries v) = length (v_dused v)" using I by (elim conjE)
  show "dc_used v i \<Longrightarrow> d_count (v_dentry v i) = int (count R i + count (parent_refs v) i)"
    using I by (elim conjE) blast
  show "dc_used v i \<longleftrightarrow> 0 < count R i + count (parent_refs v) i" using I by (elim conjE) (erule spec)
  show "dc_used v i \<Longrightarrow> kids_ok v i" "dc_used v i \<Longrightarrow> listed_ok v i" using I by (elim conjE; blast)+
qed

lemma dc_invI:
  assumes "length (v_dentries v) = length (v_dused v)"
    and "\<And>i. dc_used v i \<Longrightarrow> d_count (v_dentry v i) = int (count R i + count (parent_refs v) i)"
    and "\<And>i. dc_used v i \<longleftrightarrow> 0 < count R i + count (parent_refs v) i"
    and "\<And>i. dc_used v i \<Longrightarrow> kids_ok v i" and "\<And>i. dc_used v i \<Longrightarrow> listed_ok v i"
  shows "dc_inv R v"
  unfolding dc_inv_def by (intro conjI allI impI assms)

section \<open>States that agree on the counts\<close>

definition ref_view :: "dentry \<Rightarrow> int \<times> nat option \<times> nat list \<times> bool" where
  "ref_view d = (d_count d, d_parent d, d_subdirs d, d_linked d)"

definition dc_same :: "vfs \<Rightarrow> vfs \<Rightarrow> bool" where
  "dc_same v w \<longleftrightarrow> map ref_view (v_dentries v) = map ref_view (v_dentries w) \<and> v_dused v = v_dused w"

lemma dc_same_refl [simp, intro]: "dc_same v v"
  by (simp add: dc_same_def)

lemma dc_same_trans: "dc_same u v \<Longrightarrow> dc_same v w \<Longrightarrow> dc_same u w"
  by (simp add: dc_same_def)

lemma dc_same_fields:
  assumes "dc_same v w" "length (v_dentries v) = length (v_dused v)"
  shows "length (v_dentries w) = length (v_dused w)" "v_dused w = v_dused v" "dc_used w = dc_used v"
    and "dc_used v i \<Longrightarrow> ref_view (v_dentry w i) = ref_view (v_dentry v i)"
proof -
  have l: "length (v_dentries w) = length (v_dentries v)"
    using assms(1) by (auto simp: dc_same_def dest: map_eq_imp_length_eq)
  show "length (v_dentries w) = length (v_dused w)" "v_dused w = v_dused v"
    using assms l by (simp_all add: dc_same_def)
  show "dc_used w = dc_used v" using assms(1) by (auto simp: dc_used_def dc_same_def fun_eq_iff)
  show "ref_view (v_dentry w i) = ref_view (v_dentry v i)" if "dc_used v i"
  proof -
    have i: "i < length (v_dentries v)" "i < length (v_dentries w)" using that assms l by (simp_all add: dc_used_def)
    have "map ref_view (v_dentries w) ! i = map ref_view (v_dentries v) ! i" using assms(1) by (simp add: dc_same_def)
    then show ?thesis using i by (simp add: v_dentry_def)
  qed
qed

lemma parent_refs_cong:
  "v_dused w = v_dused v \<Longrightarrow> (\<And>j. dc_used v j \<Longrightarrow> d_parent (v_dentry w j) = d_parent (v_dentry v j)) \<Longrightarrow>
   parent_refs w = parent_refs v"
  by (auto simp: parent_refs_def own_ref_def dc_used_def intro!: sum.cong)

text \<open>The invariant reads only the views of the dentries in use.\<close>

lemma dc_inv_cong:
  assumes I: "dc_inv R v" and w: "length (v_dentries w) = length (v_dused w)" "v_dused w = v_dused v"
    and "\<And>i. dc_used v i \<Longrightarrow> ref_view (v_dentry w i) = ref_view (v_dentry v i)"
  shows "dc_inv R w"
proof -
  have u: "dc_used w = dc_used v" using w(2) by (simp add: dc_used_def fun_eq_iff)
  have f: "d_count (v_dentry w i) = d_count (v_dentry v i)" "d_parent (v_dentry w i) = d_parent (v_dentry v i)"
    "d_subdirs (v_dentry w i) = d_subdirs (v_dentry v i)" "d_linked (v_dentry w i) = d_linked (v_dentry v i)"
    if "dc_used v i" for i using assms(4) [OF that] by (simp_all add: ref_view_def)
  have p: "parent_refs w = parent_refs v" by (rule parent_refs_cong) (simp_all add: w(2) f)
  show ?thesis
  proof (rule dc_invI [OF w(1)])
    fix i
    show "dc_used w i \<longleftrightarrow> 0 < count R i + count (parent_refs w) i"
      unfolding u p by (rule dc_invD(3) [OF I])
    assume i: "dc_used w i"
    then have i': "dc_used v i" by (simp add: u)
    show "d_count (v_dentry w i) = int (count R i + count (parent_refs w) i)"
      using dc_invD(2) [OF I i'] by (simp only: f(1) [OF i'] p)
    show "kids_ok w i" using dc_invD(4) [OF I i'] unfolding kids_ok_def u by (simp add: f i')
    show "listed_ok w i" using dc_invD(5) [OF I i'] unfolding listed_ok_def u f(2,4) [OF i'] using f(3) by metis
  qed
qed

lemma dc_inv_same: "dc_inv R v \<Longrightarrow> dc_same v w \<Longrightarrow> dc_inv R w"
  by (rule dc_inv_cong) (assumption | rule dc_same_fields dc_invD(1))+

lemma dc_inv_used: "dc_inv R v \<Longrightarrow> i \<in># R \<Longrightarrow> dc_used v i"
  using dc_invD(3) [of R v i] by simp

lemma dc_inv_parent:
  assumes I: "dc_inv R v" and i: "dc_used v i" and p: "d_parent (v_dentry v i) = Some p"
  shows "dc_used v p"
proof (cases "p = i")
  case False
  have "p \<in># own_ref v i" using i p False by (simp add: own_ref_def)
  moreover have "own_ref v i \<subseteq># parent_refs v"
    using i unfolding parent_refs_def dc_used_def by (subst sum.remove [of _ i]) simp_all
  ultimately have "p \<in># parent_refs v" by (rule mset_subset_eqD [rotated])
  then show ?thesis using dc_invD(3) [OF I, of p] by simp
qed (use i in simp)

section \<open>Updates of one dentry\<close>

lemma v_dentry_upd:
  "i < length (v_dentries v) \<Longrightarrow> v_dentry (v_upd_dentry i f v) j = (if j = i then f (v_dentry v i) else v_dentry v j)"
  by (simp add: v_dentry_def v_upd_dentry_def nth_list_update)

lemma upd_frame [simp]:
  "v_dused (v_upd_dentry i f v) = v_dused v" "length (v_dentries (v_upd_dentry i f v)) = length (v_dentries v)"
  "dc_used (v_upd_dentry i f v) = dc_used v"
  by (simp_all add: v_upd_dentry_def dc_used_def fun_eq_iff)

lemma dc_used_len:
  assumes "dc_inv R v" "dc_used v i"
  shows "i < length (v_dentries v)"
  using dc_invD(1) [OF assms(1)] assms(2) by (simp add: dc_used_def)

lemma dc_same_upd: "(\<And>d. ref_view (f d) = ref_view d) \<Longrightarrow> dc_same v (v_upd_dentry i f v)"
  by (cases "i < length (v_dentries v)")
    (simp_all add: dc_same_def v_upd_dentry_def list_eq_iff_nth_eq nth_list_update)

text \<open>A change of a count goes with the same change of the held references.\<close>

lemma dc_inv_count:
  assumes I: "dc_inv R v" and i: "dc_used v i"
    and n: "int (count R' i) = int (count R i) + k" "\<And>j. j \<noteq> i \<Longrightarrow> count R' j = count R j"
    and pos: "0 < count R' i + count (parent_refs v) i"
  shows "dc_inv R' (v_upd_dentry i (\<lambda>d. d\<lparr>d_count := d_count d + k\<rparr>) v)"
proof -
  let ?w = "v_upd_dentry i (\<lambda>d. d\<lparr>d_count := d_count d + k\<rparr>) v"
  note upd = v_dentry_upd [OF dc_used_len [OF I i]]
  have f: "d_parent (v_dentry ?w j) = d_parent (v_dentry v j)" "d_subdirs (v_dentry ?w j) = d_subdirs (v_dentry v j)"
    "d_linked (v_dentry ?w j) = d_linked (v_dentry v j)" for j by (simp_all add: upd)
  have p: "parent_refs ?w = parent_refs v" by (rule parent_refs_cong) (simp_all add: f)
  show ?thesis
  proof (rule dc_invI)
    show "length (v_dentries ?w) = length (v_dused ?w)" using dc_invD(1) [OF I] by simp
    fix j
    show "dc_used ?w j \<longleftrightarrow> 0 < count R' j + count (parent_refs ?w) j"
      using dc_invD(3) [OF I, of j] n(2) [of j] i pos p by (cases "j = i") auto
    assume "dc_used ?w j"
    then have j: "dc_used v j" by simp
    show "d_count (v_dentry ?w j) = int (count R' j + count (parent_refs ?w) j)"
      using dc_invD(2) [OF I j] n(1) n(2) [of j] by (cases "j = i") (simp_all add: upd p)
    show "kids_ok ?w j" "listed_ok ?w j"
      using dc_invD(4,5) [OF I j] by (simp_all add: kids_ok_def listed_ok_def f)
  qed
qed

lemma dc_inv_dget: "dc_inv R v \<Longrightarrow> dc_used v i \<Longrightarrow> dc_inv (add_mset i R) (dget i v)"
  unfolding dget_def by (rule dc_inv_count) auto

section \<open>Parent references\<close>

lemma own_ref_sub: "own_ref v j \<subseteq># parent_refs v"
proof (cases "dc_used v j")
  case True
  then show ?thesis unfolding parent_refs_def dc_used_def by (subst sum.remove [of _ j]) simp_all
qed (simp add: own_ref_def)

text \<open>When one dentry changes, the references held on parents change by its own.\<close>

lemma parent_refs_upd:
  assumes "length (v_dused w) = length (v_dused v)" "k < length (v_dused v)" "\<And>j. j \<noteq> k \<Longrightarrow> own_ref w j = own_ref v j"
  shows "parent_refs w + own_ref v k = parent_refs v + own_ref w k"
proof -
  let ?A = "{..<length (v_dused v)}"
  have "parent_refs u = own_ref u k + (\<Sum>j\<in>?A - {k}. own_ref v j)" if "u \<in> {v, w}" for u
    unfolding parent_refs_def using assms that
    by (subst sum.remove [of _ k]) (auto intro!: sum.cong)
  from this [of v] this [of w] show ?thesis by (simp add: ac_simps)
qed

section \<open>Release\<close>

lemma dc_same_drop_inode: "dc_same v (d_drop_inode i v)"
proof -
  have u: "dc_same v (v_upd_dentry i (\<lambda>d. d\<lparr>d_inode := None\<rparr>) v)" by (rule dc_same_upd) (simp add: ref_view_def)
  then show ?thesis
    by (auto simp: d_drop_inode_def Let_def dc_same_def split: option.splits)
qed

lemma v_dused_frame [simp]:
  "v_dused (d_drop_inode i v) = v_dused v" "v_dused (d_unlink_child i v) = v_dused v"
  "length (v_dentries (d_drop_inode i v)) = length (v_dentries v)"
  by (simp_all add: d_drop_inode_def d_unlink_child_def Let_def split: option.splits)

lemma kill_frame [simp]:
  "v_dused (d_kill i v) = (v_dused v)[i := False]" "length (v_dentries (d_kill i v)) = length (v_dentries v)"
  by (simp_all add: d_kill_def Let_def)

lemma dc_used_kill: "dc_used (d_kill i v) j \<longleftrightarrow> dc_used v j \<and> j \<noteq> i"
  by (cases "j = i") (auto simp: dc_used_def)

text \<open>What unlinking and killing leave of every other dentry.\<close>

definition cut_from :: "vfs \<Rightarrow> nat \<Rightarrow> nat \<Rightarrow> nat list" where
  "cut_from v i j = (if d_linked (v_dentry v i) \<and> d_parent (v_dentry v i) = Some j
     then remove1 i (d_subdirs (v_dentry v j)) else d_subdirs (v_dentry v j))"

lemma unlink_child_view:
  assumes "i < length (v_dentries v)" "\<And>p. d_parent (v_dentry v i) = Some p \<Longrightarrow> p < length (v_dentries v)"
  shows "ref_view (v_dentry (d_unlink_child i v) j) =
      (d_count (v_dentry v j), d_parent (v_dentry v j), cut_from v i j,
       d_linked (v_dentry v j) \<and> \<not> (j = i \<and> d_parent (v_dentry v i) \<noteq> None))"
  using assms by (auto simp: d_unlink_child_def cut_from_def Let_def ref_view_def v_dentry_upd split: option.splits)

lemma kill_view:
  assumes "i < length (v_dentries v)" "\<And>p. d_parent (v_dentry v i) = Some p \<Longrightarrow> p < length (v_dentries v)"
    and "j \<noteq> i" "j < length (v_dentries v)"
  shows "ref_view (v_dentry (d_kill i v) j) =
      (d_count (v_dentry v j), d_parent (v_dentry v j), cut_from v i j, d_linked (v_dentry v j))"
proof -
  let ?u = "d_unlink_child i v"
  let ?w = "v_upd_dentry i (\<lambda>d. d\<lparr>d_parent := None\<rparr>) ?u"
  have "map ref_view (v_dentries (d_drop_inode i ?w)) ! j = map ref_view (v_dentries ?w) ! j"
    using dc_same_drop_inode [of ?w i] by (simp add: dc_same_def)
  then have "ref_view (v_dentry (d_drop_inode i ?w) j) = ref_view (v_dentry ?w j)"
    using assms(4) by (simp add: v_dentry_def)
  moreover have "v_dentry (d_kill i v) j = v_dentry (d_drop_inode i ?w) j"
    by (simp add: d_kill_def Let_def v_dentry_def)
  moreover have "v_dentry ?w j = v_dentry ?u j" using assms(1,3) by (simp add: v_dentry_upd)
  ultimately show ?thesis using unlink_child_view [OF assms(1,2), of j] assms(3) by simp
qed

text \<open>
  A dentry with one held reference and no children goes; the reference it has on its parent
  becomes a held one.
\<close>

lemma dc_inv_kill:
  assumes I: "dc_inv R v" and i: "i \<in># R" and c: "count R i + count (parent_refs v) i = 1"
  shows "dc_inv (R - {#i#} + own_ref v i) (d_kill i (v_upd_dentry i (\<lambda>d. d\<lparr>d_count := 0\<rparr>) v))"
    (is "dc_inv ?R ?w")
proof -
  let ?v = "v_upd_dentry i (\<lambda>d. d\<lparr>d_count := 0\<rparr>) v"
  have iu: "dc_used v i" by (rule dc_inv_used [OF I i])
  have il: "i < length (v_dentries v)" by (rule dc_used_len [OF I iu])
  have par: "p < length (v_dentries v)" if "d_parent (v_dentry v i) = Some p" for p
    using dc_used_len [OF I dc_inv_parent [OF I iu that]] .
  have P0: "count (parent_refs v) i = 0" and R1: "count R i = 1"
    using c i by (simp_all add: count_greater_zero_iff [symmetric] del: count_greater_zero_iff)
  have nokid: "d_parent (v_dentry v j) \<noteq> Some i" if "dc_used v j" "j \<noteq> i" for j
  proof
    assume "d_parent (v_dentry v j) = Some i"
    then have "i \<in># own_ref v j" using that by (simp add: own_ref_def)
    then have "i \<in># parent_refs v" by (rule mset_subset_eqD [OF own_ref_sub])
    with P0 show False by (simp add: not_in_iff [symmetric])
  qed
  have u: "dc_used ?w j \<longleftrightarrow> dc_used v j \<and> j \<noteq> i" for j by (simp add: dc_used_kill)
  have view: "d_count (v_dentry ?w j) = d_count (v_dentry v j)" "d_parent (v_dentry ?w j) = d_parent (v_dentry v j)"
    "d_subdirs (v_dentry ?w j) = cut_from v i j" "d_linked (v_dentry ?w j) = d_linked (v_dentry v j)"
    if "dc_used v j" "j \<noteq> i" for j
    using kill_view [of i ?v j] il par dc_used_len [OF I that(1)] that(2)
    by (auto simp: v_dentry_upd ref_view_def cut_from_def)
  have "own_ref ?w j = own_ref v j" if "j \<noteq> i" for j
    using that view(2) [of j] by (simp add: own_ref_def u)
  then have "parent_refs ?w + own_ref v i = parent_refs v + own_ref ?w i"
    using iu by (intro parent_refs_upd) (simp_all add: dc_used_def)
  then have P: "parent_refs ?w + own_ref v i = parent_refs v" by (simp add: own_ref_def u)
  have cnt: "count ?R j + count (parent_refs ?w) j = count R j + count (parent_refs v) j - (if j = i then 1 else 0)" for j
    using arg_cong [OF P, of "\<lambda>M. count M j"] R1 by (cases "j = i") simp_all
  show ?thesis
  proof (rule dc_invI)
    show "length (v_dentries ?w) = length (v_dused ?w)" using dc_invD(1) [OF I] by simp
    fix j
    show "dc_used ?w j \<longleftrightarrow> 0 < count ?R j + count (parent_refs ?w) j"
      unfolding u cnt using dc_invD(3) [OF I, of j] c by (cases "j = i") simp_all
    assume "dc_used ?w j"
    then have j: "dc_used v j" "j \<noteq> i" by (simp_all add: u)
    show "d_count (v_dentry ?w j) = int (count ?R j + count (parent_refs ?w) j)"
      unfolding cnt using dc_invD(2) [OF I j(1)] j(2) by (simp add: view(1) [OF j])
    note k = dc_invD(4) [OF I j(1), unfolded kids_ok_def]
    show "kids_ok ?w j"
      unfolding kids_ok_def view(3) [OF j]
    proof (intro conjI ballI)
      show "distinct (cut_from v i j)" using k by (simp add: cut_from_def)
      fix x assume x: "x \<in> set (cut_from v i j)"
      then have xs: "x \<in> set (d_subdirs (v_dentry v j))" using set_remove1_subset by (fastforce simp: cut_from_def split: if_splits)
      with k have xk: "x \<noteq> j" "dc_used v x" "d_parent (v_dentry v x) = Some j" "d_linked (v_dentry v x)" by auto
      have "x \<noteq> i" using x xk(3,4) k by (auto simp: cut_from_def)
      then show "x \<noteq> j" "dc_used ?w x" "d_parent (v_dentry ?w x) = Some j" "d_linked (v_dentry ?w x)"
        using xk view [of x] by (simp_all add: u)
    qed
    show "listed_ok ?w j"
      unfolding listed_ok_def view(2,4) [OF j]
    proof
      assume "d_linked (v_dentry v j)"
      then obtain p where p: "d_parent (v_dentry v j) = Some p" "dc_used v p" "j \<in> set (d_subdirs (v_dentry v p))"
        using dc_invD(5) [OF I j(1)] by (auto simp: listed_ok_def)
      then have "p \<noteq> i" using nokid [OF j] by auto
      then have "dc_used ?w p" "j \<in> set (d_subdirs (v_dentry ?w p))"
        using p j(2) view(3) [of p] by (simp_all add: u cut_from_def)
      with p(1) show "\<exists>p. d_parent (v_dentry v j) = Some p \<and> dc_used ?w p \<and> j \<in> set (d_subdirs (v_dentry ?w p))" by blast
    qed
  qed
qed

lemma dc_inv_dput: "dc_inv R v \<Longrightarrow> i \<in># R \<Longrightarrow> dc_inv (R - {#i#}) (dput i v)"
proof (induction i v arbitrary: R rule: dput.induct)
  case (1 i v)
  note I = 1(2) and iR = 1(3)
  have iu: "dc_used v i" by (rule dc_inv_used [OF I iR])
  have il: "i < length (v_dentries v)" by (rule dc_used_len [OF I iu])
  let ?n = "count R i + count (parent_refs v) i"
  have cnt: "d_count (v_dentry v i) = int ?n" by (rule dc_invD(2) [OF I iu])
  have pos: "0 < count R i" using iR by simp
  let ?v1 = "v_upd_dentry i (\<lambda>d. d\<lparr>d_count := int ?n - 1\<rparr>) v"
  have v1: "?v1 = v_upd_dentry i (\<lambda>d. d\<lparr>d_count := d_count d + (- 1)\<rparr>) v"
    using cnt by (simp add: v_upd_dentry_def v_dentry_def)
  show ?case
  proof (cases "?n = 1")
    case False
    then have n: "1 < ?n" using pos by linarith
    have "dc_inv (R - {#i#}) ?v1"
      unfolding v1
    proof (rule dc_inv_count [OF I iu])
      show "0 < count (R - {#i#}) i + count (parent_refs v) i"
        using n by (cases "i \<in># parent_refs v") (simp_all add: not_in_iff)
    qed (use pos in \<open>simp_all add: of_nat_diff\<close>)
    moreover have "dput i v = ?v1"
    proof -
      obtain m where m: "m = ?n" by simp
      show ?thesis using il cnt n unfolding m [symmetric] by (subst dput.simps) (simp add: Let_def)
    qed
    ultimately show ?thesis by simp
  next
    case True
    let ?w = "d_kill i (v_upd_dentry i (\<lambda>d. d\<lparr>d_count := 0\<rparr>) v)"
    have K: "dc_inv (R - {#i#} + own_ref v i) ?w" by (rule dc_inv_kill [OF I iR True])
    have put: "dput i v = (case d_parent (v_dentry v i) of None \<Rightarrow> ?w | Some p \<Rightarrow> if p = i then ?w else dput p ?w)"
      using il cnt True by (subst dput.simps) (simp add: Let_def split: option.split)
    show ?thesis
    proof (cases "own_ref v i = {#}")
      case True
      with K put iu show ?thesis by (auto simp: own_ref_def split: option.splits if_splits)
    next
      case False
      then obtain p where p: "d_parent (v_dentry v i) = Some p" "p \<noteq> i" "own_ref v i = {#p#}"
        using iu by (auto simp: own_ref_def split: option.splits if_splits)
      have c0: "(if d_count (v_dentry v i) > 0 then d_count (v_dentry v i) - 1 else d_count (v_dentry v i)) = 0"
        using cnt True by simp
      have "dc_inv (R - {#i#} + {#p#} - {#p#}) (dput p ?w)"
        using 1(1) [OF _ refl refl refl _ p(1) p(2), unfolded c0, of "R - {#i#} + {#p#}"] il K p(3) by simp
      with put p show ?thesis by simp
    qed
  qed
qed

section \<open>Allocation\<close>

text \<open>
  A new dentry in use in a free slot, without children, whose parent gains a reference.
\<close>

lemma dc_inv_new:
  assumes I: "dc_inv R v" and i: "i < length (v_dused v)" "\<not> dc_used v i"
    and par: "\<And>p. parent = Some p \<Longrightarrow> dc_used v p"
    and d: "ref_view d = (1, parent, [], False)"
  shows "dc_inv (add_mset i R)
    ((case parent of None \<Rightarrow> id | Some p \<Rightarrow> dget p) ((v_upd_dentry i (\<lambda>_. d) v)\<lparr>v_dused := (v_dused v)[i := True]\<rparr>))"
    (is "dc_inv _ ?w")
proof -
  let ?u = "(v_upd_dentry i (\<lambda>_. d) v)\<lparr>v_dused := (v_dused v)[i := True]\<rparr>"
  have len: "length (v_dentries v) = length (v_dused v)" by (rule dc_invD(1) [OF I])
  have il: "i < length (v_dentries v)" using i(1) len by simp
  have pi: "p \<noteq> i" if "parent = Some p" for p using par [OF that] i(2) by auto
  have du: "v_dused ?w = (v_dused v)[i := True]" "length (v_dentries ?w) = length (v_dentries v)"
    by (simp_all add: dget_def split: option.splits)
  have u: "dc_used ?w j \<longleftrightarrow> dc_used v j \<or> j = i" for j
    unfolding dc_used_def du using i(1) by (cases "j = i") auto
  have uu: "v_dentry ?u j = (if j = i then d else v_dentry v j)" for j
    using il by (simp add: v_dentry_def v_upd_dentry_def nth_list_update)
  have w: "v_dentry ?w j = (if j = i then d
      else if parent = Some j then (v_dentry v j)\<lparr>d_count := d_count (v_dentry v j) + 1\<rparr> else v_dentry v j)" for j
  proof (cases parent)
    case None
    then show ?thesis by (simp add: uu)
  next
    case (Some p)
    have "p < length (v_dentries ?u)" using dc_used_len [OF I par [OF Some]] by simp
    from v_dentry_upd [OF this] show ?thesis using Some pi [OF Some] by (auto simp: dget_def uu)
  qed
  have dv: "d_count d = 1" "d_parent d = parent" "d_subdirs d = []" "\<not> d_linked d" using d by (simp_all add: ref_view_def)
  have old: "own_ref ?w j = own_ref v j" if "j \<noteq> i" for j
    using that by (simp add: own_ref_def u w cong: option.case_cong)
  have new: "own_ref ?w i = (case parent of None \<Rightarrow> {#} | Some p \<Rightarrow> {#p#})"
    using pi by (auto simp: own_ref_def u w dv split: option.splits)
  have "parent_refs ?w + own_ref v i = parent_refs v + own_ref ?w i"
    using i old by (intro parent_refs_upd) (simp_all add: du)
  then have P: "parent_refs ?w = parent_refs v + (case parent of None \<Rightarrow> {#} | Some p \<Rightarrow> {#p#})"
    using i(2) new by (simp add: own_ref_def)
  have "\<not> 0 < count R i + count (parent_refs v) i" using dc_invD(3) [OF I, of i] i(2) by blast
  then have P0: "count R i + count (parent_refs v) i = 0" by linarith
  have cnt: "count (add_mset i R) j + count (parent_refs ?w) j =
      count R j + count (parent_refs v) j + (if j = i \<or> parent = Some j then 1 else 0)" for j
    using pi unfolding P by (auto split: option.splits)
  show ?thesis
  proof (rule dc_invI)
    show "length (v_dentries ?w) = length (v_dused ?w)" unfolding du using len by simp
    fix j
    show "dc_used ?w j \<longleftrightarrow> 0 < count (add_mset i R) j + count (parent_refs ?w) j"
      unfolding u cnt using dc_invD(3) [OF I, of j] par by auto
    assume "dc_used ?w j"
    then have ju: "dc_used v j \<or> j = i" by (simp add: u)
    show "d_count (v_dentry ?w j) = int (count (add_mset i R) j + count (parent_refs ?w) j)"
      unfolding cnt w using ju P0 pi dc_invD(2) [OF I, of j] by (auto simp: dv)
    have subs: "c \<noteq> i" if "c \<in> set (d_subdirs (v_dentry v k))" "dc_used v k" for c k
      using that dc_invD(4) [OF I, of k] i(2) by (auto simp: kids_ok_def)
    show "kids_ok ?w j"
    proof (cases "j = i")
      case False
      with ju have k: "dc_used v j" "kids_ok v j" using dc_invD(4) [OF I] by auto
      then show ?thesis using False subs [OF _ k(1)] by (auto simp: kids_ok_def u w)
    qed (simp add: kids_ok_def w dv)
    show "listed_ok ?w j"
    proof (cases "j = i")
      case False
      with ju have k: "listed_ok v j" using dc_invD(5) [OF I] by auto
      show ?thesis unfolding listed_ok_def
      proof
        assume "d_linked (v_dentry ?w j)"
        then obtain p where p: "d_parent (v_dentry v j) = Some p" "dc_used v p" "j \<in> set (d_subdirs (v_dentry v p))"
          using k False by (auto simp: listed_ok_def w split: if_splits)
        then have "p \<noteq> i" using i(2) by auto
        with p False show "\<exists>p. d_parent (v_dentry ?w j) = Some p \<and> dc_used ?w p \<and> j \<in> set (d_subdirs (v_dentry ?w p))"
          by (intro exI [of _ p]) (auto simp: u w)
      qed
    qed (simp add: listed_ok_def w dv)
  qed
qed

lemma dc_inv_alloc:
  assumes I: "dc_inv R v" and par: "\<And>p. parent = Some p \<Longrightarrow> dc_used v p" and a: "d_alloc parent name v = (r, w)"
  shows "dc_inv (case r of None \<Rightarrow> R | Some i \<Rightarrow> add_mset i R) w"
    and "r = Some i \<Longrightarrow> d_parent (v_dentry w i) = parent \<and> \<not> dc_used v i \<and> \<not> d_linked (v_dentry w i)"
proof -
  let ?blank = "\<lparr>d_count = 1, d_name = [], d_hash = 0, d_parent = None, d_subdirs = [], d_linked = False, d_inode = None\<rparr>"
  have "dc_inv (case r of None \<Rightarrow> R | Some i \<Rightarrow> add_mset i R) w \<and>
    (\<forall>i. r = Some i \<longrightarrow> d_parent (v_dentry w i) = parent \<and> \<not> dc_used v i \<and> \<not> d_linked (v_dentry w i))"
  proof (cases "first_unused (v_dused v)")
    case None
    with a I show ?thesis by (auto simp: d_alloc_def)
  next
    case (Some k)
    then have k: "k < length (v_dused v)" "\<not> dc_used v k" by (auto simp: dc_used_def dest: first_unused_SomeD)
    then have kl: "k < length (v_dentries v)" using dc_invD(1) [OF I] by simp
    have twice: "v_upd_dentry k (\<lambda>_. e) (v_upd_dentry k (\<lambda>_. e') v) = v_upd_dentry k (\<lambda>_. e) v" for e e'
      by (simp add: v_upd_dentry_def)
    show ?thesis
    proof (cases "length (q_name name) < DNAME_INLINE_LEN")
      case True
      let ?d = "?blank\<lparr>d_name := q_name name, d_hash := q_hash name, d_parent := parent\<rparr>"
      have w: "r = Some k" "w = (case parent of None \<Rightarrow> id | Some p \<Rightarrow> dget p)
          ((v_upd_dentry k (\<lambda>_. ?d) v)\<lparr>v_dused := (v_dused v)[k := True]\<rparr>)"
        using a Some True by (auto simp: d_alloc_def Let_def twice split: option.splits)
      have pk: "p \<noteq> k" if "parent = Some p" for p using par [OF that] k(2) by auto
      have "v_dentry w k = ?d"
        using kl pk unfolding w(2) by (auto simp: dget_def v_dentry_def v_upd_dentry_def split: option.splits)
      moreover have "dc_inv (add_mset k R) w"
        unfolding w(2) by (rule dc_inv_new [OF I k par]) (auto simp: ref_view_def)
      ultimately show ?thesis using w(1) k(2) by simp
    next
      case False
      then have w: "r = None" "w = v_upd_dentry k (\<lambda>_. ?blank) v" using a Some by (auto simp: d_alloc_def Let_def)
      have "dc_inv R w"
        unfolding w(2) using k(2) dc_invD(1) [OF I]
        by (intro dc_inv_cong [OF I]) (auto simp: v_dentry_upd [OF kl])
      with w(1) show ?thesis by simp
    qed
  qed
  then show "dc_inv (case r of None \<Rightarrow> R | Some i \<Rightarrow> add_mset i R) w"
    and "r = Some i \<Longrightarrow> d_parent (v_dentry w i) = parent \<and> \<not> dc_used v i \<and> \<not> d_linked (v_dentry w i)" by blast+
qed

section \<open>Lookup in the cache\<close>

lemma find_child_in: "find_child v name cs = Some c \<Longrightarrow> c \<in> set cs"
  by (induction cs) (auto split: if_splits)

lemma dc_inv_lookup:
  assumes I: "dc_inv R v" and p: "dc_used v p" and l: "d_lookup p name v = (r, w)"
  shows "dc_inv (case r of None \<Rightarrow> R | Some i \<Rightarrow> add_mset i R) w"
proof (cases "find_child v (q_name name) (d_subdirs (v_dentry v p))")
  case None
  with l I show ?thesis by (auto simp: d_lookup_def)
next
  case (Some c)
  then have "dc_used v c" using dc_invD(4) [OF I p] find_child_in [OF Some] by (auto simp: kids_ok_def)
  moreover have "r = Some c" "w = dget c v" using Some l by (auto simp: d_lookup_def)
  ultimately show ?thesis using I by (simp add: dc_inv_dget)
qed

section \<open>Attaching and detaching\<close>

text \<open>The child enters or leaves the list of its parent; the counts stay.\<close>

lemma dc_inv_relist:
  assumes I: "dc_inv R v" and i: "dc_used v i" and p: "d_parent (v_dentry v i) = Some p" "p \<noteq> i"
    and b: "b \<longrightarrow> \<not> d_linked (v_dentry v i)"
  shows "dc_inv R (v_upd_dentry i (\<lambda>d. d\<lparr>d_linked := b\<rparr>)
    (v_upd_dentry p (\<lambda>q. q\<lparr>d_subdirs := (if b then i # d_subdirs q else remove1 i (d_subdirs q))\<rparr>) v))"
    (is "dc_inv R ?w")
proof -
  have pu: "dc_used v p" by (rule dc_inv_parent [OF I i p(1)])
  let ?f = "\<lambda>q. q\<lparr>d_subdirs := (if b then i # d_subdirs q else remove1 i (d_subdirs q))\<rparr>"
  have "i < length (v_dentries (v_upd_dentry p ?f v))" using dc_used_len [OF I i] by simp
  note w = v_dentry_upd [OF this] v_dentry_upd [OF dc_used_len [OF I pu]]
  have f: "d_count (v_dentry ?w j) = d_count (v_dentry v j)" "d_parent (v_dentry ?w j) = d_parent (v_dentry v j)"
    "d_linked (v_dentry ?w j) = (if j = i then b else d_linked (v_dentry v j))"
    "d_subdirs (v_dentry ?w j) = d_subdirs (if j = p then ?f (v_dentry v p) else v_dentry v j)" for j
    using p(2) by (simp_all add: w)
  have u: "dc_used ?w = dc_used v" by simp
  have P: "parent_refs ?w = parent_refs v" by (rule parent_refs_cong) (simp_all only: upd_frame f)
  have nin: "i \<notin> set (d_subdirs (v_dentry v p))" if b
    using that b dc_invD(4) [OF I pu] by (auto simp: kids_ok_def)
  have other: "i \<notin> set (d_subdirs (v_dentry v j))" if "dc_used v j" "j \<noteq> p" for j
    using that p(1) dc_invD(4) [OF I that(1)] by (auto simp: kids_ok_def)
  show ?thesis
  proof (rule dc_invI)
    show "length (v_dentries ?w) = length (v_dused ?w)" using dc_invD(1) [OF I] by simp
    fix j
    show "dc_used ?w j \<longleftrightarrow> 0 < count R j + count (parent_refs ?w) j" unfolding u P by (rule dc_invD(3) [OF I])
    assume "dc_used ?w j"
    then have j: "dc_used v j" by simp
    show "d_count (v_dentry ?w j) = int (count R j + count (parent_refs ?w) j)"
      unfolding f(1) P by (rule dc_invD(2) [OF I j])
    note k = dc_invD(4) [OF I j, unfolded kids_ok_def]
    show "kids_ok ?w j"
    proof (cases "j = p")
      case True
      with k nin p i pu show ?thesis unfolding kids_ok_def u f
        by (cases b) (auto dest: in_set_remove1 notin_set_remove1)
    next
      case False
      with k other [OF j False] show ?thesis unfolding kids_ok_def u f by auto
    qed
    show "listed_ok ?w j"
      unfolding listed_ok_def u f(2,3)
    proof
      assume l: "if j = i then b else d_linked (v_dentry v j)"
      show "\<exists>q. d_parent (v_dentry v j) = Some q \<and> dc_used v q \<and> j \<in> set (d_subdirs (v_dentry ?w q))"
      proof (cases "j = i")
        case True
        with l have "j \<in> set (d_subdirs (v_dentry ?w p))" unfolding f by simp
        with True p(1) pu show ?thesis by blast
      next
        case False
        with l dc_invD(5) [OF I j] obtain q where "d_parent (v_dentry v j) = Some q" "dc_used v q" "j \<in> set (d_subdirs (v_dentry v q))"
          by (auto simp: listed_ok_def)
        with False have "j \<in> set (d_subdirs (v_dentry ?w q))" unfolding f by auto
        with \<open>d_parent (v_dentry v j) = Some q\<close> \<open>dc_used v q\<close> show ?thesis by blast
      qed
    qed
  qed
qed

lemma dc_inv_unlink_child:
  assumes I: "dc_inv R v" and i: "dc_used v i"
  shows "dc_inv R (d_unlink_child i v)"
proof (cases "d_linked (v_dentry v i)")
  case True
  then obtain p where p: "d_parent (v_dentry v i) = Some p" "dc_used v p" "i \<in> set (d_subdirs (v_dentry v p))"
    using dc_invD(5) [OF I i] by (auto simp: listed_ok_def)
  then have "p \<noteq> i" using dc_invD(4) [OF I p(2)] by (auto simp: kids_ok_def)
  then show ?thesis using dc_inv_relist [OF I i p(1), of False] True p(1)
    by (simp add: d_unlink_child_def Let_def)
next
  case False
  with I show ?thesis by (simp add: d_unlink_child_def Let_def)
qed

lemma dc_inv_link_child:
  assumes "dc_inv R v" "dc_used v i" "d_parent (v_dentry v i) \<noteq> Some i" "\<not> d_linked (v_dentry v i)"
  shows "dc_inv R (d_link_child i v)"
  using dc_inv_relist [OF assms(1,2), of _ True] assms(1,3,4)
  by (auto simp: d_link_child_def split: option.split)

text \<open>Changes of the inodes and the file system leave the cache alone.\<close>

lemma dc_same_frame [simp]:
  "dc_same v (v\<lparr>v_fs := x\<rparr>)" "dc_same v (v\<lparr>v_inodes := y\<rparr>)" "dc_same v (v_put_inode n v)"
  by (simp_all add: dc_same_def v_put_inode_def)

lemma dc_inv_instantiate:
  assumes I: "dc_inv R v" and i: "dc_used v i" and p: "d_parent (v_dentry v i) \<noteq> Some i"
  shows "dc_inv R (d_instantiate i n v)"
proof -
  let ?v1 = "v_upd_dentry i (\<lambda>d. d\<lparr>d_inode := n\<rparr>) v"
  have s: "dc_same v ?v1" by (rule dc_same_upd) (simp add: ref_view_def)
  have I1: "dc_inv R ?v1" by (rule dc_inv_same [OF I s])
  show ?thesis
  proof (cases n)
    case None
    with I1 show ?thesis by (simp add: d_instantiate_def Let_def)
  next
    case (Some k)
    let ?v2 = "?v1\<lparr>v_inodes := (v_inodes ?v1)[k := (v_inode ?v1 k)\<lparr>i_count := i_count (v_inode ?v1 k) + 1\<rparr>]\<rparr>"
    have s2: "dc_same ?v1 ?v2" by simp
    have I2: "dc_inv R ?v2" by (rule dc_inv_same [OF I1 s2])
    have v2: "d_parent (v_dentry ?v2 i) \<noteq> Some i" "dc_used ?v2 i"
      using p i dc_used_len [OF I i] by (simp_all add: dc_used_def v_dentry_def v_upd_dentry_def)
    have "d_instantiate i n v = (if d_linked (v_dentry ?v2 i) then ?v2 else d_link_child i ?v2)"
      using Some by (simp add: d_instantiate_def Let_def)
    with I2 v2 show ?thesis by (simp add: dc_inv_link_child)
  qed
qed

end
