(* ===== verification/Vfs_Dir.thy ===== *)
theory Vfs_Dir
  imports Namei
begin

text \<open>
  The path calls, fs/dir.c, with vfs_get_root_sb of fs/super.c: the current directory, mkdir,
  chdir, unlink, rmdir and stat. A call returns 0 or a negative error number, and the state with
  the references it keeps, leaks included. None is undefined behaviour.
\<close>

abbreviation (input) EINVAL_neg :: int where "EINVAL_neg \<equiv> - 22"
abbreviation (input) ENODEV_neg :: int where "ENODEV_neg \<equiv> - 19"
abbreviation (input) ENOTDIR_neg :: int where "ENOTDIR_neg \<equiv> - 20"
abbreviation (input) EISDIR_neg :: int where "EISDIR_neg \<equiv> - 21"
abbreviation (input) EBUSY_neg :: int where "EBUSY_neg \<equiv> - 16"
abbreviation (input) ERANGE_neg :: int where "ERANGE_neg \<equiv> - 34"

definition coerce_fs_errno :: "int \<Rightarrow> int" where
  "coerce_fs_errno ret = (if ret \<ge> 0 then ret else if ret = - 1 then EIO_neg else ret)"

text \<open>What the callers make of the result of an inode operation.\<close>

definition op_errno :: "int \<Rightarrow> int" where
  "op_errno r = (if r < 0 then coerce_fs_errno r else EIO_neg)"

section \<open>Root and current directory\<close>

definition vfs_get_root_sb :: "vfs \<Rightarrow> vfs_super option \<times> vfs" where
  "vfs_get_root_sb v =
     (if v_root_sb v then (Some (v_super v), v)
      else if v_sb_listed v then (Some (v_super v), v\<lparr>v_root_sb := True\<rparr>)
      else (None, v))"

definition vfs_get_cwd_dentry :: "vfs \<Rightarrow> nat option \<times> vfs" where
  "vfs_get_cwd_dentry v =
     (case vfs_get_root_sb v of
        (None, v1) \<Rightarrow> (None, v1)
      | (Some sb, v1) \<Rightarrow>
          (case sb_root sb of
             None \<Rightarrow> (None, v1)
           | Some r \<Rightarrow>
               (case v_cwd v1 of
                  Some c \<Rightarrow> (Some c, v1)
                | None \<Rightarrow> (Some r, (dget r v1)\<lparr>v_cwd := Some r\<rparr>))))"

text \<open>The first lines of every call: root and current directory, or an error.\<close>

definition vfs_enter :: "bool \<Rightarrow> vfs \<Rightarrow> (int + nat \<times> nat) \<times> vfs" where
  "vfs_enter need_inode v =
     (case vfs_get_root_sb v of
        (None, v1) \<Rightarrow> (Inl ENODEV_neg, v1)
      | (Some sb, v1) \<Rightarrow>
          (case sb_root sb of
             None \<Rightarrow> (Inl ENODEV_neg, v1)
           | Some root \<Rightarrow>
               if need_inode \<and> d_inode (v_dentry v1 root) = None then (Inl ENODEV_neg, v1)
               else (case vfs_get_cwd_dentry v1 of
                       (None, v2) \<Rightarrow> (Inl EINVAL_neg, v2)
                     | (Some cwd, v2) \<Rightarrow> (Inr (root, cwd), v2))))"

section \<open>vfs_getcwd\<close>

text \<open>
  The walk from the current directory to the root writes the path from the end of the buffer; pos
  is where the path starts, path what is written so far.
\<close>

function cwd_loop :: "vfs \<Rightarrow> nat \<Rightarrow> nat option \<Rightarrow> nat \<Rightarrow> bytes \<Rightarrow> int + bytes" where
  "cwd_loop v root cwd pos path =
     (case cwd of
        None \<Rightarrow> Inr path
      | Some d \<Rightarrow>
          if d = root then Inr path
          else let name = d_name (v_dentry v d) in
            if name = [] then Inr path
            else if pos \<le> length name + 1 then Inl ERANGE_neg
            else cwd_loop v root (d_parent (v_dentry v d)) (pos - (length name + 1)) (slash # name @ path))"
  by pat_completeness auto
termination
  by (relation "measure (\<lambda>(v, root, cwd, pos, path). pos)") auto

declare cwd_loop.simps [simp del]

text \<open>The error number, or the string in the buffer; buf_len is the length of the buffer.\<close>

definition vfs_getcwd :: "int \<Rightarrow> vfs \<Rightarrow> (int + bytes) \<times> vfs" where
  "vfs_getcwd buf_len v =
     (if buf_len < 2 then (Inl EINVAL_neg, v)
      else case vfs_enter False v of
        (Inl e, v1) \<Rightarrow> (Inl e, v1)
      | (Inr (root, cwd), v1) \<Rightarrow>
          if cwd = root then (Inr [slash], v1)
          else (cwd_loop v1 root (Some cwd) (nat (buf_len - 1)) [], v1))"

section \<open>Paths with a parent and a name\<close>

text \<open>The path without leading slashes, cut at its last slash.\<close>

definition split_path :: "bytes \<Rightarrow> bytes option \<times> bytes" where
  "split_path path =
     (let rel = skip_slashes path; name = rev (takeWhile (\<lambda>c. c \<noteq> slash) (rev rel)) in
      if slash \<notin> set rel then (None, rel)
      else (Some (take (length rel - Suc (length name)) rel), name))"

definition path_start :: "bytes \<Rightarrow> nat \<Rightarrow> nat \<Rightarrow> nat" where
  "path_start path root cwd = (if take 1 path = [slash] then root else cwd)"

text \<open>
  The directory to create in and the name: an error, or the parent, whether its reference comes
  from a lookup, and the name. Some errors keep the reference of the looked up parent;
  drop_notdir is vfs_mkdir, which gives it back when the parent is no directory.
\<close>

definition create_parent ::
  "bool \<Rightarrow> bytes \<Rightarrow> nat \<Rightarrow> nat \<Rightarrow> vfs \<Rightarrow> ((int + nat \<times> bool \<times> bytes) \<times> vfs) option" where
  "create_parent drop_notdir path root cwd v =
     (if skip_slashes path = [] then Some (Inl EINVAL_neg, v)
      else case split_path path of
        (None, name) \<Rightarrow> Some (Inr (path_start path root cwd, False, name), v)
      | (Some parent, name) \<Rightarrow>
          if parent = [] \<or> length parent \<ge> 256 then Some (Inl EINVAL_neg, v)
          else do {
            (r, v1) \<leftarrow> vfs_path_lookup (Some (path_start path root cwd)) (Some parent) v;
            Some (case r of
                    None \<Rightarrow> (Inl ENOENT_neg, v1)
                  | Some p \<Rightarrow>
                      (case d_inode (v_dentry v1 p) of
                         None \<Rightarrow> (Inl ENOENT_neg, v1)
                       | Some k \<Rightarrow>
                           if \<not> S_ISDIR (i_mode (v_inode v1 k))
                           then (Inl ENOTDIR_neg, if drop_notdir then dput p v1 else v1)
                           else if name = [] then (Inl EINVAL_neg, v1)
                           else (Inr (p, True, name), v1)))
          })"

section \<open>Inode operations behind a dentry\<close>

text \<open>
  create and mkdir: the operation on the inode of the parent; the new inode is attached to the
  dentry.
\<close>

definition op_new ::
  "(kfs \<Rightarrow> inode \<Rightarrow> bytes \<Rightarrow> u16 \<Rightarrow> (int \<times> inode \<times> inode option \<times> kfs) option) \<Rightarrow>
   nat \<Rightarrow> nat \<Rightarrow> u16 \<Rightarrow> vfs \<Rightarrow> (int \<times> vfs) option" where
  "op_new f dir dentry mode v = do {
     (r, dir', node, fs) \<leftarrow> f (v_fs v) (v_inode v dir) (d_name (v_dentry v dentry)) mode;
     let v1 = v\<lparr>v_fs := fs, v_inodes := (v_inodes v)[dir := dir']\<rparr>;
     Some (r, case node of
                None \<Rightarrow> v1
              | Some n \<Rightarrow> d_instantiate dentry (Some (i_slot n)) (v_put_inode n v1))
   }"

text \<open>
  unlink and rmdir: once the entry is gone from the directory, the dentry loses its inode and its
  place in the cache.
\<close>

definition op_remove ::
  "(kfs \<Rightarrow> inode \<Rightarrow> bytes \<Rightarrow> inode \<Rightarrow> remove_result option) \<Rightarrow>
   nat \<Rightarrow> nat \<Rightarrow> nat \<Rightarrow> vfs \<Rightarrow> (int \<times> vfs) option" where
  "op_remove f dir dentry node v = do {
     (r, gone, dir', node', fs) \<leftarrow> f (v_fs v) (v_inode v dir) (d_name (v_dentry v dentry)) (v_inode v node);
     let v1 = v\<lparr>v_fs := fs, v_inodes := (v_inodes v)[dir := dir', node := node']\<rparr>;
     Some (r, if gone then d_unlink_child dentry (v_upd_dentry dentry (\<lambda>d. d\<lparr>d_inode := None\<rparr>) v1) else v1)
   }"

section \<open>vfs_mkdir\<close>

definition put_if :: "bool \<Rightarrow> nat \<Rightarrow> vfs \<Rightarrow> vfs" where
  "put_if b d v = (if b then dput d v else v)"

definition mkdir_in :: "nat \<Rightarrow> bool \<Rightarrow> bytes \<Rightarrow> u16 \<Rightarrow> vfs \<Rightarrow> (int \<times> vfs) option" where
  "mkdir_in parent from_lookup name mode v =
     (case d_inode (v_dentry v parent) of
        None \<Rightarrow> Some (EINVAL_neg, put_if from_lookup parent v)
      | Some dir \<Rightarrow>
          if i_op (v_inode v dir) \<noteq> Ext4_Dir_Ops then Some (EINVAL_neg, put_if from_lookup parent v)
          else do {
            name \<leftarrow> name_buf name;
            case d_alloc (Some parent) (qstr_init name) v of
              (None, v1) \<Rightarrow> Some (ENOMEM_neg, v1)
            | (Some dentry, v1) \<Rightarrow> do {
                (r, v2) \<leftarrow> op_new ext4_mkdir dir dentry mode v1;
                Some (if r \<noteq> 0 then op_errno r else 0, put_if from_lookup parent (dput dentry v2))
              }
          })"

definition vfs_mkdir :: "bytes option \<Rightarrow> u16 \<Rightarrow> vfs \<Rightarrow> (int \<times> vfs) option" where
  "vfs_mkdir path mode v =
     (case path of
        None \<Rightarrow> Some (EINVAL_neg, v)
      | Some p \<Rightarrow>
          if p = [] then Some (EINVAL_neg, v)
          else case vfs_enter True v of
            (Inl e, v1) \<Rightarrow> Some (e, v1)
          | (Inr (root, cwd), v1) \<Rightarrow> do {
              (r, v2) \<leftarrow> create_parent True p root cwd v1;
              case r of
                Inl e \<Rightarrow> Some (e, v2)
              | Inr (parent, from_lookup, name) \<Rightarrow> mkdir_in parent from_lookup name mode v2
            })"

section \<open>Lookup of a target\<close>

text \<open>The path of unlink, rmdir and stat, absolute or from the current directory.\<close>

definition lookup_target :: "bytes \<Rightarrow> nat \<Rightarrow> vfs \<Rightarrow> (nat option \<times> vfs) option" where
  "lookup_target path cwd v =
     (if take 1 path = [slash] then vfs_lookup_root (Some (v_super v)) (Some path) v
      else vfs_path_lookup (Some cwd) (Some path) v)"

definition vfs_chdir :: "bytes option \<Rightarrow> vfs \<Rightarrow> (int \<times> vfs) option" where
  "vfs_chdir path v =
     (case path of
        None \<Rightarrow> Some (EINVAL_neg, v)
      | Some p \<Rightarrow>
          if p = [] then Some (EINVAL_neg, v)
          else case vfs_enter False v of
            (Inl e, v1) \<Rightarrow> Some (e, v1)
          | (Inr (root, cwd), v1) \<Rightarrow> do {
              (r, v2) \<leftarrow> (if p = [slash] then Some (Some root, v1) else lookup_target p cwd v1);
              Some (case r of
                      None \<Rightarrow> (ENOENT_neg, v2)
                    | Some target \<Rightarrow>
                        (case d_inode (v_dentry v2 target) of
                           None \<Rightarrow> (ENOENT_neg, dput target v2)
                         | Some k \<Rightarrow>
                             if \<not> S_ISDIR (i_mode (v_inode v2 k)) then (ENOTDIR_neg, dput target v2)
                             else if target = cwd
                             then (0, put_if (target \<noteq> root) target v2)
                             else (0, (put_if (target \<noteq> root) target (dput cwd (dget target v2)))
                                        \<lparr>v_cwd := Some target\<rparr>)))
            })"

section \<open>vfs_unlink and vfs_rmdir\<close>

text \<open>The call of the operation of the parent, with the reference of the target given back.\<close>

definition remove_target ::
  "(kfs \<Rightarrow> inode \<Rightarrow> bytes \<Rightarrow> inode \<Rightarrow> remove_result option) \<Rightarrow> nat \<Rightarrow> nat \<Rightarrow> vfs \<Rightarrow> (int \<times> vfs) option" where
  "remove_target f target node v =
     (case d_parent (v_dentry v target) of
        None \<Rightarrow> Some (EINVAL_neg, dput target v)
      | Some parent \<Rightarrow>
          (case d_inode (v_dentry v parent) of
             None \<Rightarrow> Some (EINVAL_neg, dput target v)
           | Some dir \<Rightarrow>
               if i_op (v_inode v dir) \<noteq> Ext4_Dir_Ops then Some (EINVAL_neg, dput target v)
               else do {
                 (r, v1) \<leftarrow> op_remove f dir target node v;
                 Some (if r \<noteq> 0 then op_errno r else 0, dput target v1)
               }))"

definition vfs_unlink :: "bytes option \<Rightarrow> vfs \<Rightarrow> (int \<times> vfs) option" where
  "vfs_unlink path v =
     (case path of
        None \<Rightarrow> Some (EINVAL_neg, v)
      | Some p \<Rightarrow>
          if p = [] then Some (EINVAL_neg, v)
          else case vfs_enter True v of
            (Inl e, v1) \<Rightarrow> Some (e, v1)
          | (Inr (root, cwd), v1) \<Rightarrow> do {
              (r, v2) \<leftarrow> lookup_target p cwd v1;
              case r of
                None \<Rightarrow> Some (ENOENT_neg, v2)
              | Some target \<Rightarrow>
                  (case d_inode (v_dentry v2 target) of
                     None \<Rightarrow> Some (ENOENT_neg, v2)
                   | Some node \<Rightarrow>
                       if S_ISDIR (i_mode (v_inode v2 node)) then Some (EISDIR_neg, dput target v2)
                       else remove_target ext4_unlink target node v2)
            })"

definition vfs_rmdir :: "bytes option \<Rightarrow> vfs \<Rightarrow> (int \<times> vfs) option" where
  "vfs_rmdir path v =
     (case path of
        None \<Rightarrow> Some (EINVAL_neg, v)
      | Some p \<Rightarrow>
          if p = [] then Some (EINVAL_neg, v)
          else case vfs_enter True v of
            (Inl e, v1) \<Rightarrow> Some (e, v1)
          | (Inr (root, cwd), v1) \<Rightarrow> do {
              (r, v2) \<leftarrow> lookup_target p cwd v1;
              case r of
                None \<Rightarrow> Some (ENOENT_neg, v2)
              | Some target \<Rightarrow>
                  (case d_inode (v_dentry v2 target) of
                     None \<Rightarrow> Some (ENOENT_neg, dput target v2)
                   | Some node \<Rightarrow>
                       if \<not> S_ISDIR (i_mode (v_inode v2 node)) then Some (ENOTDIR_neg, dput target v2)
                       else if target = root \<or> target = cwd then Some (EBUSY_neg, dput target v2)
                       else remove_target ext4_rmdir target node v2)
            })"

section \<open>vfs_stat\<close>

text \<open>The fields of struct kstat that are not constant 0; rdev is that of a fresh inode, 0.\<close>

record kstat =
  st_ino :: u64
  st_dev :: u32
  st_mode :: u16
  st_nlink :: u32
  st_uid :: u32
  st_gid :: u32
  st_size :: u64
  st_blocks :: u64
  st_mtime_ns :: u64
  st_ctime_ns :: u64
  st_atime_ns :: u64
  st_blksize :: u32

definition stat_of :: "vfs_super \<Rightarrow> inode \<Rightarrow> kstat" where
  "stat_of sb node =
     \<lparr>st_ino = ucast (i_ino node), st_dev = sb_dev sb, st_mode = i_mode node, st_nlink = i_nlink node,
      st_uid = i_uid node, st_gid = i_gid node, st_size = i_size node, st_blocks = ucast (i_blocks node),
      st_mtime_ns = i_mtime node, st_ctime_ns = i_ctime node, st_atime_ns = i_atime node,
      st_blksize = sb_blocksize sb\<rparr>"

definition vfs_stat :: "bytes option \<Rightarrow> vfs \<Rightarrow> ((int + kstat) \<times> vfs) option" where
  "vfs_stat path v =
     (case path of
        None \<Rightarrow> Some (Inl EINVAL_neg, v)
      | Some p \<Rightarrow>
          (case vfs_enter True v of
             (Inl e, v1) \<Rightarrow> Some (Inl e, v1)
           | (Inr (root, cwd), v1) \<Rightarrow> do {
               (r, v2) \<leftarrow> lookup_target p cwd v1;
               Some (case r of
                       None \<Rightarrow> (Inl ENOENT_neg, v2)
                     | Some target \<Rightarrow>
                         (case d_inode (v_dentry v2 target) of
                            None \<Rightarrow> (Inl ENOENT_neg, dput target v2)
                          | Some node \<Rightarrow> (Inr (stat_of (v_super v2) (v_inode v2 node)), dput target v2)))
             }))"

end
