(* ===== verification/Vfs_Open.thy ===== *)
theory Vfs_Open
  imports Vfs_Dir
begin

text \<open>
  The descriptor calls, fs/open.c: open, close, read, write and getdents over the descriptor
  table. A file keeps the slot of its inode and its dentry.
\<close>

abbreviation (input) EMFILE_neg :: int where "EMFILE_neg \<equiv> - 24"
abbreviation (input) EBADF_neg :: int where "EBADF_neg \<equiv> - 9"

definition MAX_FD :: nat where "MAX_FD = 256"

definition blank_file :: vfs_file where
  "blank_file = \<lparr>f_inode = None, f_path_dentry = None, f_op = No_Ops, f_pos = 0, f_flags = 0, f_mode = 0\<rparr>"

section \<open>vfs_open\<close>

text \<open>Creation of a missing file: an error or the new dentry. The parent's reference is kept.\<close>

definition open_create ::
  "bytes option \<Rightarrow> u32 \<Rightarrow> nat \<Rightarrow> nat \<Rightarrow> vfs \<Rightarrow> ((int + nat) \<times> vfs) option" where
  "open_create path mode root cwd v =
     (case path of
        None \<Rightarrow> Some (Inl EINVAL_neg, v)
      | Some p \<Rightarrow>
          if p = [] then Some (Inl EINVAL_neg, v)
          else do {
            (r, v1) \<leftarrow> create_parent False p root cwd v;
            case r of
              Inl e \<Rightarrow> Some (Inl e, v1)
            | Inr (parent, _, name) \<Rightarrow>
                (case d_inode (v_dentry v1 parent) of
                   None \<Rightarrow> Some (Inl EINVAL_neg, v1)
                 | Some dir \<Rightarrow>
                     if i_op (v_inode v1 dir) \<noteq> Ext4_Dir_Ops then Some (Inl EINVAL_neg, v1)
                     else do {
                       name \<leftarrow> name_buf name;
                       case d_alloc (Some parent) (qstr_init name) v1 of
                         (None, v2) \<Rightarrow> Some (Inl ENOMEM_neg, v2)
                       | (Some dentry, v2) \<Rightarrow> do {
                           (cr, v3) \<leftarrow> op_new ext4_create dir dentry (ucast mode) v2;
                           Some (if cr \<noteq> 0
                                 then (Inl (if cr < 0 then (if cr = - 1 then EIO_neg else cr) else EIO_neg), dput dentry v3)
                                 else (Inr dentry, v3))
                         }
                     })
          })"

text \<open>
  The open of the table and the descriptor. ext4_file_open and ext4_dir_open do not fail. None is
  the dereference of a missing inode.
\<close>

definition open_file :: "nat \<Rightarrow> nat \<Rightarrow> u32 \<Rightarrow> u32 \<Rightarrow> vfs \<Rightarrow> (int \<times> vfs) option" where
  "open_file fd target flags mode v = do {
     k \<leftarrow> d_inode (v_dentry v target);
     let node = v_inode v k;
     let f = blank_file\<lparr>f_inode := Some k, f_path_dentry := Some target, f_op := i_op node,
                        f_flags := flags, f_mode := mode\<rparr>;
     (node', fs) \<leftarrow> (if i_op node = Ext4_File_Ops then ext4_file_open (v_fs v) node flags
                     else Some (node, v_fs v));
     Some (int fd, v\<lparr>v_fs := fs, v_inodes := (v_inodes v)[k := node'],
                     v_files := (v_files v)[fd := f], v_fd_used := (v_fd_used v)[fd := True]\<rparr>)
   }"

text \<open>The target of the path before creation; an empty path is the current directory.\<close>

definition open_target :: "bytes option \<Rightarrow> nat \<Rightarrow> nat \<Rightarrow> vfs \<Rightarrow> (nat option \<times> vfs) option" where
  "open_target path root cwd v =
     (case path of
        None \<Rightarrow> Some (Some cwd, v)
      | Some p \<Rightarrow>
          if p = [] then Some (Some cwd, v)
          else if p = [slash] then Some (Some root, v)
          else lookup_target p cwd v)"

definition vfs_open :: "bytes option \<Rightarrow> u32 \<Rightarrow> u32 \<Rightarrow> vfs \<Rightarrow> (int \<times> vfs) option" where
  "vfs_open path flags mode v =
     (case first_unused (v_fd_used v) of
        None \<Rightarrow> Some (EMFILE_neg, v)
      | Some fd \<Rightarrow>
          (case vfs_enter False v of
             (Inl e, v1) \<Rightarrow> Some (e, v1)
           | (Inr (root, cwd), v1) \<Rightarrow> do {
               (r, v2) \<leftarrow> open_target path root cwd v1;
               (t, v3) \<leftarrow> (case r of
                              Some d \<Rightarrow>
                                if d_inode (v_dentry v2 d) \<noteq> None then Some (Inr d, v2)
                                else if flags AND O_CREAT \<noteq> 0 then open_create path mode root cwd v2
                                else Some (Inl ENOENT_neg, v2)
                            | None \<Rightarrow>
                                if flags AND O_CREAT \<noteq> 0 then open_create path mode root cwd v2
                                else Some (Inl ENOENT_neg, v2));
               case t of
                 Inl e \<Rightarrow> Some (e, v3)
               | Inr target \<Rightarrow> open_file fd target flags mode v3
             }))"

section \<open>Descriptors\<close>

definition fd_file :: "int \<Rightarrow> vfs \<Rightarrow> vfs_file option" where
  "fd_file fd v =
     (if fd < 0 \<or> fd \<ge> int MAX_FD \<or> \<not> v_fd_used v ! nat fd then None else Some (v_files v ! nat fd))"

definition vfs_close :: "int \<Rightarrow> vfs \<Rightarrow> (int \<times> vfs) option" where
  "vfs_close fd v =
     (case fd_file fd v of
        None \<Rightarrow> Some (EBADF_neg, v)
      | Some f \<Rightarrow> do {
          v1 \<leftarrow> (if f_op f = No_Ops then Some v
                 else do {
                   k \<leftarrow> f_inode f;
                   let (node, fs) = ext4_file_release (v_fs v) (v_inode v k);
                   Some (v\<lparr>v_fs := fs, v_inodes := (v_inodes v)[k := node]\<rparr>)
                 });
          let v2 = (case f_path_dentry f of None \<Rightarrow> v1 | Some d \<Rightarrow> dput d v1);
          Some (0, v2\<lparr>v_files := (v_files v2)[nat fd := blank_file],
                      v_fd_used := (v_fd_used v2)[nat fd := False]\<rparr>)
        })"

section \<open>vfs_read and vfs_write\<close>

definition set_pos :: "int \<Rightarrow> u64 \<Rightarrow> vfs \<Rightarrow> vfs" where
  "set_pos fd pos v = v\<lparr>v_files := (v_files v)[nat fd := (v_files v ! nat fd)\<lparr>f_pos := pos\<rparr>]\<rparr>"

text \<open>
  stale is the uninitialised extent of the block map. The result of ext4_file_read and
  ext4_file_write is returned as it is, -1 included; the position moves only when bytes were
  transferred.
\<close>

definition vfs_read :: "ext4_extent option \<Rightarrow> int \<Rightarrow> u32 \<Rightarrow> vfs \<Rightarrow> ((int + bytes) \<times> vfs) option" where
  "vfs_read stale fd count v =
     (case fd_file fd v of
        None \<Rightarrow> Some (Inl EBADF_neg, v)
      | Some f \<Rightarrow>
          if f_op f \<noteq> Ext4_File_Ops then Some (Inl EINVAL_neg, v)
          else do {
            k \<leftarrow> f_inode f;
            (r, pos, fs) \<leftarrow> ext4_file_read stale (v_fs v) (v_inode v k) (f_pos f) count;
            let v1 = v\<lparr>v_fs := fs\<rparr>;
            Some (case r of
                    None \<Rightarrow> (Inl (- 1), v1)
                  | Some xs \<Rightarrow> (Inr xs, if xs \<noteq> [] then set_pos fd pos v1 else v1))
          })"

definition vfs_write :: "int \<Rightarrow> bytes \<Rightarrow> vfs \<Rightarrow> (int \<times> vfs) option" where
  "vfs_write fd data v =
     (case fd_file fd v of
        None \<Rightarrow> Some (EBADF_neg, v)
      | Some f \<Rightarrow>
          if f_op f \<noteq> Ext4_File_Ops then Some (EINVAL_neg, v)
          else do {
            k \<leftarrow> f_inode f;
            (r, node, pos, fs) \<leftarrow> ext4_file_write (v_fs v) (v_inode v k) (f_pos f) data;
            let v1 = v\<lparr>v_fs := fs, v_inodes := (v_inodes v)[k := node]\<rparr>;
            Some (case r of
                    None \<Rightarrow> (- 1, v1)
                  | Some n \<Rightarrow> (int n, if n > 0 then set_pos fd pos v1 else v1))
          })"

section \<open>vfs_getdents\<close>

text \<open>
  A record is the inode number, the offset, the record length, the name and a NUL; on the target
  the fixed part of struct linux_dirent has 10 bytes and its size is 12.
\<close>

record getdents_context =
  gc_buf :: bytes
  gc_count :: u32
  gc_written :: u32
  gc_error :: int

definition dirent_reclen :: "nat \<Rightarrow> nat" where
  "dirent_reclen name_len = (12 + name_len + 1 + 3) div 4 * 4"

definition filldir_getdents ::
  "getdents_context \<Rightarrow> bytes \<Rightarrow> u64 \<Rightarrow> u32 \<Rightarrow> getdents_context \<times> bool" where
  "filldir_getdents p name off ino =
     (let reclen = of_nat (dirent_reclen (length name)) :: u32 in
      if gc_written p + reclen > gc_count p
      then ((if gc_written p = 0 then p\<lparr>gc_error := EINVAL_neg\<rparr> else p), True)
      else (p\<lparr>gc_buf := bsplice (unat (gc_written p))
                  (enc32 ino @ enc32 (ucast off) @ enc16 (ucast reclen) @ name @ [0]) (gc_buf p),
              gc_written := gc_written p + reclen\<rparr>, False))"

text \<open>The number of bytes or an error, and the buffer.\<close>

definition vfs_getdents :: "int \<Rightarrow> bytes \<Rightarrow> u32 \<Rightarrow> vfs \<Rightarrow> (int \<times> bytes \<times> vfs) option" where
  "vfs_getdents fd dirent count v =
     (case fd_file fd v of
        None \<Rightarrow> Some (EBADF_neg, dirent, v)
      | Some f \<Rightarrow>
          if f_op f \<noteq> Ext4_Dir_Ops then Some (ENOTDIR_neg, dirent, v)
          else do {
            k \<leftarrow> f_inode f;
            (ok, ctx, pos, fs) \<leftarrow> ext4_dir_readdir filldir_getdents (v_fs v) (v_inode v k) (f_pos f)
              \<lparr>gc_buf = dirent, gc_count = count, gc_written = 0, gc_error = 0\<rparr>;
            let v1 = set_pos fd pos (v\<lparr>v_fs := fs\<rparr>);
            Some (if gc_error ctx < 0 then (gc_error ctx, gc_buf ctx, v1)
                  else if \<not> ok \<and> gc_written ctx = 0 then (- 1, gc_buf ctx, v1)
                  else (int (unat (gc_written ctx)), gc_buf ctx, v1))
          })"

end
