(* ===== verification/Vfs_Props.thy ===== *)
theory Vfs_Props
  imports Dcache_Refs Vfs_Open Demo_State
begin

text \<open>
  Properties of path lookup and of the descriptor calls.
\<close>

section \<open>References of a path lookup\<close>

text \<open>
  The result of a walk: one held reference on the dentry it ends at, none when it fails.
\<close>

definition holds :: "nat option \<Rightarrow> nat multiset \<Rightarrow> nat multiset" where
  "holds r R = (case r of None \<Rightarrow> R | Some c \<Rightarrow> add_mset c R)"

lemma holds_simps [simp]: "holds None R = R" "holds (Some c) R = add_mset c R"
  by (simp_all add: holds_def)

lemma put_inode_dentry [simp]: "v_dentry (v_put_inode n v) = v_dentry v" "dc_used (v_put_inode n v) = dc_used v"
  by (simp_all add: v_put_inode_def v_dentry_def dc_used_def fun_eq_iff)

lemma op_lookup_refs:
  assumes I: "dc_inv R v" and c: "dc_used v c" "d_parent (v_dentry v c) \<noteq> Some c" and l: "op_lookup dir c v = Some w"
  shows "dc_inv R w"
proof -
  obtain r fs where r: "ext4_lookup (v_fs v) (v_inode v dir) (d_name (v_dentry v c)) = Some (r, fs)"
    "w = (case r of None \<Rightarrow> v\<lparr>v_fs := fs\<rparr>
          | Some node \<Rightarrow> d_instantiate c (Some (i_slot node)) (v_put_inode node (v\<lparr>v_fs := fs\<rparr>)))"
    using l by (auto simp: op_lookup_def Let_def split: bind_splits prod.splits)
  have I1: "dc_inv R (v\<lparr>v_fs := fs\<rparr>)" by (rule dc_inv_same [OF I]) simp
  show ?thesis
  proof (cases r)
    case None
    with r I1 show ?thesis by simp
  next
    case (Some node)
    have "dc_inv R (v_put_inode node (v\<lparr>v_fs := fs\<rparr>))" by (rule dc_inv_same [OF I1]) simp
    then have "dc_inv R (d_instantiate c (Some (i_slot node)) (v_put_inode node (v\<lparr>v_fs := fs\<rparr>)))"
      by (rule dc_inv_instantiate) (use c in \<open>simp_all add: v_dentry_def dc_used_def\<close>)
    with r Some show ?thesis by simp
  qed
qed

lemma lookup_child_refs:
  assumes I: "dc_inv R v" and cur: "dc_used v cur" and l: "lookup_child cur dir name v = Some (r, w)"
  shows "dc_inv (holds r R) w"
proof -
  obtain r1 v1 where d: "d_lookup cur (qstr_init name) v = (r1, v1)" by fastforce
  have I1: "dc_inv (holds r1 R) v1" using dc_inv_lookup [OF I cur d] by (simp add: holds_def)
  show ?thesis
  proof (cases r1)
    case (Some c)
    with l d I1 show ?thesis by (auto simp: lookup_child_def)
  next
    case None
    have v1: "v1 = v" using d None by (auto simp: d_lookup_def split: option.splits)
    obtain r2 v2 where a: "d_alloc (Some cur) (qstr_init name) v = (r2, v2)" by fastforce
    have A: "dc_inv (case r2 of None \<Rightarrow> R | Some i \<Rightarrow> add_mset i R) v2"
      "r2 = Some i \<Longrightarrow> d_parent (v_dentry v2 i) = Some cur \<and> \<not> dc_used v i" for i
      using dc_inv_alloc [OF I _ a] cur by simp_all
    show ?thesis
    proof (cases r2)
      case None
      with l d \<open>r1 = None\<close> a v1 A(1) show ?thesis by (auto simp: lookup_child_def)
    next
      case (Some c)
      with l d \<open>r1 = None\<close> a v1 obtain v3 where o: "op_lookup dir c v2 = Some v3" "r = Some c" "w = v3"
        by (auto simp: lookup_child_def split: bind_splits)
      have I2: "dc_inv (add_mset c R) v2" using A(1) Some by simp
      have "d_parent (v_dentry v2 c) = Some cur" "cur \<noteq> c" using A(2) [OF Some] cur by auto
      then have "dc_inv (add_mset c R) v3"
        using op_lookup_refs [OF I2 dc_inv_used [OF I2] _ o(1)] by simp
      with o show ?thesis by simp
    qed
  qed
qed

lemma walk_step_refs:
  assumes I: "dc_inv (add_mset cur R) v" and s: "walk_step cur name v = Some (r, w)"
  shows "dc_inv (holds r R) w"
proof -
  have cur: "dc_used v cur" by (rule dc_inv_used [OF I]) simp
  have put: "dc_inv R' (dput cur v')" if "dc_inv (add_mset cur R') v'" for R' v'
    using dc_inv_dput [OF that, of cur] by simp
  consider "name = [dot]" | "name \<noteq> [dot]" "name = [dot, dot]" | "name \<noteq> [dot]" "name \<noteq> [dot, dot]" by blast
  then show ?thesis
  proof cases
    case 1
    with s I show ?thesis by (auto simp: walk_step_def)
  next
    case 2
    show ?thesis
    proof (cases "d_parent (v_dentry v cur)")
      case None
      with s 2 I show ?thesis by (auto simp: walk_step_def)
    next
      case (Some p)
      have "dc_inv (add_mset cur (add_mset p R)) (dget p v)"
        using dc_inv_dget [OF I dc_inv_parent [OF I cur Some]] by (simp add: add_mset_commute)
      moreover have "r = Some p" "w = dput cur (dget p v)" using s 2 Some by (auto simp: walk_step_def)
      ultimately show ?thesis using put by simp
    qed
  next
    case 3
    show ?thesis
    proof (cases "\<exists>dir. d_inode (v_dentry v cur) = Some dir \<and> has_lookup v dir")
      case False
      with s 3 have "r = None" "w = dput cur v" by (auto simp: walk_step_def split: option.splits if_splits)
      with put [OF I] show ?thesis by simp
    next
      case True
      then obtain dir where dir: "d_inode (v_dentry v cur) = Some dir" "has_lookup v dir" by blast
      from s 3 dir obtain nm child v1 where n: "lookup_child cur dir nm v = Some (child, v1)"
        and w: "(r, w) = (case child of None \<Rightarrow> (None, dput cur v1)
              | Some c \<Rightarrow> if d_inode (v_dentry v1 c) = None then (None, dput cur (dput c v1)) else (Some c, dput cur v1))"
        by (auto simp: walk_step_def split: bind_splits)
      have I1: "dc_inv (holds child (add_mset cur R)) v1" by (rule lookup_child_refs [OF I cur n])
      show ?thesis
      proof (cases child)
        case None
        with w I1 put show ?thesis by auto
      next
        case (Some c)
        then have I2: "dc_inv (add_mset c (add_mset cur R)) v1" using I1 by simp
        then have "dc_inv (add_mset cur R) (dput c v1)" using dc_inv_dput [OF I2, of c] by simp
        moreover have "dc_inv (add_mset c R) (dput cur v1)" using put [of "add_mset c R" v1] I2 by (simp add: add_mset_commute)
        ultimately show ?thesis using w Some put by (auto split: if_splits)
      qed
    qed
  qed
qed

lemma walk_refs:
  "dc_inv (add_mset cur R) v \<Longrightarrow> walk cur p v = Some (r, w) \<Longrightarrow> dc_inv (holds r R) w"
proof (induction cur p v arbitrary: r w rule: walk.induct)
  case (1 cur p v)
  show ?case
  proof (cases "next_component p")
    case None
    with 1(2,3) show ?thesis by (subst (asm) walk.simps) auto
  next
    case (Some a)
    obtain name rest where nr: "a = (name, rest)" by fastforce
    from 1(3) Some nr obtain r1 v1 where s: "walk_step cur name v = Some (r1, v1)"
      by (subst (asm) walk.simps) (auto split: option.splits)
    have I1: "dc_inv (holds r1 R) v1" by (rule walk_step_refs [OF 1(2) s])
    show ?thesis
    proof (cases r1)
      case None
      with 1(3) Some nr s I1 show ?thesis by (subst (asm) walk.simps) auto
    next
      case c: (Some c)
      with I1 have I2: "dc_inv (add_mset c R) v1" by simp
      show ?thesis
      proof (cases "skip_slashes rest = []")
        case True
        with 1(3) Some nr s c I1 show ?thesis by (subst (asm) walk.simps) auto
      next
        case False
        with 1(3) Some nr s c have "walk c (skip_slashes rest) v1 = Some (r, w)"
          by (subst (asm) walk.simps) auto
        then show ?thesis using 1(1) [OF Some nr [symmetric] s _ c refl False I2] nr by simp
      qed
    qed
  qed
qed

text \<open>C16: A path lookup balances its references. When the counts of the dentry cache agree with the
  references held and the parent links, they still do after vfs_path_lookup, with one more
  reference held on the dentry it returns and none when it fails: nothing it allocated or touched
  on the way stays referenced, and no dentry in use is left without a reference.\<close>

theorem path_lookup_balances_refs:
  assumes "dc_inv R v" "dc_used v d" "vfs_path_lookup (Some d) (Some path) v = Some (r, w)"
  shows "dc_inv (holds r R) w"
proof -
  have g: "dc_inv (add_mset d R) (dget d v)" by (rule dc_inv_dget [OF assms(1,2)])
  have "r = None \<and> w = v \<or> r = Some d \<and> w = dget d v \<or> walk d (skip_slashes path) (dget d v) = Some (r, w)"
    using assms(3) by (auto simp: vfs_path_lookup_def Let_def split: if_splits)
  then show ?thesis using walk_refs [OF g] g assms(1) by auto
qed

definition demo_dentry :: "bytes \<Rightarrow> int \<Rightarrow> nat option \<Rightarrow> nat list \<Rightarrow> nat \<Rightarrow> dentry" where
  "demo_dentry name n parent subs k =
     \<lparr>d_count = n, d_name = name, d_hash = 0, d_parent = parent, d_subdirs = subs,
      d_linked = (parent = Some 0 \<and> k \<noteq> 0), d_inode = Some k\<rparr>"

text \<open>The root with one cached child a, which is a directory.\<close>

definition demo_vfs :: vfs where
  "demo_vfs =
     \<lparr>v_fs = demo_fs, v_inodes = map (\<lambda>k. (vfs_fresh_inode k)\<lparr>i_op := Ext4_Dir_Ops, i_mode := S_IFDIR\<rparr>) [0..<3],
      v_dentries = [demo_dentry [slash] 2 (Some 0) [1] 0, demo_dentry [97] 1 (Some 0) [] 1, demo_dentry [] 0 None [] 2],
      v_dused = [True, True, False],
      v_super = \<lparr>sb_root = Some 0, sb_dev = 0x800, sb_blocksize = 1024\<rparr>, v_root_sb = True, v_sb_listed = True,
      v_cwd = Some 1, v_files = replicate 3 blank_file, v_fd_used = [True, False, False]\<rparr>"

lemma demo_used: "dc_used demo_vfs i \<longleftrightarrow> i = 0 \<or> i = 1"
  by (cases i; cases "i - 1"; simp add: dc_used_def demo_vfs_def) (simp add: nth_Cons split: nat.splits)

lemma demo_dc_inv: "dc_inv {#0, 1#} demo_vfs"
proof (rule dc_invI)
  have P: "parent_refs demo_vfs = {#0#}"
    by (simp add: parent_refs_def demo_vfs_def eval_nat_numeral lessThan_Suc own_ref_def dc_used_def v_dentry_def demo_dentry_def)
  show "length (v_dentries demo_vfs) = length (v_dused demo_vfs)" by (simp add: demo_vfs_def)
  fix i
  show "dc_used demo_vfs i \<longleftrightarrow> 0 < count {#0, 1#} i + count (parent_refs demo_vfs) i"
    unfolding P demo_used by auto
  assume "dc_used demo_vfs i"
  then consider "i = 0" | "i = 1" unfolding demo_used by blast
  note cs = this
  show "d_count (v_dentry demo_vfs i) = int (count {#0, 1#} i + count (parent_refs demo_vfs) i)"
    unfolding P by (rule cs; simp add: demo_vfs_def v_dentry_def demo_dentry_def)
  show "kids_ok demo_vfs i"
    unfolding kids_ok_def demo_used by (rule cs; simp add: demo_vfs_def v_dentry_def demo_dentry_def)
  show "listed_ok demo_vfs i"
    unfolding listed_ok_def demo_used by (rule cs; simp add: demo_vfs_def v_dentry_def demo_dentry_def)
qed

theorem path_lookup_balances_refs_witness:
  "\<exists>w. vfs_path_lookup (Some 0) (Some [slash, 97, slash]) demo_vfs = Some (Some 1, w) \<and> dc_inv {#0, 1, 1#} w"
proof -
  have "\<exists>w. vfs_path_lookup (Some 0) (Some [slash, 97, slash]) demo_vfs = Some (Some 1, w)"
    by (simp add: vfs_path_lookup_def demo_vfs_def v_dentry_def demo_dentry_def walk.simps next_component_def
        skip_slashes_def walk_step_def has_lookup_def v_inode_def name_buf_def lookup_child_def d_lookup_def
        qstr_init_def dget_def v_upd_dentry_def Let_def)
  then obtain w where w: "vfs_path_lookup (Some 0) (Some [slash, 97, slash]) demo_vfs = Some (Some 1, w)" ..
  have "dc_inv (holds (Some 1) {#0, 1#}) w"
    by (rule path_lookup_balances_refs [OF demo_dc_inv _ w]) (simp add: demo_used)
  with w show ?thesis by (auto simp: add_mset_commute)
qed

section \<open>A path as a list of components\<close>

fun split_slash :: "bytes \<Rightarrow> bytes list" where
  "split_slash [] = [[]]"
| "split_slash (c # cs) =
     (if c = slash then [] # split_slash cs else (c # hd (split_slash cs)) # tl (split_slash cs))"

definition components :: "bytes \<Rightarrow> bytes list" where
  "components path = filter (\<lambda>w. w \<noteq> []) (split_slash path)"

fun walk_all :: "nat \<Rightarrow> bytes list \<Rightarrow> vfs \<Rightarrow> (nat option \<times> vfs) option" where
  "walk_all cur [] v = Some (Some cur, v)"
| "walk_all cur (name # names) v =
     (case walk_step cur name v of
        None \<Rightarrow> None
      | Some (None, v1) \<Rightarrow> Some (None, v1)
      | Some (Some c, v1) \<Rightarrow> walk_all c names v1)"

lemma split_slash_ne [simp]: "split_slash p \<noteq> []"
  by (cases p) auto

lemma components_skip: "components (skip_slashes p) = components p"
  by (induction p) (auto simp: components_def skip_slashes_def)

lemma split_slash_word:
  "hd (split_slash p) = takeWhile (\<lambda>c. c \<noteq> slash) p"
  "tl (split_slash p) = (case dropWhile (\<lambda>c. c \<noteq> slash) p of [] \<Rightarrow> [] | _ # q \<Rightarrow> split_slash q)"
  by (induction p) auto

lemma skip_slashes_hd: "skip_slashes p = c # q \<Longrightarrow> c \<noteq> slash"
  using hd_dropWhile [of "\<lambda>c. c = slash" p] by (simp add: skip_slashes_def)

lemma components_next:
  "components p = (case next_component p of None \<Rightarrow> [] | Some (name, rest) \<Rightarrow> name # components rest)"
proof (cases "skip_slashes p")
  case Nil
  have "components p = components []" using components_skip [of p] Nil by simp
  then show ?thesis using Nil by (simp add: next_component_def components_def)
next
  case (Cons c q)
  let ?p = "skip_slashes p"
  let ?w = "takeWhile (\<lambda>c. c \<noteq> slash) ?p" and ?r = "dropWhile (\<lambda>c. c \<noteq> slash) ?p"
  have w: "?w \<noteq> []" using Cons skip_slashes_hd [OF Cons] by simp
  have "components ?p = filter (\<lambda>w. w \<noteq> []) (hd (split_slash ?p) # tl (split_slash ?p))"
    by (simp add: components_def)
  also have "\<dots> = ?w # filter (\<lambda>w. w \<noteq> []) (tl (split_slash ?p))" using w by (simp add: split_slash_word(1))
  also have "filter (\<lambda>w. w \<noteq> []) (tl (split_slash ?p)) = components ?r"
  proof (cases ?r)
    case Nil
    show ?thesis unfolding split_slash_word(2) components_def Nil by simp
  next
    case (Cons d r)
    then have "d = slash" using hd_dropWhile [of "\<lambda>c. c \<noteq> slash" ?p] by auto
    then show ?thesis unfolding split_slash_word(2) components_def Cons by simp
  qed
  finally have e: "components p = ?w # components ?r" by (simp only: components_skip)
  have "next_component p = Some (?w, ?r)" using Cons by (simp add: next_component_def Let_def)
  with e show ?thesis by (simp only: option.case prod.case)
qed

lemma walk_is_walk_all: "walk cur p v = walk_all cur (components p) v"
proof (induction cur p v rule: walk.induct)
  case (1 cur p v)
  show ?case
  proof (cases "next_component p")
    case None
    then show ?thesis by (subst walk.simps, subst components_next) simp
  next
    case (Some a)
    obtain name rest where nr: "a = (name, rest)" by fastforce
    have c: "components p = name # components rest" using Some nr by (subst components_next) simp
    show ?thesis
    proof (cases "\<exists>d v1. walk_step cur name v = Some (Some d, v1)")
      case False
      then show ?thesis using Some nr c by (subst walk.simps) (auto split: option.splits)
    next
      case True
      then obtain d v1 where s: "walk_step cur name v = Some (Some d, v1)" by blast
      let ?q = "skip_slashes rest"
      have "components rest = []" if "?q = []"
        using that by (subst components_next) (simp add: next_component_def)
      moreover have "walk d ?q v1 = walk_all d (components ?q) v1" if "?q \<noteq> []"
        using 1 [OF Some nr [symmetric] s] that by simp
      ultimately show ?thesis
        using Some nr c s by (subst walk.simps) (simp add: Let_def components_skip)
    qed
  qed
qed

text \<open>C17: A path lookup is a fold of the single steps over the components of the path, the non-empty
  words between its slashes: leading, trailing and repeated slashes make no difference.\<close>

theorem path_lookup_is_fold:
  assumes "d_inode (v_dentry v d) \<noteq> None"
  shows "vfs_path_lookup (Some d) (Some path) v = walk_all d (components path) (dget d v)"
proof (cases "skip_slashes path = []")
  case True
  then have "components path = []" by (subst components_next) (simp add: next_component_def)
  with True assms show ?thesis by (auto simp: vfs_path_lookup_def Let_def)
next
  case False
  with assms show ?thesis by (auto simp: vfs_path_lookup_def Let_def walk_is_walk_all components_skip)
qed

theorem path_lookup_is_fold_witness:
  "vfs_path_lookup (Some 0) (Some [slash, slash, 97, slash, 46, 46]) demo_vfs =
     walk_all 0 [[97], [46, 46]] (dget 0 demo_vfs)"
proof -
  have "d_inode (v_dentry demo_vfs 0) \<noteq> None" by (simp add: demo_vfs_def v_dentry_def demo_dentry_def)
  from path_lookup_is_fold [OF this, of "[slash, slash, 97, slash, 46, 46]"]
  show ?thesis by (simp add: components_def)
qed

end
