(* ===== verification/Mount.thy ===== *)
theory Mount
  imports Vfs_Dir Mkfs
begin

text \<open>
  Mounting: ext4_fill_super, ext4_kill_sb and ext4_destroy_sbi of fs/ext4/super.c, and
  get_sb_bdev, mount_bdev, deactivate_super and the list of file system types of fs/super.c.
\<close>

section \<open>The superblock block\<close>

text \<open>The fields are read in place, at 1024 bytes into the buffer.\<close>

abbreviation (input) SB_OFF :: nat where "SB_OFF \<equiv> 1024"

definition sb32 :: "bytes \<Rightarrow> nat \<Rightarrow> u32" where
  "sb32 buf off = get32 buf (SB_OFF + off)"

definition sb16 :: "bytes \<Rightarrow> nat \<Rightarrow> u16" where
  "sb16 buf off = get16 buf (SB_OFF + off)"

definition total_by_sectors :: "u32 \<Rightarrow> block_device \<Rightarrow> u32" where
  "total_by_sectors block_size bdev =
     (let per = block_size div bd_sector_size bdev;
          per = (if per = 0 then 1 else per)
      in ucast (blkdev_nr_sectors (Some bdev)) div per)"

text \<open>The number of blocks an empty disk is formatted with.\<close>

definition format_blocks :: "u32 \<Rightarrow> block_device \<Rightarrow> u32" where
  "format_blocks block_size bdev =
     (let total = (if (ucast (blkdev_nr_sectors (Some bdev)) :: u32) > 0
                   then total_by_sectors block_size bdev else 16384)
      in if total < 1024 then 1024 else total)"

text \<open>
  The block with the superblock, formatting the disk first when the magic number is missing; the
  inner None is an error, the outer one the division by a sector size of 0.
\<close>

definition read_super_block :: "kfs \<Rightarrow> (bytes option \<times> kfs) option" where
  "read_super_block s0 =
     (let s = ext4_set_block_size (of_nat BLOCK_SIZE) s0 in
      case ext4_read_block s 0 of
        None \<Rightarrow> Some (None, s)
      | Some buf \<Rightarrow>
          if sb16 buf 56 = EXT4_SUPER_MAGIC then Some (Some buf, s)
          else if bd_sector_size (s_bdev s) = 0 then None
          else do {
            (ok, s1) \<leftarrow> ext4_mkfs (of_nat BLOCK_SIZE) (format_blocks (of_nat BLOCK_SIZE) (s_bdev s)) s;
            if ok then Some (ext4_read_block s1 0, s1) else Some (None, s1)
          })"

definition valid_desc_size :: "u16 \<Rightarrow> u16" where
  "valid_desc_size d0 =
     (let d = (if d0 = 0 then 32 else d0) in
      if d < 32 \<or> d > 64 \<or> d AND 7 \<noteq> 0 then 32 else d)"

section \<open>The superblock information\<close>

definition sbi_of_super :: "bytes \<Rightarrow> u32 \<Rightarrow> ext4_sb_info" where
  "sbi_of_super buf block_size =
     \<lparr>s_blocks_per_group = sb32 buf 32, s_inodes_per_group = sb32 buf 40, s_inodes_count = sb32 buf 0,
      s_blocks_count = sb32 buf 4, s_first_data_block = sb32 buf 20, s_log_block_size = sb32 buf 24,
      s_block_size = block_size, s_groups_count = 0, s_desc_size = valid_desc_size (sb16 buf 254),
      s_group_desc = None, s_root_ino = 2,
      s_hash_seed = [sb32 buf 236, sb32 buf 240, sb32 buf 244, sb32 buf 248],
      s_def_hash_version = buf ! (SB_OFF + 252),
      s_alloc_nf = \<lparr>goal_group = 0, goal_bit_per_group = None\<rparr>,
      s_bmap_cache_group = 0, s_bmap_cache_valid = False, s_bmap_cache_dirty = False,
      s_bmap_cache_buf = None, s_bg_sync_pending = 0\<rparr>"

text \<open>
  Counts of 0 on disk are replaced; None is the error of a device without sectors. Outside stands
  the division by 0.
\<close>

definition fill_blocks_count :: "block_device \<Rightarrow> ext4_sb_info \<Rightarrow> ext4_sb_info option option" where
  "fill_blocks_count bdev sbi =
     (if s_blocks_count sbi \<noteq> 0 then Some (Some sbi)
      else if bd_sector_size bdev = 0 then None
      else let n = total_by_sectors (s_block_size sbi) bdev in
        Some (if (ucast (blkdev_nr_sectors (Some bdev)) :: u32) = 0 \<or> n = 0 then None
              else Some (sbi\<lparr>s_blocks_count := n\<rparr>)))"

definition fill_group_sizes :: "ext4_sb_info \<Rightarrow> ext4_sb_info" where
  "fill_group_sizes sbi =
     (let bpg0 = s_block_size sbi * 8;
          bpg = (if s_blocks_per_group sbi = 0
                 then (if bpg0 = 0 \<or> bpg0 > s_blocks_count sbi then s_blocks_count sbi else bpg0)
                 else s_blocks_per_group sbi);
          ipg = (if s_inodes_per_group sbi = 0
                 then (if bpg div 4 = 0 then 1 else bpg div 4) else s_inodes_per_group sbi)
      in sbi\<lparr>s_blocks_per_group := bpg, s_inodes_per_group := ipg,
             s_groups_count := (s_blocks_count sbi + bpg - 1) div bpg\<rparr>)"

section \<open>The cached descriptor of group 0\<close>

definition fix_layout :: "ext4_sb_info \<Rightarrow> ext4_group_desc \<Rightarrow> ext4_group_desc" where
  "fix_layout sbi gd =
     (if bg_inode_table_lo gd = 0 \<or> bg_inode_table_lo gd \<ge> s_blocks_count sbi
      then let gd_blocks = (s_groups_count sbi * ucast (s_desc_size sbi) + s_block_size sbi - 1) div s_block_size sbi;
               bmap = s_first_data_block sbi + 1 + gd_blocks
           in gd\<lparr>bg_block_bitmap_lo := bmap, bg_inode_bitmap_lo := bmap + 1, bg_inode_table_lo := bmap + 2\<rparr>
      else gd)"

definition fix_free_inodes :: "ext4_sb_info \<Rightarrow> u32 \<Rightarrow> ext4_group_desc \<Rightarrow> ext4_group_desc" where
  "fix_free_inodes sbi first_ino gd =
     (if bg_free_inodes_count_lo gd = 0
      then let ipg = s_inodes_per_group sbi;
               r0 = (if first_ino > 1 then first_ino - 1 else 1);
               reserved = (if r0 \<ge> ipg \<and> ipg \<ge> 2 then 2 else r0)
           in gd\<lparr>bg_free_inodes_count_lo := (if ipg > reserved then ucast (ipg - reserved) else 1),
                 bg_itable_unused_lo := 0, bg_itable_unused_hi := 0, bg_used_dirs_count_lo := 1\<rparr>
      else gd)"

definition fix_free_blocks :: "ext4_sb_info \<Rightarrow> ext4_group_desc \<Rightarrow> ext4_group_desc" where
  "fix_free_blocks sbi gd =
     (if bg_free_blocks_count_lo gd = 0
      then let bs = s_block_size sbi;
               itable = (s_inodes_per_group sbi * 256 + bs - 1) div bs;
               gd_blocks = (s_groups_count sbi * ucast (s_desc_size sbi) + bs - 1) div bs;
               used = 1 + gd_blocks + 1 + 1 + itable + 1
           in gd\<lparr>bg_free_blocks_count_lo :=
                   (if s_blocks_per_group sbi > used then ucast (s_blocks_per_group sbi - used) else 1)\<rparr>
      else gd)"

text \<open>
  buf is the buffer after the block of the descriptor was read over the superblock: the first
  inode number is read from it.
\<close>

definition group0_desc :: "ext4_sb_info \<Rightarrow> bytes \<Rightarrow> ext4_group_desc" where
  "group0_desc sbi buf =
     fix_free_blocks sbi
       (fix_free_inodes sbi (sb32 buf 84)
         (fix_layout sbi ((gd_copy_out buf 0 (ucast (s_desc_size sbi)))\<lparr>bg_flags := 0\<rparr>)))"

definition desc_block0 :: "ext4_sb_info \<Rightarrow> u32" where
  "desc_block0 sbi = (if s_block_size sbi = 1024 then 2 else s_first_data_block sbi + 1)"

section \<open>ext4_fill_super\<close>

text \<open>ext4_destroy_sbi: the buffers of the superblock go back to the pool.\<close>

definition free_bufs :: "nat list \<Rightarrow> kfs \<Rightarrow> kfs" where
  "free_bufs ps s = foldl (\<lambda>t p. super_free p t) s ps"

definition ext4_destroy_sbi :: "kfs \<Rightarrow> kfs" where
  "ext4_destroy_sbi s =
     (free_bufs (sbi_bufs s)
        (upd_sbi (\<lambda>k. k\<lparr>s_alloc_nf := (s_alloc_nf k)\<lparr>goal_bit_per_group := None\<rparr>,
                        s_bmap_cache_buf := None, s_group_desc := None\<rparr>) s))\<lparr>sbi_bufs := []\<rparr>"

text \<open>
  The tables of the superblock: the cursors and the cached descriptor. ps are the buffers that an
  error path releases, cursors of groups * 4 bytes first; None is the overflow of that product,
  after which the loop runs past its buffer. The result is the superblock and its buffers.
\<close>

definition load_group0 ::
  "nat list \<Rightarrow> ext4_sb_info \<Rightarrow> bytes \<Rightarrow> kfs \<Rightarrow> (ext4_sb_info \<times> nat list) option \<times> kfs" where
  "load_group0 ps sbi buf s =
     (case ext4_read_block s (desc_block0 sbi) of
        None \<Rightarrow> (None, free_bufs ps s)
      | Some blk \<Rightarrow>
          (case super_malloc 64 s of
             (None, s1) \<Rightarrow> (None, free_bufs ps s1)
           | (Some p, s1) \<Rightarrow>
               (Some (sbi\<lparr>s_group_desc := Some (group0_desc sbi (bsplice 0 blk buf))\<rparr>, ps @ [p]), s1)))"

definition load_tables ::
  "nat list \<Rightarrow> ext4_sb_info \<Rightarrow> bytes \<Rightarrow> kfs \<Rightarrow> ((ext4_sb_info \<times> nat list) option \<times> kfs) option" where
  "load_tables ps sbi buf s =
     (let n = unat (s_groups_count sbi) in
      if n = 0 then Some (Some (sbi, ps), s)
      else if n * 4 mod 2 ^ 32 > 65536 then Some (None, free_bufs ps s)
      else if n * 4 \<ge> 2 ^ 32 then None
      else Some (case super_malloc (n * 4) s of
             (None, s1) \<Rightarrow> (None, free_bufs ps s1)
           | (Some p, s1) \<Rightarrow>
               load_group0 (ps @ [p])
                 (sbi\<lparr>s_alloc_nf := (s_alloc_nf sbi)\<lparr>goal_bit_per_group := Some (replicate n 1)\<rparr>\<rparr>) buf s1))"

text \<open>
  From the superblock block to the superblock information, with the temporary buffer still held.
  The error path of the block count does not release the bitmap cache q.
\<close>

definition load_sbi ::
  "bytes \<Rightarrow> u32 \<Rightarrow> kfs \<Rightarrow> ((ext4_sb_info \<times> nat list) option \<times> kfs) option" where
  "load_sbi buf block_size s =
     (case super_malloc 88 s of
        (None, s1) \<Rightarrow> Some (None, s1)
      | (Some p, s1) \<Rightarrow>
          (case super_malloc (unat block_size) s1 of
             (None, s2) \<Rightarrow> Some (None, super_free p s2)
           | (Some q, s2) \<Rightarrow> do {
               r \<leftarrow> fill_blocks_count (s_bdev s2)
                     ((sbi_of_super buf block_size)\<lparr>s_bmap_cache_buf := Some (replicate (unat block_size) 0)\<rparr>);
               case r of
                 None \<Rightarrow> Some (None, super_free p s2)
               | Some sbi0 \<Rightarrow>
                   let sbi = fill_group_sizes sbi0 in
                   load_tables [q, p] sbi buf
                     (s2\<lparr>ext4_fs_blocks_count := s_blocks_count sbi,
                         ext4_fs_blocks_per_group := s_blocks_per_group sbi\<rparr>)
             }))"

text \<open>
  The part of ext4_fill_super before the root inode. The shift by s_log_block_size is undefined
  from 21 on.
\<close>

definition load_super :: "kfs \<Rightarrow> (bool \<times> kfs) option" where
  "load_super s =
     (case super_malloc BLOCK_SIZE s of
        (None, s1) \<Rightarrow> Some (False, s1)
      | (Some p, s1) \<Rightarrow> do {
          (r, s2) \<leftarrow> read_super_block s1;
          case r of
            None \<Rightarrow> Some (False, super_free p s2)
          | Some buf \<Rightarrow>
              let log = unat (sb32 buf 24); block_size = push_bit log (1024 :: u32) in
              if log > 20 then None
              else if block_size < EXT4_MIN_BLOCK_SIZE \<or> block_size > EXT4_MAX_BLOCK_SIZE
              then Some (False, super_free p s2)
              else do {
                (l, s3) \<leftarrow> load_sbi buf block_size (ext4_set_block_size block_size s2);
                Some (case l of
                        None \<Rightarrow> (False, super_free p s3)
                      | Some (sbi, ps) \<Rightarrow>
                          (True, (super_free p s3)\<lparr>s_fs_info := Some sbi, sbi_bufs := ps\<rparr>))
              }
        })"

text \<open>A root inode that is not a directory is taken for one.\<close>

definition root_as_dir :: "inode \<Rightarrow> inode" where
  "root_as_dir node =
     (if S_ISDIR (i_mode node) then node
      else node\<lparr>i_mode := S_IFDIR OR 0x1ED, i_op := Ext4_Dir_Ops, i_nlink := 2\<rparr>)"

definition v_destroy_sbi :: "vfs \<Rightarrow> vfs" where
  "v_destroy_sbi v = v\<lparr>v_fs := ext4_destroy_sbi (v_fs v)\<rparr>"

definition fill_root :: "vfs \<Rightarrow> (bool \<times> vfs) option" where
  "fill_root v = do {
     sbi \<leftarrow> s_fs_info (v_fs v);
     (r, fs) \<leftarrow> ext4_iget (v_fs v) (s_root_ino sbi);
     let v1 = v\<lparr>v_fs := fs\<rparr>;
     Some (case r of
             None \<Rightarrow> (False, v_destroy_sbi v1)
           | Some node0 \<Rightarrow>
               let node = root_as_dir node0; v2 = v_put_inode node v1 in
               (case d_alloc None (qstr_init [slash]) v2 of
                  (None, v3) \<Rightarrow> (False, v_destroy_sbi (v3\<lparr>v_fs := vfs_free_inode node (v_fs v3)\<rparr>))
                | (Some d, v3) \<Rightarrow>
                    let v4 = v_upd_dentry d (\<lambda>k. k\<lparr>d_parent := Some d\<rparr>)
                               (d_instantiate d (Some (i_slot node)) v3)
                    in (True, v4\<lparr>v_super := (v_super v4)\<lparr>sb_root := Some d\<rparr>\<rparr>)))
   }"

definition ext4_fill_super :: "vfs \<Rightarrow> (bool \<times> vfs) option" where
  "ext4_fill_super v = do {
     (ok, fs) \<leftarrow> load_super (v_fs v);
     let v1 = v\<lparr>v_fs := fs\<rparr>;
     if ok then fill_root (v1\<lparr>v_super := (v_super v1)\<lparr>sb_blocksize := ext4_block_size fs\<rparr>\<rparr>)
     else Some (False, v1)
   }"

section \<open>fs/super.c\<close>

text \<open>
  The static superblock is cleared, filled and linked. The dentry of the root, or None. The file
  system type and its fill_super are those of ext4.
\<close>

definition get_sb_bdev :: "string option \<Rightarrow> vfs \<Rightarrow> (nat option \<times> vfs) option" where
  "get_sb_bdev dev_name v =
     (case blkdev_get_by_name dev_name (g_default_bdev (v_fs v)) of
        None \<Rightarrow> Some (None, v)
      | Some bdev \<Rightarrow> do {
          (ok, v1) \<leftarrow> ext4_fill_super
            (v\<lparr>v_fs := (v_fs v)\<lparr>s_fs_info := None, s_bdev := bdev\<rparr>,
               v_super := \<lparr>sb_root = None, sb_dev = bd_dev bdev, sb_blocksize = 0\<rparr>\<rparr>);
          if ok then Some (sb_root (v_super v1), v1\<lparr>v_sb_listed := True, v_root_sb := True\<rparr>)
          else Some (None, v1)
        })"

definition mount_bdev :: "string option \<Rightarrow> vfs \<Rightarrow> (nat option \<times> vfs) option" where
  "mount_bdev dev_name v = get_sb_bdev dev_name v"

definition ext4_mount :: "string option \<Rightarrow> vfs \<Rightarrow> (nat option \<times> vfs) option" where
  "ext4_mount dev_name v = mount_bdev dev_name v"

definition ext4_kill_sb :: "vfs \<Rightarrow> vfs" where
  "ext4_kill_sb v =
     (if s_fs_info (v_fs v) = None then v
      else v\<lparr>v_fs := (ext4_destroy_sbi (snd (ext4_balloc_flush (v_fs v))))\<lparr>s_fs_info := None\<rparr>\<rparr>)"

text \<open>The pointer vfs_root_sb is left as it is.\<close>

definition deactivate_super :: "vfs \<Rightarrow> vfs" where
  "deactivate_super v = ext4_kill_sb (v\<lparr>v_sb_listed := False\<rparr>)"

section \<open>File system types\<close>

text \<open>The global list: its head and the next pointers of the types.\<close>

record fs_types =
  g_filesystems :: "nat option"
  fs_next :: "nat \<Rightarrow> nat option"

definition register_filesystem :: "nat option \<Rightarrow> fs_types \<Rightarrow> int \<times> fs_types" where
  "register_filesystem fs r =
     (case fs of
        None \<Rightarrow> (- 1, r)
      | Some k \<Rightarrow> (0, r\<lparr>fs_next := (fs_next r)(k := g_filesystems r), g_filesystems := Some k\<rparr>))"

text \<open>The walk over the next pointers, from the node whose next pointer is looked at.\<close>

partial_function (option) unlink_type :: "nat \<Rightarrow> nat \<Rightarrow> fs_types \<Rightarrow> (int \<times> fs_types) option" where
  "unlink_type k prev r =
     (case fs_next r prev of
        None \<Rightarrow> Some (- 1, r)
      | Some q \<Rightarrow> if q = k then Some (0, r\<lparr>fs_next := (fs_next r)(prev := fs_next r k)\<rparr>) else unlink_type k q r)"

definition unregister_filesystem :: "nat option \<Rightarrow> fs_types \<Rightarrow> (int \<times> fs_types) option" where
  "unregister_filesystem fs r =
     (case fs of
        None \<Rightarrow> Some (- 1, r)
      | Some k \<Rightarrow>
          (case g_filesystems r of
             None \<Rightarrow> Some (- 1, r)
           | Some h \<Rightarrow> if h = k then Some (0, r\<lparr>g_filesystems := fs_next r k\<rparr>) else unlink_type k h r))"

end
