(* ===== verification/Mount_Props.thy ===== *)
theory Mount_Props
  imports Mount Demo_State
begin

text \<open>
  What mounting establishes: whatever the disk holds, a superblock that load_super accepts is
  well-typed, with the sizes and tables the allocators and the inode code rely on.
\<close>

section \<open>Well-formed superblocks\<close>

text \<open>
  A block size that is a power of two between 1 KiB and 64 KiB, a descriptor size the copy
  routines support, sizes that are divided by are not 0, the group count is the quotient rounded
  up unless the sum wraps around, one cursor per group, a clean bitmap cache of one block.
\<close>

definition sbi_wf :: "ext4_sb_info \<Rightarrow> bool" where
  "sbi_wf sbi \<longleftrightarrow>
     unat (s_log_block_size sbi) \<le> 6 \<and> unat (s_block_size sbi) = 1024 * 2 ^ unat (s_log_block_size sbi) \<and>
     s_desc_size sbi \<in> {32, 40, 48, 56, 64} \<and>
     s_blocks_count sbi \<noteq> 0 \<and> s_blocks_per_group sbi \<noteq> 0 \<and> s_inodes_per_group sbi \<noteq> 0 \<and>
     (unat (s_blocks_count sbi) + unat (s_blocks_per_group sbi) \<le> 2 ^ 32 \<longrightarrow>
        unat (s_groups_count sbi) =
          (unat (s_blocks_count sbi) + unat (s_blocks_per_group sbi) - 1) div unat (s_blocks_per_group sbi)) \<and>
     (s_groups_count sbi \<noteq> 0 \<longrightarrow>
        goal_bit_per_group (s_alloc_nf sbi) = Some (replicate (unat (s_groups_count sbi)) 1) \<and>
        unat (s_groups_count sbi) \<le> 16384 \<and> s_group_desc sbi \<noteq> None) \<and>
     s_bmap_cache_buf sbi = Some (replicate (unat (s_block_size sbi)) 0) \<and>
     \<not> s_bmap_cache_valid sbi \<and> \<not> s_bmap_cache_dirty sbi \<and> s_bg_sync_pending sbi = 0 \<and>
     length (s_hash_seed sbi) = 4 \<and> s_root_ino sbi = 2"

lemma eighths: "32 \<le> n \<Longrightarrow> n \<le> 64 \<Longrightarrow> n mod 8 = 0 \<Longrightarrow> n = 32 \<or> n = 40 \<or> n = 48 \<or> n = 56 \<or> n = (64 :: nat)"
  by presburger

lemma valid_desc_size: "valid_desc_size d \<in> {32, 40, 48, 56, 64}"
proof -
  have "unat (d AND 7) = take_bit 3 (unat d)"
    by (simp add: take_bit_eq_mask mask_eq_exp_minus_1 unsigned_and_eq)
  then have u: "unat (d AND 7) = unat d mod 8" by (simp add: take_bit_eq_mod)
  show ?thesis
  proof (cases "32 \<le> unat d \<and> unat d \<le> 64 \<and> unat d mod 8 = 0")
    case True
    then have "unat d = 32 \<or> unat d = 40 \<or> unat d = 48 \<or> unat d = 56 \<or> unat d = 64" by (intro eighths) simp_all
    then have "d = 32 \<or> d = 40 \<or> d = 48 \<or> d = 56 \<or> d = 64"
      using word_eq_by_unat [of d 32] word_eq_by_unat [of d 40] word_eq_by_unat [of d 48]
        word_eq_by_unat [of d 56] word_eq_by_unat [of d 64] by auto
    then show ?thesis by (elim disjE) (simp_all add: valid_desc_size_def)
  next
    case False
    then have "d < 32 \<or> d > 64 \<or> d AND 7 \<noteq> 0"
      using u by (auto simp: word_less_nat_alt)
    then show ?thesis by (auto simp: valid_desc_size_def Let_def)
  qed
qed

lemma block_size_wf:
  fixes log :: nat
  assumes "log \<le> 20" "\<not> (push_bit log (1024 :: u32) < 1024 \<or> push_bit log (1024 :: u32) > 65536)"
  shows "log \<le> 6" "unat (push_bit log (1024 :: u32)) = 1024 * 2 ^ log"
proof -
  have "(1024 :: nat) * 2 ^ log \<le> 1024 * 2 ^ 20" using assms(1) by (intro mult_le_mono2 power_increasing) simp_all
  then have fit: "(1024 :: nat) * 2 ^ log < 2 ^ 32" by simp
  then show u: "unat (push_bit log (1024 :: u32)) = 1024 * 2 ^ log"
    unfolding unsigned_push_bit_eq by (simp add: push_bit_eq_mult take_bit_nat_eq_self)
  then have "(1024 :: nat) * 2 ^ log \<le> 65536" using assms(2) by (simp add: word_less_nat_alt)
  then have "(2 :: nat) ^ log \<le> 2 ^ 6" by simp
  then show "log \<le> 6" by (rule power_le_imp_le_exp [rotated]) simp
qed

text \<open>The fields fill_blocks_count and fill_group_sizes settle, the others being those read from disk.\<close>

lemma fill_counts:
  assumes "fill_blocks_count bdev sbi = Some (Some sbi0)" "sbi' = fill_group_sizes sbi0"
    and small: "unat (s_block_size sbi) \<le> 65536" "s_block_size sbi \<noteq> 0"
  shows "s_blocks_count sbi' \<noteq> 0" "s_blocks_per_group sbi' \<noteq> 0" "s_inodes_per_group sbi' \<noteq> 0"
    "unat (s_blocks_count sbi') + unat (s_blocks_per_group sbi') \<le> 2 ^ 32 \<Longrightarrow>
       unat (s_groups_count sbi') =
         (unat (s_blocks_count sbi') + unat (s_blocks_per_group sbi') - 1) div unat (s_blocks_per_group sbi')"
    "sbi' = sbi\<lparr>s_blocks_count := s_blocks_count sbi', s_blocks_per_group := s_blocks_per_group sbi',
       s_inodes_per_group := s_inodes_per_group sbi', s_groups_count := s_groups_count sbi'\<rparr>"
proof -
  obtain n where bc0: "n \<noteq> 0" and s0: "sbi0 = sbi\<lparr>s_blocks_count := n\<rparr>"
  proof (cases "s_blocks_count sbi = 0")
    case False
    then have "sbi0 = sbi" using assms(1) by (simp add: fill_blocks_count_def)
    then show ?thesis using False by (intro that [of "s_blocks_count sbi"]) simp_all
  next
    case True
    let ?n = "total_by_sectors (s_block_size sbi) bdev"
    have "?n \<noteq> 0" "sbi0 = sbi\<lparr>s_blocks_count := ?n\<rparr>"
      using assms(1) True unfolding fill_blocks_count_def Let_def by (auto split: if_splits)
    then show ?thesis by (rule that)
  qed
  show bc: "s_blocks_count sbi' \<noteq> 0" using bc0 assms(2) by (simp add: s0 fill_group_sizes_def Let_def)
  have size: "s_block_size sbi0 = s_block_size sbi" by (simp add: s0)
  have "unat (s_block_size sbi * 8) = unat (s_block_size sbi) * 8"
    using small(1) by (subst unat_mult_nowrap) simp_all
  moreover have "0 < unat (s_block_size sbi)" using small(2) by (simp add: unat_gt_0)
  ultimately have "unat (s_block_size sbi * 8) \<noteq> 0" by simp
  then have "s_block_size sbi0 * 8 \<noteq> 0" unfolding size by auto
  then show bpg: "s_blocks_per_group sbi' \<noteq> 0" using bc0 assms(2) by (simp add: s0 fill_group_sizes_def Let_def)
  show "s_inodes_per_group sbi' \<noteq> 0" using assms(2) by (simp add: fill_group_sizes_def Let_def)
  show "sbi' = sbi\<lparr>s_blocks_count := s_blocks_count sbi', s_blocks_per_group := s_blocks_per_group sbi',
       s_inodes_per_group := s_inodes_per_group sbi', s_groups_count := s_groups_count sbi'\<rparr>"
    unfolding assms(2) s0 by (simp add: fill_group_sizes_def Let_def)
  assume sum: "unat (s_blocks_count sbi') + unat (s_blocks_per_group sbi') \<le> 2 ^ 32"
  let ?c = "s_blocks_count sbi'" and ?g = "s_blocks_per_group sbi'"
  have g: "s_groups_count sbi' = (?c + ?g - 1) div ?g" using assms(2) by (simp add: fill_group_sizes_def Let_def)
  have c1: "unat (?c - 1) = unat ?c - 1" using bc by (subst unat_sub_le) (simp_all add: word_le_nat_alt Suc_le_eq unat_gt_0)
  have c0: "0 < unat ?c" using bc by (simp add: unat_gt_0)
  have "unat (?c - 1 + ?g) = unat ?c - 1 + unat ?g" using sum c1 c0 by (subst unat_add_nowrap) simp_all
  moreover have "?c - 1 + ?g = ?c + ?g - 1" by simp
  ultimately show "unat (s_groups_count sbi') = (unat ?c + unat ?g - 1) div unat ?g"
    unfolding g unat_div using c0 by simp
qed

lemma load_tables_wf:
  assumes "load_tables ps sbi buf s = Some (Some (sbi', ps'), s')"
  shows "sbi' = sbi\<lparr>s_alloc_nf := s_alloc_nf sbi', s_group_desc := s_group_desc sbi'\<rparr>"
    "s_groups_count sbi \<noteq> 0 \<Longrightarrow> goal_bit_per_group (s_alloc_nf sbi') = Some (replicate (unat (s_groups_count sbi)) 1) \<and>
       unat (s_groups_count sbi) \<le> 16384 \<and> s_group_desc sbi' \<noteq> None"
    "s' = s\<lparr>pool_super := pool_super s'\<rparr>"
proof -
  let ?n = "unat (s_groups_count sbi)"
  let ?k = "sbi\<lparr>s_alloc_nf := (s_alloc_nf sbi)\<lparr>goal_bit_per_group := Some (replicate ?n 1)\<rparr>\<rparr>"
  have "sbi' = sbi\<lparr>s_alloc_nf := s_alloc_nf sbi', s_group_desc := s_group_desc sbi'\<rparr> \<and>
    (s_groups_count sbi \<noteq> 0 \<longrightarrow> goal_bit_per_group (s_alloc_nf sbi') = Some (replicate ?n 1) \<and>
       ?n \<le> 16384 \<and> s_group_desc sbi' \<noteq> None) \<and> s' = s\<lparr>pool_super := pool_super s'\<rparr>"
  proof (cases "?n = 0")
    case True
    then show ?thesis using assms by (auto simp: load_tables_def Let_def unat_eq_0)
  next
    case False
    then have lim: "\<not> ?n * 4 mod 2 ^ 32 > 65536" "\<not> ?n * 4 \<ge> 2 ^ 32"
      using assms by (auto simp: load_tables_def Let_def split: if_splits)
    then have small: "?n \<le> 16384" by simp
    obtain p s1 where m: "super_malloc (?n * 4) s = (Some p, s1)"
      and g: "load_group0 (ps @ [p]) ?k buf s1 = (Some (sbi', ps'), s')"
      using assms False lim by (auto simp: load_tables_def Let_def split: prod.splits option.splits)
    obtain blk q where m': "super_malloc 64 s1 = (Some q, s')"
      and k: "sbi' = ?k\<lparr>s_group_desc := Some (group0_desc ?k (bsplice 0 blk buf))\<rparr>"
      using g by (auto simp: load_group0_def split: prod.splits option.splits)
    obtain a where "s1 = s\<lparr>pool_super := a\<rparr>" using super_malloc_Some(1) [OF m] by blast
    moreover obtain b where "s' = s1\<lparr>pool_super := b\<rparr>" using super_malloc_Some(1) [OF m'] by blast
    ultimately have "s' = s\<lparr>pool_super := pool_super s'\<rparr>" by simp
    then show ?thesis using small by (simp add: k)
  qed
  then show "sbi' = sbi\<lparr>s_alloc_nf := s_alloc_nf sbi', s_group_desc := s_group_desc sbi'\<rparr>"
    "s_groups_count sbi \<noteq> 0 \<Longrightarrow> goal_bit_per_group (s_alloc_nf sbi') = Some (replicate (unat (s_groups_count sbi)) 1) \<and>
       unat (s_groups_count sbi) \<le> 16384 \<and> s_group_desc sbi' \<noteq> None"
    "s' = s\<lparr>pool_super := pool_super s'\<rparr>" by blast+
qed

lemma load_sbi_wf:
  assumes l: "load_sbi buf bs s = Some (Some (sbi, ps), s')"
    and bs: "unat bs = 1024 * 2 ^ unat (sb32 buf 24)" "unat (sb32 buf 24) \<le> 6"
  shows "sbi_wf sbi" "s_block_size sbi = bs" "s_log_block_size sbi = sb32 buf 24"
    "ext4_fs_blocks_count s' = s_blocks_count sbi" "ext4_fs_blocks_per_group s' = s_blocks_per_group sbi"
    "ext4_block_size s' = ext4_block_size s"
proof -
  let ?k = "(sbi_of_super buf bs)\<lparr>s_bmap_cache_buf := Some (replicate (unat bs) 0)\<rparr>"
  obtain p s1 where m1: "super_malloc 88 s = (Some p, s1)"
    using l by (auto simp: load_sbi_def split: prod.splits option.splits)
  obtain q s2 where m2: "super_malloc (unat bs) s1 = (Some q, s2)"
    using l m1 by (auto simp: load_sbi_def split: prod.splits option.splits)
  obtain sbi0 where f: "fill_blocks_count (s_bdev s2) ?k = Some (Some sbi0)"
    and t: "load_tables [q, p] (fill_group_sizes sbi0) buf
      (s2\<lparr>ext4_fs_blocks_count := s_blocks_count (fill_group_sizes sbi0),
          ext4_fs_blocks_per_group := s_blocks_per_group (fill_group_sizes sbi0)\<rparr>) = Some (Some (sbi, ps), s')"
    using l m1 m2 by (auto simp: load_sbi_def Let_def split: option.splits bind_splits)
  let ?g = "fill_group_sizes sbi0"
  have "(2 :: nat) ^ unat (sb32 buf 24) \<le> 2 ^ 6" using bs(2) by (intro power_increasing) simp_all
  then have b: "unat bs \<le> 65536" "0 < unat bs" using bs(1) by simp_all
  then have "bs \<noteq> 0" by auto
  then have K: "unat (s_block_size ?k) \<le> 65536" "s_block_size ?k \<noteq> 0" using b by (simp_all add: sbi_of_super_def)
  note c = fill_counts [OF f refl K]
  note w = load_tables_wf [OF t]
  obtain a n bpg ipg gc where g: "?g = ?k\<lparr>s_blocks_count := n, s_blocks_per_group := bpg, s_inodes_per_group := ipg, s_groups_count := gc\<rparr>"
    using c(5) by blast
  obtain nf gd where sbi: "sbi = ?g\<lparr>s_alloc_nf := nf, s_group_desc := gd\<rparr>" using w(1) by blast
  obtain x where s2: "s2 = s\<lparr>pool_super := x\<rparr>"
  proof -
    obtain x where "s1 = s\<lparr>pool_super := x\<rparr>" using super_malloc_Some(1) [OF m1] by blast
    moreover obtain y where "s2 = s1\<lparr>pool_super := y\<rparr>" using super_malloc_Some(1) [OF m2] by blast
    ultimately have "s2 = s\<lparr>pool_super := y\<rparr>" by simp
    then show thesis by (rule that)
  qed
  have flds: "s_blocks_count sbi = s_blocks_count ?g" "s_blocks_per_group sbi = s_blocks_per_group ?g"
    "s_inodes_per_group sbi = s_inodes_per_group ?g" "s_groups_count sbi = s_groups_count ?g"
    by (simp_all add: sbi)
  have rest: "s_block_size sbi = bs" "s_log_block_size sbi = sb32 buf 24" "s_desc_size sbi = valid_desc_size (sb16 buf 254)"
    "s_bmap_cache_buf sbi = Some (replicate (unat bs) 0)" "\<not> s_bmap_cache_valid sbi" "\<not> s_bmap_cache_dirty sbi"
    "s_bg_sync_pending sbi = 0" "length (s_hash_seed sbi) = 4" "s_root_ino sbi = 2"
    by (simp_all add: sbi g sbi_of_super_def)
  show "s_block_size sbi = bs" "s_log_block_size sbi = sb32 buf 24" by (rule rest)+
  show "sbi_wf sbi"
    unfolding sbi_wf_def rest flds using c(1-4) w(2) bs valid_desc_size rest(5,6) by simp
  obtain y where s': "s' = s\<lparr>ext4_fs_blocks_count := s_blocks_count ?g, ext4_fs_blocks_per_group := s_blocks_per_group ?g,
      pool_super := y\<rparr>" using w(3) unfolding s2 by simp
  show "ext4_fs_blocks_count s' = s_blocks_count sbi" "ext4_fs_blocks_per_group s' = s_blocks_per_group sbi"
    "ext4_block_size s' = ext4_block_size s" unfolding s' flds by simp_all
qed

text \<open>C28: Mounting yields a well-typed superblock: whatever the disk holds, when ext4_fill_super gets past
  the superblock, the block size is a power of two within the limits, every size it divides by is
  not 0, the descriptor size is one the code can copy, the number of groups is the rounded-up
  quotient, there is a cursor for every group and a clean cache, and the copies of the geometry
  kept outside the superblock agree with it.\<close>

theorem load_super_wellformed:
  assumes "load_super s = Some (True, s')"
  shows "\<exists>sbi. s_fs_info s' = Some sbi \<and> sbi_wf sbi \<and> ext4_block_size s' = s_block_size sbi \<and>
    ext4_fs_blocks_count s' = s_blocks_count sbi \<and> ext4_fs_blocks_per_group s' = s_blocks_per_group sbi"
proof -
  obtain p s1 where m: "super_malloc BLOCK_SIZE s = (Some p, s1)"
    using assms by (auto simp: load_super_def split: prod.splits option.splits)
  obtain buf s2 where r: "read_super_block s1 = Some (Some buf, s2)"
    using assms m by (auto simp: load_super_def split: option.splits bind_splits)
  let ?log = "unat (sb32 buf 24)"
  let ?bs = "push_bit ?log (1024 :: u32)"
  have log: "?log \<le> 20" "\<not> (?bs < 1024 \<or> ?bs > 65536)"
    using assms m r by (auto simp: load_super_def Let_def split: if_splits)
  obtain sbi ps s3 where l: "load_sbi buf ?bs (ext4_set_block_size ?bs s2) = Some (Some (sbi, ps), s3)"
    and s': "s' = (super_free p s3)\<lparr>s_fs_info := Some sbi, sbi_bufs := ps\<rparr>"
    using assms m r log by (auto simp: load_super_def Let_def split: option.splits bind_splits if_splits)
  note b = block_size_wf [OF log]
  show ?thesis using load_sbi_wf [OF l b(2,1)]
    by (simp add: s' super_free_def ext4_set_block_size_def)
qed

text \<open>The demonstration device with a superblock.\<close>

definition demo_sb :: bytes where
  "demo_sb = enc32 16 @ enc32 64 @ replicate 12 0 @ enc32 1 @ enc32 0 @ replicate 4 0 @ enc32 8192 @ replicate 4 0 @
     enc32 16 @ replicate 12 0 @ enc16 0xEF53 @ replicate 196 0 @ enc16 64 @ replicate 256 0"

definition demo_raw :: kfs where
  "demo_raw = demo_fs\<lparr>g_disk := (demo_disk demo_bm)\<lparr>ad_sector := (ad_sector (demo_disk demo_bm))(2 := demo_sb)\<rparr>,
     s_fs_info := None\<rparr>"

lemma demo_sb_words:
  "get32 demo_sb 4 = 64 \<and> get32 demo_sb 24 = 0 \<and> get32 demo_sb 32 = 8192 \<and> get32 demo_sb 40 = 16 \<and>
   get16 demo_sb 56 = 0xEF53 \<and> get32 demo_sb 20 = 1"
  by (simp add: demo_sb_def get_struct_def bslice_def)

lemma super_take:
  assumes "n \<le> 65536" "Suc k \<le> pool_free_count (pool_super s)"
  obtains p x where "super_malloc n s = (Some p, s\<lparr>pool_super := x\<rparr>)" "k \<le> pool_free_count x"
proof -
  obtain p x where m: "simple_malloc 65536 n (pool_super s) = (Some p, x)"
    using simple_malloc_Some_iff [of 65536 n "pool_super s"] assms by auto
  show thesis
    by (rule that [of p x]) (use m pool_free_count_malloc [OF m] assms(2) in \<open>simp_all add: super_malloc_def\<close>)
qed

lemma demo_raw_io: "unat (ext4_block_size s) \<in> {1024, 4096} \<Longrightarrow> g_disk s = g_disk demo_raw \<Longrightarrow>
    g_default_bdev s = g_default_bdev demo_raw \<Longrightarrow> fs_io_ok s \<and> fs_up s b"
  using demo_disk_ok [OF length_demo_bm(1)]
  by (auto simp: fs_io_ok_def fs_bsz_def demo_raw_def ata_disk_bdev_def disk_ok_def demo_sb_def fs_up_def run_bad_def
      demo_disk_def)

lemma demo_raw_super:
  obtains buf where "ext4_read_block (demo_raw\<lparr>pool_super := x, ext4_block_size := 4096\<rparr>) 0 = Some buf"
    "sb32 buf 4 = 64" "sb32 buf 24 = 0" "sb32 buf 32 = 8192" "sb32 buf 40 = 16" "sb16 buf 56 = 0xEF53" "sb32 buf 20 = 1"
proof -
  let ?s = "demo_raw\<lparr>pool_super := x, ext4_block_size := 4096\<rparr>"
  have io: "fs_io_ok ?s \<and> fs_up ?s 0" by (rule demo_raw_io) simp_all
  let ?d = "ad_sector (g_disk demo_raw)"
  have "[0..<8] = [0, 1, 2, 3, 4, 5, 6, 7 :: nat]" by (simp add: upt_rec)
  then have run: "sector_run (g_disk demo_raw) 0 8 =
      (?d 0 @ ?d 1) @ ?d 2 @ ?d 3 @ ?d 4 @ ?d 5 @ ?d 6 @ ?d 7"
    by (simp add: sector_run_def)
  have "?d 0 @ ?d 1 = replicate 1024 0" "?d 2 = demo_sb"
    by (simp_all add: demo_raw_def demo_disk_def flip: replicate_add)
  with run obtain ys where r: "sector_run (g_disk demo_raw) 0 8 = replicate 1024 0 @ demo_sb @ ys" by simp
  have "ext4_read_block ?s 0 = Some (replicate 1024 0 @ demo_sb @ ys)"
    using ext4_read_block_run [of ?s 0] io r by (simp add: fs_addr_def fs_bsz_def)
  note R = this
  have len: "length demo_sb = 512" by (simp add: demo_sb_def)
  have "bslice (1024 + off) n (replicate 1024 0 @ demo_sb @ ys) = bslice off n demo_sb" if "off + n \<le> 512" for off n
    using that len by (simp add: bslice_def)
  then have S: "sb32 (replicate 1024 0 @ demo_sb @ ys) off = get32 demo_sb off" "sb16 (replicate 1024 0 @ demo_sb @ ys) off = get16 demo_sb off"
    if "off + 4 \<le> 512" for off using that by (simp_all add: sb32_def sb16_def get_struct_def)
  show thesis by (rule that [OF R]) (simp_all add: S demo_sb_words)
qed

lemma demo_load_sbi:
  assumes "sb32 buf 4 = 64" "sb32 buf 24 = 0" "sb32 buf 32 = 8192" "sb32 buf 40 = 16" "sb32 buf 20 = 1"
    and "ext4_block_size s = 1024" "g_disk s = g_disk demo_raw" "g_default_bdev s = g_default_bdev demo_raw"
    and "4 \<le> pool_free_count (pool_super s)"
  shows "\<exists>r s'. load_sbi buf 1024 s = Some (Some r, s')"
proof -
  obtain p x where 1: "super_malloc 88 s = (Some p, s\<lparr>pool_super := x\<rparr>)" "3 \<le> pool_free_count x"
    by (rule super_take [of 88 3 s]) (use assms(9) in simp_all)
  obtain q y where 2: "super_malloc 1024 (s\<lparr>pool_super := x\<rparr>) = (Some q, s\<lparr>pool_super := y\<rparr>)" "2 \<le> pool_free_count y"
    by (rule super_take [of 1024 2 "s\<lparr>pool_super := x\<rparr>"]) (use 1(2) in simp_all)
  let ?t = "s\<lparr>pool_super := y, ext4_fs_blocks_count := 64, ext4_fs_blocks_per_group := 8192\<rparr>"
  obtain u z where 3: "super_malloc 4 ?t = (Some u, ?t\<lparr>pool_super := z\<rparr>)" "1 \<le> pool_free_count z"
    by (rule super_take [of 4 1 ?t]) (use 2(2) in simp_all)
  let ?u = "?t\<lparr>pool_super := z\<rparr>"
  obtain v w where 4: "super_malloc 64 ?u = (Some v, ?u\<lparr>pool_super := w\<rparr>)" "0 \<le> pool_free_count w"
    by (rule super_take [of 64 0 ?u]) (simp, use 3(2) in simp, rule that)
  have a1: "g_disk ?u = g_disk demo_raw" using assms(7) by simp
  have a3: "g_default_bdev ?u = g_default_bdev demo_raw" using assms(8) by simp
  have io: "fs_io_ok ?u \<and> fs_up ?u 2" by (rule demo_raw_io [OF _ a1 a3]) (simp add: assms(6))
  moreover have "fs_addr ?u 2" using assms(6) by (simp add: fs_addr_def fs_bsz_def)
  ultimately obtain blk where blk: "ext4_read_block ?u 2 = Some blk" using io.rd_up [of ?u 2] by auto
  let ?k = "(sbi_of_super buf 1024)\<lparr>s_bmap_cache_buf := Some (replicate 1024 0)\<rparr>"
  let ?g = "fill_group_sizes ?k"
  have k: "fill_blocks_count b ?k = Some (Some ?k)" for b using assms(1) by (simp add: fill_blocks_count_def sbi_of_super_def)
  have g: "s_blocks_count ?g = 64" "s_blocks_per_group ?g = 8192" "s_groups_count ?g = 1" "s_block_size ?g = 1024"
    using assms(1,3,4) by (simp_all add: fill_group_sizes_def sbi_of_super_def Let_def)
  let ?h = "?g\<lparr>s_alloc_nf := (s_alloc_nf ?g)\<lparr>goal_bit_per_group := Some (replicate 1 1)\<rparr>\<rparr>"
  have "desc_block0 ?h = 2" using g by (simp add: desc_block0_def)
  then obtain r where "load_group0 [q, p, u] ?h buf ?u = (Some r, ?u\<lparr>pool_super := w\<rparr>)"
    unfolding load_group0_def using blk 4(1) by auto
  then have "load_tables [q, p] ?g buf ?t = Some (Some r, ?u\<lparr>pool_super := w\<rparr>)"
    using 3(1) g(3) unfolding load_tables_def Let_def by simp
  then have "load_sbi buf 1024 s = Some (Some r, ?u\<lparr>pool_super := w\<rparr>)"
    using 1(1) 2(1) k g(1,2) unfolding load_sbi_def Let_def by simp
  then show ?thesis by blast
qed

theorem load_super_wellformed_witness:
  "\<exists>s' sbi. load_super demo_raw = Some (True, s') \<and> s_fs_info s' = Some sbi \<and> sbi_wf sbi"
proof -
  obtain p x where 1: "super_malloc BLOCK_SIZE demo_raw = (Some p, demo_raw\<lparr>pool_super := x\<rparr>)" "4 \<le> pool_free_count x"
    by (rule super_take [of BLOCK_SIZE 4 demo_raw]) (simp_all add: demo_raw_def demo_with_def pool_free_count_def)
  let ?s = "demo_raw\<lparr>pool_super := x, ext4_block_size := 4096\<rparr>"
  obtain buf where b: "ext4_read_block ?s 0 = Some buf" "sb32 buf 4 = 64" "sb32 buf 24 = 0" "sb32 buf 32 = 8192"
    "sb32 buf 40 = 16" "sb16 buf 56 = 0xEF53" "sb32 buf 20 = 1" by (rule demo_raw_super)
  obtain r s' where l: "load_sbi buf 1024 (?s\<lparr>ext4_block_size := 1024\<rparr>) = Some (Some r, s')"
    using demo_load_sbi [OF b(2-5,7), of "?s\<lparr>ext4_block_size := 1024\<rparr>"] 1(2) by auto
  have "read_super_block (demo_raw\<lparr>pool_super := x\<rparr>) = Some (Some buf, ?s)"
    using b(1,6) by (simp add: read_super_block_def ext4_set_block_size_def Let_def)
  then obtain s'' where s: "load_super demo_raw = Some (True, s'')"
    using 1(1) l b(3) by (cases r) (simp add: load_super_def ext4_set_block_size_def Let_def)
  from load_super_wellformed [OF s] s show ?thesis by blast
qed

end
