(* ===== verification/File_Read.thy ===== *)
theory File_Read
  imports File Extents_Leaf
begin

text \<open>
  Reading a file gives the bytes of its blocks. A locale states what the reading loop relies on in
  a block map; the direct map and the extents in the inode provide it.
\<close>

section \<open>Runs of blocks\<close>

lemma length_concat_blocks:
  assumes "\<And>i. i < m \<Longrightarrow> length (f i) = b"
  shows "length (concat (map f [k..<m])) = (m - k) * b"
proof -
  have "map length (map f [k..<m]) = replicate (m - k) b"
    using assms by (intro nth_equalityI) simp_all
  then show ?thesis by (simp add: length_concat sum_list_replicate)
qed

lemma concat_run:
  assumes "\<And>i. i < n \<Longrightarrow> length (f i) = b" "i + r \<le> n"
  shows "take (r * b) (drop (i * b) (concat (map f [0..<n]))) = concat (map f [i..<i + r])"
proof -
  have up: "[0..<n] = [0..<i] @ [i..<i + r] @ [i + r..<n]"
    using assms(2) upt_add_eq_append [of 0 i "n - i"] upt_add_eq_append [of i "i + r" "n - (i + r)"] by simp
  have "length (concat (map f [0..<i])) = i * b" "length (concat (map f [i..<i + r])) = r * b"
    using assms by (simp_all add: length_concat_blocks [where b = b])
  then show ?thesis unfolding up by simp
qed

lemma run_sectors:
  "concat (map (\<lambda>j. sector_run d (k + j * m) m) [0..<r]) = sector_run d k (r * m)"
proof (induction r)
  case (Suc r)
  have "sector_run d k (Suc r * m) = sector_run d k (r * m) @ sector_run d (k + r * m) (Suc r * m - r * m)"
    by (rule sector_run_split) simp
  with Suc show ?case by simp
qed (simp add: sector_run_def)

lemma run_bad_blocks:
  "run_bad d k (r * m) \<longleftrightarrow> (\<exists>j < r. run_bad d (k + j * m) m)"
proof (cases "m = 0")
  case False
  show ?thesis
  proof
    assume "run_bad d k (r * m)"
    then obtain i where i: "k \<le> i" "i < k + r * m" "ad_bad d (of_nat i)" by (auto simp: run_bad_def)
    let ?j = "(i - k) div m"
    have "?j < r" using i False by (simp add: div_less_iff_less_mult)
    moreover have "k + ?j * m \<le> i" "i < k + ?j * m + m"
      using i(1) False div_mult_mod_eq [of "i - k" m] mod_less_divisor [of m "i - k"] by linarith+
    then have "run_bad d (k + ?j * m) m" using i(3) unfolding run_bad_def by (intro bexI [of _ i]) simp_all
    ultimately show "\<exists>j < r. run_bad d (k + j * m) m" by blast
  next
    assume "\<exists>j < r. run_bad d (k + j * m) m"
    then obtain j i where i: "j < r" "k + j * m \<le> i" "i < k + j * m + m" "ad_bad d (of_nat i)"
      by (auto simp: run_bad_def)
    have "Suc j * m \<le> r * m" using i(1) by (intro mult_le_mono1) simp
    then show "run_bad d k (r * m)" using i by (auto simp: run_bad_def)
  qed
qed (auto simp: run_bad_def)

text \<open>The sector address and length of a run of blocks.\<close>

lemma run_lba:
  fixes b r :: u32
  assumes "fs_io_ok s" "g_default_bdev s = Some bdev" "0 < unat r"
    and "(unat b + unat r) * (fs_bsz s div 512) \<le> 2 ^ 28"
  defines "spb \<equiv> ext4_sectors_per_block s bdev"
  shows "unat ((ucast b :: u64) * ucast spb) = unat b * (fs_bsz s div 512)"
    and "unat (r * spb) = unat r * (fs_bsz s div 512)" "r * spb \<noteq> 0"
    and "unat b * (fs_bsz s div 512) + unat r * (fs_bsz s div 512) \<le> 2 ^ 28"
proof -
  let ?m = "fs_bsz s div 512"
  note u = fs_sectors_per_block(1) [OF assms(1,2), folded spb_def]
  have "(unat b + 1) * ?m \<le> (unat b + unat r) * ?m" using assms(3) by (intro mult_le_mono1) simp
  with assms(4) have "fs_addr s b" unfolding fs_addr_def by (rule order_trans [rotated])
  then show "unat ((ucast b :: u64) * ucast spb) = unat b * ?m" unfolding spb_def by (rule fs_lba(1) [OF assms(1,2)])
  show le: "unat b * ?m + unat r * ?m \<le> 2 ^ 28" using assms(4) by (simp add: distrib_right)
  then have rm: "unat r * ?m < 2 ^ 32" by simp
  then show total: "unat (r * spb) = unat r * ?m" using u by (subst unat_mult_nowrap) simp_all
  have "0 < ?m" using assms(1) by (auto simp: fs_io_ok_def)
  then have "0 < unat (r * spb)" using total assms(3) by simp
  then show "r * spb \<noteq> 0" using unat_gt_0 by blast
qed

text \<open>Blocks that are read together are the blocks read one by one.\<close>

lemma ext4_read_blocks_run:
  assumes "fs_io_ok s" "0 < unat r" "(unat b + unat r) * (fs_bsz s div 512) \<le> 2 ^ 28"
    and addr: "\<And>j. j < unat r \<Longrightarrow> unat (b + of_nat j) = unat b + j \<and> fs_addr s (b + of_nat j)"
    and up: "\<And>j. j < unat r \<Longrightarrow> fs_up s (b + of_nat j)"
    and len: "length buf = unat r * fs_bsz s"
  shows "ext4_read_blocks s b r buf = (True, concat (map (\<lambda>j. the (ext4_read_block s (b + of_nat j))) [0..<unat r]))"
proof -
  let ?m = "fs_bsz s div 512" and ?r = "unat r"
  obtain bdev where bd: "g_default_bdev s = Some bdev"
    using assms(1) by (auto simp: fs_io_ok_def split: option.splits)
  let ?spb = "ext4_sectors_per_block s bdev"
  note ss = fs_sectors_per_block(2) [OF assms(1) bd] and R = run_lba [OF assms(1) bd assms(2,3)]
  have bs: "fs_bsz s = 512 * ?m" and d: "disk_ok (g_disk s)" using assms(1) by (auto simp: fs_io_ok_def)
  have le: "unat (ucast b * ucast ?spb :: u64) + unat (r * ?spb) \<le> 2 ^ 28" "0 + 512 * unat (r * ?spb) \<le> length buf"
    using R len bs by (simp_all add: algebra_simps)
  obtain ok buf' where loop: "blkdev_read_loop (g_disk s) 512 (ucast b * ucast ?spb) (r * ?spb) 0 buf = (ok, buf')"
    by fastforce
  have good: "\<not> run_bad (g_disk s) (unat b * ?m) (?r * ?m)"
    unfolding run_bad_blocks using up addr by (auto simp: fs_up_def distrib_right)
  have "ok" and "buf' = bsplice 0 (sector_run (g_disk s) (unat b * ?m) (?r * ?m)) buf"
    using blkdev_read_loop_run [OF d le loop] good R(1,2) by simp_all
  moreover have "bsplice 0 (sector_run (g_disk s) k (?r * ?m)) buf = sector_run (g_disk s) k (?r * ?m)" for k
    using d len bs by (simp add: bsplice_def)
  ultimately have "blkdev_read_loop (g_disk s) 512 (ucast b * ucast ?spb) (r * ?spb) 0 buf =
      (True, sector_run (g_disk s) (unat b * ?m) (?r * ?m))" using loop by simp
  moreover have "concat (map (\<lambda>j. the (ext4_read_block s (b + of_nat j))) [0..<?r]) =
      concat (map (\<lambda>j. sector_run (g_disk s) (unat b * ?m + j * ?m) ?m) [0..<?r])"
    using addr up by (intro arg_cong [where f = concat] map_cong)
      (simp_all add: ext4_read_block_run [OF assms(1)] distrib_right)
  ultimately show ?thesis
    using assms(2) bd R(3) ss
    by (auto simp: ext4_read_blocks_def blkdev_get_default_def blkdev_read_sectors_def Let_def run_sectors unat_gt_0)
qed

text \<open>Writing them together writes their run of sectors.\<close>

lemma ext4_write_blocks_wrote:
  assumes "fs_io_ok s" "0 < unat r" "(unat b + unat r) * (fs_bsz s div 512) \<le> 2 ^ 28"
    and "ext4_write_blocks s b r buf = (ok, s')"
  shows "\<exists>d. s' = s\<lparr>g_disk := d\<rparr> \<and>
    wrote (g_disk s) (unat b * (fs_bsz s div 512)) (unat r * (fs_bsz s div 512)) buf ok d"
proof -
  obtain bdev where bd: "g_default_bdev s = Some bdev"
    using assms(1) by (auto simp: fs_io_ok_def split: option.splits)
  let ?spb = "ext4_sectors_per_block s bdev"
  note ss = fs_sectors_per_block(2) [OF assms(1) bd] and R = run_lba [OF assms(1) bd assms(2,3)]
  have "r \<noteq> 0" using assms(2) by auto
  then obtain d where d: "s' = s\<lparr>g_disk := d\<rparr>"
    and w: "blkdev_write_loop (g_disk s) 512 (ucast b * ucast ?spb) (r * ?spb) 0 buf = (ok, d)"
    using assms(4) bd ss R(3) by (auto simp: ext4_write_blocks_def blkdev_get_default_def
        blkdev_write_sectors_def Let_def split: prod.splits)
  have "unat ((ucast b :: u64) * ucast ?spb) + unat (r * ?spb) \<le> 2 ^ 28" using R by simp
  from blkdev_write_loop_wrote [OF this w] d R(1,2) show ?thesis by (intro exI [of _ d]) simp
qed

lemma file_malloc_Some:
  assumes "file_malloc n s = (Some p, s')"
  shows "s' = s\<lparr>pool_file := pool_file s'\<rparr>" and "file_free p s' = s"
  using assms by (auto simp: file_malloc_def file_free_def frame_simps split: prod.splits)

lemma file_malloc_room:
  "(\<exists>p s'. file_malloc n s = (Some p, s')) \<longleftrightarrow> n \<le> BLOCK_SIZE \<and> 0 < pool_free_count (pool_file s)"
  using simple_malloc_Some_iff [of 4096 n "pool_file s"]
  by (auto simp: file_malloc_def split: prod.splits)

text \<open>The block index and the offset in the block that the code computes for a position.\<close>

lemma file_position:
  fixes bw :: u32 and pos :: u64
  assumes "0 < bs" "unat bw = bs" "unat pos < n * bs" "n * bs \<le> 2 ^ 32"
  shows "unat pos div bs < n"
    and "(ucast (pos AND 0xffffffff) :: u32) div bw = of_nat (unat pos div bs)"
    and "unat ((ucast (pos AND 0xffffffff) :: u32) mod bw) = unat pos mod bs"
proof -
  have p32: "unat pos < 2 ^ 32" using assms(3,4) by linarith
  let ?p = "ucast (pos AND 0xffffffff) :: u32"
  have m32: "(0xffffffff :: u64) = mask 32" by (simp add: mask_eq_exp_minus_1)
  have "?p = ucast pos" unfolding m32 by (rule bit_word_eqI) (auto simp: bit_simps)
  then have up: "unat ?p = unat pos" using p32 by (simp add: unat_ucast_fit)
  show "unat pos div bs < n" using assms(1,3) by (simp add: div_less_iff_less_mult)
  show "?p div bw = of_nat (unat pos div bs)"
    by (rule word_eq_by_unat) (use up assms(2) p32 in \<open>simp add: unat_div unat_of_nat_fit le_less_trans [OF div_le_dividend]\<close>)
  show "unat (?p mod bw) = unat pos mod bs" using up assms(2) by (simp add: unat_mod)
qed

lemma file_free_disk: "file_free p (s\<lparr>g_disk := d\<rparr>) = (file_free p s)\<lparr>g_disk := d\<rparr>"
  by (simp add: file_free_def)

section \<open>The contract of a block map\<close>

text \<open>The bytes of the first n logical blocks of a file whose block i is the block B i.\<close>

definition file_data :: "kfs \<Rightarrow> (nat \<Rightarrow> u32) \<Rightarrow> nat \<Rightarrow> bytes" where
  "file_data s B n = concat (map (\<lambda>i. the (ext4_read_block s (B i))) [0..<n])"

definition readable :: "kfs \<Rightarrow> (nat \<Rightarrow> u32) \<Rightarrow> nat \<Rightarrow> bool" where
  "readable s B n \<longleftrightarrow> (\<forall>i < n. fs_addr s (B i) \<and> fs_up s (B i))"

definition uses_extents :: "inode \<Rightarrow> bool" where
  "uses_extents node \<longleftrightarrow> S_ISREG (i_mode node) \<and>
     (case i_private node of None \<Rightarrow> False | Some ei \<Rightarrow> ei_flags ei AND EXT4_INODE_FLAG_EXTENTS \<noteq> 0)"

text \<open>The buffers of file.c do not show in what is read.\<close>

lemma file_buffers:
  assumes "g_disk s1 = g_disk s" "g_default_bdev s1 = g_default_bdev s" "ext4_block_size s1 = ext4_block_size s"
  shows "fs_io_ok s1 = fs_io_ok s" "fs_bsz s1 = fs_bsz s" "readable s1 = readable s" "file_data s1 = file_data s"
  by (simp_all add: readable_def file_data_def fun_eq_iff fs_io_cong [OF assms] ext4_read_block_cong [OF assms])

text \<open>
  maps s node B n says that the logical blocks below n of the inode are the blocks B. What the
  reading loop needs: the buffers of file.c do not matter, a block is found without a change of
  the state, it is not 0, and a run that the extent map returns is contiguous.
\<close>

locale file_map =
  fixes maps :: "kfs \<Rightarrow> inode \<Rightarrow> (nat \<Rightarrow> u32) \<Rightarrow> nat \<Rightarrow> bool"
  assumes keep: "maps s node B n \<Longrightarrow> maps (s\<lparr>pool_file := p\<rparr>) node B n"
    and has_info: "maps s node B n \<Longrightarrow> i_private node \<noteq> None"
    and found: "maps s node B n \<Longrightarrow> i < n \<Longrightarrow>
      \<exists>is_new node'. ext4_get_data_block s node (of_nat i) False = (Some (B i, is_new), node', s)"
    and nonzero: "maps s node B n \<Longrightarrow> i < n \<Longrightarrow> B i \<noteq> 0"
    and run: "maps s node B n \<Longrightarrow> i < n \<Longrightarrow> uses_extents node \<Longrightarrow> 0 < unat k \<Longrightarrow>
      \<exists>r. ext4_extents_map_blocks s node (of_nat i) k stale = (Some (B i, r), s) \<and> 0 < unat r \<and>
        unat r \<le> unat k \<and> (\<forall>j < unat r. i + j < n \<longrightarrow> B (i + j) = B i + of_nat j)"
begin

lemma block_len:
  "fs_io_ok s \<Longrightarrow> readable s B n \<Longrightarrow> i < n \<Longrightarrow>
   \<exists>buf. ext4_read_block s (B i) = Some buf \<and> length buf = fs_bsz s"
  using io.rd_up io.rd_len by (metis not_Some_eq readable_def)

lemma length_data:
  assumes "fs_io_ok s" "readable s B n"
  shows "length (file_data s B n) = n * fs_bsz s"
proof -
  have "length (the (ext4_read_block s (B j))) = fs_bsz s" if "j < n" for j
    using block_len [OF assms that] by auto
  then show ?thesis unfolding file_data_def by (subst length_concat_blocks [where b = "fs_bsz s"]) simp_all
qed

lemma data_run:
  assumes "fs_io_ok s" "readable s B n" "i + r \<le> n"
  shows "take (r * fs_bsz s) (drop (i * fs_bsz s) (file_data s B n)) =
    concat (map (\<lambda>i. the (ext4_read_block s (B i))) [i..<i + r])"
proof -
  have "length (the (ext4_read_block s (B j))) = fs_bsz s" if "j < n" for j
    using block_len [OF assms(1,2) that] by auto
  then show ?thesis unfolding file_data_def using assms(3) by (intro concat_run) auto
qed

lemma data_block:
  assumes "fs_io_ok s" "readable s B n" "i < n" "off + k \<le> fs_bsz s"
  shows "bslice off k (the (ext4_read_block s (B i))) = take k (drop (i * fs_bsz s + off) (file_data s B n))"
proof -
  have r: "take (fs_bsz s) (drop (i * fs_bsz s) (file_data s B n)) = the (ext4_read_block s (B i))"
    using data_run [OF assms(1,2), of i 1] assms(3) by simp
  have "take k (drop (i * fs_bsz s + off) (file_data s B n)) =
      take k (drop off (take (fs_bsz s) (drop (i * fs_bsz s) (file_data s B n))))"
    using assms(4) by (simp add: drop_take add.commute)
  then show ?thesis by (simp add: r bslice_def)
qed

text \<open>A run of consecutive blocks of the file is a run of blocks of the device.\<close>

lemma run_fits:
  assumes m: "maps s node B n" and s: "fs_io_ok s" "readable s B n" and r: "i + r \<le> n" "0 < r"
    and B: "\<And>j. j < r \<Longrightarrow> B i + of_nat j = B (i + j)"
  shows "(unat (B i) + r) * (fs_bsz s div 512) \<le> 2 ^ 28"
    and "j < r \<Longrightarrow> unat (B i + of_nat j) = unat (B i) + j"
proof -
  have bl: "unat (B i) < 2 ^ 32" using unsigned_less [of "B i", where 'a = nat] by simp
  have w: "unat (B i) + r \<le> 2 ^ 32"
  proof (rule ccontr)
    assume w: "\<not> unat (B i) + r \<le> 2 ^ 32"
    define j where "j = 2 ^ 32 - unat (B i)"
    have j: "j < r" "of_nat (unat (B i) + j) = (0 :: u32)" using w bl by (simp_all add: j_def)
    then have "B (i + j) = 0" using B [OF j(1)] by simp
    then show False using nonzero [OF m, of "i + j"] j(1) r by simp
  qed
  show nat: "unat (B i + of_nat j) = unat (B i) + j" if "j < r" for j
    using that w by (subst unat_add_nowrap) (simp_all add: unat_of_nat_fit)
  have "fs_addr s (B (i + (r - 1)))" using s(2) r by (auto simp: readable_def)
  then have "fs_addr s (B i + of_nat (r - 1))" using B [of "r - 1"] r(2) by simp
  moreover have "unat (B i + of_nat (r - 1)) + 1 = unat (B i) + r" using nat [of "r - 1"] r(2) by linarith
  ultimately show "(unat (B i) + r) * (fs_bsz s div 512) \<le> 2 ^ 28" by (simp only: fs_addr_def)
qed

text \<open>One iteration reads at least a byte, and the bytes of the file at its position.\<close>

lemma read_step_spec:
  assumes m: "maps s node B n" and s: "fs_io_ok s" "readable s B n" "n * fs_bsz s \<le> 2 ^ 32"
    and pos: "unat pos + count \<le> n * fs_bsz s" "0 < count"
  shows "\<exists>k. 0 < k \<and> k \<le> count \<and>
    read_step stale s node pos count = Step_Go (take k (drop (unat pos) (file_data s B n))) s"
proof -
  let ?bs = "fs_bsz s"
  let ?i = "unat pos div ?bs" and ?off = "unat pos mod ?bs"
  have b0: "0 < ?bs" using s(1) by (auto simp: fs_io_ok_def)
  have bsz: "unat (ext4_get_block_size s) = ?bs" by (simp add: fs_bsz_def ext4_get_block_size_def)
  have lt: "unat pos < n * ?bs" using pos by linarith
  note P = file_position [OF b0 bsz lt s(3)]
  note i = P(1) and idx = P(2) and off = P(3)
  have at: "?i * ?bs + ?off = unat pos" by simp
  obtain buf where buf: "ext4_read_block s (B ?i) = Some buf" "length buf = ?bs" using block_len [OF s(1,2) i] by blast
  let ?k = "min (?bs - ?off) count"
  have k: "0 < ?k" "?k \<le> count" "?off + ?k \<le> ?bs" using pos(2) b0 by (auto simp: min_def)
  show ?thesis
  proof (cases "?off = 0 \<and> ?k = ?bs \<and> uses_extents node")
    case False
    have one: "bslice ?off ?k buf = take ?k (drop (unat pos) (file_data s B n))"
      using data_block [OF s(1,2) i k(3)] at buf(1) by simp
    obtain b' node' where "ext4_get_data_block s node (of_nat ?i) False = (Some (B ?i, b'), node', s)"
      using found [OF m i] by blast
    with False nonzero [OF m i] buf(1) one have "read_step stale s node pos count = Step_Go (take ?k (drop (unat pos) (file_data s B n))) s"
      unfolding read_step_def Let_def idx off bsz uses_extents_def by auto
    with k show ?thesis by blast
  next
    case True
    let ?max = "of_nat (min (count div ?bs) 64) :: u32"
    have cb: "?bs \<le> count" using True by (simp add: min_def split: if_splits)
    then have "1 \<le> count div ?bs" using b0 by (simp add: Suc_le_eq div_greater_zero_iff)
    then have mx: "unat ?max = min (count div ?bs) 64" "0 < unat ?max" by (simp_all add: unat_of_nat_fit)
    from run [OF m i _ mx(2), of stale] True obtain r where r: "0 < unat r" "unat r \<le> unat ?max"
      "ext4_extents_map_blocks s node (of_nat ?i) ?max stale = (Some (B ?i, r), s)"
      "\<forall>j < unat r. ?i + j < n \<longrightarrow> B (?i + j) = B ?i + of_nat j" by blast
    have rc: "unat r * ?bs \<le> count"
      using r(2) mx(1) b0 by (simp add: less_eq_div_iff_mult_less_eq)
    have "(?i + unat r) * ?bs \<le> n * ?bs" using pos(1) rc at True by (simp add: distrib_right)
    then have rn: "?i + unat r \<le> n" using b0 by simp
    have runs: "take (unat r * ?bs) (drop (unat pos) (file_data s B n)) =
        concat (map (\<lambda>j. the (ext4_read_block s (B ?i + of_nat j))) [0..<unat r])"
    proof -
      have "map (\<lambda>i. the (ext4_read_block s (B i))) [?i..<?i + unat r] =
          map (\<lambda>j. the (ext4_read_block s (B ?i + of_nat j))) [0..<unat r]"
        using r(4) rn by (intro nth_equalityI) simp_all
      then show ?thesis using data_run [OF s(1,2) rn] at True by simp
    qed
    have go: "read_step stale s node pos count = Step_Go (take (unat r * ?bs) (drop (unat pos) (file_data s B n))) s"
    proof (cases "unat r = 1")
      case True1: True
      then have "r = 1" by (intro word_eq_by_unat) simp
      with True r(3) nonzero [OF m i] buf(1) runs show ?thesis
        unfolding read_step_def Let_def idx off bsz uses_extents_def by auto
    next
      case False
      have "1 < unat r" using False r(1) by linarith
      then have r1: "r > 1" "r \<noteq> 0" by (auto simp: word_less_nat_alt)
      have B: "\<And>j. j < unat r \<Longrightarrow> B ?i + of_nat j = B (?i + j)" using r(4) rn by simp
      have "ext4_read_blocks s (B ?i) r (replicate (unat r * ?bs) 0) =
          (True, concat (map (\<lambda>j. the (ext4_read_block s (B ?i + of_nat j))) [0..<unat r]))"
        using s(2) rn r(1) B run_fits [OF m s(1,2) rn r(1) B] by (intro ext4_read_blocks_run [OF s(1)]) (auto simp: readable_def)
      with True r(3) r1 nonzero [OF m i] runs show ?thesis
        unfolding read_step_def Let_def idx off bsz uses_extents_def by (auto simp: not_less)
    qed
    show ?thesis using go r(1) rc b0 by (intro exI [of _ "unat r * ?bs"]) simp
  qed
qed

lemma read_loop_spec:
  assumes m: "maps s node B n" and s: "fs_io_ok s" "readable s B n" "n * fs_bsz s \<le> 2 ^ 32"
  shows "unat pos + count \<le> n * fs_bsz s \<Longrightarrow>
    read_loop stale s node pos count acc =
      Some (Some (acc @ take count (drop (unat pos) (file_data s B n))), pos + of_nat count, s)"
proof (induction count arbitrary: pos acc rule: less_induct)
  case (less count)
  let ?D = "file_data s B n"
  show ?case
  proof (cases "count = 0")
    case False
    have b0: "ext4_get_block_size s \<noteq> 0" using s(1) by (auto simp: fs_io_ok_def fs_bsz_def ext4_get_block_size_def)
    obtain k where k: "0 < k" "k \<le> count" "read_step stale s node pos count = Step_Go (take k (drop (unat pos) ?D)) s"
      using read_step_spec [OF m s less.prems] False by blast
    have len: "length (take k (drop (unat pos) ?D)) = k"
      using k(2) less.prems length_data [OF s(1,2)] by simp
    have pk: "unat (pos + of_nat k) = unat pos + k"
      using k(2) less.prems s(3) by (subst unat_add_nowrap) (simp_all add: unat_of_nat_fit)
    have "read_loop stale s node pos count acc =
        read_loop stale s node (pos + of_nat k) (count - k) (acc @ take k (drop (unat pos) ?D))"
      using False b0 k len by (subst read_loop.simps) (auto simp: Let_def)
    also have "\<dots> = Some (Some ((acc @ take k (drop (unat pos) ?D)) @
        take (count - k) (drop (unat pos + k) ?D)), pos + of_nat k + of_nat (count - k), s)"
      using less.IH [of "count - k" "pos + of_nat k" "acc @ take k (drop (unat pos) ?D)"] k less.prems pk by simp
    also have "take k (drop (unat pos) ?D) @ take (count - k) (drop (unat pos + k) ?D) = take count (drop (unat pos) ?D)"
      using take_add [of k "count - k" "drop (unat pos) ?D"] k(2) by (simp add: add.commute)
    then have "(acc @ take k (drop (unat pos) ?D)) @ take (count - k) (drop (unat pos + k) ?D) =
        acc @ take count (drop (unat pos) ?D)" by simp
    also have "pos + of_nat k + of_nat (count - k) = pos + of_nat count"
      using k(2) by (simp add: of_nat_diff)
    finally show ?thesis .
  qed (subst read_loop.simps, simp)
qed

text \<open>
  ext4_file_read: the bytes from pos up to count of them or the end of the file, the position
  behind them, and the state as it was.
\<close>

lemma file_read_spec:
  fixes count :: u32
  assumes m: "maps s node B n" and s: "fs_io_ok s" "readable s B n" "n * fs_bsz s \<le> 2 ^ 32"
    and size: "unat (i_size node) \<le> n * fs_bsz s" "unat pos < unat (i_size node)"
    and room: "fs_bsz s \<le> BLOCK_SIZE" "0 < pool_free_count (pool_file s)"
  defines "k \<equiv> min (unat count) (unat (i_size node) - unat pos)"
  shows "ext4_file_read stale s node pos count =
    Some (Some (take k (drop (unat pos) (file_data s B n))), pos + of_nat k, s)"
proof -
  have c32: "unat count < 2 ^ 32" using unsigned_less [of count, where 'a = nat] by simp
  have up: "unat (ucast count :: u64) = unat count" using c32 by (intro unat_ucast_fit) simp
  have b: "unat (i_size node) \<le> 2 ^ 32" "unat pos < 2 ^ 32" using size s(3) by linarith+
  let ?raw = "pos + ucast count :: u64"
  have raw: "unat ?raw = unat pos + unat count" using b c32 up by (subst unat_add_nowrap) simp_all
  have sn: "sint ?raw = int (unat pos + unat count)" "sint (i_size node) = int (unat (i_size node))"
    "sint pos = int (unat pos)" using raw b c32 by (simp_all add: sint_small)
  let ?e = "if sint ?raw > sint (i_size node) then i_size node else ?raw"
  have cond: "sint ?raw > sint (i_size node) \<longleftrightarrow> unat (i_size node) < unat pos + unat count"
    unfolding sn by (rule of_nat_less_iff)
  have e: "unat ?e = unat pos + k" unfolding cond using raw size(2) by (auto simp: k_def min_def)
  have "unat (?e - pos) = k" using e by (subst unat_sub_le) (simp_all add: word_le_nat_alt)
  then have n: "unat (ucast (?e - pos) :: u32) = k" using c32 by (subst unat_ucast_fit) (simp_all add: k_def)
  have before: "\<not> sint (i_size node) \<le> sint pos" unfolding sn of_nat_le_iff using size(2) by simp
  obtain ei where ei: "i_private node = Some ei" using has_info [OF m] by auto
  show ?thesis
  proof (cases "k = 0")
    case True
    then have "(ucast (?e - pos) :: u32) = 0" using n by (intro word_eq_by_unat) simp
    with True ei before show ?thesis by (simp add: ext4_file_read_def Let_def)
  next
    case False
    then have nz: "(ucast (?e - pos) :: u32) \<noteq> 0" using n by auto
    have "unat (ext4_get_block_size s) \<le> BLOCK_SIZE" using room(1) by (simp add: fs_bsz_def ext4_get_block_size_def)
    then obtain p s1 where mal: "file_malloc (unat (ext4_get_block_size s)) s = (Some p, s1)"
      using room(2) file_malloc_room by blast
    note M = file_malloc_Some [OF mal]
    obtain q where s1: "s1 = s\<lparr>pool_file := q\<rparr>" using M(1) by blast
    have io: "fs_io_ok s1" "fs_bsz s1 = fs_bsz s" "readable s1 B n" "file_data s1 B n = file_data s B n"
      using s(1,2) file_buffers [of s1 s] by (simp_all add: s1)
    have m1: "maps s1 node B n" using keep [OF m, of q] s1 by simp
    have "unat pos + k \<le> n * fs_bsz s1" using size unfolding k_def io(2) by (auto simp: min_def)
    from read_loop_spec [OF m1 io(1,3) _ this, of stale "[]"] s(3)
    have "read_loop stale s1 node pos k [] =
        Some (Some (take k (drop (unat pos) (file_data s B n))), pos + of_nat k, s1)" by (simp add: io)
    with ei before nz mal n M(2) show ?thesis by (simp add: ext4_file_read_def Let_def)
  qed
qed

end

end
