(* ===== verification/File_Write.thy ===== *)
theory File_Write
  imports File_Read
begin

text \<open>
  Overwriting a file splices the bytes into its data. The contract of the block map is extended by
  what the writing loop needs; no block is allocated.
\<close>

section \<open>A splice of some blocks\<close>

lemma splice_middle:
  "off + length xs \<le> length M \<Longrightarrow> bsplice (length A + off) xs (A @ M @ C) = A @ bsplice off xs M @ C"
  by (simp add: bsplice_def)

lemma splice_0: "length xs = length buf \<Longrightarrow> bsplice 0 xs buf = xs"
  by (simp add: bsplice_def)

lemma concat_splice:
  assumes f: "\<And>j. j < n \<Longrightarrow> length (f j) = b" and r: "i + r \<le> n" "off + length xs \<le> r * b"
    and eq: "concat (map g [i..<i + r]) = bsplice off xs (concat (map f [i..<i + r]))"
      "\<And>j. j < n \<Longrightarrow> j < i \<or> i + r \<le> j \<Longrightarrow> g j = f j"
  shows "concat (map g [0..<n]) = bsplice (i * b + off) xs (concat (map f [0..<n]))"
proof -
  have up: "[0..<n] = [0..<i] @ [i..<i + r] @ [i + r..<n]"
    using r(1) upt_add_eq_append [of 0 i "n - i"] upt_add_eq_append [of i "i + r" "n - (i + r)"] by simp
  have out: "map g [0..<i] = map f [0..<i]" "map g [i + r..<n] = map f [i + r..<n]"
    using eq(2) r(1) by simp_all
  have "length (concat (map f [0..<i])) = i * b" "length (concat (map f [i..<i + r])) = r * b"
    using f r(1) by (simp_all add: length_concat_blocks [where b = b])
  then show ?thesis
    using splice_middle [of off xs "concat (map f [i..<i + r])" "concat (map f [0..<i])"] r(2)
    unfolding up by (simp add: out eq(1))
qed

lemma splice_splice_append:
  assumes "off + length xs + length ys \<le> length buf"
  shows "bsplice (off + length xs) ys (bsplice off xs buf) = bsplice off (xs @ ys) buf"
  using assms by (simp add: bsplice_def add_ac)

section \<open>Writing through a block map\<close>

lemma account_none [simp]: "account_blocks 0 spb node = node"
  by (simp add: account_blocks_def)

text \<open>The state after some blocks of the file were written; no other block of the device changed.\<close>

definition rewritten :: "kfs \<Rightarrow> (nat \<Rightarrow> u32) \<Rightarrow> nat \<Rightarrow> nat \<Rightarrow> bytes \<Rightarrow> kfs \<Rightarrow> bool" where
  "rewritten s B n off xs s' \<longleftrightarrow> s' = s\<lparr>g_disk := g_disk s'\<rparr> \<and> fs_io_ok s' \<and> readable s' B n \<and>
     disk_frame (B ` {..<n}) s s' \<and> file_data s' B n = bsplice off xs (file_data s B n)"

text \<open>
  The inode after a write up to end_pos.
\<close>

definition grown :: "u64 \<Rightarrow> inode \<Rightarrow> inode" where
  "grown end_pos node = (if sint end_pos > sint (i_size node)
     then node\<lparr>i_size := end_pos, i_state := i_state node OR I_DIRTY\<rparr> else node)"

locale file_map_rw = file_map +
  assumes disk: "maps s node B n \<Longrightarrow> maps (s\<lparr>g_disk := d\<rparr>) node B n"
    and resize: "maps s node B n \<Longrightarrow> maps s (node\<lparr>i_size := z, i_state := st\<rparr>) B n"
    and present: "maps s node B n \<Longrightarrow> i < n \<Longrightarrow>
      ext4_get_data_block s node (of_nat i) True = (Some (B i, False), node, s)"
begin

lemma probe_run_spec:
  assumes m: "maps s node B n"
  shows "0 < r \<Longrightarrow> i + r + k \<le> n \<Longrightarrow> \<forall>j < r. B (i + j) = B i + of_nat j \<Longrightarrow>
    \<exists>r'. probe_run s node k (of_nat (i + r)) (B i + of_nat (r - 1)) r nb = (r', nb, node, s) \<and>
      r \<le> r' \<and> r' \<le> r + k \<and> (\<forall>j < r'. B (i + j) = B i + of_nat j)"
proof (induction k arbitrary: r)
  case (Suc k)
  have g: "ext4_get_data_block s node (of_nat (i + r)) True = (Some (B (i + r), False), node, s)"
    by (rule present [OF m]) (use Suc.prems in simp)
  have nz: "B (i + r) \<noteq> 0" by (rule nonzero [OF m]) (use Suc.prems in simp)
  show ?case
  proof (cases "B (i + r) = B i + of_nat (r - 1) + 1")
    case False
    then show ?thesis using g nz Suc.prems by (intro exI [of _ r]) simp
  next
    case True
    have "B i + of_nat (r - 1) + 1 = B i + of_nat r" using Suc.prems(1) by (simp add: of_nat_diff)
    then have Br: "B (i + r) = B i + of_nat r" using True by simp
    then have "\<forall>j < Suc r. B (i + j) = B i + of_nat j" using Suc.prems(3) by (simp add: less_Suc_eq)
    then obtain r' where "probe_run s node k (of_nat (i + Suc r)) (B i + of_nat (Suc r - 1)) (Suc r) nb = (r', nb, node, s)"
      "Suc r \<le> r'" "r' \<le> Suc r + k" "\<forall>j < r'. B (i + j) = B i + of_nat j"
      using Suc.IH [of "Suc r"] Suc.prems by auto
    then show ?thesis using g nz True Br by (intro exI [of _ r']) (simp add: algebra_simps)
  qed
qed auto

lemma rewritten_blocks:
  assumes s: "fs_io_ok s" "readable s B n" and fr: "disk_frame (B ` {i..<i + r}) s s'"
    and d: "s' = s\<lparr>g_disk := d\<rparr>" and inj: "inj_on B {..<n}"
    and r: "i + r \<le> n" "off + length xs \<le> r * fs_bsz s"
    and eq: "concat (map (\<lambda>j. the (ext4_read_block s' (B j))) [i..<i + r]) =
      bsplice off xs (concat (map (\<lambda>j. the (ext4_read_block s (B j))) [i..<i + r]))"
  shows "rewritten s B n (i * fs_bsz s + off) xs s'"
proof -
  note F = fr [unfolded disk_frame_def]
  have read: "readable s' B n" using s(2) F by (simp add: readable_def)
  have "ext4_read_block s' (B j) = ext4_read_block s (B j)" if "j < n" "j < i \<or> i + r \<le> j" for j
  proof -
    have "B j \<notin> B ` {i..<i + r}" using that r(1) by (auto dest!: inj_onD [OF inj])
    then show ?thesis using F s(2) that(1) by (auto simp: readable_def)
  qed
  then have "file_data s' B n = bsplice (i * fs_bsz s + off) xs (file_data s B n)"
    unfolding file_data_def using block_len [OF s] r eq
    by (intro concat_splice [where i = i and r = r]) fastforce+
  moreover have "disk_frame (B ` {..<n}) s s'" using F r(1) by (auto simp: disk_frame_def)
  ultimately show ?thesis using read F d by (simp add: rewritten_def)
qed

lemma rewrite_part:
  assumes s: "fs_io_ok s" "readable s B n" and inj: "inj_on B {..<n}" and i: "i < n" "off + length xs \<le> fs_bsz s"
    and buf: "ext4_read_block s (B i) = Some buf"
  shows "\<exists>s'. ext4_write_block s (B i) (bsplice off xs buf) = (True, s') \<and> rewritten s B n (i * fs_bsz s + off) xs s'"
proof -
  have a: "fs_addr s (B i)" "fs_up s (B i)" using s(2) i by (simp_all add: readable_def)
  have len: "length buf = fs_bsz s" "length (bsplice off xs buf) = fs_bsz s"
    using io.rd_len [OF s(1) a(1) buf] i(2) by simp_all
  obtain ok s' where w: "ext4_write_block s (B i) (bsplice off xs buf) = (ok, s')" by fastforce
  have ok using io.wr_up [OF s(1) a(1) len(2)] w a(2) by simp
  then have same: "ext4_read_block s' (B i) = Some (bsplice off xs buf)" using io.wr_same [OF s(1) a(1) len(2)] w by simp
  have "disk_frame {B i} s s'" using disk_frame_write [OF s(1) a(1) len(2) w] .
  then have "rewritten s B n (i * fs_bsz s + off) xs s'"
    using same buf i ext4_write_block_disk [OF w]
    by (intro rewritten_blocks [where r = 1 and d = "g_disk s'"] s inj) simp_all
  with w \<open>ok\<close> show ?thesis by auto
qed

lemma rewrite_run:
  assumes m: "maps s node B n" and s: "fs_io_ok s" "readable s B n" and inj: "inj_on B {..<n}"
    and r: "i + r \<le> n" "0 < r" "r < 2 ^ 32" and B: "\<forall>j < r. B (i + j) = B i + of_nat j"
    and len: "length xs = r * fs_bsz s"
  shows "\<exists>s'. ext4_write_blocks s (B i) (of_nat r) xs = (True, s') \<and> rewritten s B n (i * fs_bsz s) xs s'"
proof -
  let ?m = "fs_bsz s div 512"
  have Bj: "\<And>j. j < r \<Longrightarrow> B i + of_nat j = B (i + j)" using B by simp
  note R = run_fits [OF m s r(1,2) Bj]
  have ur: "unat (of_nat r :: u32) = r" using r(3) by (intro unat_of_nat_fit) simp
  have bs: "fs_bsz s = 512 * ?m" "0 < ?m" "disk_ok (g_disk s)" using s(1) by (auto simp: fs_io_ok_def)
  obtain ok s' where w: "ext4_write_blocks s (B i) (of_nat r) xs = (ok, s')" by fastforce
  from ext4_write_blocks_wrote [OF s(1) _ _ w] R(1) r(2) ur obtain d where
    d: "s' = s\<lparr>g_disk := d\<rparr>" "wrote (g_disk s) (unat (B i) * ?m) (r * ?m) xs ok d" by auto
  have "\<not> run_bad (g_disk s) (unat (B i) * ?m + j * ?m) ?m" if "j < r" for j
  proof -
    have "fs_up s (B i + of_nat j)" using s(2) r(1) that Bj [OF that] by (simp add: readable_def)
    then show ?thesis using R(2) [of j] that Bj by (simp add: fs_up_def distrib_right)
  qed
  then have "\<not> run_bad (g_disk s) (unat (B i) * ?m) (r * ?m)" unfolding run_bad_blocks by blast
  then have ok using d(2) by (simp add: wrote_def)
  have lx: "length xs = 512 * (r * ?m)" using len bs by simp
  have io: "fs_io_ok s'" using s(1) d lx by (simp add: wrote_def fs_io_ok_def)
  have up: "fs_up s' = fs_up s" using d by (simp add: fs_up_def wrote_def run_bad_def fun_eq_iff)
  have same: "fs_bsz s' = fs_bsz s" "fs_addr s' = fs_addr s" "g_disk s' = d" using d(1) by simp_all
  have out: "ext4_read_block s' c = ext4_read_block s c" if c: "fs_addr s c" "c \<notin> B ` {i..<i + r}" for c
  proof -
    have "unat c + 1 \<le> unat (B i) \<or> unat (B i) + r \<le> unat c"
    proof (rule ccontr)
      assume "\<not> ?thesis"
      then obtain j where j: "unat c = unat (B i) + j" "j < r" using le_Suc_ex [of "unat (B i)" "unat c"] by auto
      then have "c = B (i + j)" using R(2) [of j] Bj [OF j(2)] by (intro word_eq_by_unat) simp
      then show False using c(2) j(2) by auto
    qed
    then have "(unat c + 1) * ?m \<le> unat (B i) * ?m \<or> (unat (B i) + r) * ?m \<le> unat c * ?m"
      using mult_le_mono1 by blast
    then have "sector_run d (unat c * ?m) ?m = sector_run (g_disk s) (unat c * ?m) ?m"
      using c(1) by (intro wrote_run_other [OF d(2)]) (auto simp: fs_addr_def distrib_right)
    then show ?thesis
      using c(1) same up by (simp add: ext4_read_block_run [OF io] ext4_read_block_run [OF s(1)])
  qed
  have fr: "disk_frame (B ` {i..<i + r}) s s'" using io same up out by (simp add: disk_frame_def)
  have "the (ext4_read_block s' (B (i + j))) = sector_run d (unat (B i) * ?m + j * ?m) ?m" if "j < r" for j
  proof -
    have "fs_addr s (B (i + j))" "fs_up s (B (i + j))" using s(2) r(1) that by (simp_all add: readable_def)
    then show ?thesis using R(2) [of j] that same up B
      by (simp add: ext4_read_block_run [OF io] distrib_right)
  qed
  then have "concat (map (\<lambda>j. the (ext4_read_block s' (B j))) [i..<i + r]) =
      concat (map (\<lambda>j. sector_run d (unat (B i) * ?m + j * ?m) ?m) [0..<r])"
    by (intro arg_cong [where f = concat] nth_equalityI) simp_all
  also have "\<dots> = xs" using wrote_run_same d(2) \<open>ok\<close> lx by (simp add: run_sectors)
  finally have new: "concat (map (\<lambda>j. the (ext4_read_block s' (B j))) [i..<i + r]) = xs" .
  have "length (the (ext4_read_block s (B j))) = fs_bsz s" if "j < i + r" for j
    using block_len [OF s, of j] that r(1) by auto
  then have "length (concat (map (\<lambda>j. the (ext4_read_block s (B j))) [i..<i + r])) = length xs"
    using len by (simp add: length_concat_blocks [where b = "fs_bsz s"])
  then have "rewritten s B n (i * fs_bsz s + 0) xs s'"
    using new len r(1) by (intro rewritten_blocks [OF s fr d(1) inj]) (simp_all add: splice_0)
  with w \<open>ok\<close> show ?thesis by auto
qed

text \<open>One iteration writes at least a byte, and splices the bytes in at its position.\<close>

lemma write_step_spec:
  assumes m: "maps s node B n" and s: "fs_io_ok s" "readable s B n" "n * fs_bsz s \<le> 2 ^ 32" and inj: "inj_on B {..<n}"
    and pos: "unat pos + length data \<le> n * fs_bsz s" "data \<noteq> []"
  shows "\<exists>k s'. 0 < k \<and> k \<le> length data \<and> write_step s node pos data = (Step_Go (k, node) s', node) \<and>
    rewritten s B n (unat pos) (take k data) s'"
proof -
  let ?bs = "fs_bsz s"
  let ?i = "unat pos div ?bs" and ?off = "unat pos mod ?bs"
  have b0: "0 < ?bs" using s(1) by (auto simp: fs_io_ok_def)
  have bsz: "unat (ext4_get_block_size s) = ?bs" by (simp add: fs_bsz_def ext4_get_block_size_def)
  have c0: "0 < length data" using pos(2) by simp
  then have lt: "unat pos < n * ?bs" using pos by linarith
  note A = file_position [OF b0 bsz lt s(3)]
  obtain buf where buf: "ext4_read_block s (B ?i) = Some buf" "length buf = ?bs" using block_len [OF s(1,2) A(1)] by blast
  note here = present [OF m A(1)] nonzero [OF m A(1)]
  let ?k = "min (?bs - ?off) (length data)"
  have k: "0 < ?k" "?k \<le> length data" "?off + ?k \<le> ?bs" using c0 b0 by (auto simp: min_def)
  show ?thesis
  proof (cases "?off = 0 \<and> ?k = ?bs")
    case False
    obtain s' where w: "ext4_write_block s (B ?i) (bsplice ?off (take ?k data) buf) = (True, s')"
      "rewritten s B n (?i * ?bs + ?off) (take ?k data) s'"
      using rewrite_part [OF s(1,2) inj A(1) _ buf(1), of ?off "take ?k data"] k(2,3) by auto
    have "write_step s node pos data = (Step_Go (?k, node) s', node)"
      using False here buf(1) w(1) unfolding write_step_def Let_def A(2,3) bsz by auto
    then show ?thesis using k w(2) by (intro exI [of _ ?k] exI [of _ s']) simp
  next
    case True
    have cb: "?bs \<le> length data" using True by (simp add: min_def split: if_splits)
    then have m1: "1 \<le> length data div ?bs" using b0 by (simp add: Suc_le_eq div_greater_zero_iff)
    let ?max = "min (length data div ?bs) 64"
    have "?max * ?bs \<le> length data div ?bs * ?bs" by (intro mult_le_mono1) simp
    then have mb: "?max * ?bs \<le> length data" using div_times_less_eq_dividend by (rule order_trans)
    have at: "?i * ?bs = unat pos" using True div_mult_mod_eq [of "unat pos" ?bs] by simp
    then have "(?i + ?max) * ?bs \<le> n * ?bs" using pos(1) mb by (simp add: distrib_right)
    then have fit: "?i + ?max \<le> n" using b0 by simp
    have fit1: "?i + 1 + (?max - 1) \<le> n" using fit m1 by simp
    obtain r where r: "probe_run s node (?max - 1) (of_nat (?i + 1)) (B ?i + of_nat (1 - 1)) 1 0 = (r, 0, node, s)"
      "1 \<le> r" "r \<le> 1 + (?max - 1)" "\<forall>j < r. B (?i + j) = B ?i + of_nat j"
      using probe_run_spec [OF m, of 1 ?i "?max - 1" 0] fit1 by auto
    have rm: "r \<le> ?max" using r(3) m1 by simp
    then have rn: "?i + r \<le> n" using fit by linarith
    have rb: "r * ?bs \<le> length data" using mult_le_mono1 [OF rm, of ?bs] mb by (rule order_trans)
    have len: "length (take (r * ?bs) data) = r * ?bs" using rb by simp
    have "\<exists>s'. (if r > 1 then ext4_write_blocks s (B ?i) (of_nat r) (take (r * ?bs) data)
          else ext4_write_block s (B ?i) (take ?bs data)) = (True, s') \<and>
        rewritten s B n (unat pos) (take (r * ?bs) data) s'"
    proof (cases "r = 1")
      case False
      have "r < 2 ^ 32" using rm by simp
      then show ?thesis using rewrite_run [OF m s(1,2) inj rn _ _ r(4) len] r(2) False at by auto
    next
      case True1: True
      have "bsplice 0 (take ?bs data) buf = take ?bs data" using buf(2) cb by (intro splice_0) simp
      then show ?thesis
        using rewrite_part [OF s(1,2) inj A(1) _ buf(1), of 0 "take ?bs data"] True1 cb at by simp
    qed
    then obtain s' where w: "(if r > 1 then ext4_write_blocks s (B ?i) (of_nat r) (take (r * ?bs) data)
          else ext4_write_block s (B ?i) (take ?bs data)) = (True, s')"
        "rewritten s B n (unat pos) (take (r * ?bs) data) s'" by blast
    have pr: "probe_run s node (?max - 1) (of_nat ?i + 1) (B ?i) 1 0 = (r, 0, node, s)" using r(1) by (simp add: add.commute)
    have "write_step s node pos data = (Step_Go (r * ?bs, node) s', node)"
      using conjunct1 [OF True] cb here w(1) pr unfolding write_step_def Let_def A(2,3) bsz by (simp add: min_absorb1)
    then show ?thesis using rb r(2) b0 w(2) by (intro exI [of _ "r * ?bs"] exI [of _ s']) simp
  qed
qed

lemma write_loop_spec:
  "maps s node B n \<Longrightarrow> fs_io_ok s \<Longrightarrow> readable s B n \<Longrightarrow> n * fs_bsz s \<le> 2 ^ 32 \<Longrightarrow> inj_on B {..<n} \<Longrightarrow>
   unat pos + length data \<le> n * fs_bsz s \<Longrightarrow>
   \<exists>s'. write_loop s node pos data w = Some (Some (w + length data), node, pos + of_nat (length data), s') \<and>
     rewritten s B n (unat pos) data s'"
proof (induction "length data" arbitrary: s pos data w rule: less_induct)
  case less
  note io = less.prems(2,3)
  show ?case
  proof (cases "data = []")
    case True
    then show ?thesis using io
      by (subst write_loop.simps) (simp add: rewritten_def bsplice_def disk_frame_same_io)
  next
    case False
    have b0: "ext4_get_block_size s \<noteq> 0" using io by (auto simp: fs_io_ok_def fs_bsz_def ext4_get_block_size_def)
    obtain k t where k: "0 < k" "k \<le> length data" "write_step s node pos data = (Step_Go (k, node) t, node)"
      "rewritten s B n (unat pos) (take k data) t"
      using write_step_spec [OF less.prems(1-6) False] by blast
    obtain d where t: "t = s\<lparr>g_disk := d\<rparr>" "fs_io_ok t" "readable t B n"
      "file_data t B n = bsplice (unat pos) (take k data) (file_data s B n)" "disk_frame (B ` {..<n}) s t"
      using k(4) by (auto simp: rewritten_def)
    have bz: "fs_bsz t = fs_bsz s" using t(1) by simp
    have pk: "unat (pos + of_nat k) = unat pos + k"
      using k(2) less.prems(4,6) by (subst unat_add_nowrap) (simp_all add: unat_of_nat_fit)
    have shorter: "length (drop k data) < length data" using k(1,2) by simp
    have "maps t node B n" using disk [OF less.prems(1)] t(1) by simp
    then obtain s' where l: "write_loop t node (pos + of_nat k) (drop k data) (w + k) =
        Some (Some (w + k + length (drop k data)), node, pos + of_nat k + of_nat (length (drop k data)), s')"
      "rewritten t B n (unat (pos + of_nat k)) (drop k data) s'"
      using less.hyps [of "drop k data" t "pos + of_nat k" "w + k"] t(2,3) less.prems(4-6) k(1,2) pk bz shorter by auto
    have "pos + of_nat k + of_nat (length data - k) = pos + of_nat (length data)"
      using k(2) by (simp add: of_nat_diff)
    then have run: "write_loop s node pos data w = Some (Some (w + length data), node, pos + of_nat (length data), s')"
      using False b0 k(1-3) l(1) by (subst write_loop.simps) simp
    have "bsplice (unat pos + k) (drop k data) (bsplice (unat pos) (take k data) (file_data s B n)) =
        bsplice (unat pos) data (file_data s B n)"
      using splice_splice_append [of "unat pos" "take k data" "drop k data" "file_data s B n"]
        length_data [OF io] less.prems(6) k(2) by simp
    then have "rewritten s B n (unat pos) data s'"
      using l(2) t(1,4) pk disk_frame_trans [OF t(5), of "B ` {..<n}" s'] by (simp add: rewritten_def)
    with run show ?thesis by blast
  qed
qed

text \<open>ext4_file_write within the mapped blocks.\<close>

lemma file_write_spec:
  assumes m: "maps s node B n" and s: "fs_io_ok s" "readable s B n" "n * fs_bsz s \<le> 2 ^ 32" and inj: "inj_on B {..<n}"
    and pos: "unat pos + length data \<le> n * fs_bsz s"
    and room: "fs_bsz s \<le> BLOCK_SIZE" "0 < pool_free_count (pool_file s)"
  shows "\<exists>s'. ext4_file_write s node pos data =
      Some (Some (length data), grown (pos + of_nat (length data)) node, pos + of_nat (length data), s') \<and>
    rewritten s B n (unat pos) data s'"
proof -
  have "unat (ext4_get_block_size s) \<le> BLOCK_SIZE" using room(1) by (simp add: fs_bsz_def ext4_get_block_size_def)
  then obtain p s1 where mal: "file_malloc (unat (ext4_get_block_size s)) s = (Some p, s1)"
    using room(2) file_malloc_room by blast
  note M = file_malloc_Some [OF mal]
  obtain q where s1: "s1 = s\<lparr>pool_file := q\<rparr>" using M(1) by blast
  have io: "fs_io_ok s1" "fs_bsz s1 = fs_bsz s" "readable s1 B n" "file_data s1 B n = file_data s B n"
    using s(1,2) file_buffers [of s1 s] by (simp_all add: s1)
  have m1: "maps s1 node B n" using keep [OF m, of q] s1 by simp
  obtain t where t: "write_loop s1 node pos data 0 = Some (Some (0 + length data), node, pos + of_nat (length data), t)"
    "rewritten s1 B n (unat pos) data t"
    using write_loop_spec [OF m1 io(1,3) _ inj, of pos data 0] s(3) pos io(2) by auto
  have eq: "file_free p t = s\<lparr>g_disk := g_disk t\<rparr>"
  proof -
    obtain d where d: "t = s1\<lparr>g_disk := d\<rparr>" using t(2) by (auto simp: rewritten_def)
    then have "file_free p t = (file_free p s1)\<lparr>g_disk := g_disk t\<rparr>" by (simp add: file_free_disk)
    then show ?thesis using M(2) by simp
  qed
  obtain d where d: "t = s1\<lparr>g_disk := d\<rparr>" using t(2) by (auto simp: rewritten_def)
  have "g_disk (file_free p t) = g_disk t" "g_default_bdev (file_free p t) = g_default_bdev t"
    "ext4_block_size (file_free p t) = ext4_block_size t" by (simp_all add: file_free_def d s1)
  note same = file_buffers [OF this]
  have "disk_frame {} s s1" using s(1) by (simp add: s1 disk_frame_same_io)
  moreover have "disk_frame {} t (file_free p t)"
    using t(2) by (intro disk_frame_same_io) (simp_all add: rewritten_def file_free_def d s1)
  ultimately have "disk_frame (B ` {..<n}) s (file_free p t)"
    using t(2) disk_frame_trans [of "{}" s s1 "B ` {..<n}" t "B ` {..<n}"]
      disk_frame_trans [of "B ` {..<n}" s t "{}" "file_free p t" "B ` {..<n}"] by (simp add: rewritten_def)
  then have "rewritten s B n (unat pos) data (file_free p t)"
    using t(2) io(4) same eq by (simp add: rewritten_def)
  moreover obtain ei where "i_private node = Some ei" using has_info [OF m] by auto
  ultimately show ?thesis using mal t(1) by (auto simp: ext4_file_write_def Let_def grown_def)
qed

end

end
