(* ===== verification/File_Props.thy ===== *)
theory File_Props
  imports File_Write Extents_Props
begin

text \<open>
  The two block maps that a file of the code can be read through, the direct blocks of the inode
  and the extents in its root, provide the contract of file_map. From it: what ext4_file_read
  returns.
\<close>

section \<open>The direct blocks\<close>

definition direct_map :: "kfs \<Rightarrow> inode \<Rightarrow> (nat \<Rightarrow> u32) \<Rightarrow> nat \<Rightarrow> bool" where
  "direct_map s node B n \<longleftrightarrow> ext4_get_block_size s \<noteq> 0 \<and> n \<le> 12 \<and> \<not> uses_extents node \<and>
     (\<exists>ei. i_private node = Some ei \<and> (\<forall>i < n. get_iblock ei i = B i \<and> B i \<noteq> 0))"

lemma direct_map_found:
  assumes "direct_map s node B n" "i < n"
  shows "ext4_get_data_block s node (of_nat i) False = (Some (B i, False), node, s)"
proof -
  obtain ei where ei: "i_private node = Some ei" "get_iblock ei i = B i" "B i \<noteq> 0"
    using assms by (auto simp: direct_map_def)
  have i: "unat (of_nat i :: u32) = i" using assms by (intro unat_of_nat_fit) (simp add: direct_map_def)
  then have "(of_nat i :: u32) < 12" using assms by (simp add: word_less_nat_alt direct_map_def)
  with assms(1) ei i show ?thesis
    by (auto simp: ext4_get_data_block_def ext4_legacy_get_data_block_def direct_map_def uses_extents_def Let_def)
qed

interpretation direct: file_map direct_map
proof unfold_locales
  fix s node B n i k and stale :: "ext4_extent option"
  show "direct_map s node B n \<Longrightarrow> i_private node \<noteq> None" by (auto simp: direct_map_def)
  show "\<exists>is_new node'. ext4_get_data_block s node (of_nat i) False = (Some (B i, is_new), node', s)"
    if "direct_map s node B n" "i < n"
    using direct_map_found [OF that] by blast
qed (auto simp: direct_map_def ext4_get_block_size_def)

section \<open>The extents in the root\<close>

definition root_map :: "kfs \<Rightarrow> inode \<Rightarrow> (nat \<Rightarrow> u32) \<Rightarrow> nat \<Rightarrow> bool" where
  "root_map s node B n \<longleftrightarrow> ext4_get_block_size s \<noteq> 0 \<and> n \<le> 2 ^ 32 \<and> uses_extents node \<and>
     (\<exists>ei. i_private node = Some ei \<and> node_ok (i_block ei) \<and> eh_depth (eh_get (i_block ei)) = 0 \<and>
        exts_ok (leaf_exts (i_block ei)) \<and>
        (\<forall>i < n. ext4_extents_lookup_mapped (i_block ei) (of_nat i) = Some (B i) \<and> B i \<noteq> 0))"

lemma root_map_found:
  assumes "root_map s node B n" "i < n"
  shows "ext4_get_data_block s node (of_nat i) False = (Some (B i, False), node, s)"
  using assms
  by (auto simp: root_map_def uses_extents_def ext4_get_data_block_def get_block_root Let_def)

lemma root_map_run:
  assumes m: "root_map s node B n" and i: "i < n" and k: "0 < unat k"
  shows "\<exists>r. ext4_extents_map_blocks s node (of_nat i) k stale = (Some (B i, r), s) \<and> 0 < unat r \<and>
    unat r \<le> unat k \<and> (\<forall>j < unat r. i + j < n \<longrightarrow> B (i + j) = B i + of_nat j)"
proof -
  obtain ei where ei: "i_private node = Some ei" and r: "node_ok (i_block ei)" "exts_ok (leaf_exts (i_block ei))"
      "eh_depth (eh_get (i_block ei)) = 0"
    and map: "\<And>i. i < n \<Longrightarrow> ext4_extents_lookup_mapped (i_block ei) (of_nat i) = Some (B i)"
    using m unfolding root_map_def by blast
  let ?r = "i_block ei" and ?l = "of_nat i :: u32"
  note find = extents_find_spec [OF r(1,2)] and look = lookup_mapped_spec [OF r(1,2)]
  have nat_l: "unat (of_nat j :: u32) = j" if "j < n" for j
    using that m by (intro unat_of_nat_fit) (simp add: root_map_def)
  obtain e where e: "fst (ext4_extents_find ?r ?l) = Some e"
    using map [OF i] by (auto simp: ext4_extents_lookup_mapped_def split: option.splits)
  let ?e = "ext_get ?r e"
  have c: "e < node_entries ?r" "ext_covers ?e ?l" using e find by auto
  have blk: "B j = ext_block ?e (of_nat j)" if "j < n" "ext_covers ?e (of_nat j)" for j
    using exts_map_nth [OF r(2), of e "of_nat j"] map [OF that(1)] look c(1) that(2) by (simp add: nth_leaf_exts)
  have le: "ee_block ?e \<le> ?l" using c(2) by (simp add: ext_covers_def ext_start_def word_le_nat_alt)
  have off: "unat (?l - ee_block ?e) = i - ext_start ?e" using le nat_l [OF i] by (simp add: unat_sub_le ext_start_def)
  have cov: "ext_start ?e \<le> i" "i < ext_end ?e" using c(2) nat_l [OF i] by (simp_all add: ext_covers_def)
  have o_lt: "?l - ee_block ?e < ucast (ee_len ?e)"
    using off cov by (simp add: word_less_nat_alt unat_ee_len32 ext_end_def)
  let ?av = "ucast (ee_len ?e) - (?l - ee_block ?e) :: u32"
  have av: "unat ?av = ext_end ?e - i"
    using o_lt off cov by (simp add: unat_sub_le unat_ee_len32 ext_end_def less_imp_le)
  let ?n = "if ?av > k then k else ?av"
  have "ext4_extents_map_blocks s node ?l k stale = (Some (B i, ?n), s)"
    using ei r k e le o_lt blk [OF i c(2)] path_root [OF r(1,3)]
    by (auto simp: ext4_extents_map_blocks_def ext4_extents_free_path_def node_ok_def Let_def ext_block_def unat_gt_0)
  moreover have "0 < unat ?n" "unat ?n \<le> unat k" using k av cov by (auto simp: word_less_nat_alt)
  moreover have "B (i + j) = B i + of_nat j" if "j < unat ?n" "i + j < n" for j
  proof -
    have "unat ?n \<le> unat ?av" by (simp add: word_less_nat_alt)
    then have "ext_covers ?e (of_nat (i + j))"
      using that cov av nat_l [OF that(2)] by (simp add: ext_covers_def)
    then show ?thesis using blk [OF that(2)] blk [OF i c(2)] ext_block_linear [of ?e ?l "of_nat j"] by simp
  qed
  ultimately show ?thesis by blast
qed

lemma root_map_present:
  assumes "root_map s node B n" "i < n"
  shows "ext4_get_data_block s node (of_nat i) True = (Some (B i, False), node, s)"
proof -
  obtain ei where ei: "i_private node = Some ei" "node_ok (i_block ei)" "eh_depth (eh_get (i_block ei)) = 0"
      "ext4_extents_lookup_mapped (i_block ei) (of_nat i) = Some (B i)"
    and m: "S_ISREG (i_mode node)" "ei_flags ei AND EXT4_INODE_FLAG_EXTENTS \<noteq> 0" "ext4_get_block_size s \<noteq> 0"
    using assms by (auto simp: root_map_def uses_extents_def)
  have "ei_flags ei OR EXT4_INODE_FLAG_EXTENTS = ei_flags ei"
    using m(2) and_bit_zero_iff [of 19 "ei_flags ei"] or_set_bit [of "ei_flags ei" 19] by simp
  then have "ei_or_flags EXT4_INODE_FLAG_EXTENTS node = node" using ei(1) by (simp add: ei_or_flags_def)
  then show ?thesis
    using ei m path_root [OF ei(2,3)]
    by (simp add: ext4_get_data_block_def ext4_extents_get_block_def ext4_extents_free_path_def node_ok_def Let_def)
qed

interpretation rooted: file_map_rw root_map
proof unfold_locales
  fix s node B n i k d z st and stale :: "ext4_extent option"
  show "root_map s node B n \<Longrightarrow> i_private node \<noteq> None" by (auto simp: root_map_def)
  show "\<exists>is_new node'. ext4_get_data_block s node (of_nat i) False = (Some (B i, is_new), node', s)"
    if "root_map s node B n" "i < n"
    using root_map_found [OF that] by blast
  show "\<exists>r. ext4_extents_map_blocks s node (of_nat i) k stale = (Some (B i, r), s) \<and> 0 < unat r \<and>
      unat r \<le> unat k \<and> (\<forall>j < unat r. i + j < n \<longrightarrow> B (i + j) = B i + of_nat j)"
    if "root_map s node B n" "i < n" "uses_extents node" "0 < unat k"
    using root_map_run [OF that(1,2,4)] .
  show "ext4_get_data_block s node (of_nat i) True = (Some (B i, False), node, s)"
    if "root_map s node B n" "i < n"
    using root_map_present [OF that] .
qed (auto simp: root_map_def uses_extents_def ext4_get_block_size_def)

section \<open>Reading\<close>

text \<open>C4: Reading a file returns its bytes: for a file whose blocks are direct or in extents of a leaf
  root, ext4_file_read returns the count bytes from the position on, or those before the end of
  the file, moves the position behind them and leaves the file system as it was.\<close>

theorem file_read_returns_data:
  fixes count :: u32
  assumes "direct_map s node B n \<or> root_map s node B n"
    and "fs_io_ok s" "readable s B n" "n * unat (ext4_block_size s) \<le> 2 ^ 32"
    and "unat (i_size node) \<le> n * unat (ext4_block_size s)" "unat pos < unat (i_size node)"
    and "unat (ext4_block_size s) \<le> BLOCK_SIZE" "0 < pool_free_count (pool_file s)"
    and "k = min (unat count) (unat (i_size node) - unat pos)"
  shows "ext4_file_read stale s node pos count =
    Some (Some (take k (drop (unat pos) (file_data s B n))), pos + of_nat k, s)"
  using assms(1) direct.file_read_spec [of s node B n pos stale count]
    rooted.file_read_spec [of s node B n pos stale count] assms(2-) by (auto simp: fs_bsz_def)

definition demo_two_blocks :: "u32 \<Rightarrow> inode" where
  "demo_two_blocks b = (demo_file (set_entries 1 (ext_put 0 (demo_ext 0 2 b)
     (ext4_extents_init_root (replicate 60 0)))))\<lparr>i_size := 2000\<rparr>"

definition demo_blocks :: "u32 \<Rightarrow> nat \<Rightarrow> u32" where
  "demo_blocks b i = b + of_nat i"

lemma demo_two_root:
  fixes r :: bytes
  assumes b: "b = 3 \<or> b = 10 \<or> b = 20"
  defines "r \<equiv> set_entries 1 (ext_put 0 (demo_ext 0 2 b) (ext4_extents_init_root (replicate 60 0)))"
  shows "node_ok r" "exts_ok (leaf_exts r)" "eh_depth (eh_get r) = 0" "i < 2 \<Longrightarrow>
    ext4_extents_lookup_mapped r (of_nat i) = Some (demo_blocks b i) \<and> demo_blocks b i \<noteq> 0"
proof -
  have len: "length r = 60" by (simp add: r_def demo_root)
  have f: "eh_get r = \<lparr>eh_magic = EXT4_EXT_MAGIC, eh_entries = 1, eh_max = 4, eh_depth = 0, eh_generation = 0\<rparr>"
    "ext_get r 0 = demo_ext 0 2 b" by (simp_all add: r_def demo_root ext_get_put)
  then show n: "node_ok r" "eh_depth (eh_get r) = 0" using len by (simp_all add: node_ok_def node_entries_def node_max_def)
  have e: "leaf_exts r = [demo_ext 0 2 b]" using f by (simp add: leaf_exts_def node_entries_def)
  show x: "exts_ok (leaf_exts r)" unfolding e using b by (auto simp: ext_eval)
  show "ext4_extents_lookup_mapped r (of_nat i) = Some (demo_blocks b i) \<and> demo_blocks b i \<noteq> 0" if "i < 2"
    using that b unfolding lookup_mapped_spec [OF n(1) x] e
    by (auto simp: less_2_cases_iff ext_eval demo_blocks_def)
qed

lemma demo_root_map: "b = 3 \<or> b = 10 \<or> b = 20 \<Longrightarrow> root_map demo_fs (demo_two_blocks b) (demo_blocks b) 2"
  using demo_two_root [of b]
  by (auto simp: root_map_def uses_extents_def demo_two_blocks_def demo_file_def S_ISREG_def
      ext4_get_block_size_def)

lemma demo_readable: "b = 3 \<or> b = 10 \<or> b = 20 \<Longrightarrow> readable demo_fs (demo_blocks b) 2"
  by (auto simp: readable_def demo_up less_2_cases_iff demo_blocks_def fs_addr_def)

lemma demo_blocks_inj: "inj_on (demo_blocks b) {..<2}"
  by (auto simp: inj_on_def demo_blocks_def less_2_cases_iff)

lemma demo_two_size: "i_size (demo_two_blocks b) = 2000"
  by (simp add: demo_two_blocks_def)

lemma demo_file_pool: "pool_free_count (pool_file (demo_with bm)) = 4"
  by (simp add: demo_with_def pool_free_count_def)

theorem file_read_returns_data_witness:
  "ext4_file_read None demo_fs (demo_two_blocks 3) 1 3 = Some (Some [255, 0, 0], 4, demo_fs)"
proof -
  have "ext4_file_read None demo_fs (demo_two_blocks 3) 1 3 =
      Some (Some (take 3 (drop (unat (1 :: u64)) (file_data demo_fs (demo_blocks 3) 2))), 1 + of_nat 3, demo_fs)"
    using demo_root_map [of 3] demo_readable [of 3]
    by (intro file_read_returns_data)
      (simp_all add: demo_io_ok demo_two_size demo_file_pool)
  moreover have "ext4_read_block demo_fs 3 = Some (demo_bm @ replicate 512 0)"
    by (simp add: demo_read) (simp add: demo_disk_def)
  then have "file_data demo_fs (demo_blocks 3) 2 = demo_bm @ replicate 512 0 @ the (ext4_read_block demo_fs 4)"
    by (simp add: file_data_def demo_blocks_def numeral_2_eq_2)
  ultimately show ?thesis by (simp add: demo_bm_def numeral_2_eq_2)
qed

section \<open>Writing\<close>

text \<open>C2: Overwriting a file splices the bytes into its data: for a file with extents in a leaf root and
  a write within its mapped blocks, ext4_file_write writes all bytes, moves the position behind
  them, raises the size of the inode when the write ends behind it, and changes nothing of the
  file system but the disk, where the data of the file is the old data with the bytes at the
  position.\<close>

theorem file_write_splices_data:
  assumes "root_map s node B n" "inj_on B {..<n}"
    and "fs_io_ok s" "readable s B n" "n * unat (ext4_block_size s) \<le> 2 ^ 32"
    and "unat pos + length data \<le> n * unat (ext4_block_size s)"
    and "unat (ext4_block_size s) \<le> BLOCK_SIZE" "0 < pool_free_count (pool_file s)"
  shows "\<exists>d node'. ext4_file_write s node pos data =
      Some (Some (length data), node', pos + of_nat (length data), s\<lparr>g_disk := d\<rparr>) \<and>
    sint (i_size node') = max (sint (i_size node)) (sint (pos + of_nat (length data))) \<and>
    root_map (s\<lparr>g_disk := d\<rparr>) node' B n \<and>
    file_data (s\<lparr>g_disk := d\<rparr>) B n = bsplice (unat pos) data (file_data s B n)"
proof -
  obtain s' where w: "ext4_file_write s node pos data =
      Some (Some (length data), grown (pos + of_nat (length data)) node, pos + of_nat (length data), s')"
    "rewritten s B n (unat pos) data s'"
    using rooted.file_write_spec [OF assms(1,3,4) _ assms(2)] assms(5-8) by (auto simp: fs_bsz_def)
  obtain d where d: "s' = s\<lparr>g_disk := d\<rparr>" using w(2) by (auto simp: rewritten_def)
  have "root_map s' (grown (pos + of_nat (length data)) node) B n"
    using rooted.disk [OF assms(1)] rooted.resize by (auto simp: grown_def d)
  then show ?thesis using w d by (auto simp: rewritten_def grown_def)
qed

theorem file_write_splices_data_witness:
  "\<exists>d node'. ext4_file_write demo_fs (demo_two_blocks 20) 1020 [1, 2, 3, 4, 5, 6] =
      Some (Some 6, node', 1026, demo_fs\<lparr>g_disk := d\<rparr>) \<and>
    file_data (demo_fs\<lparr>g_disk := d\<rparr>) (demo_blocks 20) 2 =
      bsplice 1020 [1, 2, 3, 4, 5, 6] (file_data demo_fs (demo_blocks 20) 2)"
proof -
  have "\<exists>d node'. ext4_file_write demo_fs (demo_two_blocks 20) 1020 [1, 2, 3, 4, 5, 6] =
      Some (Some (length [1 :: u8, 2, 3, 4, 5, 6]), node', 1020 + of_nat (length [1 :: u8, 2, 3, 4, 5, 6]), demo_fs\<lparr>g_disk := d\<rparr>) \<and>
    sint (i_size node') = max (sint (i_size (demo_two_blocks 20))) (sint (1020 + of_nat (length [1 :: u8, 2, 3, 4, 5, 6]) :: u64)) \<and>
    root_map (demo_fs\<lparr>g_disk := d\<rparr>) node' (demo_blocks 20) 2 \<and>
    file_data (demo_fs\<lparr>g_disk := d\<rparr>) (demo_blocks 20) 2 =
      bsplice (unat (1020 :: u64)) [1, 2, 3, 4, 5, 6] (file_data demo_fs (demo_blocks 20) 2)"
    using demo_root_map [of 20] demo_readable [of 20]
    by (intro file_write_splices_data [where n = 2 and B = "demo_blocks 20"]) (simp_all add: demo_io_ok demo_blocks_inj demo_file_pool)
  then show ?thesis by auto
qed



end
