(* ===== verification/File_Total.thy ===== *)
theory File_Total
  imports File_Read Extents_Props
begin

text \<open>
  Reading a file ends for every inode and every content of the disk, never writes to the disk, and
  never returns more than was asked for: the extents, indirect blocks and sizes it goes through
  need not be consistent.
\<close>

section \<open>Lengths of what is read\<close>

lemma ata_pio_read_len:
  "disk_ok d \<Longrightarrow> ata_pio_read d lba n = (True, data) \<Longrightarrow> length data = 512 * n"
proof (induction n arbitrary: lba data)
  case (Suc n)
  then show ?case by (auto simp: disk_ok_def split: if_splits prod.splits)
qed simp

lemma ata_bdev_read_len:
  assumes "disk_ok d" "ata_bdev_read d sector (ucast (chunk_of r)) = (True, data)"
  shows "length data = 512 * unat (chunk_of r)"
  using assms ata_pio_read_len [OF assms(1)]
  by (auto simp: ata_bdev_read_def ata_read_sectors_def Let_def split: if_splits)

lemma blkdev_read_loop_len:
  assumes "disk_ok d"
  shows "p + 512 * unat r \<le> length buf \<Longrightarrow> blkdev_read_loop d 512 sector r p buf = (True, buf') \<Longrightarrow> length buf' = length buf"
proof (induction "unat r" arbitrary: r p buf sector rule: less_induct)
  case less
  show ?case
  proof (cases "r = 0")
    case True
    then show ?thesis using less.prems(2) by (subst (asm) blkdev_read_loop.simps) simp
  next
    case False
    let ?c = "chunk_of r"
    obtain data where data: "ata_bdev_read d sector (ucast ?c) = (True, data)"
      "blkdev_read_loop d 512 (sector + ucast ?c) (r - ucast ?c) (p + unat ?c * 512) (bsplice p data buf) = (True, buf')"
      using False less.prems(2) by (subst (asm) (2) blkdev_read_loop.simps) (auto simp: Let_def split: prod.splits bool.splits)
    note len = ata_bdev_read_len [OF assms data(1)]
    have c: "unat ?c = min (unat r) 255" by (rule unat_chunk_of)
    have rc: "unat (r - ucast ?c) = unat r - unat ?c" by (subst unat_sub_le) (simp_all add: word_le_nat_alt c)
    have "0 < unat r" using False by (simp add: unat_gt_0)
    then have "unat (r - ucast ?c) < unat r" unfolding rc c by simp
    from less.hyps [OF this _ data(2)] show ?thesis
      using less.prems(1) len rc c by simp
  qed
qed

lemma fs_spb:
  assumes "fs_io_ok s" "g_default_bdev s = Some bdev"
  shows "512 * unat (ext4_sectors_per_block s bdev) = fs_bsz s"
  using fs_sectors_per_block(1) [OF assms] assms(1) by (simp add: fs_io_ok_def)

lemma ext4_read_block_len:
  assumes "fs_io_ok s" "ext4_read_block s b = Some buf"
  shows "length buf = fs_bsz s"
proof -
  obtain bdev where bd: "g_default_bdev s = Some bdev"
    using assms(1) by (auto simp: fs_io_ok_def split: option.splits)
  have d: "disk_ok (g_disk s)" using assms(1) by (simp add: fs_io_ok_def)
  let ?z = "replicate (unat (ext4_block_size s)) (0 :: u8)"
  have "ext4_read_block_buf s b ?z = (True, buf)"
    using assms(2) by (auto simp: ext4_read_block_def split: prod.splits bool.splits)
  then have "blkdev_read_loop (g_disk s) 512 (ucast b * ucast (ext4_sectors_per_block s bdev))
      (ext4_sectors_per_block s bdev) 0 ?z = (True, buf)"
    using bd fs_sectors_per_block(2) [OF assms(1) bd]
    by (auto simp: ext4_read_block_buf_def blkdev_get_default_def blkdev_read_sectors_def Let_def split: if_splits)
  from blkdev_read_loop_len [OF d _ this] fs_spb [OF assms(1) bd] show ?thesis by (simp add: fs_bsz_def)
qed

lemma ext4_read_blocks_len:
  assumes "fs_io_ok s" "ext4_read_blocks s b r buf = (True, buf')" "length buf = unat r * fs_bsz s" "unat r \<le> 64"
  shows "length buf' = length buf"
proof -
  obtain bdev where bd: "g_default_bdev s = Some bdev"
    using assms(1) by (auto simp: fs_io_ok_def split: option.splits)
  have d: "disk_ok (g_disk s)" using assms(1) by (simp add: fs_io_ok_def)
  let ?n = "ext4_sectors_per_block s bdev"
  have "unat ?n \<le> 2 ^ 23" using fs_spb [OF assms(1) bd] unat_u32_bound [of "ext4_block_size s"] by (simp add: fs_bsz_def)
  then have "unat r * unat ?n \<le> 64 * 2 ^ 23" using assms(4) by (intro mult_le_mono)
  then have rn: "unat (r * ?n) = unat r * unat ?n" by (subst unat_mult_nowrap) simp_all
  have "blkdev_read_loop (g_disk s) 512 (ucast b * ucast ?n) (r * ?n) 0 buf = (True, buf')"
    using assms(2) bd fs_sectors_per_block(2) [OF assms(1) bd]
    by (auto simp: ext4_read_blocks_def blkdev_get_default_def blkdev_read_sectors_def Let_def split: if_splits)
  moreover have "0 + 512 * unat (r * ?n) \<le> length buf"
    unfolding rn using fs_spb [OF assms(1) bd] assms(3) by (simp add: mult.left_commute)
  ultimately show ?thesis by (intro blkdev_read_loop_len [OF d])
qed

section \<open>Mapping a block without creating it\<close>

text \<open>What a lookup leaves alone: the disk, the device and the block size.\<close>

definition io_same :: "kfs \<Rightarrow> kfs \<Rightarrow> bool" where
  "io_same s s' \<longleftrightarrow> g_disk s' = g_disk s \<and> g_default_bdev s' = g_default_bdev s \<and> ext4_block_size s' = ext4_block_size s"

lemma io_same_refl [simp]: "io_same s s"
  by (simp add: io_same_def)

lemma io_same_trans: "io_same s t \<Longrightarrow> io_same t u \<Longrightarrow> io_same s u"
  by (simp add: io_same_def)

lemma io_same_pools:
  "extents_malloc n s = (r, s') \<Longrightarrow> io_same s s'" "file_malloc n s = (r, s') \<Longrightarrow> io_same s s'"
  "io_same s t \<Longrightarrow> io_same s (extents_free p t)" "io_same s t \<Longrightarrow> io_same s (file_free p t)"
  by (auto simp: io_same_def extents_malloc_def file_malloc_def extents_free_def file_free_def split: prod.splits)

lemma io_same_free_path: "io_same s t \<Longrightarrow> io_same s (ext4_extents_free_path path t)"
proof -
  have "io_same s t \<Longrightarrow> io_same s (foldl (\<lambda>s e. case ep_buf e of None \<Rightarrow> s | Some p \<Rightarrow> extents_free p s) t path)" for t
    by (induction path arbitrary: t) (auto intro: io_same_pools split: option.splits)
  then show "io_same s t \<Longrightarrow> io_same s (ext4_extents_free_path path t)" by (simp add: ext4_extents_free_path_def)
qed

lemma io_same_read_path: "ext4_extents_read_path s root l = (r, s') \<Longrightarrow> io_same s s'"
proof -
  have "read_path_loop s k l ds path = (r, s') \<Longrightarrow> io_same s s'" for k ds path
  proof (induction ds arbitrary: s path)
    case (Cons d ds)
    from Cons.prems show ?case
      by (auto simp: Let_def split: if_splits prod.splits option.splits
          dest!: Cons.IH io_same_pools(1) intro!: io_same_pools(3) intro: io_same_trans)
  qed simp
  then show "ext4_extents_read_path s root l = (r, s') \<Longrightarrow> io_same s s'"
    by (auto simp: ext4_extents_read_path_def Let_def split: if_splits)
qed

lemma io_same_map_blocks: "ext4_extents_map_blocks s node l k stale = (r, s') \<Longrightarrow> io_same s s'"
  by (auto simp: ext4_extents_map_blocks_def Let_def split: option.splits if_splits prod.splits
      dest!: io_same_read_path intro: io_same_free_path)

lemma io_same_extents_get: "ext4_extents_get_block s node l False = (r, node', s') \<Longrightarrow> io_same s s'"
  by (auto simp: ext4_extents_get_block_def Let_def split: option.splits if_splits prod.splits
      dest!: io_same_read_path intro: io_same_free_path)

lemma io_same_legacy_get: "ext4_legacy_get_data_block s node l False = (r, node', s') \<Longrightarrow> io_same s s'"
  by (auto simp: ext4_legacy_get_data_block_def legacy_single_def legacy_double_def top_indirect_def
      second_indirect_def map_slot_def Let_def split: option.splits if_splits prod.splits
      dest!: io_same_pools(2) intro!: io_same_pools(4) intro: io_same_trans)

lemma io_same_get_data_block: "ext4_get_data_block s node l False = (r, node', s') \<Longrightarrow> io_same s s'"
  by (auto simp: ext4_get_data_block_def Let_def split: option.splits if_splits
      dest: io_same_extents_get io_same_legacy_get)

section \<open>The loop\<close>

lemma io_same_ok: "io_same s t \<Longrightarrow> fs_io_ok s \<Longrightarrow> fs_io_ok t \<and> fs_bsz t = fs_bsz s"
  using fs_io_cong [of t s] by (simp add: io_same_def)

lemma map_blocks_run_fits:
  assumes "ext4_extents_map_blocks s node l (of_nat (min (count div bs) 64)) stale = (Some (b, r), s')"
  shows "unat r \<le> 64 \<and> unat r * bs \<le> count"
proof -
  let ?m = "min (count div bs) 64"
  have "unat (of_nat ?m :: u32) = ?m" by (intro unat_of_nat_fit) simp
  then have le: "unat r \<le> ?m" using map_blocks_len [OF assms] by (simp add: word_le_nat_alt)
  then have "unat r * bs \<le> count div bs * bs" by (intro mult_le_mono1) simp
  also have "\<dots> \<le> count" by simp
  finally show ?thesis using le by simp
qed

lemma read_step_progress:
  assumes "fs_io_ok s" "0 < count"
  shows "case read_step stale s node pos count of
    Step_Error s1 \<Rightarrow> io_same s s1
  | Step_Break s1 \<Rightarrow> io_same s s1
  | Step_Go xs s1 \<Rightarrow> io_same s s1 \<and> xs \<noteq> [] \<and> length xs \<le> count"
proof -
  let ?bs = "ext4_get_block_size s" and ?p = "ucast (pos AND 0xffffffff) :: u32"
  let ?i = "?p div ?bs" and ?off = "unat (?p mod ?bs)"
  let ?k = "min (unat ?bs - ?off) count"
  have bz: "unat ?bs = fs_bsz s" by (simp add: fs_bsz_def ext4_get_block_size_def)
  have b0: "0 < unat ?bs" using assms(1) bz by (auto simp: fs_io_ok_def)
  then have off: "?off < unat ?bs" by (simp add: unat_mod)
  then have k: "0 < ?k" "?k \<le> count" "?off + ?k \<le> unat ?bs" using assms(2) by (auto simp: min_def)
  have len: "length buf = unat ?bs" if "ext4_read_block t b = Some buf" "io_same s t" for t b buf
    using ext4_read_block_len [OF _ that(1)] io_same_ok [OF that(2) assms(1)] bz by simp
  show ?thesis
  proof (cases "?off = 0 \<and> ?k = unat ?bs \<and> uses_extents node")
    case False
    obtain r node' t where g: "ext4_get_data_block s node ?i False = (r, node', t)" by (metis prod_cases3)
    have io: "io_same s t" by (rule io_same_get_data_block [OF g])
    have "length (bslice ?off ?k buf) = ?k" if "ext4_read_block t b = Some buf" for b buf
      using len [OF that io] k(3) by simp
    then have "bslice ?off ?k buf \<noteq> [] \<and> length (bslice ?off ?k buf) \<le> count" if "ext4_read_block t b = Some buf" for b buf
      using that k by fastforce
    then show ?thesis
      using False g io unfolding read_step_def uses_extents_def Let_def by (auto split: option.splits)
  next
    case True
    obtain r t where g: "ext4_extents_map_blocks s node ?i (of_nat (min (count div unat ?bs) 64)) stale = (r, t)" by fastforce
    have io: "io_same s t" by (rule io_same_map_blocks [OF g])
    note ok = io_same_ok [OF io assms(1)]
    have run: "xs \<noteq> [] \<and> length xs \<le> count"
      if "r = Some (b, n)" "n \<noteq> 0" "ext4_read_blocks t b n (replicate (unat n * unat ?bs) 0) = (True, xs)" for b n xs
    proof -
      have fit: "unat n \<le> 64 \<and> unat n * unat ?bs \<le> count" using map_blocks_run_fits g that(1) by blast
      then have "length xs = unat n * unat ?bs" using ext4_read_blocks_len [OF _ that(3)] ok bz by simp
      moreover have "0 < unat n * unat ?bs" using that(2) b0 by (simp add: unat_gt_0)
      ultimately show ?thesis using fit by (metis length_greater_0_conv)
    qed
    have "xs \<noteq> [] \<and> length xs \<le> count" if "ext4_read_block t b = Some xs" for b xs
      using len [OF that io] b0 True k by auto
    with run io show ?thesis
      using True g unfolding read_step_def uses_extents_def Let_def
      by (auto split: option.splits prod.splits bool.splits)
  qed
qed

lemma read_loop_total:
  "fs_io_ok s \<Longrightarrow> \<exists>r pos' s'. read_loop stale s node pos count acc = Some (r, pos', s') \<and> io_same s s' \<and>
    (\<forall>xs. r = Some xs \<longrightarrow> (\<exists>ys. xs = acc @ ys \<and> length ys \<le> count \<and> pos' = pos + of_nat (length ys)))"
proof (induction count arbitrary: s pos acc rule: less_induct)
  case (less count)
  show ?case
  proof (cases "count = 0")
    case True
    then show ?thesis by (subst read_loop.simps) simp
  next
    case False
    have b0: "ext4_get_block_size s \<noteq> 0" using less.prems by (auto simp: fs_io_ok_def fs_bsz_def ext4_get_block_size_def)
    have c: "0 < count" using False by simp
    note P = read_step_progress [OF less.prems c, of stale node pos]
    show ?thesis
    proof (cases "read_step stale s node pos count")
      case (Step_Go xs s1)
      with P have X: "io_same s s1" "xs \<noteq> []" "length xs \<le> count" by auto
      then have "count - length xs < count" using c by (simp add: diff_less)
      from less.IH [OF this, of s1 "pos + of_nat (length xs)" "acc @ xs"] io_same_ok [OF X(1) less.prems]
      obtain r pos' s' where L: "read_loop stale s1 node (pos + of_nat (length xs)) (count - length xs) (acc @ xs) = Some (r, pos', s')"
        "io_same s1 s'" "\<forall>zs. r = Some zs \<longrightarrow> (\<exists>ys. zs = (acc @ xs) @ ys \<and> length ys \<le> count - length xs \<and>
          pos' = pos + of_nat (length xs) + of_nat (length ys))" by blast
      have "\<exists>ys. zs = acc @ ys \<and> length ys \<le> count \<and> pos' = pos + of_nat (length ys)" if z: "r = Some zs" for zs
      proof -
        obtain ys where "zs = (acc @ xs) @ ys" "length ys \<le> count - length xs"
          "pos' = pos + of_nat (length xs) + of_nat (length ys)" using L(3) z by blast
        then show ?thesis using X(3) by (intro exI [of _ "xs @ ys"]) (simp add: add.assoc)
      qed
      moreover have "read_loop stale s node pos count acc = Some (r, pos', s')"
        using False b0 Step_Go X(2) L(1) by (subst read_loop.simps) simp
      ultimately show ?thesis using io_same_trans [OF X(1) L(2)] by blast
    qed (use P False b0 in \<open>subst read_loop.simps, simp\<close>)+
  qed
qed

text \<open>
  The number of bytes left to read is computed with signed 64-bit positions and cast to 32 bits;
  it is never more than count.
\<close>

lemma sint_cases: "sint (x :: u64) = (if uint x < 2 ^ 63 then uint x else uint x - 2 ^ 64)"
proof -
  have u: "0 \<le> uint x" "uint x < 2 ^ 64" using unsigned_less [of x, where 'a = int] by simp_all
  have "sint x = signed_take_bit 63 (uint x)" by (simp only: sint_uint) simp
  also have "\<dots> = take_bit 64 (uint x) - 2 ^ 64 * of_bool (bit (uint x) 63)"
    by (simp add: signed_take_bit_eq_take_bit_minus)
  also have "take_bit 64 (uint x) = uint x" using u by (simp add: take_bit_int_eq_self)
  also have "bit (uint x) 63 \<longleftrightarrow> \<not> uint x < 2 ^ 63"
  proof -
    have "bit (uint x) 63 \<longleftrightarrow> odd (uint x div 2 ^ 63)" by (simp only: bit_iff_odd)
    also have "uint x div 2 ^ 63 = (if uint x < 2 ^ 63 then 0 else 1)" using u by auto
    finally show ?thesis by auto
  qed
  finally show ?thesis by auto
qed

lemma clip_bound:
  assumes "sint pos < sint z" "sint z < sint (pos + ucast (c :: u32))"
  shows "unat (ucast ((z :: u64) - pos) :: u32) \<le> unat c"
proof -
  have P: "0 \<le> uint pos" "uint pos < 2 ^ 64" "0 \<le> uint z" "uint z < 2 ^ 64"
    using unsigned_less [of pos, where 'a = int] unsigned_less [of z, where 'a = int] by simp_all
  have C: "0 \<le> uint c" "uint c < 2 ^ 32" using unsigned_less [of c, where 'a = int] by simp_all
  have uc: "uint (ucast c :: u64) = uint c" using C by (simp add: unsigned_ucast_eq take_bit_int_eq_self)
  have add: "uint (pos + ucast c) = (if uint pos + uint c < 2 ^ 64 then uint pos + uint c else uint pos + uint c - 2 ^ 64)"
    by (simp add: uint_plus_if' uc)
  have sub: "uint (z - pos) = (if uint pos \<le> uint z then uint z - uint pos else uint z - uint pos + 2 ^ 64)"
    by (simp add: uint_sub_if')
  have arith: "(if p \<le> y then y - p else y - p + 2 ^ 64) < k"
    if "0 \<le> p" "p < 2 ^ 64" "0 \<le> y" "y < 2 ^ 64" "0 \<le> k" "k < 2 ^ 32"
      "(if p < 2 ^ 63 then p else p - 2 ^ 64) < (if y < 2 ^ 63 then y else y - 2 ^ 64)"
      "(if y < 2 ^ 63 then y else y - 2 ^ 64) < (if (if p + k < 2 ^ 64 then p + k else p + k - 2 ^ 64) < 2 ^ 63
         then (if p + k < 2 ^ 64 then p + k else p + k - 2 ^ 64)
         else (if p + k < 2 ^ 64 then p + k else p + k - 2 ^ 64) - 2 ^ 64)" for p y k :: int
    using that by (auto split: if_splits)
  have "uint (z - pos) < uint c"
    unfolding sub by (rule arith) (use assms P C in \<open>simp_all only: sint_cases add\<close>)
  moreover have "uint (z - pos) = int (unat (z - pos))" "uint c = int (unat c)" by simp_all
  ultimately have lt: "unat (z - pos) < unat c" by (simp only: of_nat_less_iff)
  then have "unat (ucast (z - pos) :: u32) = unat (z - pos)"
    using unat_u32_bound [of c] by (intro unat_ucast_fit) simp
  with lt show ?thesis by simp
qed

text \<open>C29: Reading always ends, within its bounds, and without writing: whatever the inode and the disk
  hold, ext4_file_read returns, the disk is as before, and when it succeeds it has read at most
  count bytes and moved the position by exactly the number of bytes it returns.\<close>

theorem file_read_returns_within_bounds:
  assumes "fs_io_ok s"
  shows "\<exists>r pos' s'. ext4_file_read stale s node pos count = Some (r, pos', s') \<and> g_disk s' = g_disk s \<and>
    (\<forall>xs. r = Some xs \<longrightarrow> length xs \<le> unat count \<and> pos' = pos + of_nat (length xs))"
proof -
  let ?fin = "if sint (pos + ucast count) > sint (i_size node) then i_size node else pos + ucast count"
  let ?n = "ucast (?fin - pos) :: u32"
  consider (info) "i_private node = None" | (past) ei where "i_private node = Some ei" "sint pos \<ge> sint (i_size node) \<or> ?n = 0"
    | (go) ei where "i_private node = Some ei" "\<not> sint pos \<ge> sint (i_size node)" "?n \<noteq> 0" by (cases "i_private node") auto
  then show ?thesis
  proof cases
    case go
    have le: "unat ?n \<le> unat count"
    proof (cases "sint (pos + ucast count) > sint (i_size node)")
      case True
      then show ?thesis using clip_bound [of pos "i_size node" count] go(2) by simp
    next
      case False
      then show ?thesis by (simp add: ucast_up_ucast_id is_up)
    qed
    obtain m s1 where m: "file_malloc (unat (ext4_get_block_size s)) s = (m, s1)" by fastforce
    have io1: "io_same s s1" by (rule io_same_pools(2) [OF m])
    show ?thesis
    proof (cases m)
      case None
      with go m io1 show ?thesis by (auto simp: ext4_file_read_def Let_def io_same_def)
    next
      case (Some p)
      from io_same_ok [OF io1 assms] have "fs_io_ok s1" by simp
      from read_loop_total [OF this, of stale node pos "unat ?n" "[]"] obtain r pos' s2 where
        L: "read_loop stale s1 node pos (unat ?n) [] = Some (r, pos', s2)" "io_same s1 s2"
          "\<forall>xs. r = Some xs \<longrightarrow> length xs \<le> unat ?n \<and> pos' = pos + of_nat (length xs)" by auto
      have "io_same s (file_free p s2)" using io_same_pools(4) io_same_trans [OF io1 L(2)] .
      moreover have "ext4_file_read stale s node pos count = Some (r, pos', file_free p s2)"
        using go m Some L(1) by (simp add: ext4_file_read_def Let_def)
      ultimately show ?thesis using L(3) le by (fastforce simp: io_same_def)
    qed
  qed (auto simp: ext4_file_read_def Let_def)
qed

theorem file_read_returns_within_bounds_witness:
  "\<exists>r pos' s'. ext4_file_read None demo_fs ((demo_file (replicate 60 255))\<lparr>i_size := 9000\<rparr>) 7 5000 = Some (r, pos', s') \<and> g_disk s' = demo_disk demo_bm"
  using file_read_returns_within_bounds [OF demo_io_ok [OF length_demo_bm(1)], of None "(demo_file (replicate 60 255))\<lparr>i_size := 9000\<rparr>" 7 5000]
  by auto

end
