(* ===== verification/Extents_Tree.thy ===== *)
theory Extents_Tree
  imports Extents_Props
begin

text \<open>
  Reading an extent tree of any depth: ext4_extents_read_path descends through index nodes on the
  disk into buffers of the pool of extents.c. The leaf it ends at is a function of the disk, and
  after ext4_extents_free_path the pool is as it was.
\<close>

section \<open>The leaf of a logical block\<close>

fun tree_leaf :: "kfs \<Rightarrow> nat \<Rightarrow> bytes \<Rightarrow> u32 \<Rightarrow> bytes option" where
  "tree_leaf s 0 node l = Some node"
| "tree_leaf s (Suc k) node l =
     (if node_entries node = 0 then None
      else let child = ucast (ext4_idx_pblock (idx_get node (choose_idx node l [0..<node_entries node] 0))) in
        if child = 0 then None
        else case ext4_read_block s child of
          None \<Rightarrow> None
        | Some buf \<Rightarrow>
            if eh_magic (eh_get buf) \<noteq> EXT4_EXT_MAGIC \<or> eh_depth (eh_get buf) \<noteq> of_nat k then None
            else tree_leaf s k buf l)"

text \<open>The root can be descended: its depth is allowed and the pool has a buffer for every level.\<close>

definition tree_ok :: "kfs \<Rightarrow> bytes \<Rightarrow> bool" where
  "tree_ok s root \<longleftrightarrow> eh_magic (eh_get root) = EXT4_EXT_MAGIC \<and> unat (eh_depth (eh_get root)) \<le> EXT4_EXT_MAX_DEPTH \<and>
     unat (eh_depth (eh_get root)) \<le> pool_free_count (pool_extents s) \<and> unat (ext4_block_size s) \<le> BLOCK_SIZE"

text \<open>None: the tree is damaged on the way. Some None: a hole.\<close>

definition tree_lookup :: "kfs \<Rightarrow> bytes \<Rightarrow> u32 \<Rightarrow> u32 option option" where
  "tree_lookup s root l =
     map_option (\<lambda>leaf. ext4_extents_lookup_mapped leaf l) (tree_leaf s (unat (eh_depth (eh_get root))) root l)"

lemma tree_leaf_cong: "ext4_read_block s' = ext4_read_block s \<Longrightarrow> tree_leaf s' k node l = tree_leaf s k node l"
  by (induction k arbitrary: node) (simp_all add: Let_def split: option.split)

lemma tree_pool_dir [simp]:
  "tree_ok (s\<lparr>pool_dir := q\<rparr>) = tree_ok s" "tree_lookup (s\<lparr>pool_dir := q\<rparr>) = tree_lookup s"
proof -
  have "ext4_read_block (s\<lparr>pool_dir := q\<rparr>) = ext4_read_block s" by (rule ext4_read_block_cong) simp_all
  then have "tree_leaf (s\<lparr>pool_dir := q\<rparr>) k node l = tree_leaf s k node l" for k node l by (rule tree_leaf_cong)
  then show "tree_ok (s\<lparr>pool_dir := q\<rparr>) = tree_ok s" "tree_lookup (s\<lparr>pool_dir := q\<rparr>) = tree_lookup s"
    by (simp_all add: tree_ok_def tree_lookup_def fun_eq_iff)
qed

section \<open>The buffers of a path\<close>

definition path_bufs :: "ext4_ext_path list \<Rightarrow> nat list" where
  "path_bufs path = concat (map (\<lambda>e. case ep_buf e of None \<Rightarrow> [] | Some p \<Rightarrow> [p]) path)"

lemma free_path_bufs:
  "ext4_extents_free_path path s = s\<lparr>pool_extents := fold simple_free (path_bufs path) (pool_extents s)\<rparr>"
proof (induction path arbitrary: s)
  case (Cons e path)
  then show ?case
    by (cases "ep_buf e") (simp_all add: ext4_extents_free_path_def path_bufs_def extents_free_def)
qed (simp add: ext4_extents_free_path_def path_bufs_def)

lemma fold_free_update:
  "p \<notin> set bs \<Longrightarrow> fold simple_free bs (P[p := x]) = (fold simple_free bs P)[p := x]"
proof (induction bs arbitrary: P)
  case (Cons b bs)
  then have "P[p := x, b := False] = P[b := False, p := x]" by (intro list_update_swap) auto
  then show ?case using Cons by (simp add: simple_free_def)
qed simp

text \<open>The pool P, with the buffers bs of a path in use, came from the pool P0.\<close>

definition borrowed :: "pool \<Rightarrow> nat list \<Rightarrow> pool \<Rightarrow> bool" where
  "borrowed P0 bs P \<longleftrightarrow> fold simple_free bs P = P0 \<and> (\<forall>b \<in> set bs. b < length P \<and> P ! b)"

lemma borrowed_malloc:
  assumes b: "borrowed P0 bs P" and m: "simple_malloc m n P = (Some p, P')"
  shows "borrowed P0 (bs @ [p]) P'"
proof -
  have p: "P' = P[p := True]" "p < length P" "\<not> P ! p" and f: "simple_free p P' = P"
    using m simple_free_malloc [OF m]
    by (auto simp: simple_malloc_def split: if_splits option.splits dest!: first_unused_SomeD)
  then have np: "p \<notin> set bs" using b by (auto simp: borrowed_def)
  have "fold simple_free (bs @ [p]) P' = (fold simple_free bs P)[p := True, p := False]"
    using fold_free_update [OF np] p(1) by (simp add: simple_free_def)
  also have "\<dots> = fold simple_free bs (P[p := False])" using fold_free_update [OF np] by simp
  also have "P[p := False] = P" using p by (metis list_update_id)
  finally show ?thesis using b p by (auto simp: borrowed_def nth_list_update)
qed

section \<open>The path to a leaf\<close>

lemma read_path_down:
  assumes bs: "unat (ext4_block_size s) \<le> BLOCK_SIZE"
  shows "tree_leaf s k (ep_node (last path)) l = Some leaf \<Longrightarrow> path \<noteq> [] \<Longrightarrow> d + k = D \<Longrightarrow>
    k \<le> pool_free_count P \<Longrightarrow> borrowed P0 (path_bufs path) P \<Longrightarrow>
    \<exists>path' P'. read_path_loop (s\<lparr>pool_extents := P\<rparr>) D l [d..<D] path = (Some path', s\<lparr>pool_extents := P'\<rparr>) \<and>
      length path' = length path + k \<and> ep_node (last path') = leaf \<and> borrowed P0 (path_bufs path') P'"
proof (induction k arbitrary: d path P)
  case 0
  then show ?case by auto
next
  case (Suc k)
  let ?node = "ep_node (last path)"
  let ?child = "ucast (ext4_idx_pblock (idx_get ?node (choose_idx ?node l [0..<node_entries ?node] 0))) :: u32"
  obtain buf where n: "node_entries ?node \<noteq> 0" "?child \<noteq> 0" "ext4_read_block s ?child = Some buf"
    "eh_magic (eh_get buf) = EXT4_EXT_MAGIC" "eh_depth (eh_get buf) = of_nat k" "tree_leaf s k buf l = Some leaf"
    using Suc.prems(1) by (auto simp: Let_def split: if_splits option.splits)
  obtain p P' where m: "simple_malloc BLOCK_SIZE (unat (ext4_block_size s)) P = (Some p, P')"
    using simple_malloc_Some_iff [of BLOCK_SIZE "unat (ext4_block_size s)" P] bs Suc.prems(4) by auto
  have rd: "ext4_read_block (s\<lparr>pool_extents := q\<rparr>) = ext4_read_block s" for q
    by (rule ext4_read_block_cong) simp_all
  let ?e = "\<lparr>ep_node = buf, ep_blocknr = ?child, ep_buf = Some p\<rparr>"
  have up: "[d..<D] = d # [Suc d..<D]" using Suc.prems(3) by (simp add: upt_conv_Cons)
  have k: "D - Suc d = k" using Suc.prems(3) by simp
  have step: "read_path_loop (s\<lparr>pool_extents := P\<rparr>) D l [d..<D] path =
      read_path_loop (s\<lparr>pool_extents := P'\<rparr>) D l [Suc d..<D] (path @ [?e])"
    unfolding up using n m k by (simp add: Let_def extents_malloc_def ext4_get_block_size_def rd)
  have "borrowed P0 (path_bufs (path @ [?e])) P'"
    using borrowed_malloc [OF Suc.prems(5) m] by (simp add: path_bufs_def)
  moreover have "k \<le> pool_free_count P'" using pool_free_count_malloc [OF m] Suc.prems(4) by simp
  ultimately obtain path' P'' where "read_path_loop (s\<lparr>pool_extents := P'\<rparr>) D l [Suc d..<D] (path @ [?e]) = (Some path', s\<lparr>pool_extents := P''\<rparr>)"
    "length path' = length (path @ [?e]) + k" "ep_node (last path') = leaf" "borrowed P0 (path_bufs path') P''"
    using Suc.IH [of "path @ [?e]" "Suc d" P'] n(6) Suc.prems(3) by auto
  then show ?case unfolding step by auto
qed

lemma read_path_leaf:
  assumes ok: "tree_ok s root" and leaf: "tree_leaf s (unat (eh_depth (eh_get root))) root l = Some leaf"
  obtains path P where "ext4_extents_read_path s root l = (Some path, s\<lparr>pool_extents := P\<rparr>)"
    "ep_node (path ! unat (eh_depth (eh_get root))) = leaf"
    "ext4_extents_free_path path (s\<lparr>pool_extents := P\<rparr>) = s"
proof -
  let ?D = "unat (eh_depth (eh_get root))" and ?r = "\<lparr>ep_node = root, ep_blocknr = 0, ep_buf = None\<rparr>"
  have "borrowed (pool_extents s) (path_bufs [?r]) (pool_extents s)" by (simp add: borrowed_def path_bufs_def)
  then obtain path P where p: "read_path_loop s ?D l [0..<?D] [?r] = (Some path, s\<lparr>pool_extents := P\<rparr>)"
    "length path = Suc ?D" "ep_node (last path) = leaf" "borrowed (pool_extents s) (path_bufs path) P"
    using read_path_down [of s ?D "[?r]" l leaf 0 ?D "pool_extents s" "pool_extents s"] ok leaf
    by (auto simp: tree_ok_def)
  have "ext4_extents_read_path s root l = (Some path, s\<lparr>pool_extents := P\<rparr>)"
    using p(1) ok by (simp add: ext4_extents_read_path_def tree_ok_def Let_def)
  moreover have "path ! ?D = last path" using p(2) by (metis diff_Suc_1 last_conv_nth length_0_conv nat.distinct(1))
  moreover have "ext4_extents_free_path path (s\<lparr>pool_extents := P\<rparr>) = s"
    using p(4) by (simp add: free_path_bufs borrowed_def)
  ultimately show ?thesis using that p(3) by simp
qed

section \<open>Looking a block up\<close>

lemma get_block_tree:
  assumes "i_private ino = Some ei" "ext4_get_block_size s \<noteq> 0" "S_ISREG (i_mode ino) \<or> S_ISDIR (i_mode ino)"
    and ok: "tree_ok s (i_block ei)" and look: "tree_lookup s (i_block ei) l = Some r"
  shows "ext4_extents_get_block s ino l False = (Some (case r of None \<Rightarrow> 0 | Some b \<Rightarrow> b, False), ino, s)"
proof -
  obtain leaf where leaf: "tree_leaf s (unat (eh_depth (eh_get (i_block ei)))) (i_block ei) l = Some leaf"
    "ext4_extents_lookup_mapped leaf l = r" using look by (auto simp: tree_lookup_def)
  from read_path_leaf [OF ok leaf(1)] obtain path P where
    "ext4_extents_read_path s (i_block ei) l = (Some path, s\<lparr>pool_extents := P\<rparr>)"
    "ep_node (path ! unat (eh_depth (eh_get (i_block ei)))) = leaf"
    "ext4_extents_free_path path (s\<lparr>pool_extents := P\<rparr>) = s" by blast
  then show ?thesis using assms(1-3) ok leaf(2)
    by (auto simp: ext4_extents_get_block_def tree_ok_def Let_def split: option.splits)
qed

section \<open>A tree on disk\<close>

text \<open>A root with one index entry, to block 3, which holds a leaf with the extents of demo_leaf.\<close>

definition demo_tree_root :: bytes where
  "demo_tree_root = idx_put 0 \<lparr>ei_block = 0, ei_leaf_lo = 3, ei_leaf_hi = 0, ei_unused = 0\<rparr>
     (set_entries 1 (ext4_extents_init_node 60 1 (replicate 60 0)))"

definition demo_tree_fs :: kfs where
  "demo_tree_fs = demo_with (demo_leaf @ replicate 452 0)"

lemma demo_tree_facts:
  "eh_get demo_tree_root = \<lparr>eh_magic = EXT4_EXT_MAGIC, eh_entries = 1, eh_max = 4, eh_depth = 1, eh_generation = 0\<rparr>"
  "idx_get demo_tree_root 0 = \<lparr>ei_block = 0, ei_leaf_lo = 3, ei_leaf_hi = 0, ei_unused = 0\<rparr>"
  by (simp_all add: demo_tree_root_def idx_put_def idx_get_def eh_get_def set_entries_def eh_put_def ext4_extents_init_node_def
      pk_eh.get_put_same pk_eh.length_put pk_ix.get_put_same pk_ix.length_put pk_ix.get_put_other)

lemma demo_tree_lookup: "tree_ok demo_tree_fs demo_tree_root" "tree_lookup demo_tree_fs demo_tree_root 5 = Some (Some 22)"
    "tree_lookup demo_tree_fs demo_tree_root 8 = Some None"
proof -
  let ?b = "demo_leaf @ replicate 452 0 @ replicate 512 0"
  have l: "length (demo_leaf @ replicate 452 0) = 512" by (simp add: demo_leaf_facts)
  have r: "ext4_read_block demo_tree_fs 3 = Some ?b"
    unfolding demo_tree_fs_def by (subst demo_read) (simp_all add: demo_leaf_facts(1) demo_disk_def)
  show "tree_ok demo_tree_fs demo_tree_root"
    by (simp add: tree_ok_def demo_tree_facts demo_tree_fs_def demo_with_def pool_free_count_def)
  have h: "eh_get ?b = eh_get demo_leaf"
    using demo_leaf_facts(1) by (simp add: eh_get_def get_struct_def slice_append_left)
  have e: "ext_get ?b i = ext_get demo_leaf i" if "i < 2" for i
    using that demo_leaf_facts(1) by (simp add: ext_get_def get_struct_def slice_append_left)
  then have n: "node_ok ?b" "leaf_exts ?b = leaf_exts demo_leaf"
    using demo_leaf_ok demo_leaf_facts e by (simp_all add: node_ok_def node_entries_def node_max_def leaf_exts_def h)
  have "tree_leaf demo_tree_fs 1 demo_tree_root l = Some ?b" for l
    using r h demo_leaf_facts(2) demo_tree_facts by (simp add: node_entries_def Let_def ext4_idx_pblock_def)
  then show "tree_lookup demo_tree_fs demo_tree_root 5 = Some (Some 22)" "tree_lookup demo_tree_fs demo_tree_root 8 = Some None"
    using demo_leaf_ok(2) by (simp_all add: tree_lookup_def demo_tree_facts lookup_mapped_spec [OF n(1)] n(2))
      (simp_all add: demo_leaf_exts ext_eval)
qed

end
