(* ===== verification/Dir_Whole.thy ===== *)
theory Dir_Whole
  imports Dir_Props Extents_Tree File
begin

text \<open>
  A directory as a whole: its entries are those of its blocks, in the order of the block map. A
  locale states what the loops over the blocks rely on in the map; the direct pointers, the
  indirect block and an extent tree of any depth provide it. The loops of search, iteration and
  removal are then the lookup, the traversal and the deletion in the list of entries.
\<close>

section \<open>Entries of a directory\<close>

definition block_entries :: "kfs \<Rightarrow> u32 \<Rightarrow> (bytes \<times> u32) list" where
  "block_entries s b = dir_view (the (ext4_read_block s b))"

definition dir_entries :: "kfs \<Rightarrow> (nat \<Rightarrow> u32) \<Rightarrow> nat \<Rightarrow> nat \<Rightarrow> (bytes \<times> u32) list" where
  "dir_entries s B k n = concat (map (\<lambda>i. block_entries s (B i)) [k..<n])"

definition dir_blocks_ok :: "kfs \<Rightarrow> (nat \<Rightarrow> u32) \<Rightarrow> nat \<Rightarrow> bool" where
  "dir_blocks_ok s B n \<longleftrightarrow>
     (\<forall>i < n. \<exists>buf. ext4_read_block s (B i) = Some buf \<and> length buf = fs_bsz s \<and> dir_block_ok buf)"

lemma dir_entries_end [simp]: "dir_entries s B n n = []"
  by (simp add: dir_entries_def)

lemma dir_entries_step: "k < n \<Longrightarrow> dir_entries s B k n = block_entries s (B k) @ dir_entries s B (Suc k) n"
  by (simp add: dir_entries_def upt_conv_Cons)

lemma dir_entries_split:
  "k < n \<Longrightarrow> dir_entries s B 0 n = dir_entries s B 0 k @ block_entries s (B k) @ dir_entries s B (Suc k) n"
  using upt_add_eq_append [of 0 k "n - k"] by (simp add: dir_entries_def upt_conv_Cons)

lemma dir_entries_cong:
  "(\<And>i. k \<le> i \<Longrightarrow> i < n \<Longrightarrow> block_entries s (B i) = block_entries s' (B i)) \<Longrightarrow> dir_entries s B k n = dir_entries s' B k n"
  unfolding dir_entries_def by (intro arg_cong [where f = concat] map_cong) simp_all

lemma dir_blockD:
  assumes "dir_blocks_ok s B n" "i < n"
  obtains buf where "ext4_read_block s (B i) = Some buf" "length buf = fs_bsz s" "dir_block_ok buf"
    "block_entries s (B i) = dir_view buf"
  using assms by (auto simp: dir_blocks_ok_def block_entries_def)

lemma visit_append:
  "visit f (xs @ ys) ctx = (case visit f xs ctx of (c, stop) \<Rightarrow> if stop then (c, True) else visit f ys c)"
  by (induction f xs ctx rule: visit.induct) (auto split: prod.splits)

lemma dir_pool_read [simp]: "ext4_read_block (s\<lparr>pool_dir := q\<rparr>) = ext4_read_block s"
  by (rule ext4_read_block_cong) simp_all

lemma dir_pool_io [simp]:
  "fs_bsz (s\<lparr>pool_dir := q\<rparr>) = fs_bsz s" "block_entries (s\<lparr>pool_dir := q\<rparr>) = block_entries s"
  "dir_entries (s\<lparr>pool_dir := q\<rparr>) = dir_entries s" "dir_blocks_ok (s\<lparr>pool_dir := q\<rparr>) = dir_blocks_ok s"
  by (simp_all add: dir_entries_def block_entries_def dir_blocks_ok_def fs_bsz_def fun_eq_iff)

lemma dir_scratch:
  assumes "n \<le> BLOCK_SIZE" "2 \<le> pool_free_count (pool_dir s)"
  obtains p q where "dir_malloc n s = (Some p, s\<lparr>pool_dir := q\<rparr>)" "0 < pool_free_count q"
    "\<And>d. dir_free p (s\<lparr>pool_dir := q, g_disk := d\<rparr>) = s\<lparr>g_disk := d\<rparr>" "dir_free p (s\<lparr>pool_dir := q\<rparr>) = s"
proof -
  obtain p q where m: "simple_malloc BLOCK_SIZE n (pool_dir s) = (Some p, q)"
    using simple_malloc_Some_iff [of BLOCK_SIZE n "pool_dir s"] assms by auto
  show thesis
    by (rule that [of p q])
      (use m pool_free_count_malloc [OF m] assms(2) simple_free_malloc [OF m]
        in \<open>simp_all add: dir_malloc_def dir_free_def\<close>)
qed

section \<open>Writing one block of a directory\<close>

text \<open>The blocks of a directory are readable, on the device and no two are the same.\<close>

definition dir_on_disk :: "kfs \<Rightarrow> (nat \<Rightarrow> u32) \<Rightarrow> nat \<Rightarrow> bool" where
  "dir_on_disk s B n \<longleftrightarrow>
     fs_io_ok s \<and> dir_blocks_ok s B n \<and> inj_on B {..<n} \<and> (\<forall>i < n. fs_addr s (B i))"

definition room_in :: "kfs \<Rightarrow> u32 \<Rightarrow> nat \<Rightarrow> bool" where
  "room_in s b m \<longleftrightarrow>
     (let buf = the (ext4_read_block s b) in \<exists>q \<in> set (rec_offs buf 0). has_room buf m q)"

text \<open>The edits: one entry of the name is gone, the first, or one has come in.\<close>

definition entry_removed :: "kfs \<Rightarrow> (nat \<Rightarrow> u32) \<Rightarrow> nat \<Rightarrow> bytes \<Rightarrow> kfs \<Rightarrow> bool" where
  "entry_removed s B n name t \<longleftrightarrow> dir_on_disk t B n \<and>
     (\<exists>xs ino ys. dir_entries s B 0 n = xs @ (name, ino) # ys \<and> name \<notin> fst ` set xs \<and> dir_entries t B 0 n = xs @ ys)"

definition entry_added :: "kfs \<Rightarrow> (nat \<Rightarrow> u32) \<Rightarrow> nat \<Rightarrow> bytes \<Rightarrow> u32 \<Rightarrow> kfs \<Rightarrow> bool" where
  "entry_added s B n name ino t \<longleftrightarrow> dir_on_disk t B n \<and>
     (\<exists>xs ys. dir_entries s B 0 n = xs @ ys \<and> dir_entries t B 0 n = xs @ (name, ino) # ys)"

lemma dir_on_disk_pool [simp]: "dir_on_disk (s\<lparr>pool_dir := q\<rparr>) = dir_on_disk s"
  by (simp add: dir_on_disk_def fs_addr_def fs_io_ok_def fun_eq_iff cong: option.case_cong)

lemma room_in_pool [simp]: "room_in (s\<lparr>pool_dir := q\<rparr>) = room_in s"
  by (simp add: room_in_def fun_eq_iff)

lemma edits_pool [simp]:
  "entry_removed (s\<lparr>pool_dir := q\<rparr>) B n name t = entry_removed s B n name t"
  "entry_removed s B n name (t\<lparr>pool_dir := q\<rparr>) = entry_removed s B n name t"
  "entry_added (s\<lparr>pool_dir := q\<rparr>) B n name ino t = entry_added s B n name ino t"
  "entry_added s B n name ino (t\<lparr>pool_dir := q\<rparr>) = entry_added s B n name ino t"
  by (simp_all add: entry_removed_def entry_added_def)

lemma write_dir_block:
  assumes d: "dir_on_disk s B n" and k: "k < n" and buf: "dir_block_ok buf" "length buf = fs_bsz s"
  shows "\<exists>d. ext4_write_block s (B k) buf = (True, s\<lparr>g_disk := d\<rparr>) \<and> dir_on_disk (s\<lparr>g_disk := d\<rparr>) B n \<and>
    dir_entries (s\<lparr>g_disk := d\<rparr>) B 0 n = dir_entries s B 0 k @ dir_view buf @ dir_entries s B (Suc k) n"
proof -
  have io: "fs_io_ok s" and ok: "dir_blocks_ok s B n" and inj: "inj_on B {..<n}"
    and ad: "\<And>i. i < n \<Longrightarrow> fs_addr s (B i)"
    using d by (auto simp: dir_on_disk_def)
  obtain old where "ext4_read_block s (B k) = Some old" using dir_blockD [OF ok k] by blast
  then have up: "fs_up s (B k)" using io.rd_up [OF io ad [OF k]] by simp
  obtain r t where w: "ext4_write_block s (B k) buf = (r, t)" by fastforce
  then have r: "r" using io.wr_up [OF io ad [OF k] buf(2)] up by simp
  have t: "t = s\<lparr>g_disk := g_disk t\<rparr>" by (rule ext4_write_block_disk [OF w])
  note g = io.wr_good [OF io ad [OF k] buf(2) w]
  have same: "ext4_read_block t (B k) = Some buf" using io.wr_same [OF io ad [OF k] buf(2)] w r by simp
  have other: "ext4_read_block t (B i) = ext4_read_block s (B i)" if "i < n" "i \<noteq> k" for i
    using io.wr_other [OF io ad [OF k] ad [OF that(1)] buf(2) w] inj that k by (auto simp: inj_on_def)
  have "dir_blocks_ok t B n" unfolding dir_blocks_ok_def
  proof (intro allI impI)
    fix i assume "i < n"
    then show "\<exists>buf. ext4_read_block t (B i) = Some buf \<and> length buf = fs_bsz t \<and> dir_block_ok buf"
      using same other [of i] ok buf g by (cases "i = k") (auto simp: dir_blocks_ok_def)
  qed
  then have on: "dir_on_disk t B n" using g inj ad by (simp add: dir_on_disk_def)
  have "dir_entries t B 0 n = dir_entries t B 0 k @ block_entries t (B k) @ dir_entries t B (Suc k) n"
    by (rule dir_entries_split [OF k])
  also have "dir_entries t B 0 k = dir_entries s B 0 k"
    by (rule dir_entries_cong) (use other k in \<open>simp add: block_entries_def\<close>)
  also have "dir_entries t B (Suc k) n = dir_entries s B (Suc k) n"
    by (rule dir_entries_cong) (use other k in \<open>simp add: block_entries_def\<close>)
  finally show ?thesis using w r on t same by (intro exI [of _ "g_disk t"]) (simp add: block_entries_def)
qed

section \<open>What the loops rely on\<close>

locale dir_map =
  fixes layout :: "kfs \<Rightarrow> inode \<Rightarrow> (nat \<Rightarrow> u32) \<Rightarrow> nat \<Rightarrow> bool"
  assumes info: "layout s dir B n \<Longrightarrow> i_private dir \<noteq> None"
    and bound: "layout s dir B n \<Longrightarrow> n < 2 ^ 32"
    and get: "layout s dir B n \<Longrightarrow> 0 < pool_free_count (pool_dir s) \<Longrightarrow> i < n \<Longrightarrow>
      ext4_dir_get_blocknr s dir (of_nat i) = (Some (B i), s)"
    and get_end: "layout s dir B n \<Longrightarrow> 0 < pool_free_count (pool_dir s) \<Longrightarrow>
      ext4_dir_get_blocknr s dir (of_nat n) = (None, s)"
    and pool: "layout s dir B n \<Longrightarrow> layout (s\<lparr>pool_dir := q\<rparr>) dir B n"
begin

text \<open>Search.\<close>

lemma find_loop:
  assumes l: "layout s dir B n" "0 < pool_free_count (pool_dir s)" and ok: "dir_blocks_ok s B n" and nm: "name \<noteq> []"
  shows "k \<le> n \<Longrightarrow>
    \<exists>r. find_blocks s dir name k = Some (r, s) \<and> map_option fst r = map_of (dir_entries s B k n) name"
proof (induction "n - k" arbitrary: k)
  case 0
  then show ?case using get_end [OF l] bound [OF l(1)] by (subst find_blocks.simps) simp
next
  case (Suc x)
  then have k: "k < n" and xk: "x = n - Suc k" by simp_all
  from k obtain buf where b: "ext4_read_block s (B k) = Some buf" "length buf = fs_bsz s" "dir_block_ok buf"
    "block_entries s (B k) = dir_view buf" using dir_blockD [OF ok] by blast
  obtain r where r: "find_blocks s dir name (Suc k) = Some (r, s)"
    "map_option fst r = map_of (dir_entries s B (Suc k) n) name"
    using Suc.hyps(1) [of "Suc k"] xk k by auto
  show ?case
    using find_block_spec [OF b(3) nm] b r get [OF l k] bound [OF l(1)] k
    by (subst find_blocks.simps)
      (auto simp: dir_entries_step fs_bsz_def ext4_get_block_size_def map_add_def
        split: scan_result.splits option.splits)
qed

text \<open>Iteration.\<close>

lemma foreach_loop:
  assumes l: "layout s dir B n" "0 < pool_free_count (pool_dir s)" and ok: "dir_blocks_ok s B n"
  shows "k \<le> n \<Longrightarrow>
    foreach_blocks f s dir k ctx = Some (True, fst (visit f (dir_entries s B k n) ctx), s)"
proof (induction "n - k" arbitrary: k ctx)
  case 0
  then show ?case using get_end [OF l] bound [OF l(1)] by (subst foreach_blocks.simps) simp
next
  case (Suc x)
  then have k: "k < n" by simp
  then obtain buf where b: "ext4_read_block s (B k) = Some buf" "length buf = fs_bsz s" "dir_block_ok buf"
    "block_entries s (B k) = dir_view buf" using dir_blockD [OF ok] by blast
  have IH: "foreach_blocks f s dir (Suc k) c = Some (True, fst (visit f (dir_entries s B (Suc k) n) c), s)" for c
    using Suc.hyps(1) [of "Suc k"] Suc.hyps(2) k by simp
  show ?case
    using foreach_block_spec [OF b(3), of f ctx] b IH get [OF l k] bound [OF l(1)] k
    by (subst foreach_blocks.simps)
      (auto simp: dir_entries_step visit_append fs_bsz_def ext4_get_block_size_def split: prod.splits if_splits)
qed

lemma find_entry_spec:
  assumes l: "layout s dir B n" and flat: "\<And>ei. i_private dir = Some ei \<Longrightarrow> ei_flags ei AND EXT4_INODE_FLAG_INDEX = 0"
    and ok: "dir_blocks_ok s B n" and nm: "name \<noteq> []" "length name \<le> 255"
    and bufs: "unat (ext4_block_size s) \<le> BLOCK_SIZE" "2 \<le> pool_free_count (pool_dir s)"
  shows "\<exists>r. ext4_find_entry s dir name = Some (r, s) \<and> map_option fst r = map_of (dir_entries s B 0 n) name"
proof -
  obtain ei where ei: "i_private dir = Some ei" using info [OF l] by blast
  obtain p q where m: "dir_malloc (unat (ext4_block_size s)) s = (Some p, s\<lparr>pool_dir := q\<rparr>)"
    "0 < pool_free_count q" "dir_free p (s\<lparr>pool_dir := q\<rparr>) = s"
    using dir_scratch [OF bufs] by metis
  obtain r where "find_blocks (s\<lparr>pool_dir := q\<rparr>) dir name 0 = Some (r, s\<lparr>pool_dir := q\<rparr>)"
    "map_option fst r = map_of (dir_entries s B 0 n) name"
    using find_loop [OF pool [OF l, of q], of name 0] m(2) ok nm(1) by auto
  then show ?thesis
    using ei flat [OF ei] nm m by (auto simp: ext4_find_entry_def ext4_get_block_size_def Suc_le_eq)
qed

lemma foreach_spec:
  assumes l: "layout s dir B n" and ok: "dir_blocks_ok s B n"
    and bufs: "unat (ext4_block_size s) \<le> BLOCK_SIZE" "2 \<le> pool_free_count (pool_dir s)"
  shows "ext4_dir_foreach f s dir ctx = Some (True, fst (visit f (dir_entries s B 0 n) ctx), s)"
proof -
  obtain p q where m: "dir_malloc (unat (ext4_block_size s)) s = (Some p, s\<lparr>pool_dir := q\<rparr>)"
    "0 < pool_free_count q" "dir_free p (s\<lparr>pool_dir := q\<rparr>) = s"
    using dir_scratch [OF bufs] by metis
  have "foreach_blocks f (s\<lparr>pool_dir := q\<rparr>) dir 0 ctx =
      Some (True, fst (visit f (dir_entries s B 0 n) ctx), s\<lparr>pool_dir := q\<rparr>)"
    using foreach_loop [OF pool [OF l, of q], where k = 0 and f = f and ctx = ctx] m(2) ok by simp
  then show ?thesis using info [OF l] m by (simp add: ext4_dir_foreach_def ext4_get_block_size_def)
qed

text \<open>Removal.\<close>

lemma remove_loop:
  assumes l: "layout s dir B n" "0 < pool_free_count (pool_dir s)" and ok: "dir_on_disk s B n" and nm: "name \<noteq> []" "length name < 2 ^ 16"
  shows "k \<le> n \<Longrightarrow> name \<notin> fst ` set (dir_entries s B 0 k) \<Longrightarrow>
    (if name \<in> fst ` set (dir_entries s B 0 n)
     then \<exists>d. remove_blocks s dir name k = Some (True, s\<lparr>g_disk := d\<rparr>) \<and> entry_removed s B n name (s\<lparr>g_disk := d\<rparr>)
     else remove_blocks s dir name k = Some (False, s))"
proof (induction "n - k" arbitrary: k)
  case 0
  then show ?case using get_end [OF l] bound [OF l(1)] by (subst remove_blocks.simps) simp
next
  case (Suc x)
  then have k: "k < n" and xk: "x = n - Suc k" by simp_all
  have okb: "dir_blocks_ok s B n" using ok by (simp add: dir_on_disk_def)
  obtain buf where b: "ext4_read_block s (B k) = Some buf" "length buf = fs_bsz s" "dir_block_ok buf"
    "block_entries s (B k) = dir_view buf" using dir_blockD [OF okb k] by blast
  note split = dir_entries_split [OF k, of s B]
  note step = remove_blocks.simps [of s dir name k]
  have k32: "\<not> k \<ge> 2 ^ 32" using bound [OF l(1)] k by simp
  show ?case
  proof (cases "remove_in_block buf (length buf) name 0 None")
    case Scan_Bad
    then show ?thesis using remove_block_spec [OF b(3) nm] by simp
  next
    case Scan_None
    then have "name \<notin> fst ` set (dir_view buf)" using remove_block_spec [OF b(3) nm] by simp
    then have nm': "name \<notin> fst ` set (dir_entries s B 0 (Suc k))"
      using Suc.prems(2) b(4) dir_entries_split [of k "Suc k" s B] by auto
    have eq: "remove_blocks s dir name k = remove_blocks s dir name (Suc k)"
      using step Scan_None b k32 get [OF l k] by (simp add: fs_bsz_def ext4_get_block_size_def)
    show ?thesis using Suc.hyps(1) [OF xk Suc_leI [OF k] nm'] by (simp only: eq)
  next
    case (Scan_Hit buf')
    then obtain us ino vs where e: "dir_block_ok buf'" "length buf' = fs_bsz s"
      "dir_view buf = us @ (name, ino) # vs" "dir_view buf' = us @ vs" "name \<notin> fst ` set us"
      using remove_block_spec [OF b(3) nm] b(2) by (auto simp: edit_remove_def)
    obtain d where d: "ext4_write_block s (B k) buf' = (True, s\<lparr>g_disk := d\<rparr>)" "dir_on_disk (s\<lparr>g_disk := d\<rparr>) B n"
      "dir_entries (s\<lparr>g_disk := d\<rparr>) B 0 n = dir_entries s B 0 k @ dir_view buf' @ dir_entries s B (Suc k) n"
      using write_dir_block [OF ok k e(1,2)] by blast
    have hit: "remove_blocks s dir name k = Some (True, s\<lparr>g_disk := d\<rparr>)"
      using step Scan_Hit b k32 get [OF l k] d(1) by (simp add: fs_bsz_def ext4_get_block_size_def)
    have old: "dir_entries s B 0 n = (dir_entries s B 0 k @ us) @ (name, ino) # vs @ dir_entries s B (Suc k) n"
      unfolding split b(4) e(3) by simp
    moreover have "dir_entries (s\<lparr>g_disk := d\<rparr>) B 0 n = (dir_entries s B 0 k @ us) @ vs @ dir_entries s B (Suc k) n"
      unfolding d(3) e(4) by simp
    moreover have "name \<notin> fst ` set (dir_entries s B 0 k @ us)" using Suc.prems(2) e(5) by auto
    ultimately have "entry_removed s B n name (s\<lparr>g_disk := d\<rparr>)"
      unfolding entry_removed_def using d(2) old by blast
    moreover have "name \<in> fst ` set (dir_entries s B 0 n)" unfolding old by simp
    ultimately show ?thesis using hit by auto
  qed
qed

text \<open>Insertion where some block has the room.\<close>

lemma add_loop:
  assumes l: "layout s dir B n" "0 < pool_free_count (pool_dir s)" and ok: "dir_on_disk s B n"
    and nm: "name \<noteq> []" "length name \<le> 255" "ino \<noteq> 0"
    and r: "r < n" "room_in s (B r) (length name)" and m: "n \<le> m"
  shows "k \<le> r \<Longrightarrow>
    \<exists>d. add_blocks s dir name ino [k..<m] = Some (True, dir, s\<lparr>g_disk := d\<rparr>) \<and>
      entry_added s B n name ino (s\<lparr>g_disk := d\<rparr>)"
proof (induction "r - k" arbitrary: k rule: less_induct)
  case less
  then have k: "k < n" using r by simp
  have okb: "dir_blocks_ok s B n" using ok by (simp add: dir_on_disk_def)
  obtain buf where b: "ext4_read_block s (B k) = Some buf" "length buf = fs_bsz s" "dir_block_ok buf"
    "block_entries s (B k) = dir_view buf" using dir_blockD [OF okb k] by blast
  have up: "[k..<m] = k # [Suc k..<m]" using k m by (simp add: upt_conv_Cons)
  note spec = add_block_spec [OF b(3) nm]
  show ?case
  proof (cases "add_in_block buf (length buf) name ino (EXT4_DIR_REC_LEN (length name)) 0")
    case Scan_Bad
    then show ?thesis using spec by simp
  next
    case Scan_None
    then have "k \<noteq> r" using spec r(2) b(1) by (auto simp: room_in_def Let_def)
    then have "k < r" using less.prems by simp
    moreover have "add_blocks s dir name ino [k..<m] = add_blocks s dir name ino [Suc k..<m]"
      using Scan_None b get [OF l k] unfolding up
      by (simp add: add_try_block_def fs_bsz_def ext4_get_block_size_def)
    ultimately show ?thesis using less.hyps [of "Suc k"] by simp
  next
    case (Scan_Hit buf')
    then obtain us vs where e: "dir_block_ok buf'" "length buf' = fs_bsz s"
      "dir_view buf = us @ vs" "dir_view buf' = us @ (name, ino) # vs"
      using spec b(2) by (auto simp: edit_insert_def)
    obtain d where d: "ext4_write_block s (B k) buf' = (True, s\<lparr>g_disk := d\<rparr>)" "dir_on_disk (s\<lparr>g_disk := d\<rparr>) B n"
      "dir_entries (s\<lparr>g_disk := d\<rparr>) B 0 n = dir_entries s B 0 k @ dir_view buf' @ dir_entries s B (Suc k) n"
      using write_dir_block [OF ok k e(1,2)] by blast
    have "add_blocks s dir name ino [k..<m] = Some (True, dir, s\<lparr>g_disk := d\<rparr>)"
      using Scan_Hit b get [OF l k] d(1) unfolding up
      by (simp add: add_try_block_def fs_bsz_def ext4_get_block_size_def)
    moreover have "dir_entries s B 0 n = (dir_entries s B 0 k @ us) @ vs @ dir_entries s B (Suc k) n"
      unfolding dir_entries_split [OF k] b(4) e(3) by simp
    moreover have "dir_entries (s\<lparr>g_disk := d\<rparr>) B 0 n =
        (dir_entries s B 0 k @ us) @ (name, ino) # vs @ dir_entries s B (Suc k) n"
      unfolding d(3) e(4) by simp
    ultimately show ?thesis using d(2) unfolding entry_added_def by blast
  qed
qed

lemma remove_entry_spec:
  assumes l: "layout s dir B n" and ok: "dir_on_disk s B n" and nm: "name \<noteq> []" "length name < 2 ^ 16"
    and bufs: "unat (ext4_block_size s) \<le> BLOCK_SIZE" "2 \<le> pool_free_count (pool_dir s)"
  shows "if name \<in> fst ` set (dir_entries s B 0 n)
     then \<exists>d. ext4_remove_entry s dir name = Some (True, s\<lparr>g_disk := d\<rparr>) \<and> entry_removed s B n name (s\<lparr>g_disk := d\<rparr>)
     else ext4_remove_entry s dir name = Some (False, s)"
proof -
  obtain p q where m: "dir_malloc (unat (ext4_block_size s)) s = (Some p, s\<lparr>pool_dir := q\<rparr>)"
    "0 < pool_free_count q" "\<And>d. dir_free p (s\<lparr>pool_dir := q, g_disk := d\<rparr>) = s\<lparr>g_disk := d\<rparr>"
    "dir_free p (s\<lparr>pool_dir := q\<rparr>) = s"
    using dir_scratch [OF bufs] by metis
  have c: "s\<lparr>pool_dir := q, g_disk := d\<rparr> = s\<lparr>g_disk := d, pool_dir := q\<rparr>" for d by simp
  show ?thesis
    using remove_loop [OF pool [OF l, of q], of name 0] info [OF l] m ok nm
    by (auto simp: ext4_remove_entry_def ext4_get_block_size_def c split: if_splits)
qed

end

text \<open>Insertion looks at the first blocks only: twelve with extents, else those of the indirect map.\<close>

locale dir_map_capped = dir_map +
  assumes cap: "layout s dir B n \<Longrightarrow> i_private dir = Some ei \<Longrightarrow>
    n \<le> (if ei_flags ei AND EXT4_INODE_FLAG_EXTENTS \<noteq> 0 then 12 else 12 + unat (ext4_block_size s div 4))"
begin

lemma add_entry_spec:
  assumes l: "layout s dir B n" and flat: "\<And>ei. i_private dir = Some ei \<Longrightarrow> ei_flags ei AND EXT4_INODE_FLAG_INDEX = 0"
    and ok: "dir_on_disk s B n" and nm: "name \<noteq> []" "length name \<le> 255" "ino \<noteq> 0"
    and r: "r < n" "room_in s (B r) (length name)"
    and bufs: "unat (ext4_block_size s) \<le> BLOCK_SIZE" "2 \<le> pool_free_count (pool_dir s)"
  shows "\<exists>d. ext4_add_entry s dir name ino = Some (True, dir, s\<lparr>g_disk := d\<rparr>) \<and>
      entry_added s B n name ino (s\<lparr>g_disk := d\<rparr>)"
proof -
  obtain ei where ei: "i_private dir = Some ei" using info [OF l] by blast
  obtain p q where m: "dir_malloc (unat (ext4_block_size s)) s = (Some p, s\<lparr>pool_dir := q\<rparr>)"
    "0 < pool_free_count q" "\<And>d. dir_free p (s\<lparr>pool_dir := q, g_disk := d\<rparr>) = s\<lparr>g_disk := d\<rparr>"
    using dir_scratch [OF bufs] by metis
  have c: "s\<lparr>pool_dir := q, g_disk := d\<rparr> = s\<lparr>g_disk := d, pool_dir := q\<rparr>" for d by simp
  let ?m = "if ei_flags ei AND EXT4_INODE_FLAG_EXTENTS \<noteq> 0 then 12 else 12 + unat (ext4_get_block_size s div 4)"
  have le: "n \<le> ?m" using cap [OF l ei] by (simp only: ext4_get_block_size_def)
  obtain d where a: "add_blocks (s\<lparr>pool_dir := q\<rparr>) dir name ino [0..<?m] =
      Some (True, dir, s\<lparr>pool_dir := q, g_disk := d\<rparr>)" "entry_added s B n name ino (s\<lparr>g_disk := d\<rparr>)"
    using add_loop [OF pool [OF l, of q] _ _ nm r(1) _ le, of 0] m(2) ok r(2) by (auto simp: c)
  have "ext4_add_entry s dir name ino = Some (True, dir, s\<lparr>g_disk := d\<rparr>)"
    using ei flat [OF ei] nm m(1,3) a(1)
    by (simp add: ext4_add_entry_def ext4_get_block_size_def [of s, symmetric] Suc_le_eq Let_def split del: if_split)
  with a(2) show ?thesis by blast
qed

end

end
