(* ===== verification/Dir_Listing.thy ===== *)
theory Dir_Listing
  imports Dir_Whole
begin

text \<open>
  The three forms a directory's block map can have, and what the calls on a whole directory do:
  ext4_find_entry, ext4_add_entry, ext4_remove_entry and ext4_dir_readdir on its list of entries.
\<close>

section \<open>Block maps of directories\<close>

text \<open>The first twelve pointers, with the rest unused.\<close>

definition direct_dir :: "kfs \<Rightarrow> inode \<Rightarrow> (nat \<Rightarrow> u32) \<Rightarrow> nat \<Rightarrow> bool" where
  "direct_dir s dir B n \<longleftrightarrow> n \<le> 12 \<and>
     (\<exists>ei. i_private dir = Some ei \<and> ei_flags ei AND EXT4_INODE_FLAG_EXTENTS = 0 \<and>
        (\<forall>i < n. get_iblock ei i = B i \<and> B i \<noteq> 0) \<and> get_iblock ei n = 0)"

text \<open>All twelve pointers and the words of the indirect block.\<close>

definition indirect_dir :: "kfs \<Rightarrow> inode \<Rightarrow> (nat \<Rightarrow> u32) \<Rightarrow> nat \<Rightarrow> bool" where
  "indirect_dir s dir B n \<longleftrightarrow> 12 \<le> n \<and> n \<le> 12 + unat (ext4_block_size s div 4) \<and>
     ext4_block_size s \<noteq> 0 \<and> ext4_block_size s AND 3 = 0 \<and> unat (ext4_block_size s) \<le> BLOCK_SIZE \<and>
     (\<exists>ei ibuf. i_private dir = Some ei \<and> ei_flags ei AND EXT4_INODE_FLAG_EXTENTS = 0 \<and>
        (\<forall>i < 12. get_iblock ei i = B i \<and> B i \<noteq> 0) \<and> get_iblock ei 12 \<noteq> 0 \<and>
        ext4_read_block s (get_iblock ei 12) = Some ibuf \<and>
        (\<forall>i. 12 \<le> i \<and> i < n \<longrightarrow> ents_get ibuf (i - 12) = B i \<and> B i \<noteq> 0) \<and>
        (n < 12 + unat (ext4_block_size s div 4) \<longrightarrow> ents_get ibuf (n - 12) = 0))"

text \<open>Extents in a leaf root, for at most the twelve blocks ext4_add_entry lets such a directory have.\<close>

definition extent_dir :: "kfs \<Rightarrow> inode \<Rightarrow> (nat \<Rightarrow> u32) \<Rightarrow> nat \<Rightarrow> bool" where
  "extent_dir s dir B n \<longleftrightarrow> n \<le> 12 \<and> ext4_block_size s \<noteq> 0 \<and> S_ISDIR (i_mode dir) \<and>
     (\<exists>ei. i_private dir = Some ei \<and> ei_flags ei AND EXT4_INODE_FLAG_EXTENTS \<noteq> 0 \<and>
        node_ok (i_block ei) \<and> eh_depth (eh_get (i_block ei)) = 0 \<and>
        (\<forall>i < n. ext4_extents_lookup_mapped (i_block ei) (of_nat i) = Some (B i) \<and> B i \<noteq> 0) \<and>
        ext4_extents_lookup_mapped (i_block ei) (of_nat n) = None)"

definition dir_layout :: "kfs \<Rightarrow> inode \<Rightarrow> (nat \<Rightarrow> u32) \<Rightarrow> nat \<Rightarrow> bool" where
  "dir_layout s dir B n \<longleftrightarrow> direct_dir s dir B n \<or> indirect_dir s dir B n \<or> extent_dir s dir B n"

lemma direct_get:
  assumes "direct_dir s dir B n" "i \<le> n"
  shows "ext4_dir_get_blocknr s dir (of_nat i) = (if i < n then Some (B i) else None, s)"
proof -
  have i: "unat (of_nat i :: u32) = i" using assms by (intro unat_of_nat_fit) (simp add: direct_dir_def)
  then have "(of_nat i :: u32) < 12 \<longleftrightarrow> i < 12" by (simp add: word_less_nat_alt)
  moreover have "i = n" if "\<not> i < n" using that assms(2) by simp
  moreover have "i = 12 \<and> n = 12" if "\<not> i < 12" using that assms by (simp add: direct_dir_def)
  ultimately show ?thesis using assms(1) i
    by (auto simp: direct_dir_def ext4_dir_get_blocknr_def Let_def)
qed

lemma direct_block_get:
  assumes "i < 12" "i_private dir = Some ei" "ei_flags ei AND EXT4_INODE_FLAG_EXTENTS = 0" "get_iblock ei i \<noteq> 0"
  shows "ext4_dir_get_blocknr s dir (of_nat i) = (Some (get_iblock ei i), s)"
proof -
  have i: "unat (of_nat i :: u32) = i" using assms by (intro unat_of_nat_fit) simp
  then have "(of_nat i :: u32) < 12" using assms(1) by (simp add: word_less_nat_alt)
  then show ?thesis using assms i by (simp add: ext4_dir_get_blocknr_def)
qed

lemma indirect_get:
  assumes d: "indirect_dir s dir B n" and i: "i \<le> n" and free: "0 < pool_free_count (pool_dir s)"
  shows "ext4_dir_get_blocknr s dir (of_nat i) = (if i < n then Some (B i) else None, s)"
proof -
  obtain ei ibuf where ei: "i_private dir = Some ei" "ei_flags ei AND EXT4_INODE_FLAG_EXTENTS = 0"
    "\<forall>i < 12. get_iblock ei i = B i \<and> B i \<noteq> 0" "get_iblock ei 12 \<noteq> 0"
    "ext4_read_block s (get_iblock ei 12) = Some ibuf"
    "\<And>i. 12 \<le> i \<Longrightarrow> i < n \<Longrightarrow> ents_get ibuf (i - 12) = B i \<and> B i \<noteq> 0"
    "n < 12 + unat (ext4_block_size s div 4) \<Longrightarrow> ents_get ibuf (n - 12) = 0"
    and n: "12 \<le> n" "n \<le> 12 + unat (ext4_block_size s div 4)"
    and bs: "ext4_block_size s \<noteq> 0" "ext4_block_size s AND 3 = 0" "unat (ext4_block_size s) \<le> BLOCK_SIZE"
    using d unfolding indirect_dir_def by blast
  show ?thesis
  proof (cases "i < 12")
    case True
    then show ?thesis using direct_block_get [OF True ei(1,2)] ei(3) n(1) by simp
  next
    case False
    have bsd: "unat (ext4_block_size s div 4) \<le> 1024" using bs(3) by (simp add: unat_div)
    have u: "unat (of_nat i :: u32) = i" using i n bsd by (intro unat_of_nat_fit) simp
    then have ge: "\<not> (of_nat i :: u32) < 12" using False by (simp add: word_less_nat_alt)
    then have idx: "unat ((of_nat i :: u32) - 12) = i - 12" using u by (subst unat_sub_le) (simp_all add: not_less)
    obtain p q where m: "simple_malloc BLOCK_SIZE (unat (ext4_block_size s)) (pool_dir s) = (Some p, q)"
      using simple_malloc_Some_iff [of BLOCK_SIZE "unat (ext4_block_size s)" "pool_dir s"] bs(3) free by auto
    have mal: "dir_malloc (unat (ext4_block_size s)) s = (Some p, s\<lparr>pool_dir := q\<rparr>)" "dir_free p (s\<lparr>pool_dir := q\<rparr>) = s"
      using m simple_free_malloc [OF m] by (simp_all add: dir_malloc_def dir_free_def)
    have lim: "(of_nat i :: u32) - 12 \<ge> ext4_block_size s div 4 \<longleftrightarrow> i = 12 + unat (ext4_block_size s div 4)"
      using idx i n False by (auto simp: word_le_nat_alt)
    have "i < n \<Longrightarrow> i \<noteq> 12 + unat (ext4_block_size s div 4)" using n by simp
    moreover have "\<not> i < n \<Longrightarrow> i = n" using i by simp
    ultimately show ?thesis
      using ei(1,2,4,5) ei(6) [of i] ei(7) ge idx lim bs mal False n
      by (auto simp: ext4_dir_get_blocknr_def ext4_get_block_size_def Let_def)
  qed
qed

lemma extent_get:
  assumes "extent_dir s dir B n" "i \<le> n"
  shows "ext4_dir_get_blocknr s dir (of_nat i) = (if i < n then Some (B i) else None, s)"
proof -
  have "i = n" if "\<not> i < n" using that assms(2) by simp
  with assms(1) show ?thesis
    by (auto simp: extent_dir_def ext4_dir_get_blocknr_def ext4_extents_get_block_def path_root
        ext4_extents_free_path_def node_ok_def ext4_get_block_size_def Let_def)
qed

text \<open>Extents in a tree of any depth, and any number of blocks.\<close>

definition tree_dir :: "kfs \<Rightarrow> inode \<Rightarrow> (nat \<Rightarrow> u32) \<Rightarrow> nat \<Rightarrow> bool" where
  "tree_dir s dir B n \<longleftrightarrow> n < 2 ^ 32 \<and> ext4_block_size s \<noteq> 0 \<and> S_ISDIR (i_mode dir) \<and>
     (\<exists>ei. i_private dir = Some ei \<and> ei_flags ei AND EXT4_INODE_FLAG_EXTENTS \<noteq> 0 \<and> tree_ok s (i_block ei) \<and>
        (\<forall>i < n. tree_lookup s (i_block ei) (of_nat i) = Some (Some (B i)) \<and> B i \<noteq> 0) \<and>
        tree_lookup s (i_block ei) (of_nat n) = Some None)"

definition dir_blockmap :: "kfs \<Rightarrow> inode \<Rightarrow> (nat \<Rightarrow> u32) \<Rightarrow> nat \<Rightarrow> bool" where
  "dir_blockmap s dir B n \<longleftrightarrow> dir_layout s dir B n \<or> tree_dir s dir B n"

lemma tree_get:
  assumes "tree_dir s dir B n" "i \<le> n"
  shows "ext4_dir_get_blocknr s dir (of_nat i) = (if i < n then Some (B i) else None, s)"
proof -
  obtain ei where ei: "i_private dir = Some ei" "ei_flags ei AND EXT4_INODE_FLAG_EXTENTS \<noteq> 0" "tree_ok s (i_block ei)"
      "\<And>i. i < n \<Longrightarrow> tree_lookup s (i_block ei) (of_nat i) = Some (Some (B i)) \<and> B i \<noteq> 0"
      "tree_lookup s (i_block ei) (of_nat n) = Some None"
    and d: "ext4_get_block_size s \<noteq> 0" "S_ISDIR (i_mode dir)"
    using assms(1) by (auto simp: tree_dir_def ext4_get_block_size_def)
  have get: "ext4_extents_get_block s dir (of_nat i) False = (Some (case r of None \<Rightarrow> 0 | Some b \<Rightarrow> b, False), dir, s)"
    if "tree_lookup s (i_block ei) (of_nat i) = Some r" for r
    using get_block_tree [OF ei(1) d(1) _ ei(3) that] d(2) by simp
  show ?thesis
  proof (cases "i < n")
    case True
    then show ?thesis using get [of "Some (B i)"] ei(1,2) ei(4) [OF True] by (simp add: ext4_dir_get_blocknr_def)
  next
    case False
    then have "i = n" using assms(2) by simp
    then show ?thesis using get [of None] ei(1,2,5) by (simp add: ext4_dir_get_blocknr_def)
  qed
qed

interpretation whole: dir_map dir_blockmap
proof unfold_locales
  fix s dir B n q and i :: nat
  assume d: "dir_blockmap s dir B n"
  then show "i_private dir \<noteq> None"
    by (auto simp: dir_blockmap_def dir_layout_def direct_dir_def indirect_dir_def extent_dir_def tree_dir_def)
  show "n < 2 ^ 32"
  proof -
    have "unat (ext4_block_size s div 4) \<le> 2 ^ 30"
      using unat_u32_bound [of "ext4_block_size s"] by (simp add: unat_div)
    with d show ?thesis
      by (auto simp: dir_blockmap_def dir_layout_def direct_dir_def indirect_dir_def extent_dir_def tree_dir_def)
  qed
  show "dir_blockmap (s\<lparr>pool_dir := q\<rparr>) dir B n"
    using d by (simp add: dir_blockmap_def dir_layout_def direct_dir_def indirect_dir_def extent_dir_def tree_dir_def)
  assume free: "0 < pool_free_count (pool_dir s)"
  have get: "ext4_dir_get_blocknr s dir (of_nat i) = (if i < n then Some (B i) else None, s)" if "i \<le> n" for i
    using d direct_get [OF _ that] indirect_get [OF _ that free] extent_get [OF _ that] tree_get [OF _ that]
    by (auto simp: dir_blockmap_def dir_layout_def)
  show "i < n \<Longrightarrow> ext4_dir_get_blocknr s dir (of_nat i) = (Some (B i), s)" using get [of i] by simp
  show "ext4_dir_get_blocknr s dir (of_nat n) = (None, s)" using get [of n] by simp
qed

interpretation linear: dir_map_capped dir_layout
proof unfold_locales
  fix s dir B n q and i :: nat and ei
  assume "dir_layout s dir B n"
  then have d: "dir_blockmap s dir B n" by (simp add: dir_blockmap_def)
  show "i_private dir \<noteq> None" "n < 2 ^ 32" by (rule whole.info [OF d], rule whole.bound [OF d])
  show "dir_layout (s\<lparr>pool_dir := q\<rparr>) dir B n"
    using \<open>dir_layout s dir B n\<close> by (simp add: dir_layout_def direct_dir_def indirect_dir_def extent_dir_def)
  show "n \<le> (if ei_flags ei AND EXT4_INODE_FLAG_EXTENTS \<noteq> 0 then 12 else 12 + unat (ext4_block_size s div 4))"
    if "i_private dir = Some ei"
    using \<open>dir_layout s dir B n\<close> that by (auto simp: dir_layout_def direct_dir_def indirect_dir_def extent_dir_def)
  assume free: "0 < pool_free_count (pool_dir s)"
  show "i < n \<Longrightarrow> ext4_dir_get_blocknr s dir (of_nat i) = (Some (B i), s)" by (rule whole.get [OF d free])
  show "ext4_dir_get_blocknr s dir (of_nat n) = (None, s)" by (rule whole.get_end [OF d free])
qed

section \<open>Reading a directory\<close>

text \<open>
  What ext4_dir_readdir promises: the entries go to the callback one by one with their index,
  until it refuses one; the result is the context and the index of the first entry not delivered.
\<close>

fun deliver :: "('d \<Rightarrow> bytes \<Rightarrow> u64 \<Rightarrow> u32 \<Rightarrow> 'd \<times> bool) \<Rightarrow> (bytes \<times> u32) list \<Rightarrow> u64 \<Rightarrow> 'd \<Rightarrow> 'd \<times> u64" where
  "deliver f [] off d = (d, off)"
| "deliver f ((name, ino) # es) off d =
     (case f d name off ino of (d', stop) \<Rightarrow> if stop then (d', off) else deliver f es (off + 1) d')"

lemma sint_of_nat64: "k < 2 ^ 63 \<Longrightarrow> sint (of_nat k :: u64) = int k"
  by (simp add: sint_small unat_of_nat_fit)

lemma visit_fill_rest:
  "unat pos \<le> k \<Longrightarrow> k + length es < 2 ^ 63 \<Longrightarrow>
   fst (visit (ext4_readdir_fill f pos) es (d, of_nat k)) = deliver f es (of_nat k) d"
proof (induction es arbitrary: k d)
  case (Cons e es)
  obtain name ino where e: "e = (name, ino)" by fastforce
  have "sint pos = int (unat pos)" using Cons.prems sint_of_nat64 [of "unat pos"] by simp
  moreover have "sint (of_nat k :: u64) = int k" using Cons.prems by (intro sint_of_nat64) simp
  ultimately have "\<not> sint (of_nat k :: u64) < sint pos" using Cons.prems(1) by linarith
  then show ?case using Cons.IH [of "Suc k"] Cons.prems
    by (simp add: e ext4_readdir_fill_def add.commute split: prod.splits)
qed simp

lemma visit_fill:
  "k \<le> unat pos \<Longrightarrow> unat pos \<le> k + length es \<Longrightarrow> k + length es < 2 ^ 63 \<Longrightarrow>
   fst (visit (ext4_readdir_fill f pos) es (d, of_nat k)) = deliver f (drop (unat pos - k) es) pos d"
proof (induction es arbitrary: k)
  case Nil
  then have "k = unat pos" by simp
  then show ?case by simp
next
  case (Cons e es)
  show ?case
  proof (cases "k = unat pos")
    case True
    then show ?thesis using visit_fill_rest [of pos k "e # es" f d] Cons.prems by simp
  next
    case False
    obtain name ino where e: "e = (name, ino)" by fastforce
    have p: "sint pos = int (unat pos)" using Cons.prems sint_of_nat64 [of "unat pos"] by simp
    have "sint (of_nat k :: u64) = int k" using Cons.prems by (intro sint_of_nat64) simp
    then have "sint (of_nat k :: u64) < sint pos" unfolding p using False Cons.prems(1) by linarith
    moreover have "unat pos - k = Suc (unat pos - Suc k)" using False Cons.prems(1) by simp
    ultimately show ?thesis using Cons.IH [of "Suc k"] Cons.prems False
      by (simp add: e ext4_readdir_fill_def add.commute)
  qed
qed

section \<open>A directory on disk\<close>

text \<open>The first block of a new directory, at block 3 of the demonstration device.\<close>

definition demo_dir_fs :: kfs where
  "demo_dir_fs = demo_with (take 512 (mkdir_block 1024 12 2))"

definition demo_dir :: inode where
  "demo_dir = \<lparr>i_slot = 0, i_ino = 12, i_nlink = 2, i_uid = 0, i_gid = 0, i_mode = S_IFDIR,
     i_atime = 0, i_mtime = 0, i_ctime = 0, i_size = 1024, i_blocks = 2, i_state = 0, i_count = 1,
     i_op = Ext4_Dir_Ops,
     i_private = Some \<lparr>ei_buf = 0, i_block = enc32 3 @ replicate 56 0, ei_flags = 0, i_alloc_group_hint = 0\<rparr>\<rparr>"

lemma demo_dir_tail: "drop 512 (mkdir_block 1024 12 2) = replicate 512 0"
  by code_simp

lemma demo_dir_read: "ext4_read_block demo_dir_fs 3 = Some (mkdir_block 1024 12 2)"
proof -
  have "length (take 512 (mkdir_block 1024 12 2)) = 512" using demo_dir_block(2) by simp
  then have "ext4_read_block demo_dir_fs 3 = Some (take 512 (mkdir_block 1024 12 2) @ replicate 512 0)"
    unfolding demo_dir_fs_def by (subst demo_read) (simp_all add: demo_disk_def)
  then show ?thesis using append_take_drop_id [of 512 "mkdir_block 1024 12 2"] by (simp add: demo_dir_tail)
qed

lemma demo_dir_words: "get32 (enc32 3 @ replicate 56 0) 0 = 3 \<and> get32 (enc32 3 @ replicate 56 0) 4 = 0"
  by code_simp

lemma demo_dir_layout: "dir_layout demo_dir_fs demo_dir (\<lambda>_. 3) 1"
  by (simp add: dir_layout_def direct_dir_def demo_dir_def get_iblock_def demo_dir_words)

lemma demo_dir_blockmap: "dir_blockmap demo_dir_fs demo_dir (\<lambda>_. 3) 1"
  using demo_dir_layout unfolding dir_blockmap_def ..

lemma demo_dir_entries:
  "dir_entries demo_dir_fs (\<lambda>_. 3) 0 1 = [([46], 12), ([46, 46], 2)]"
  "dir_on_disk demo_dir_fs (\<lambda>_. 3) 1" "dir_blocks_ok demo_dir_fs (\<lambda>_. 3) 1"
proof -
  have len: "length (take 512 (mkdir_block 1024 12 2)) = 512" using demo_dir_block(2) by simp
  have b: "fs_bsz demo_dir_fs = 1024" by (simp add: demo_dir_fs_def)
  show ok: "dir_blocks_ok demo_dir_fs (\<lambda>_. 3) 1"
    by (simp add: dir_blocks_ok_def demo_dir_read demo_dir_block b)
  show "dir_entries demo_dir_fs (\<lambda>_. 3) 0 1 = [([46], 12), ([46, 46], 2)]"
    by (simp add: dir_entries_def block_entries_def demo_dir_read demo_dir_block dot_name_def dotdot_name_def)
  show "dir_on_disk demo_dir_fs (\<lambda>_. 3) 1"
    using ok demo_io_ok [OF len] b by (simp add: dir_on_disk_def fs_addr_def demo_dir_fs_def inj_on_def)
qed

lemma demo_dir_bufs: "unat (ext4_block_size demo_dir_fs) \<le> BLOCK_SIZE" "2 \<le> pool_free_count (pool_dir demo_dir_fs)"
  by (simp_all add: demo_dir_fs_def demo_with_def pool_free_count_def)

definition linear_dir :: "inode \<Rightarrow> bool" where
  "linear_dir dir \<longleftrightarrow> (\<forall>ei. i_private dir = Some ei \<longrightarrow> ei_flags ei AND EXT4_INODE_FLAG_INDEX = 0)"

lemma demo_dir_linear: "linear_dir demo_dir"
  by (simp add: linear_dir_def demo_dir_def)

section \<open>The calls\<close>

text \<open>C5: Search is lookup: on a directory without hash index, whose blocks the inode names directly,
  through the single indirect block or through an extent tree of any depth, ext4_find_entry finds
  exactly the inode number its list of entries has for the name. It returns for every such directory
  and leaves the state, the pools of buffers included, as it was.\<close>

theorem find_entry_is_lookup:
  assumes "dir_blockmap s dir B n" "linear_dir dir" "dir_blocks_ok s B n" "name \<noteq> []" "length name \<le> 255"
    and "unat (ext4_block_size s) \<le> BLOCK_SIZE" "2 \<le> pool_free_count (pool_dir s)"
  shows "\<exists>r. ext4_find_entry s dir name = Some (r, s) \<and> map_option fst r = map_of (dir_entries s B 0 n) name"
  using assms whole.find_entry_spec [OF assms(1)] by (simp add: linear_dir_def)

theorem find_entry_is_lookup_witness:
  "\<exists>r. ext4_find_entry demo_dir_fs demo_dir [46, 46] = Some (r, demo_dir_fs) \<and> map_option fst r = Some 2"
  using find_entry_is_lookup [OF demo_dir_blockmap demo_dir_linear demo_dir_entries(3) _ _ demo_dir_bufs, of "[46, 46]"]
  unfolding demo_dir_entries(1) by simp


lemma demo_dir_room: "room_in demo_dir_fs 3 3"
  using demo_room by (auto simp: room_in_def demo_dir_read Let_def)


text \<open>C7: Removal from a directory: ext4_remove_entry takes the first entry of the name out of the list
  of entries and no other, and keeps the blocks well-formed; it fails, without any change, exactly
  when no entry has the name.\<close>

theorem remove_entry_deletes:
  assumes "dir_blockmap s dir B n" "dir_on_disk s B n" "name \<noteq> []" "length name < 2 ^ 16"
    and "unat (ext4_block_size s) \<le> BLOCK_SIZE" "2 \<le> pool_free_count (pool_dir s)"
  shows "if name \<in> fst ` set (dir_entries s B 0 n)
    then \<exists>d xs ino ys. ext4_remove_entry s dir name = Some (True, s\<lparr>g_disk := d\<rparr>) \<and>
      dir_on_disk (s\<lparr>g_disk := d\<rparr>) B n \<and> dir_entries s B 0 n = xs @ (name, ino) # ys \<and>
      name \<notin> fst ` set xs \<and> dir_entries (s\<lparr>g_disk := d\<rparr>) B 0 n = xs @ ys
    else ext4_remove_entry s dir name = Some (False, s)"
  using whole.remove_entry_spec [OF assms] unfolding entry_removed_def by (simp split: if_splits)

theorem remove_entry_deletes_witness:
  "\<exists>d. ext4_remove_entry demo_dir_fs demo_dir [46, 46] = Some (True, demo_dir_fs\<lparr>g_disk := d\<rparr>) \<and>
    dir_entries (demo_dir_fs\<lparr>g_disk := d\<rparr>) (\<lambda>_. 3) 0 1 = [([46], 12)]"
  using remove_entry_deletes [OF demo_dir_blockmap demo_dir_entries(2) _ _ demo_dir_bufs, of "[46, 46]"]
  unfolding demo_dir_entries(1) by (auto simp add: Cons_eq_append_conv)

text \<open>C25: Reading a directory from a position delivers the entries from that index on, each with its
  index as offset, until the callback refuses one; the new position is the index of the first
  entry not delivered, so reading on from there misses no entry and repeats none.\<close>

theorem readdir_delivers:
  assumes "dir_blockmap s dir B n" "dir_blocks_ok s B n"
    and "unat (ext4_block_size s) \<le> BLOCK_SIZE" "2 \<le> pool_free_count (pool_dir s)"
    and "unat pos \<le> length (dir_entries s B 0 n)" "length (dir_entries s B 0 n) < 2 ^ 63"
  shows "ext4_dir_readdir f s dir pos d =
    (case deliver f (drop (unat pos) (dir_entries s B 0 n)) pos d of (d', pos') \<Rightarrow> Some (True, d', pos', s))"
  using whole.foreach_spec [OF assms(1-4), of "ext4_readdir_fill f pos" "(d, 0)"]
    visit_fill [of 0 pos "dir_entries s B 0 n" f d] assms(5,6)
  by (simp add: ext4_dir_readdir_def split: prod.splits)

theorem readdir_delivers_witness:
  "ext4_dir_readdir (\<lambda>ns name off ino. (ns @ [name], False)) demo_dir_fs demo_dir 1 [] =
    Some (True, [[46, 46]], 2, demo_dir_fs)"
  using readdir_delivers [OF demo_dir_blockmap demo_dir_entries(3) demo_dir_bufs, of 1 "\<lambda>ns name off ino. (ns @ [name], False)" "[]"]
  unfolding demo_dir_entries(1) by simp

end
