(* ===== verification/Vfs_Calls.thy ===== *)
theory Vfs_Calls
  imports Vfs_Props Dir_Listing
begin

text \<open>
  What vfs_getdents promises to user programs: it stays within the buffer it is given. An invariant
  of the callback is one of the iterations below it, from the records of a block to the call.
\<close>

section \<open>vfs_getdents\<close>

lemma drop_further: "drop a xs = drop a ys \<Longrightarrow> a \<le> b \<Longrightarrow> drop b xs = drop b ys"
  by (metis drop_drop le_add_diff_inverse2)

text \<open>An invariant of the callback is an invariant of the iteration.\<close>

lemma foreach_in_block_inv:
  assumes step: "\<And>ctx name ino. I ctx \<Longrightarrow> length name \<le> 255 \<Longrightarrow> I (fst (f ctx name ino))"
  shows "I ctx \<Longrightarrow> I (fst (foreach_in_block f buf bs off ctx))"
proof (induction "bs - off" arbitrary: off ctx rule: less_induct)
  case less
  let ?de = "de_get buf off"
  let ?name = "de_name buf off (unat (de_name_len ?de))"
  have I1: "I (fst (f ctx ?name (de_inode ?de)))"
    using unat_u8_bound [of "de_name_len ?de"] by (intro step less.prems) (simp add: de_name_def min_def)
  have IH: "I (fst (foreach_in_block f buf bs (off + unat (de_rec_len ?de)) c))"
    if "off < bs" "de_rec_len ?de \<noteq> 0" "I c" for c
  proof (rule less.hyps [OF _ that(3)])
    have "0 < unat (de_rec_len ?de)" using that(2) by (simp add: unat_gt_0)
    then show "bs - (off + unat (de_rec_len ?de)) < bs - off" using that(1) by simp
  qed
  show ?case
    using IH I1 less.prems
    by (subst foreach_in_block.simps) (auto simp: Let_def not_le split: prod.splits)
qed

lemma foreach_blocks_inv:
  assumes step: "\<And>ctx name ino. I ctx \<Longrightarrow> length name \<le> 255 \<Longrightarrow> I (fst (f ctx name ino))"
  shows "I ctx \<Longrightarrow> foreach_blocks f s dir k ctx = Some (r, ctx', s') \<Longrightarrow> I ctx'"
proof (induction "2 ^ 32 - k" arbitrary: s k ctx rule: less_induct)
  case less
  obtain b s1 where g: "ext4_dir_get_blocknr s dir (of_nat k) = (b, s1)" by fastforce
  have k: "k < 2 ^ 32" using less.prems(2) by (subst (asm) foreach_blocks.simps) (simp split: if_splits)
  show ?case
  proof (cases "\<exists>blocknr buf c. b = Some blocknr \<and> ext4_read_block s1 blocknr = Some buf \<and>
      foreach_in_block f buf (unat (ext4_get_block_size s)) 0 ctx = (c, Scan_None)")
    case True
    then obtain blocknr buf c where B: "b = Some blocknr" "ext4_read_block s1 blocknr = Some buf"
      "foreach_in_block f buf (unat (ext4_get_block_size s)) 0 ctx = (c, Scan_None)" by blast
    have "I c" using foreach_in_block_inv [of I f, OF step less.prems(1), of buf "unat (ext4_get_block_size s)" 0] B(3) by simp
    moreover have "foreach_blocks f s1 dir (Suc k) c = Some (r, ctx', s')"
      using less.prems(2) g B k by (subst (asm) foreach_blocks.simps) simp
    ultimately show ?thesis using less.hyps [of "Suc k" c s1] k by simp
  next
    case False
    have "I (fst (foreach_in_block f buf (unat (ext4_get_block_size s)) 0 ctx))" for buf
      by (rule foreach_in_block_inv [of I f, OF step less.prems(1)])
    note J = this
    show ?thesis
    proof (cases "\<exists>blocknr buf. b = Some blocknr \<and> ext4_read_block s1 blocknr = Some buf")
      case True
      then obtain blocknr buf where B: "b = Some blocknr" "ext4_read_block s1 blocknr = Some buf" by blast
      obtain c x where x: "foreach_in_block f buf (unat (ext4_get_block_size s)) 0 ctx = (c, x)" by fastforce
      have "x \<noteq> Scan_None" using False B x by blast
      then have "ctx' = c" using less.prems(2) g k B x
        by (subst (asm) foreach_blocks.simps) (auto split: scan_result.splits)
      then show ?thesis using J [of buf] x by simp
    next
      case False
      then have "ctx' = ctx" using less.prems(2) g k
        by (subst (asm) foreach_blocks.simps) (auto split: option.splits)
      then show ?thesis using less.prems(1) by simp
    qed
  qed
qed

lemma readdir_inv:
  assumes step: "\<And>ctx name off ino. I ctx \<Longrightarrow> length name \<le> 255 \<Longrightarrow> I (fst (f ctx name off ino))"
    and I: "I ctx" and r: "ext4_dir_readdir f s node pos ctx = Some (ok, ctx', pos', s')"
  shows "I ctx'"
proof -
  let ?g = "ext4_readdir_fill f pos"
  have st: "I (fst (fst (?g c name ino)))" if "I (fst c)" "length name \<le> 255" for c name ino
    using step [OF that] that(1)
    by (auto simp: ext4_readdir_fill_def split: prod.splits) (metis fst_conv)+
  obtain off where e: "ext4_dir_foreach ?g s node (ctx, 0) = Some (ok, (ctx', off), s')"
    using r by (auto simp: ext4_dir_readdir_def split: bind_splits)
  then show ?thesis
    using foreach_blocks_inv [of "\<lambda>c. I (fst c)" ?g, OF st, of "(ctx, 0)"] I
    by (auto simp: ext4_dir_foreach_def split: if_splits prod.splits option.splits bind_splits)
qed

definition getdents_ok :: "bytes \<Rightarrow> u32 \<Rightarrow> getdents_context \<Rightarrow> bool" where
  "getdents_ok dirent cnt p \<longleftrightarrow> length (gc_buf p) = length dirent \<and> gc_count p = cnt \<and>
     unat (gc_written p) \<le> unat cnt \<and> 4 dvd unat (gc_written p) \<and>
     drop (unat (gc_written p)) (gc_buf p) = drop (unat (gc_written p)) dirent \<and>
     gc_error p \<in> {0, EINVAL_neg}"

lemma filldir_getdents_ok:
  assumes ok: "getdents_ok dirent cnt p" and n: "length name \<le> 255"
    and room: "unat cnt \<le> length dirent" "unat cnt + 300 \<le> 2 ^ 32"
  shows "getdents_ok dirent cnt (fst (filldir_getdents p name off ino))"
proof -
  let ?w = "unat (gc_written p)" and ?r = "dirent_reclen (length name)"
  have r: "?r \<le> 271" "11 + length name \<le> ?r" "4 dvd ?r" using n by (auto simp: dirent_reclen_def)
  have ur: "unat (of_nat ?r :: u32) = ?r" using r(1) by (intro unat_of_nat_fit) simp
  have w: "unat (gc_written p + of_nat ?r) = ?w + ?r"
    using ok r(1) room(2) ur by (subst unat_add_nowrap) (simp_all add: getdents_ok_def)
  let ?rec = "enc32 ino @ enc32 (ucast off) @ enc16 (ucast (of_nat ?r :: u32)) @ name @ [0]"
  show ?thesis
  proof (cases "gc_written p + of_nat ?r > gc_count p")
    case True
    then show ?thesis using ok by (auto simp: filldir_getdents_def getdents_ok_def Let_def)
  next
    case False
    then have le: "?w + ?r \<le> unat cnt" using ok w by (simp add: getdents_ok_def word_less_nat_alt)
    have len: "length ?rec = 11 + length name" by simp
    have fit: "?w + length ?rec \<le> length (gc_buf p)" using ok le r(2) room(1) len by (simp add: getdents_ok_def)
    have "drop (?w + ?r) (bsplice ?w ?rec (gc_buf p)) = drop (?w + ?r) (gc_buf p)"
    proof (rule nth_equalityI)
      show "length (drop (?w + ?r) (bsplice ?w ?rec (gc_buf p))) = length (drop (?w + ?r) (gc_buf p))"
        using fit by simp
    qed (use fit r(2) len in \<open>simp add: nth_bsplice\<close>)
    also have "\<dots> = drop (?w + ?r) dirent"
      by (rule drop_further [of ?w]) (use ok in \<open>simp_all add: getdents_ok_def\<close>)
    finally have "drop (?w + ?r) (bsplice ?w ?rec (gc_buf p)) = drop (?w + ?r) dirent" .
    moreover have "4 dvd ?w + ?r" using ok r(3) by (simp add: getdents_ok_def)
    ultimately show ?thesis
      using ok False fit le w by (simp add: filldir_getdents_def getdents_ok_def Let_def)
  qed
qed

text \<open>C26: vfs_getdents stays within the buffer: it returns an error or a number of bytes that is at most
  the size it was given and a multiple of 4, and no byte of the buffer behind that number of bytes
  has changed.\<close>

theorem getdents_stays_in_buffer:
  assumes "unat cnt \<le> length dirent" "unat cnt + 300 \<le> 2 ^ 32"
    and "vfs_getdents fd dirent cnt v = Some (r, buf, v')"
  shows "length buf = length dirent \<and> r \<le> int (unat cnt) \<and>
    drop (unat cnt) buf = drop (unat cnt) dirent \<and>
    (0 \<le> r \<longrightarrow> 4 dvd nat r \<and> drop (nat r) buf = drop (nat r) dirent)"
proof (cases "\<exists>f. fd_file fd v = Some f \<and> f_op f = Ext4_Dir_Ops")
  case False
  then have "buf = dirent" "r < 0" using assms(3) by (auto simp: vfs_getdents_def split: option.splits if_splits)
  moreover have "(0 :: int) \<le> int (unat cnt)" by simp
  ultimately show ?thesis by (simp add: order.strict_implies_order [OF less_le_trans])
next
  case True
  let ?ctx = "\<lparr>gc_buf = dirent, gc_count = cnt, gc_written = 0, gc_error = 0\<rparr>"
  from True obtain f where f: "fd_file fd v = Some f" "f_op f = Ext4_Dir_Ops" by blast
  obtain k where k: "f_inode f = Some k" using assms(3) f by (cases "f_inode f") (simp_all add: vfs_getdents_def)
  obtain ok ctx pos fs where R: "ext4_dir_readdir filldir_getdents (v_fs v) (v_inode v k) (f_pos f) ?ctx = Some (ok, ctx, pos, fs)"
    using assms(3) f k by (cases "ext4_dir_readdir filldir_getdents (v_fs v) (v_inode v k) (f_pos f) ?ctx")
      (auto simp: vfs_getdents_def)
  have res: "buf = gc_buf ctx" "gc_error ctx < 0 \<and> r = gc_error ctx \<or> r = - 1 \<or> r = int (unat (gc_written ctx))"
    using assms(3) f k R by (simp_all add: vfs_getdents_def Let_def split: if_splits)
  have I: "getdents_ok dirent cnt ctx"
    by (rule readdir_inv [where I = "getdents_ok dirent cnt", OF filldir_getdents_ok [OF _ _ assms(1,2)] _ R])
      (simp_all add: getdents_ok_def)
  let ?w = "unat (gc_written ctx)"
  have "drop (unat cnt) (gc_buf ctx) = drop (unat cnt) dirent"
    by (rule drop_further [of ?w]) (use I in \<open>simp_all add: getdents_ok_def\<close>)
  moreover have "r \<le> int (unat cnt)"
  proof -
    have "int ?w \<le> int (unat cnt)" using I by (simp only: getdents_ok_def of_nat_le_iff)
    moreover have "(0 :: int) \<le> int (unat cnt)" by simp
    ultimately show ?thesis using res(2) by linarith
  qed
  moreover have "0 \<le> r \<Longrightarrow> r = int ?w" using res(2) by linarith
  ultimately show ?thesis using I res(1) by (auto simp: getdents_ok_def)
qed

text \<open>A table with the demonstration directory open as descriptor 0.\<close>

definition demo_open_dir :: vfs where
  "demo_open_dir = demo_vfs\<lparr>v_fs := demo_dir_fs, v_inodes := [demo_dir],
     v_files := [blank_file\<lparr>f_inode := Some 0, f_op := Ext4_Dir_Ops\<rparr>]\<rparr>"

lemma demo_getdents:
  "\<exists>buf v. vfs_getdents 0 (replicate 64 0) 64 demo_open_dir = Some (32, buf, v)"
proof -
  let ?c = "\<lparr>gc_buf = replicate 64 0, gc_count = 64, gc_written = 0, gc_error = 0\<rparr>"
  let ?es = "[([46], 12), ([46, 46], 2)] :: (bytes \<times> u32) list"
  obtain c where c: "deliver filldir_getdents ?es 0 ?c = (c, 2)" "gc_written c = 32" "gc_error c = 0"
    by (simp add: filldir_getdents_def dirent_reclen_def)
  have vis: "fst (visit (ext4_readdir_fill filldir_getdents 0) ?es (?c, 0)) = (c, 2)"
    using visit_fill [of 0 0 ?es filldir_getdents ?c] c(1) by simp
  have r: "ext4_dir_readdir filldir_getdents demo_dir_fs demo_dir 0 ?c = Some (True, c, 2, demo_dir_fs)"
    using whole.foreach_spec [OF demo_dir_blockmap demo_dir_entries(3) demo_dir_bufs,
        of "ext4_readdir_fill filldir_getdents 0" "(?c, 0)"]
    unfolding demo_dir_entries(1) vis by (simp add: ext4_dir_readdir_def)
  have f: "fd_file 0 demo_open_dir = Some (blank_file\<lparr>f_inode := Some 0, f_op := Ext4_Dir_Ops\<rparr>)"
    "v_inode demo_open_dir 0 = demo_dir" "v_fs demo_open_dir = demo_dir_fs"
    by (simp_all add: fd_file_def MAX_FD_def demo_open_dir_def demo_vfs_def v_inode_def)
  show ?thesis using r f c by (simp add: vfs_getdents_def blank_file_def Let_def)
qed

theorem getdents_stays_in_buffer_witness:
  "\<exists>buf v. vfs_getdents 0 (replicate 64 0) 64 demo_open_dir = Some (32, buf, v) \<and> drop 32 buf = replicate 32 0"
proof -
  obtain buf v where r: "vfs_getdents 0 (replicate 64 0) 64 demo_open_dir = Some (32, buf, v)"
    using demo_getdents by blast
  from getdents_stays_in_buffer [OF _ _ r] have "drop 32 buf = replicate 32 0" by simp
  with r show ?thesis by blast
qed

end
