(* ===== verification/Vfs_Files.thy ===== *)
theory Vfs_Files
  imports Vfs_Props
begin

text \<open>
  The table of open files: nothing below the calls touches it, so vfs_open changes one descriptor,
  the lowest unused one, or none.
\<close>

section \<open>What leaves the table alone\<close>

definition fds :: "vfs \<Rightarrow> vfs_file list \<times> bool list" where
  "fds v = (v_files v, v_fd_used v)"

lemma fds_updates [simp]:
  "fds (v\<lparr>v_fs := a\<rparr>) = fds v" "fds (v\<lparr>v_inodes := b\<rparr>) = fds v" "fds (v\<lparr>v_dentries := c\<rparr>) = fds v"
  "fds (v\<lparr>v_dused := d\<rparr>) = fds v" "fds (v\<lparr>v_super := e\<rparr>) = fds v" "fds (v\<lparr>v_root_sb := f\<rparr>) = fds v"
  "fds (v\<lparr>v_sb_listed := g\<rparr>) = fds v" "fds (v\<lparr>v_cwd := h\<rparr>) = fds v"
  by (simp_all add: fds_def)

lemma fds_dcache [simp]:
  "fds (v_upd_dentry i f v) = fds v" "fds (v_put_inode n v) = fds v" "fds (dget i v) = fds v"
  "fds (d_unlink_child i v) = fds v" "fds (d_drop_inode i v) = fds v" "fds (d_kill i v) = fds v"
  "fds (snd (d_alloc p q v)) = fds v" "fds (snd (d_lookup j q v)) = fds v" "fds (d_link_child i v) = fds v"
  by (simp_all add: v_upd_dentry_def v_put_inode_def dget_def d_unlink_child_def d_drop_inode_def d_kill_def
      d_alloc_def d_lookup_def d_link_child_def Let_def split: option.splits)

lemma fds_instantiate [simp]: "fds (d_instantiate i n v) = fds v"
  by (simp add: d_instantiate_def Let_def split: option.splits)

lemma fds_dput [simp]: "fds (dput i v) = fds v"
proof (induction i v rule: dput.induct)
  case (1 i v)
  then show ?case by (subst dput.simps) (simp add: Let_def split: option.splits)
qed

lemma fds_alloc: "d_alloc p q v = (r, w) \<Longrightarrow> fds w = fds v"
  using fds_dcache(7) [of p q v] by simp

lemma fds_lookup: "d_lookup j q v = (r, w) \<Longrightarrow> fds w = fds v"
  using fds_dcache(8) [of j q v] by simp

lemma fds_op_lookup: "op_lookup dir c v = Some w \<Longrightarrow> fds w = fds v"
  by (auto simp: op_lookup_def Let_def split: bind_splits option.splits)

lemma fds_lookup_child:
  assumes "lookup_child cur dir name v = Some (r, w)"
  shows "fds w = fds v"
proof -
  obtain a v1 where l: "d_lookup cur (qstr_init name) v = (a, v1)" by fastforce
  obtain b v2 where m: "d_alloc (Some cur) (qstr_init name) v1 = (b, v2)" by fastforce
  show ?thesis
    using assms l m fds_lookup [OF l] fds_alloc [OF m] fds_op_lookup
    by (auto simp: lookup_child_def split: option.splits bind_splits)
qed

lemma fds_walk_step: "walk_step cur name v = Some (r, w) \<Longrightarrow> fds w = fds v"
  using fds_lookup_child
  by (auto simp: walk_step_def split: if_splits option.splits bind_splits)

lemma fds_walk: "walk cur p v = Some (r, w) \<Longrightarrow> fds w = fds v"
proof (induction cur p v rule: walk.induct)
  case (1 cur p v)
  show ?case
  proof (cases "next_component p")
    case None
    then show ?thesis using "1.prems" by (simp add: walk.simps)
  next
    case (Some nr)
    obtain name rest where nr: "nr = (name, rest)" by fastforce
    obtain a v1 where s: "walk_step cur name v = Some (a, v1)"
      using "1.prems" Some nr by (subst (asm) walk.simps) (auto split: option.splits)
    note f = fds_walk_step [OF s]
    show ?thesis
    proof (cases a)
      case None
      then show ?thesis using "1.prems" Some nr s f by (subst (asm) walk.simps) simp
    next
      case (Some c)
      have "fds w = fds v1" if "skip_slashes rest \<noteq> []" "walk c (skip_slashes rest) v1 = Some (r, w)"
        using "1.IH" \<open>next_component p = Some nr\<close> nr s Some that by blast
      then show ?thesis using "1.prems" \<open>next_component p = Some nr\<close> nr s Some f
        by (subst (asm) (2) walk.simps) (auto simp: Let_def split: if_splits)
    qed
  qed
qed

lemma fds_path_lookup: "vfs_path_lookup d p v = Some (r, w) \<Longrightarrow> fds w = fds v"
  by (auto simp: vfs_path_lookup_def Let_def split: option.splits if_splits dest!: fds_walk)

lemma fds_lookup_target: "lookup_target p cwd v = Some (r, w) \<Longrightarrow> fds w = fds v"
  by (auto simp: lookup_target_def vfs_lookup_root_def split: option.splits if_splits dest!: fds_path_lookup)

lemma fds_enter: "vfs_enter b v = (r, w) \<Longrightarrow> fds w = fds v \<and> (\<forall>e. r = Inl e \<longrightarrow> e < 0)"
  by (auto simp: vfs_enter_def vfs_get_root_sb_def vfs_get_cwd_dentry_def split: if_splits option.splits)

lemma fds_create_parent:
  "create_parent b p root cwd v = Some (r, w) \<Longrightarrow> fds w = fds v \<and> (\<forall>e. r = Inl e \<longrightarrow> e < 0)"
  by (auto simp: create_parent_def split: if_splits option.splits bind_splits prod.splits dest!: fds_path_lookup)

lemma fds_op_new: "op_new f dir d mode v = Some (r, w) \<Longrightarrow> fds w = fds v"
  by (auto simp: op_new_def Let_def split: bind_splits option.splits)

section \<open>vfs_open\<close>

lemma fds_open_create:
  assumes "open_create path mode root cwd v = Some (r, w)"
  shows "fds w = fds v \<and> (\<forall>e. r = Inl e \<longrightarrow> e < 0)"
proof (cases "path = None \<or> path = Some []")
  case True
  then show ?thesis using assms by (auto simp: open_create_def)
next
  case False
  then obtain p where p: "path = Some p" "p \<noteq> []" by (cases path) auto
  obtain q v1 where c: "create_parent False p root cwd v = Some (q, v1)"
    using assms p by (auto simp: open_create_def split: bind_splits)
  note f1 = fds_create_parent [OF c]
  show ?thesis
  proof (cases q)
    case (Inl e)
    then show ?thesis using assms p c f1 by (auto simp: open_create_def)
  next
    case (Inr t)
    obtain parent b name where t: "t = (parent, b, name)" by (cases t)
    have o: "(case d_inode (v_dentry v1 parent) of
        None \<Rightarrow> Some (Inl EINVAL_neg, v1)
      | Some dir \<Rightarrow>
          if i_op (v_inode v1 dir) \<noteq> Ext4_Dir_Ops then Some (Inl EINVAL_neg, v1)
          else do {
            name \<leftarrow> name_buf name;
            case d_alloc (Some parent) (qstr_init name) v1 of
              (None, v2) \<Rightarrow> Some (Inl ENOMEM_neg, v2)
            | (Some dentry, v2) \<Rightarrow> do {
                (cr, v3) \<leftarrow> op_new ext4_create dir dentry (ucast mode) v2;
                Some (if cr \<noteq> 0
                      then (Inl (if cr < 0 then (if cr = - 1 then EIO_neg else cr) else EIO_neg), dput dentry v3)
                      else (Inr dentry, v3))
              }
          }) = Some (r, w)"
      using assms p c Inr t by (simp add: open_create_def)
    then show ?thesis using f1 fds_alloc fds_op_new
      by (auto split: option.splits if_splits bind_splits prod.splits)
  qed
qed

text \<open>The part of vfs_open before the table: an error, or the dentry to open.\<close>

lemma fds_open_target: "open_target path root cwd v = Some (r, w) \<Longrightarrow> fds w = fds v"
  by (auto simp: open_target_def split: option.splits if_splits dest!: fds_lookup_target)

lemma fds_open_file:
  assumes "open_file fd target flags mode v = Some (r, w)"
  shows "r = int fd \<and> v_fd_used w = (v_fd_used v)[fd := True] \<and>
    (\<exists>f. v_files w = (v_files v)[fd := f] \<and> f_pos f = 0 \<and> f_flags f = flags \<and> f_path_dentry f = Some target)"
  using assms by (auto simp: open_file_def blank_file_def Let_def split: bind_splits if_splits)

text \<open>C27: vfs_open hands out the lowest unused descriptor, and only that entry of the table changes: it
  gets a file at position 0 with the flags of the call. Every failure is a negative number and
  leaves the table as it was; a full table gives EMFILE and no change at all.\<close>

theorem open_takes_lowest_descriptor:
  assumes "vfs_open path flags mode v = Some (r, w)"
  shows "(if r < 0 then v_files w = v_files v \<and> v_fd_used w = v_fd_used v
    else nat r < length (v_fd_used v) \<and> \<not> v_fd_used v ! nat r \<and> (\<forall>i < nat r. v_fd_used v ! i) \<and>
      v_fd_used w = (v_fd_used v)[nat r := True] \<and>
      (\<exists>f. v_files w = (v_files v)[nat r := f] \<and> f_pos f = 0 \<and> f_flags f = flags)) \<and>
    ((\<forall>used \<in> set (v_fd_used v). used) \<longrightarrow> r = EMFILE_neg \<and> w = v)"
proof (cases "first_unused (v_fd_used v)")
  case None
  then show ?thesis using assms by (simp add: vfs_open_def)
next
  case (Some fd)
  then have nf: "\<not> (\<forall>used \<in> set (v_fd_used v). used)" using first_unused_None_iff [of "v_fd_used v"] by auto
  obtain q v1 where e: "vfs_enter False v = (q, v1)" by fastforce
  note f1 = fds_enter [OF e]
  show ?thesis
  proof (cases q)
    case (Inl err)
    then show ?thesis using assms Some e f1 nf by (auto simp: vfs_open_def fds_def)
  next
    case (Inr rc)
    obtain root cwd where rc: "rc = (root, cwd)" by fastforce
    obtain d v2 where t: "open_target path root cwd v1 = Some (d, v2)"
      using assms Some e Inr rc by (auto simp: vfs_open_def split: bind_splits)
    let ?c = "case d of
        Some d \<Rightarrow>
          if d_inode (v_dentry v2 d) \<noteq> None then Some (Inr d, v2)
          else if flags AND O_CREAT \<noteq> 0 then open_create path mode root cwd v2
          else Some (Inl ENOENT_neg, v2)
      | None \<Rightarrow>
          if flags AND O_CREAT \<noteq> 0 then open_create path mode root cwd v2
          else Some (Inl ENOENT_neg, v2)"
    obtain u v3 where c: "?c = Some (u, v3)"
      and o: "(case u of Inl e \<Rightarrow> Some (e, v3) | Inr target \<Rightarrow> open_file fd target flags mode v3) = Some (r, w)"
      using assms Some e Inr rc t by (auto simp: vfs_open_def split: bind_splits)
    have f3: "fds v3 = fds v \<and> (\<forall>e. u = Inl e \<longrightarrow> e < 0)"
      using c f1 fds_open_target [OF t] fds_open_create by (auto split: option.splits if_splits)
    show ?thesis
    proof (cases u)
      case (Inl err)
      then show ?thesis using o f3 nf by (auto simp: fds_def)
    next
      case (Inr target)
      then have "open_file fd target flags mode v3 = Some (r, w)" using o by simp
      from fds_open_file [OF this] show ?thesis
        using f3 nf first_unused_SomeD [OF Some] by (auto simp: fds_def)
    qed
  qed
qed

theorem open_takes_lowest_descriptor_witness:
  "\<exists>w. vfs_open (Some [slash, 97]) 0 0 demo_vfs = Some (1, w) \<and> v_fd_used w = [True, True, False]"
proof -
  have "\<exists>w. vfs_open (Some [slash, 97]) 0 0 demo_vfs = Some (1, w)"
    by (simp add: vfs_open_def vfs_enter_def vfs_get_root_sb_def vfs_get_cwd_dentry_def open_target_def lookup_target_def
        vfs_lookup_root_def vfs_path_lookup_def demo_vfs_def v_dentry_def demo_dentry_def walk.simps next_component_def
        skip_slashes_def walk_step_def has_lookup_def v_inode_def name_buf_def lookup_child_def d_lookup_def
        qstr_init_def dget_def v_upd_dentry_def open_file_def dput.simps Let_def)
  then obtain w where w: "vfs_open (Some [slash, 97]) 0 0 demo_vfs = Some (1, w)" ..
  from open_takes_lowest_descriptor [OF w] have "v_fd_used w = (v_fd_used demo_vfs)[1 := True]" by simp
  with w show ?thesis by (auto simp: demo_vfs_def)
qed

section \<open>vfs_getcwd\<close>

text \<open>The dentries from the current directory up to, and without, the root, and the path they spell.\<close>

fun up_chain :: "vfs \<Rightarrow> nat \<Rightarrow> nat list \<Rightarrow> nat \<Rightarrow> bool" where
  "up_chain v root [] d \<longleftrightarrow> d = root"
| "up_chain v root (x # xs) d \<longleftrightarrow> d = x \<and> x \<noteq> root \<and> d_name (v_dentry v x) \<noteq> [] \<and>
     (case d_parent (v_dentry v x) of None \<Rightarrow> False | Some p \<Rightarrow> up_chain v root xs p)"

definition chain_path :: "vfs \<Rightarrow> nat list \<Rightarrow> bytes" where
  "chain_path v ds = concat (map (\<lambda>d. slash # d_name (v_dentry v d)) (rev ds))"

lemma cwd_loop_spec:
  "up_chain v root ds d \<Longrightarrow> 0 < pos \<Longrightarrow>
   cwd_loop v root (Some d) pos path =
     (if length (chain_path v ds) < pos then Inr (chain_path v ds @ path) else Inl ERANGE_neg)"
proof (induction ds arbitrary: d pos path)
  case Nil
  then show ?case by (simp add: cwd_loop.simps chain_path_def)
next
  case (Cons x xs)
  then obtain p where p: "d = x" "x \<noteq> root" "d_name (v_dentry v x) \<noteq> []" "d_parent (v_dentry v x) = Some p" "up_chain v root xs p"
    by (auto split: option.splits)
  have cp: "chain_path v (x # xs) = chain_path v xs @ slash # d_name (v_dentry v x)" by (simp add: chain_path_def)
  show ?case
  proof (cases "pos \<le> length (d_name (v_dentry v x)) + 1")
    case True
    then show ?thesis using p by (subst cwd_loop.simps) (simp add: cp)
  next
    case False
    then show ?thesis using p Cons.IH [OF p(5), of "pos - (length (d_name (v_dentry v x)) + 1)"]
      by (subst cwd_loop.simps) (auto simp: cp Let_def)
  qed
qed

text \<open>C30: vfs_getcwd spells the path: the names on the way from the root to the current directory, each
  after a slash, or a single slash at the root. It gives ERANGE exactly when the path does not
  leave two bytes of the buffer, one more than its NUL needs, and the walk always ends.\<close>

theorem getcwd_spells_path:
  assumes "2 \<le> buf_len" "vfs_enter False v = (Inr (root, cwd), w)" "up_chain w root ds cwd"
  shows "vfs_getcwd buf_len v =
    (if cwd = root then Inr [slash]
     else if int (length (chain_path w ds)) + 2 \<le> buf_len then Inr (chain_path w ds) else Inl ERANGE_neg, w)"
proof -
  have "length (chain_path w ds) < nat (buf_len - 1) \<longleftrightarrow> int (length (chain_path w ds)) + 2 \<le> buf_len" by linarith
  then show ?thesis
    using assms(1,2) cwd_loop_spec [OF assms(3), of "nat (buf_len - 1)" "[]"] by (auto simp: vfs_getcwd_def)
qed

theorem getcwd_spells_path_witness:
  "fst (vfs_getcwd 4 demo_vfs) = Inr [slash, 97] \<and> fst (vfs_getcwd 3 demo_vfs) = Inl ERANGE_neg"
proof -
  have e: "vfs_enter False demo_vfs = (Inr (0, 1), demo_vfs)"
    by (simp add: vfs_enter_def vfs_get_root_sb_def vfs_get_cwd_dentry_def demo_vfs_def)
  have c: "up_chain demo_vfs 0 [1] 1" "chain_path demo_vfs [1] = [slash, 97]"
    by (simp_all add: chain_path_def demo_vfs_def v_dentry_def demo_dentry_def)
  show ?thesis using getcwd_spells_path [OF _ e c(1), of 4] getcwd_spells_path [OF _ e c(1), of 3] c(2) by simp
qed

end
