(* ===== verification/Numfmt.thy ===== *)
theory Numfmt
  imports Prelude
begin

text \<open>
  Numbers as text, lib/numfmt.cpp, and the shell's parser of decimal numbers, parse_u64_10 of
  kernel/cmds.cpp. A function that fills a buffer returns the bytes before the NUL it writes, or
  None when the buffer is too small to be touched; a buffer size is an int. unsigned long has 32
  bits on the target.
\<close>

abbreviation (input) ch0 :: u8 where "ch0 \<equiv> 48"

section \<open>Printing\<close>

text \<open>The digits in tmp, the lowest first, and at most room of them.\<close>

fun dec_tmp :: "nat \<Rightarrow> u32 \<Rightarrow> bytes" where
  "dec_tmp 0 v = []"
| "dec_tmp (Suc room) v = (if v = 0 then [] else (ch0 + ucast (v mod 10)) # dec_tmp room (v div 10))"

definition u32_to_dec :: "int \<Rightarrow> u32 \<Rightarrow> bytes option" where
  "u32_to_dec buf_size v =
     (if buf_size \<le> 1 then None
      else let tmp = (if v = 0 then [ch0] else dec_tmp 16 v);
               pos = (if int (length tmp) \<ge> buf_size then nat (buf_size - 1) else length tmp)
        in Some (rev (take pos tmp)))"

text \<open>The subtraction loop of one digit: the digit, which is a uint8_t, and the rest.\<close>

function sub_loop :: "u64 \<Rightarrow> u64 \<Rightarrow> u8 \<Rightarrow> u8 \<times> u64" where
  "sub_loop p v d = (if p = 0 \<or> v < p then (d, v) else sub_loop p (v - p) (d + 1))"
  by pat_completeness auto
termination
proof (relation "measure (\<lambda>(p, v, d). unat v)")
  fix p v :: u64 and d :: u8
  assume "\<not> (p = 0 \<or> v < p)"
  then have "0 < unat p" "unat p \<le> unat v" by (simp_all add: unat_gt_0 word_le_nat_alt not_less)
  then show "((p, v - p, d + 1), p, v, d) \<in> measure (\<lambda>(p, v, d). unat v)"
    by (simp add: unat_sub_le word_le_nat_alt)
qed simp

declare sub_loop.simps [simp del]

definition pow10 :: "u64 list" where
  "pow10 = map (\<lambda>i. 10 ^ (19 - i)) [0..<20]"

text \<open>The loop over pow10, from the power i on; out is what is in the buffer so far.\<close>

fun dec_loop :: "int \<Rightarrow> u64 list \<Rightarrow> u64 \<Rightarrow> bool \<Rightarrow> bytes \<Rightarrow> bytes" where
  "dec_loop buf_size [] v started out = out"
| "dec_loop buf_size (p # ps) v started out =
     (case sub_loop p v 0 of (d, v') \<Rightarrow>
        if d \<noteq> 0 \<or> started \<or> ps = []
        then dec_loop buf_size ps v' True (if int (length out) < buf_size - 1 then out @ [ch0 + d] else out)
        else dec_loop buf_size ps v' started out)"

definition u64_to_dec :: "int \<Rightarrow> u64 \<Rightarrow> bytes option" where
  "u64_to_dec buf_size v = (if buf_size \<le> 1 then None else Some (dec_loop buf_size pow10 v False []))"

section \<open>Sizes\<close>

text \<open>The unit loop: at most four shifts by ten bits; the whole part, the last remainder, the unit.\<close>

fun unit_loop :: "nat \<Rightarrow> u32 \<Rightarrow> u32 \<Rightarrow> nat \<Rightarrow> u32 \<times> u32 \<times> nat" where
  "unit_loop 0 whole rem unit = (whole, rem, unit)"
| "unit_loop (Suc k) whole rem unit =
     (if whole \<ge> 1024 then unit_loop k (drop_bit 10 whole) (whole AND 1023) (Suc unit) else (whole, rem, unit))"

text \<open>B, K, M, G, T\<close>

definition size_units :: bytes where
  "size_units = [66, 75, 77, 71, 84]"

definition readable_size :: "u32 \<Rightarrow> int \<Rightarrow> bytes option" where
  "readable_size size_v buf_size =
     (case unit_loop 4 size_v 0 0 of (whole, rem, unit) \<Rightarrow>
        if buf_size \<le> 1 then None
        else if unit = 0
        then let num = the (u32_to_dec 16 whole); j = min (length num) (nat (buf_size - 2)) in
          Some (if int j < buf_size - 1 then take j num @ [size_units ! unit] else take j num)
        else let decimal0 = drop_bit 10 (rem * 10 + 512);
                 whole1 = (if decimal0 \<ge> 10 then whole + 1 else whole);
                 decimal = (if decimal0 \<ge> 10 then 0 else decimal0);
                 out0 = take (nat (buf_size - 1)) (the (u32_to_dec 16 whole1));
                 out1 = (if decimal \<noteq> 0 \<and> int (length out0) < buf_size - 2
                         then out0 @ [46, ch0 + ucast decimal] else out0);
                 out2 = (if int (length out1) < buf_size - 1 then out1 @ [size_units ! unit] else out1)
          in Some (take (nat (buf_size - 1)) out2))"

section \<open>Parsing\<close>

datatype parse_result = PARSE_U64_OK u64 | PARSE_U64_EMPTY | PARSE_U64_INVALID | PARSE_U64_OVERFLOW

fun parse_loop :: "bytes \<Rightarrow> u64 \<Rightarrow> parse_result" where
  "parse_loop [] v = PARSE_U64_OK v"
| "parse_loop (c # cs) v =
     (if 48 \<le> c \<and> c \<le> 57
      then let d = ucast (c - ch0) in
        if v > 1844674407370955161 \<or> (v = 1844674407370955161 \<and> d > 5) then PARSE_U64_OVERFLOW
        else parse_loop cs (push_bit 3 v + push_bit 1 v + d)
      else PARSE_U64_INVALID)"

definition parse_u64_10 :: "bytes option \<Rightarrow> parse_result" where
  "parse_u64_10 s =
     (case s of None \<Rightarrow> PARSE_U64_EMPTY
      | Some cs \<Rightarrow> if cs = [] then PARSE_U64_EMPTY else parse_loop cs 0)"

end
