(* ===== verification/Numfmt_Props.thy ===== *)
theory Numfmt_Props
  imports Numfmt
begin

text \<open>
  Printing and parsing numbers are inverse: the digits that the two printers write have the value
  of the number, and the parser reads the value of its digits or reports that it does not fit.
\<close>

section \<open>The value of a string of digits\<close>

definition is_digit :: "u8 \<Rightarrow> bool" where
  "is_digit c \<longleftrightarrow> 48 \<le> c \<and> c \<le> 57"

fun dec_value :: "nat \<Rightarrow> bytes \<Rightarrow> nat" where
  "dec_value a [] = a"
| "dec_value a (c # cs) = dec_value (10 * a + unat (c - ch0)) cs"

lemma dec_value_append [simp]: "dec_value a (xs @ ys) = dec_value (dec_value a xs) ys"
  by (induction xs arbitrary: a) simp_all

lemma dec_value_mono: "a \<le> dec_value a cs"
proof (induction cs arbitrary: a)
  case (Cons c cs)
  have "a \<le> 10 * a + unat (c - ch0)" by simp
  also have "\<dots> \<le> dec_value (10 * a + unat (c - ch0)) cs" by (rule Cons.IH)
  finally show ?case by simp
qed simp

lemma digit_char:
  fixes d :: "'a::len word"
  assumes "unat d < 10"
  shows "is_digit (ch0 + of_nat (unat d))" "unat (ch0 + of_nat (unat d) - ch0 :: u8) = unat d"
proof -
  have u: "unat (of_nat (unat d) :: u8) = unat d" using assms by (intro unat_of_nat_fit) simp
  then show "unat (ch0 + of_nat (unat d) - ch0 :: u8) = unat d" by simp
  have "unat (ch0 + of_nat (unat d) :: u8) = 48 + unat d" using u assms by (subst unat_add_nowrap) simp_all
  then show "is_digit (ch0 + of_nat (unat d))" using assms by (simp add: is_digit_def word_le_nat_alt)
qed

section \<open>The parser\<close>

lemma parse_step:
  fixes v :: u64
  assumes "is_digit c"
  defines "n \<equiv> 10 * unat v + unat (c - ch0)"
  shows "(v > 1844674407370955161 \<or> (v = 1844674407370955161 \<and> (ucast (c - ch0) :: u64) > 5)) \<longleftrightarrow> n \<ge> 2 ^ 64"
    "n < 2 ^ 64 \<Longrightarrow> push_bit 3 v + push_bit 1 v + ucast (c - ch0) = of_nat n"
proof -
  have c: "unat (c - ch0) \<le> 9" "unat (ucast (c - ch0) :: u64) = unat (c - ch0)"
  proof -
    have "unat (c - ch0) = unat c - 48" using assms(1) by (simp add: is_digit_def unat_sub_le)
    moreover have "unat c \<le> 57" using assms(1) by (simp add: is_digit_def word_le_nat_alt)
    ultimately show "unat (c - ch0) \<le> 9" by linarith
    show "unat (ucast (c - ch0) :: u64) = unat (c - ch0)"
      using unat_u8_bound [of "c - ch0"] by (intro unat_ucast_fit) simp
  qed
  have "v = 1844674407370955161 \<longleftrightarrow> unat v = 1844674407370955161"
    using word_eq_by_unat [of v 1844674407370955161] by auto
  then show "(v > 1844674407370955161 \<or> (v = 1844674407370955161 \<and> (ucast (c - ch0) :: u64) > 5)) \<longleftrightarrow> n \<ge> 2 ^ 64"
    using c by (auto simp: n_def word_less_nat_alt)
  have "push_bit 3 v + push_bit 1 v + ucast (c - ch0) = 10 * v + (ucast (c - ch0) :: u64)"
    by (simp add: push_bit_eq_mult)
  also have "\<dots> = of_nat n" using c by (simp add: n_def)
  finally show "push_bit 3 v + push_bit 1 v + ucast (c - ch0) = of_nat n" .
qed

lemma parse_loop_value:
  "\<forall>c \<in> set cs. is_digit c \<Longrightarrow>
   parse_loop cs v = (if dec_value (unat v) cs < 2 ^ 64 then PARSE_U64_OK (of_nat (dec_value (unat v) cs)) else PARSE_U64_OVERFLOW)"
proof (induction cs arbitrary: v)
  case Nil
  then show ?case using unat_u64_bound [of v] by simp
next
  case (Cons c cs)
  then have d: "is_digit c" by simp
  let ?n = "10 * unat v + unat (c - ch0)"
  note s = parse_step [OF d, of v]
  show ?case
  proof (cases "?n < 2 ^ 64")
    case True
    then have "unat (of_nat ?n :: u64) = ?n" by (intro unat_of_nat_fit) simp
    moreover have "parse_loop (c # cs) v = parse_loop cs (of_nat ?n)"
    proof -
      have "\<not> (v > 1844674407370955161 \<or> (v = 1844674407370955161 \<and> (ucast (c - ch0) :: u64) > 5))"
        using s(1) True by simp
      moreover have "48 \<le> c \<and> c \<le> 57" using d by (simp only: is_digit_def)
      ultimately show ?thesis using s(2) [OF True] by (simp only: parse_loop.simps if_True if_False Let_def simp_thms)
    qed
    ultimately show ?thesis using Cons by simp
  next
    case False
    then have "\<not> dec_value ?n cs < 2 ^ 64" using dec_value_mono [of ?n cs] by linarith
    then show ?thesis using d s(1) False by (simp add: is_digit_def Let_def)
  qed
qed

section \<open>The printers\<close>

lemma div10_mod10:
  "unat (v div 10 :: u32) = unat v div 10" "unat (v mod 10 :: u32) = unat v mod 10"
  by (simp_all add: unat_div unat_mod)

lemma dec_tmp_digits:
  "unat v < 10 ^ k \<Longrightarrow> (\<forall>c \<in> set (dec_tmp k v). is_digit c) \<and> dec_value 0 (rev (dec_tmp k v)) = unat v"
proof (induction k arbitrary: v)
  case (Suc k)
  let ?d = "v mod 10"
  have "unat (v div 10) < 10 ^ k" using Suc.prems by (simp add: div10_mod10 div_less_iff_less_mult)
  note IH = Suc.IH [OF this]
  have "unat ?d < 10" by (simp add: div10_mod10)
  note d = digit_char [OF this]
  have "ucast ?d = (of_nat (unat ?d) :: u8)" by simp
  then show ?case using IH d by (simp add: div10_mod10)
qed (simp add: unat_eq_0)

lemma dec_tmp_len: "unat v < 10 ^ k \<Longrightarrow> length (dec_tmp m v) \<le> k"
proof (induction m arbitrary: v k)
  case (Suc m)
  show ?case
  proof (cases k)
    case 0
    then show ?thesis using Suc.prems by (simp add: unat_eq_0)
  next
    case (Suc k')
    have "unat (v div 10) < 10 ^ k'" using Suc.prems \<open>k = Suc k'\<close> by (simp add: div10_mod10 div_less_iff_less_mult)
    then show ?thesis using Suc.IH \<open>k = Suc k'\<close> by simp
  qed
qed simp

lemma u32_to_dec_value:
  assumes "12 \<le> buf_size"
  shows "\<exists>cs. u32_to_dec buf_size v = Some cs \<and> cs \<noteq> [] \<and> (\<forall>c \<in> set cs. is_digit c) \<and>
    dec_value 0 cs = unat v \<and> length cs \<le> 10"
proof -
  let ?t = "if v = 0 then [ch0] else dec_tmp 16 v"
  have v: "unat v < 10 ^ 10" using unat_u32_bound [of v] by simp
  also have "(10 :: nat) ^ 10 \<le> 10 ^ 16" by simp
  finally have v16: "unat v < 10 ^ 16" .
  have len: "length ?t \<le> 10" using dec_tmp_len [OF v, of 16] by simp
  have ne: "?t \<noteq> []" by (simp add: numeral_eq_Suc)
  have "(\<forall>c \<in> set ?t. is_digit c) \<and> dec_value 0 (rev ?t) = unat v"
    using dec_tmp_digits [OF v16] by (simp add: is_digit_def)
  moreover have "u32_to_dec buf_size v = Some (rev ?t)"
    using assms len unfolding u32_to_dec_def Let_def by (simp del: dec_tmp.simps split del: if_split)
  ultimately show ?thesis using len ne by (intro exI [of _ "rev ?t"]) (simp del: dec_tmp.simps split del: if_split)
qed

lemma sub_loop_div:
  "p \<noteq> 0 \<Longrightarrow> sub_loop p v d = (d + of_nat (unat v div unat p), of_nat (unat v mod unat p))"
proof (induction p v d rule: sub_loop.induct)
  case (1 p v d)
  show ?case
  proof (cases "v < p")
    case True
    then show ?thesis by (subst sub_loop.simps) (simp add: word_less_nat_alt)
  next
    case False
    then have le: "unat p \<le> unat v" by (simp add: word_le_nat_alt not_less)
    have s: "unat (v - p) = unat v - unat p" using le by (simp add: unat_sub_le word_le_nat_alt)
    have p0: "0 < unat p" using 1(2) by (simp add: unat_gt_0)
    have "sub_loop p v d = sub_loop p (v - p) (d + 1)" using False 1(2) by (subst sub_loop.simps) simp
    also have "\<dots> = (d + 1 + of_nat ((unat v - unat p) div unat p), of_nat ((unat v - unat p) mod unat p))"
      using 1(1) False 1(2) by (simp add: s)
    finally show ?thesis using le p0 by (simp add: le_div_geq le_mod_geq)
  qed
qed

text \<open>The powers of ten from some power down to 1.\<close>

fun pows :: "nat \<Rightarrow> u64 list" where
  "pows 0 = []"
| "pows (Suc k) = 10 ^ k # pows k"

lemma pow10_pows: "pow10 = pows 20"
  by (simp add: pow10_def numeral_eq_Suc upt_rec)

lemma unat_pow10: "k < 20 \<Longrightarrow> unat (10 ^ k :: u64) = 10 ^ k"
proof -
  assume "k < 20"
  then have "(10 :: nat) ^ k \<le> 10 ^ 19" by (intro power_increasing) simp_all
  then have "unat (of_nat (10 ^ k) :: u64) = 10 ^ k" by (intro unat_of_nat_fit) simp
  then show ?thesis by simp
qed

lemma dec_loop_digits:
  "k \<le> 20 \<Longrightarrow> unat v < 10 ^ k \<Longrightarrow> int (length out + k) \<le> buf_size - 1 \<Longrightarrow>
   \<exists>ds. dec_loop buf_size (pows k) v started out = out @ ds \<and> (\<forall>c \<in> set ds. is_digit c) \<and> length ds \<le> k \<and>
     (0 < k \<longrightarrow> ds \<noteq> []) \<and> (started \<longrightarrow> (\<forall>a. dec_value a ds = a * 10 ^ k + unat v)) \<and> dec_value 0 ds = unat v"
proof (induction k arbitrary: v started out)
  case 0
  then show ?case by simp
next
  case (Suc k)
  let ?p = "10 ^ k :: u64" and ?q = "unat v div 10 ^ k" and ?r = "unat v mod 10 ^ k"
  have p: "unat ?p = 10 ^ k" using Suc.prems by (intro unat_pow10) simp
  then have p0: "?p \<noteq> 0" by auto
  have q: "?q < 10" using Suc.prems(2) by (simp add: div_less_iff_less_mult)
  have qr: "10 ^ k * ?q + ?r = unat v" by simp
  let ?v = "of_nat ?r :: u64"
  have "?r \<le> unat v" by simp
  then have r: "unat ?v = ?r" using le_less_trans [OF _ unat_u64_bound [of v]] by (intro unat_of_nat_fit) simp
  then have rl: "unat ?v < 10 ^ k" by simp
  have uq: "unat (of_nat ?q :: u8) = ?q" using q by (intro unat_of_nat_fit) simp
  then have qd: "is_digit (ch0 + of_nat ?q)" "unat (ch0 + of_nat ?q - ch0 :: u8) = ?q"
    using digit_char [of "of_nat ?q :: u8"] q by simp_all
  have sub: "sub_loop ?p v 0 = (of_nat ?q, ?v)" using sub_loop_div [OF p0] p by simp
  have k0: "pows k = [] \<longleftrightarrow> k = 0" by (cases k) simp_all
  have q0: "(of_nat ?q :: u8) = 0 \<longleftrightarrow> ?q = 0" using uq by (metis unat_0 word_eq_by_unat)
  show ?case
  proof (cases "?q \<noteq> 0 \<or> started \<or> k = 0")
    case True
    let ?o = "out @ [ch0 + of_nat ?q]"
    obtain ds where ds: "dec_loop buf_size (pows k) ?v True ?o = ?o @ ds" "\<forall>c \<in> set ds. is_digit c" "length ds \<le> k"
      "\<And>a. dec_value a ds = a * 10 ^ k + ?r"
      using Suc.IH [of ?v ?o True] Suc.prems rl r by auto
    have "dec_loop buf_size (pows (Suc k)) v started out = ?o @ ds"
      using True sub ds(1) Suc.prems(3) k0 q0 by (auto simp: sub)
    moreover have "dec_value a ([ch0 + of_nat ?q] @ ds) = a * 10 ^ Suc k + unat v" for a
      using ds(4) [of "10 * a + ?q"] qd(2) qr by (simp add: algebra_simps)
    ultimately show ?thesis using ds(2,3) qd(1)
      by (intro exI [of _ "[ch0 + of_nat ?q] @ ds"]) (simp del: dec_value.simps)
  next
    case False
    obtain ds where ds: "dec_loop buf_size (pows k) ?v started out = out @ ds" "\<forall>c \<in> set ds. is_digit c" "length ds \<le> k"
      "ds \<noteq> []" "dec_value 0 ds = ?r"
      using Suc.IH [of ?v out started] Suc.prems rl r False by auto
    have "dec_loop buf_size (pows (Suc k)) v started out = out @ ds"
      using False sub ds(1) k0 q0 by (simp add: sub)
    moreover have "?r = unat v"
    proof -
      have z: "?q = 0" using False by simp
      show ?thesis using qr unfolding z by simp
    qed
    ultimately show ?thesis using ds(2-5) False by (intro exI [of _ ds]) (auto simp del: dec_loop.simps pows.simps)
  qed
qed

text \<open>C39: Printing and parsing are inverse: with a buffer of at least 21 bytes, the decimal string that
  u64_to_dec writes for any 64-bit number is read back by parse_u64_10 as that number, and so is
  the one u32_to_dec writes for a 32-bit number.\<close>

theorem parse_after_print:
  assumes "21 \<le> buf_size"
  shows "parse_u64_10 (u64_to_dec buf_size v) = PARSE_U64_OK v \<and>
    parse_u64_10 (u32_to_dec buf_size w) = PARSE_U64_OK (ucast w)"
proof
  have "unat v < 10 ^ 20" using unat_u64_bound [of v] by simp
  then obtain ds where ds: "dec_loop buf_size pow10 v False [] = ds" "\<forall>c \<in> set ds. is_digit c" "ds \<noteq> []" "dec_value 0 ds = unat v"
    using dec_loop_digits [of 20 v "[]" buf_size False] assms by (auto simp: pow10_pows)
  then show "parse_u64_10 (u64_to_dec buf_size v) = PARSE_U64_OK v"
    using parse_loop_value [of ds 0] unat_u64_bound [of v] assms by (simp add: u64_to_dec_def parse_u64_10_def)
  obtain cs where "u32_to_dec buf_size w = Some cs" "cs \<noteq> []" "\<forall>c \<in> set cs. is_digit c" "dec_value 0 cs = unat w"
    using u32_to_dec_value [of buf_size w] assms by auto
  moreover have "unat w < 2 ^ 64" using unat_u32_bound [of w] by simp
  moreover have "(of_nat (unat w) :: u64) = ucast w" by simp
  ultimately show "parse_u64_10 (u32_to_dec buf_size w) = PARSE_U64_OK (ucast w)"
    using parse_loop_value [of cs 0] by (simp add: parse_u64_10_def del: of_nat_unat)
qed

theorem parse_after_print_witness:
  "parse_u64_10 (u64_to_dec 32 18446744073709551615) = PARSE_U64_OK 18446744073709551615"
  using parse_after_print [of 32 18446744073709551615 0] by simp

end
