(* ===== verification/Shell_Paths.thy ===== *)
theory Shell_Paths
  imports Numfmt
begin

text \<open>
  String functions of the shell, kernel/cmds.cpp: patterns and base names for find, and the file
  names of the self tests. A string is the list of its bytes before the NUL, a NULL pointer is None.
\<close>

abbreviation (input) ch_star :: u8 where "ch_star \<equiv> 42"
abbreviation (input) ch_any :: u8 where "ch_any \<equiv> 63"
abbreviation (input) ch_slash :: u8 where "ch_slash \<equiv> 47"

section \<open>Patterns\<close>

text \<open>match_text is match_glob on proper strings, star_loop its loop behind a star.\<close>

function match_text :: "bytes \<Rightarrow> bytes \<Rightarrow> bool" and star_loop :: "bytes \<Rightarrow> bytes \<Rightarrow> bool" where
  "match_text pat str =
     (case pat of
        [] \<Rightarrow> str = []
      | c # p \<Rightarrow>
          if c = ch_star then (if p = [] then True else star_loop p str)
          else (case str of
                  [] \<Rightarrow> False
                | t # ts \<Rightarrow> if c = ch_any then match_text p ts else if c \<noteq> t then False else match_text p ts))"
| "star_loop p str =
     (case str of
        [] \<Rightarrow> match_text p []
      | t # ts \<Rightarrow> if match_text p (t # ts) then True else star_loop p ts)"
  by pat_completeness auto
termination
  by (relation "measures [\<lambda>x. case x of Inl (p, t) \<Rightarrow> 2 * length p | Inr (p, t) \<Rightarrow> 2 * length p + 1,
      \<lambda>x. case x of Inl (p, t) \<Rightarrow> length t | Inr (p, t) \<Rightarrow> length t]") auto

declare match_text.simps [simp del] star_loop.simps [simp del]

definition match_glob :: "bytes option \<Rightarrow> bytes option \<Rightarrow> bool" where
  "match_glob pat str =
     (case (pat, str) of (Some p, Some t) \<Rightarrow> match_text p t | _ \<Rightarrow> False)"

text \<open>The part behind the last slash.\<close>

fun basename_loop :: "bytes \<Rightarrow> bytes \<Rightarrow> bytes" where
  "basename_loop [] last_part = last_part"
| "basename_loop (c # cs) last_part = basename_loop cs (if c = ch_slash then cs else last_part)"

definition path_basename :: "bytes option \<Rightarrow> bytes option" where
  "path_basename path = map_option (\<lambda>p. basename_loop p p) path"

definition should_print_find_path :: "bytes option \<Rightarrow> bytes option \<Rightarrow> bool" where
  "should_print_find_path path name_pat =
     (if name_pat = None \<or> name_pat = Some [] then True else match_glob name_pat (path_basename path))"

text \<open>The line that find prints for a child, the newline left out.\<close>

definition find_print_child_path :: "bytes option \<Rightarrow> bytes option \<Rightarrow> bytes option" where
  "find_print_child_path cwd name =
     (case (cwd, name) of
        (Some c, Some n) \<Rightarrow>
          let full = take 1023 c;
              full = (if full \<noteq> [] \<and> last full \<noteq> ch_slash \<and> length full < 1023 then full @ [ch_slash] else full)
          in Some (full @ take (1023 - length full) n)
      | _ \<Rightarrow> None)"

section \<open>Names of test files\<close>

text \<open>
  The path of file idx below dir, or failure, with the bytes of the buffer up to its NUL. The
  name is f_, the number, .dat; the checks are those of the code. An outer None is a write behind
  the buffer.
\<close>

definition build_churn_path :: "int \<Rightarrow> bytes option \<Rightarrow> u32 \<Rightarrow> (bytes option) option" where
  "build_churn_path out_sz dir idx =
     (case dir of
        None \<Rightarrow> Some None
      | Some d \<Rightarrow>
          if out_sz \<le> 1 \<or> d = [] then Some None
          else let n = nat out_sz; out0 = take (n - 1) d in
            if length out0 = n - 1 then Some None
            else let out1 = (if last out0 \<noteq> ch_slash then out0 @ [ch_slash] else out0) in
              if last out0 \<noteq> ch_slash \<and> length out1 \<ge> n - 1 then Some None
              else if length out1 + 2 > n then None
              else let out2 = out1 @ [102, 95];
                       out3 = out2 @ take (n - 1 - length out2) (the (u32_to_dec 16 idx)) in
                if length out3 \<ge> n - 1 then Some None
                else if length out3 + 4 > n then None
                else let out4 = out3 @ [46, 100, 97, 116] in
                  if length out4 \<ge> n then Some None else Some (Some out4))"

text \<open>A directory name that leaves two bytes behind the number: the extension runs past the buffer.\<close>

lemma build_churn_path_overflow: "build_churn_path 16 (Some (replicate 9 97)) 5 = None"
  by code_simp

section \<open>What a pattern means\<close>

text \<open>A star stands for any string, a question mark for any character, others for themselves.\<close>

inductive glob :: "bytes \<Rightarrow> bytes \<Rightarrow> bool" where
  glob_nil: "glob [] []"
| glob_star: "glob p ts \<Longrightarrow> glob (ch_star # p) (xs @ ts)"
| glob_any: "glob p ts \<Longrightarrow> glob (ch_any # p) (t # ts)"
| glob_same: "c \<noteq> ch_star \<Longrightarrow> c \<noteq> ch_any \<Longrightarrow> glob p ts \<Longrightarrow> glob (c # p) (c # ts)"

inductive_simps glob_empty: "glob [] ts"
inductive_simps glob_cons: "glob (c # p) ts"

lemma glob_only_star: "glob [ch_star] ts"
  using glob_star [OF glob_nil, of ts] by simp

lemma glob_tail: "glob (ch_star # p) ts \<longleftrightarrow> (\<exists>xs ys. ts = xs @ ys \<and> glob p ys)"
  by (auto simp: glob_cons)

lemma match_text_glob:
  "match_text pat str = glob pat str" "star_loop p str = (\<exists>xs ys. str = xs @ ys \<and> glob p ys)"
proof (induction pat str and p str rule: match_text_star_loop.induct)
  case (1 pat str)
  show ?case
  proof (cases pat)
    case Nil
    then show ?thesis by (subst match_text.simps) (auto simp: glob_empty)
  next
    case (Cons c p)
    show ?thesis
    proof (cases "c = ch_star")
      case True
      then show ?thesis using 1(1) [OF Cons True] Cons glob_only_star [of str]
        by (subst match_text.simps) (auto simp: glob_tail)
    next
      case False
      then show ?thesis using 1(2-) Cons
        by (subst match_text.simps) (auto simp: glob_cons split: list.splits)
    qed
  qed
next
  case (2 p str)
  show ?case
  proof (cases str)
    case Nil
    then show ?thesis using 2(1) by (subst star_loop.simps) simp
  next
    case (Cons t ts)
    have "(\<exists>xs ys. t # ts = xs @ ys \<and> glob p ys) \<longleftrightarrow> glob p (t # ts) \<or> (\<exists>xs ys. ts = xs @ ys \<and> glob p ys)"
      by (auto simp: Cons_eq_append_conv)
    then show ?thesis using 2(2,3) Cons by (subst star_loop.simps) auto
  qed
qed

section \<open>What find prints\<close>

lemma basename_loop_suffix:
  "basename_loop cs l = (if ch_slash \<in> set cs then rev (takeWhile (\<lambda>c. c \<noteq> ch_slash) (rev cs)) else l)"
proof (induction cs arbitrary: l)
  case (Cons c cs)
  have "takeWhile (\<lambda>c. c \<noteq> ch_slash) (rev cs @ [c]) =
      (if ch_slash \<in> set cs then takeWhile (\<lambda>c. c \<noteq> ch_slash) (rev cs) else rev cs @ takeWhile (\<lambda>c. c \<noteq> ch_slash) [c])"
    by (auto simp: takeWhile_append takeWhile_eq_all_conv)
  then show ?case using Cons by auto
qed simp

lemma path_basename_last:
  "path_basename (Some p) = Some (rev (takeWhile (\<lambda>c. c \<noteq> ch_slash) (rev p)))"
proof -
  have t: "rev (takeWhile (\<lambda>c. c \<noteq> ch_slash) (rev p)) = p" if "ch_slash \<notin> set p"
  proof -
    have "takeWhile (\<lambda>c. c \<noteq> ch_slash) (rev p) = rev p" using that by (subst takeWhile_eq_all_conv) auto
    then show ?thesis by (simp only: rev_rev_ident)
  qed
  show ?thesis
  proof (cases "ch_slash \<in> set p")
    case True
    then show ?thesis by (simp add: path_basename_def basename_loop_suffix)
  next
    case False
    have "path_basename (Some p) = Some p" using False by (simp add: path_basename_def basename_loop_suffix)
    then show ?thesis by (simp only: t [OF False])
  qed
qed

text \<open>find prints a path exactly when there is no pattern or the pattern stands for its last
  component: the matcher with its loops for stars agrees with the declarative meaning, where a
  star is any string, a question mark any character and every other character itself, and it
  ends on every pattern.\<close>

theorem find_prints_matches:
  "should_print_find_path (Some path) (Some pat) \<longleftrightarrow>
     pat = [] \<or> glob pat (rev (takeWhile (\<lambda>c. c \<noteq> 47) (rev path)))"
  by (simp add: should_print_find_path_def path_basename_last match_glob_def match_text_glob)

end
