(* ===== verification/Clock.thy ===== *)
theory Clock
  imports Numfmt
begin

text \<open>
  The clock: rtc_get_unix_time of drivers/rtc.cpp, which turns the registers of the CMOS clock into
  seconds since 1970, the value the file system stores in its time stamps, and lib/time.cpp, which
  turns seconds into a date and prints it. unsigned long has 32 bits. The registers are a
  parameter: rd k r is the value of register r at the k-th read of a call.
\<close>

section \<open>Seconds to date, lib/time.cpp\<close>

definition leap_year :: "u32 \<Rightarrow> bool" where
  "leap_year y \<longleftrightarrow> (y mod 4 = 0 \<and> y mod 100 \<noteq> 0) \<or> y mod 400 = 0"

definition year_days :: "u32 \<Rightarrow> u32" where
  "year_days y = (if leap_year y then 366 else 365)"

function year_loop :: "u32 \<Rightarrow> u32 \<Rightarrow> u32 \<times> u32" where
  "year_loop year days =
     (if days \<ge> year_days year then year_loop (year + 1) (days - year_days year) else (year, days))"
  by pat_completeness auto
termination
proof (relation "measure (\<lambda>(year, days). unat days)")
  fix year days :: u32
  assume "days \<ge> year_days year"
  then have "unat (days - year_days year) = unat days - unat (year_days year)" "unat (year_days year) \<le> unat days"
    by (simp_all add: unat_sub_le word_le_nat_alt)
  moreover have "0 < unat (year_days year)" by (simp add: year_days_def)
  ultimately show "((year + 1, days - year_days year), year, days) \<in> measure (\<lambda>(year, days). unat days)" by simp
qed simp

declare year_loop.simps [simp del]

definition month_lengths :: "bool \<Rightarrow> u32 list" where
  "month_lengths leap = [31, if leap then 29 else 28, 31, 30, 31, 30, 31, 31, 30, 31, 30, 31]"

text \<open>The months that are over and the days of the current one.\<close>

fun month_loop :: "u32 list \<Rightarrow> nat \<Rightarrow> u32 \<Rightarrow> nat \<times> u32" where
  "month_loop [] month days = (month, days)"
| "month_loop (l # ls) month days = (if days \<ge> l then month_loop ls (Suc month) (days - l) else (month, days))"

record broken_time =
  bt_year :: u32
  bt_mon :: u32
  bt_day :: u32
  bt_hour :: u32
  bt_min :: u32
  bt_sec :: u32
  bt_wday :: u32

definition break_unix_time :: "u32 \<Rightarrow> broken_time" where
  "break_unix_time secs =
     (let days = secs div 86400; rem = secs mod 86400 in
      case year_loop 1970 days of
        (year, ydays) \<Rightarrow>
          (case month_loop (month_lengths (leap_year year)) 0 ydays of
             (month, mdays) \<Rightarrow>
               \<lparr>bt_year = year, bt_mon = of_nat (month + 1), bt_day = mdays + 1, bt_hour = rem div 3600,
                bt_min = (rem mod 3600) div 60, bt_sec = (rem mod 3600) mod 60, bt_wday = (days + 4) mod 7\<rparr>))"

section \<open>Printing\<close>

definition u32_to_dec_local :: "int \<Rightarrow> u32 \<Rightarrow> bytes option" where
  "u32_to_dec_local buf_size v =
     (if buf_size \<le> 1 then None
      else let tmp = (if v = 0 then [ch0] else dec_tmp 16 v);
               pos = (if int (length tmp) \<ge> buf_size then nat (buf_size - 1) else length tmp)
        in Some (rev (take pos tmp)))"

text \<open>Two digits: below ten a zero and the digit, else the first two characters of the number.\<close>

definition two_digits :: "u32 \<Rightarrow> bytes" where
  "two_digits v = (if v < 10 then [ch0, ch0 + ucast v] else take 2 (the (u32_to_dec_local 16 v)))"

text \<open>The string in the buffer, or None when the size leaves it untouched.\<close>

definition format_time :: "u32 \<Rightarrow> int \<Rightarrow> bytes option" where
  "format_time secs buf_size =
     (if buf_size < 20 then (if buf_size > 0 then Some [] else None)
      else let t = break_unix_time secs;
               s = take (nat (buf_size - 1)) (the (u32_to_dec_local 16 (bt_year t))) @ [45] @ two_digits (bt_mon t) @
                   [45] @ two_digits (bt_day t) @ [32] @ two_digits (bt_hour t) @ [58] @ two_digits (bt_min t) @
                   [58] @ two_digits (bt_sec t)
        in Some (take (nat (buf_size - 1)) s))"

definition wday_names :: "bytes list" where
  "wday_names = map (map of_char) [''Sun'', ''Mon'', ''Tue'', ''Wed'', ''Thu'', ''Fri'', ''Sat'']"

definition month_names :: "bytes list" where
  "month_names = map (map of_char) [''Jan'', ''Feb'', ''Mar'', ''Apr'', ''May'', ''Jun'', ''Jul'', ''Aug'', ''Sep'', ''Oct'', ''Nov'', ''Dec'']"

definition tens_ones :: "u32 \<Rightarrow> bytes" where
  "tens_ones v = [ch0 + ucast (v div 10), ch0 + ucast (v mod 10)]"

definition format_date_default :: "u32 \<Rightarrow> int \<Rightarrow> bytes option" where
  "format_date_default secs buf_size =
     (if buf_size < 32 then (if buf_size > 0 then Some [] else None)
      else let t = break_unix_time secs;
               w = (if bt_wday t < 7 then wday_names ! unat (bt_wday t) else [63, 63, 63]);
               m = (if bt_mon t \<ge> 1 \<and> bt_mon t \<le> 12 then month_names ! unat (bt_mon t - 1) else [63, 63, 63]);
               s = w @ [32] @ m @ [32] @
                   (if bt_day t < 10 then [32, ch0 + ucast (bt_day t)] else tens_ones (bt_day t)) @ [32] @
                   tens_ones (bt_hour t) @ [58] @ tens_ones (bt_min t) @ [58] @ tens_ones (bt_sec t) @ [32] @
                   map of_char ''UTC'' @ [32]
        in Some (s @ (case u32_to_dec_local (buf_size - int (length s)) (bt_year t) of None \<Rightarrow> [] | Some y \<Rightarrow> y)))"

section \<open>Date to seconds, drivers/rtc.cpp\<close>

definition bcd_to_bin :: "u8 \<Rightarrow> bool \<Rightarrow> u8" where
  "bcd_to_bin val use_bcd = (if use_bcd then (val AND 15) + drop_bit 4 val * 10 else val)"

text \<open>rtc_read_time: hour, minute and second as the registers have them.\<close>

definition rtc_read_time :: "(nat \<Rightarrow> u8 \<Rightarrow> u8) \<Rightarrow> u8 \<times> u8 \<times> u8" where
  "rtc_read_time rd = (rd 0 4, rd 1 2, rd 2 0)"

definition is_leap_year :: "u32 \<Rightarrow> bool" where
  "is_leap_year year \<longleftrightarrow> (year mod 4 = 0 \<and> year mod 100 \<noteq> 0) \<or> year mod 400 = 0"

definition days_in_month :: "u32 list" where
  "days_in_month = [31, 28, 31, 30, 31, 30, 31, 31, 30, 31, 30, 31]"

text \<open>The loops over the years before the given one and over the months before the given one.\<close>

definition days_before_year :: "u32 \<Rightarrow> u32" where
  "days_before_year year = sum_list (map (\<lambda>y. if is_leap_year (of_nat y) then 366 else 365) [1970..<unat year])"

definition days_before_month :: "u8 \<Rightarrow> u32" where
  "days_before_month month = sum_list (take (unat (month - 1)) days_in_month)"

definition rtc_get_unix_time :: "(nat \<Rightarrow> u8 \<Rightarrow> u8) \<Rightarrow> u32" where
  "rtc_get_unix_time rd =
     (let use_bcd = (rd 0 0x0B AND 4 = 0);
          sec = bcd_to_bin (rd 1 0x00) use_bcd;
          min = bcd_to_bin (rd 2 0x02) use_bcd;
          hour = bcd_to_bin (rd 3 0x04) use_bcd;
          day = bcd_to_bin (rd 4 0x07) use_bcd;
          month = bcd_to_bin (rd 5 0x08) use_bcd;
          year_byte = bcd_to_bin (rd 6 0x09) use_bcd;
          century_byte = rd 7 0x32;
          year = (if century_byte \<ge> 19 \<and> century_byte \<le> 21 then ucast century_byte * 100 + ucast year_byte
                  else 2000 + ucast year_byte :: u32);
          month = (if month < 1 then 1 else month);
          month = (if month > 12 then 12 else month);
          day = (if day < 1 then 1 else day);
          days = days_before_year year + days_before_month month
                 + (if month > 2 \<and> is_leap_year year then 1 else 0) + ucast (day - 1)
      in days * 86400 + ucast hour * 3600 + ucast min * 60 + ucast sec)"

end
