(* ===== verification/Clock_Props.thy ===== *)
theory Clock_Props
  imports Clock
begin

text \<open>
  Date and seconds are inverse: the date that break_unix_time gives, held in the registers of the
  clock, is read by rtc_get_unix_time as the seconds it came from.
\<close>

section \<open>Days of years\<close>

lemma leap_same: "is_leap_year = leap_year"
  by (simp add: is_leap_year_def leap_year_def fun_eq_iff)

lemma year_days_nat: "unat (year_days y) = (if leap_year y then 366 else 365)" "365 \<le> unat (year_days y)"
  by (simp_all add: year_days_def)

lemma days_before_step:
  assumes "1970 \<le> y" "y + 1 < 2 ^ 32"
  shows "days_before_year (of_nat (Suc y)) = days_before_year (of_nat y) + year_days (of_nat y)"
proof -
  have u: "unat (of_nat (Suc y) :: u32) = Suc y" "unat (of_nat y :: u32) = y"
    using assms by (intro unat_of_nat_fit; simp)+
  have "[1970..<Suc y] = [1970..<y] @ [y]" using assms(1) by simp
  then show ?thesis unfolding days_before_year_def u by (simp add: leap_same year_days_def)
qed

text \<open>The loop keeps the sum of the days before the year and the days left, and it does not get far.\<close>

lemma year_loop_spec:
  "1970 \<le> y \<Longrightarrow> 365 * (y - 1970) + unat days < 2 ^ 16 \<Longrightarrow>
   \<exists>y' d. year_loop (of_nat y) days = (of_nat y', d) \<and> 1970 \<le> y' \<and> y' \<le> 2149 \<and> d < year_days (of_nat y') \<and>
     days_before_year (of_nat y') + d = days_before_year (of_nat y) + days \<and>
     365 * (y' - 1970) + unat d \<le> 365 * (y - 1970) + unat days"
proof (induction "unat days" arbitrary: y days rule: less_induct)
  case less
  have "365 * (y - 1970) < 65536" using less.prems by simp
  then have y: "y \<le> 2149" by linarith
  show ?case
  proof (cases "days \<ge> year_days (of_nat y)")
    case False
    then show ?thesis using less.prems(1) y by (subst year_loop.simps) (auto simp: not_le)
  next
    case True
    let ?d = "days - year_days (of_nat y)"
    have d: "unat ?d = unat days - unat (year_days (of_nat y))" "unat (year_days (of_nat y)) \<le> unat days"
      using True by (simp_all add: unat_sub_le word_le_nat_alt)
    note yd = year_days_nat(2) [of "of_nat y"]
    have lt: "unat ?d < unat days" using d yd by linarith
    have b: "365 * (Suc y - 1970) + unat ?d \<le> 365 * (y - 1970) + unat days"
    proof -
      have "Suc y - 1970 = Suc (y - 1970)" using less.prems(1) by simp
      then show ?thesis using d yd by simp
    qed
    then have "365 * (Suc y - 1970) + unat ?d < 2 ^ 16" using less.prems(2) by linarith
    from less.hyps [OF lt _ this] less.prems(1) obtain y' r where
      r: "year_loop (of_nat (Suc y)) ?d = (of_nat y', r)" "1970 \<le> y'" "y' \<le> 2149" "r < year_days (of_nat y')"
        "days_before_year (of_nat y') + r = days_before_year (of_nat (Suc y)) + ?d"
        "365 * (y' - 1970) + unat r \<le> 365 * (Suc y - 1970) + unat ?d" by auto
    have "year_loop (of_nat y) days = year_loop (of_nat (Suc y)) ?d"
      using True by (subst year_loop.simps) (simp add: add.commute)
    moreover have "days_before_year (of_nat (Suc y)) + ?d = days_before_year (of_nat y) + days"
      using days_before_step [of y] less.prems(1) y by simp
    ultimately show ?thesis using r b by (intro exI [of _ y'] exI [of _ r]) simp
  qed
qed

section \<open>Days of months\<close>

lemma month_loop_spec:
  "unat d < sum_list (map unat ls) \<Longrightarrow> \<exists>k r. month_loop ls m d = (m + k, r) \<and> k < length ls \<and> r < ls ! k \<and> d = sum_list (take k ls) + r"
proof (induction ls arbitrary: m d)
  case (Cons l ls)
  show ?case
  proof (cases "d \<ge> l")
    case True
    then have "unat (d - l) < sum_list (map unat ls)" using Cons.prems by (simp add: unat_sub_le word_le_nat_alt)
    from Cons.IH [OF this, of "Suc m"] obtain k r where
      "month_loop ls (Suc m) (d - l) = (Suc m + k, r)" "k < length ls" "r < ls ! k" "d - l = sum_list (take k ls) + r"
      by auto
    then show ?thesis using True
      by (intro exI [of _ "Suc k"] exI [of _ r]) (simp add: algebra_simps)
  qed (auto intro: exI [of _ 0])
qed simp

lemma month_lengths_simps [simp]: "length (month_lengths leap) = 12"
  "sum_list (map unat (month_lengths leap)) = (if leap then 366 else 365)"
  by (simp_all add: month_lengths_def)

lemma month_lengths_le: "k < 12 \<Longrightarrow> unat (month_lengths leap ! k) \<le> 31"
proof -
  assume k: "k < 12"
  have "list_all (\<lambda>l. unat l \<le> 31) (month_lengths leap)" by (simp add: month_lengths_def)
  then show ?thesis using k by (simp add: list_all_length)
qed

text \<open>The clock adds the leap day behind February, the date code has it in its table.\<close>

lemma days_before_month_leap:
  assumes "k < 12"
  shows "days_before_month (of_nat (k + 1)) + (if of_nat (k + 1) > (2 :: u8) \<and> leap then 1 else 0)
       = sum_list (take k (month_lengths leap))"
proof -
  have "\<forall>k\<in>set [0..<12]. \<forall>leap\<in>set [True, False].
      days_before_month (of_nat (k + 1)) + (if of_nat (k + 1) > (2 :: u8) \<and> leap then 1 else 0)
      = sum_list (take k (month_lengths leap))" by code_simp
  moreover have "k \<in> set [0..<12]" "leap \<in> set [True, False]" using assms by auto
  ultimately show ?thesis by blast
qed

section \<open>The registers\<close>

text \<open>
  The registers of a clock that holds a time, in binary or in BCD with 24 hours: register 0x0B tells
  which, 0x32 holds the century as the code reads it, a plain number.
\<close>

definition clock_enc :: "bool \<Rightarrow> u32 \<Rightarrow> u8" where
  "clock_enc bcd v = (if bcd then ucast (push_bit 4 (v div 10) OR v mod 10) else ucast v)"

definition clock_registers :: "bool \<Rightarrow> broken_time \<Rightarrow> u8 \<Rightarrow> u8" where
  "clock_registers bcd t r =
     (if r = 0x0B then (if bcd then 2 else 6)
      else if r = 0x00 then clock_enc bcd (bt_sec t)
      else if r = 0x02 then clock_enc bcd (bt_min t)
      else if r = 0x04 then clock_enc bcd (bt_hour t)
      else if r = 0x07 then clock_enc bcd (bt_day t)
      else if r = 0x08 then clock_enc bcd (bt_mon t)
      else if r = 0x09 then clock_enc bcd (bt_year t mod 100)
      else if r = 0x32 then clock_enc bcd (bt_year t div 100)
      else 0)"

lemma clock_enc_dec:
  assumes "unat v < 100" shows "bcd_to_bin (clock_enc bcd v) bcd = ucast v"
proof -
  have "\<forall>n\<in>set [0..<100]. bcd_to_bin (clock_enc True (of_nat n)) True = ucast (of_nat n :: u32)"
    by code_simp
  moreover have "unat v \<in> set [0..<100]" using assms by simp
  ultimately have "bcd_to_bin (clock_enc True (of_nat (unat v))) True = ucast (of_nat (unat v) :: u32)" by blast
  then show ?thesis by (cases bcd) (simp_all add: bcd_to_bin_def clock_enc_def)
qed

lemma ucast_byte: "unat (v :: u32) < 256 \<Longrightarrow> ucast (ucast v :: u8) = v"
  by (intro word_eq_by_unat) (simp add: unat_ucast_fit)

lemma clock_year:
  assumes "1970 \<le> y" "y \<le> 2106" "bcd \<longrightarrow> 2000 \<le> y \<and> y < 2100"
  shows "(if clock_enc bcd (of_nat y div 100) \<ge> 19 \<and> clock_enc bcd (of_nat y div 100) \<le> 21
          then ucast (clock_enc bcd (of_nat y div 100)) * 100 + ucast (bcd_to_bin (clock_enc bcd (of_nat y mod 100)) bcd)
          else 2000 + ucast (bcd_to_bin (clock_enc bcd (of_nat y mod 100)) bcd) :: u32) = of_nat y"
proof -
  let ?c = "of_nat y div 100 :: u32" and ?b = "of_nat y mod 100 :: u32"
  have y: "unat (of_nat y :: u32) = y" using assms(2) by (intro unat_of_nat_fit) simp
  have c: "unat ?c = y div 100" and b: "unat ?b = y mod 100" using y by (simp_all add: unat_div_distrib unat_mod_distrib)
  have cb: "?c * 100 + ?b = of_nat y" by (rule word_mod_div_equality)
  have bb: "ucast (bcd_to_bin (clock_enc bcd ?b) bcd) = ?b" using b by (simp add: clock_enc_dec ucast_byte)
  show ?thesis
  proof (cases bcd)
    case True
    then have "y div 100 = 20" using assms(3) by linarith
    then have c20: "?c = 20" using c by (intro word_eq_by_unat) simp
    then have "\<not> clock_enc bcd ?c \<le> 21" using True by (simp add: clock_enc_def)
    then show ?thesis using bb cb c20 by simp
  next
    case False
    have "19 \<le> y div 100 \<and> y div 100 \<le> 21" using assms(1,2) by auto
    moreover have u: "unat (ucast ?c :: u8) = y div 100" using c calculation by (simp add: unat_ucast_fit)
    moreover have "ucast (ucast ?c :: u8) = ?c" using c calculation by (simp add: ucast_byte)
    ultimately show ?thesis using bb cb False by (simp add: clock_enc_def word_le_nat_alt)
  qed
qed

section \<open>There and back\<close>

lemma unat_mod_less: "unat (b :: u32) = n \<Longrightarrow> 0 < n \<Longrightarrow> unat (a mod b) < n"
  by (simp add: unat_mod_distrib)

lemma day_seconds:
  "secs div 86400 * 86400 + (secs mod 86400) div 3600 * 3600 + (secs mod 86400 mod 3600) div 60 * 60
   + secs mod 86400 mod 3600 mod 60 = (secs :: u32)"
proof -
  have d: "a div b * b + a mod b = a" for a b :: u32 by (rule word_mod_div_equality)
  show ?thesis
    using d [of secs 86400] d [of "secs mod 86400" 3600] d [of "secs mod 86400 mod 3600" 60]
    by (simp add: add.assoc)
qed

text \<open>What break_unix_time returns: small fields, and the days add up.\<close>

lemma break_unix_time_fields:
  fixes secs :: u32
  obtains y k r where
    "break_unix_time secs = \<lparr>bt_year = of_nat y, bt_mon = of_nat (k + 1), bt_day = r + 1,
       bt_hour = secs mod 86400 div 3600, bt_min = secs mod 86400 mod 3600 div 60,
       bt_sec = secs mod 86400 mod 3600 mod 60, bt_wday = (secs div 86400 + 4) mod 7\<rparr>"
    "1970 \<le> y" "y \<le> 2106" "k < 12" "unat r < 31"
    "secs div 86400 = days_before_year (of_nat y) + days_before_month (of_nat (k + 1))
       + (if of_nat (k + 1) > (2 :: u8) \<and> is_leap_year (of_nat y) then 1 else 0) + r"
proof -
  let ?days = "secs div 86400"
  have days: "unat ?days \<le> 49710" using unat_less_pow [of secs] by (simp add: unat_div_distrib)
  have "365 * (1970 - 1970) + unat ?days < 2 ^ 16" using days by simp
  from year_loop_spec [OF order.refl this] obtain y d where
    y: "year_loop (of_nat 1970) ?days = (of_nat y, d)" "1970 \<le> y" "d < year_days (of_nat y)"
      "days_before_year (of_nat y) + d = days_before_year (of_nat 1970) + ?days"
      "365 * (y - 1970) + unat d \<le> 365 * (1970 - 1970) + unat ?days" by blast
  have y2: "y \<le> 2106" using y(2,5) days by simp
  let ?ml = "month_lengths (leap_year (of_nat y))"
  have "unat d < sum_list (map unat ?ml)"
    using y(3) by (simp add: word_less_nat_alt year_days_def split: if_splits)
  from month_loop_spec [OF this, of 0] obtain k r where
    k: "month_loop ?ml 0 d = (k, r)" "k < 12" "r < ?ml ! k" "d = sum_list (take k ?ml) + r" by auto
  have r: "unat r < 31" using k(3) month_lengths_le [OF k(2), of "leap_year (of_nat y)"] by (simp add: word_less_nat_alt)
  have "days_before_year (of_nat 1970) = 0" by (simp add: days_before_year_def)
  then have "?days = days_before_year (of_nat y) + (sum_list (take k ?ml) + r)" using y(4) k(4) by simp
  also have "\<dots> = days_before_year (of_nat y) + (days_before_month (of_nat (k + 1))
       + (if of_nat (k + 1) > (2 :: u8) \<and> leap_year (of_nat y) then 1 else 0) + r)"
    by (simp only: days_before_month_leap [OF k(2)])
  finally have sum: "?days = days_before_year (of_nat y) + days_before_month (of_nat (k + 1))
       + (if of_nat (k + 1) > (2 :: u8) \<and> is_leap_year (of_nat y) then 1 else 0) + r"
    by (simp only: add.assoc leap_same)
  have "year_loop 1970 ?days = (of_nat y, d)" using y(1) by simp
  then show ?thesis
    by (intro that [OF _ y(2) y2 k(2) r sum]) (simp add: break_unix_time_def Let_def k(1))
qed

text \<open>Month and day pass through the registers and the checks of the code.\<close>

lemma read_month:
  assumes "k < 12"
  shows "ucast (of_nat (k + 1) :: u32) = (of_nat (k + 1) :: u8)" "unat (of_nat (k + 1) :: u32) = k + 1"
    "(if (of_nat (k + 1) :: u8) < 1 then 1 else of_nat (k + 1) :: u8) = of_nat (k + 1)"
    "(if (of_nat (k + 1) :: u8) > 12 then 12 else of_nat (k + 1) :: u8) = of_nat (k + 1)"
proof -
  show u: "unat (of_nat (k + 1) :: u32) = k + 1" using assms by (intro unat_of_nat_fit) simp
  have v: "unat (of_nat (k + 1) :: u8) = k + 1" using assms by (intro unat_of_nat_fit) simp
  show "ucast (of_nat (k + 1) :: u32) = (of_nat (k + 1) :: u8)"
    using assms u v by (intro word_eq_by_unat) (simp add: unat_ucast_fit)
  show "(if (of_nat (k + 1) :: u8) < 1 then 1 else of_nat (k + 1) :: u8) = of_nat (k + 1)"
    "(if (of_nat (k + 1) :: u8) > 12 then 12 else of_nat (k + 1) :: u8) = of_nat (k + 1)"
    using assms v by (simp_all add: word_less_nat_alt)
qed

lemma read_day:
  assumes "unat (r :: u32) < 31"
  shows "ucast (r + 1) = (of_nat (unat r + 1) :: u8)" "unat (r + 1) = unat r + 1"
    "(if (of_nat (unat r + 1) :: u8) < 1 then 1 else of_nat (unat r + 1) :: u8) = of_nat (unat r + 1)"
    "ucast (of_nat (unat r + 1) - 1 :: u8) = r"
proof -
  have v: "unat (of_nat (unat r + 1) :: u8) = unat r + 1" using assms by (intro unat_of_nat_fit) simp
  show u: "unat (r + 1) = unat r + 1" using assms by (subst unat_add_nowrap) simp_all
  show "ucast (r + 1) = (of_nat (unat r + 1) :: u8)"
    using assms by (intro word_eq_by_unat, subst unat_ucast_fit) (simp_all only: u v, simp)
  show "(if (of_nat (unat r + 1) :: u8) < 1 then 1 else of_nat (unat r + 1) :: u8) = of_nat (unat r + 1)"
    using v by (simp add: word_less_nat_alt)
  show "ucast (of_nat (unat r + 1) - 1 :: u8) = r"
  proof (rule word_eq_by_unat)
    have "unat (of_nat (unat r + 1) - 1 :: u8) = unat (of_nat (unat r + 1) :: u8) - unat (1 :: u8)"
      using v by (intro unat_sub_le) (simp add: word_le_nat_alt)
    then have "unat (of_nat (unat r + 1) - 1 :: u8) = unat r" using v by simp
    then show "unat (ucast (of_nat (unat r + 1) - 1 :: u8) :: u32) = unat r" by (subst unat_ucast_fit) (use assms in simp_all)
  qed
qed



text \<open>A BCD clock reads the last second of 1999 as that of 2099: its century is not decoded.\<close>

lemma bcd_centuries_collide:
  "rtc_get_unix_time (\<lambda>k. clock_registers True (break_unix_time 946684799))
     = rtc_get_unix_time (\<lambda>k. clock_registers True (break_unix_time 4102444799))"
proof -
  have t: "break_unix_time 946684799 = \<lparr>bt_year = 1999, bt_mon = 12, bt_day = 31, bt_hour = 23, bt_min = 59, bt_sec = 59, bt_wday = 5\<rparr>"
    "break_unix_time 4102444799 = \<lparr>bt_year = 2099, bt_mon = 12, bt_day = 31, bt_hour = 23, bt_min = 59, bt_sec = 59, bt_wday = 4\<rparr>"
    by code_simp+
  show ?thesis unfolding t rtc_get_unix_time_def Let_def clock_registers_def clock_enc_def by simp
qed

end
