(* ===== verification/Tasks.thy ===== *)
theory Tasks
  imports Prelude
begin

text \<open>
  Tasks and interrupts: kernel/sched/multitasking.cpp and kernel/interrupts/interrupts.cpp. A task
  is a number, a CPUState pointer its address; the stack a pointer names is not modelled. An outer
  None is undefined behaviour.
\<close>

section \<open>The task manager\<close>

text \<open>What the constructor of a task puts on its stack; esp and ss keep what was there.\<close>

record cpu_state =
  cs_eax :: u32
  cs_ebx :: u32
  cs_ecx :: u32
  cs_edx :: u32
  cs_esi :: u32
  cs_edi :: u32
  cs_ebp :: u32
  cs_error :: u32
  cs_eip :: u32
  cs_cs :: u32
  cs_eflags :: u32
  cs_esp :: u32
  cs_ss :: u32

definition task_cpustate :: "u16 \<Rightarrow> u32 \<Rightarrow> cpu_state \<Rightarrow> cpu_state" where
  "task_cpustate code_selector entrypoint old =
     old\<lparr>cs_eax := 0, cs_ebx := 0, cs_ecx := 0, cs_edx := 0, cs_esi := 0, cs_edi := 0, cs_ebp := 0,
         cs_error := 0, cs_eip := entrypoint, cs_cs := ucast code_selector, cs_eflags := 0x202\<rparr>"

definition task_cpustate_ptr :: "u32 \<Rightarrow> u32" where
  "task_cpustate_ptr stack = stack + 4096 - 13 * 4"

text \<open>
  tasks[] has 256 slots. The constructor leaves them as the memory was: junk is what a slot holds
  before it is assigned, None for a word that is no pointer to a task. saved is the cpustate of
  each task.
\<close>

record task_manager =
  tm_tasks :: "nat option list"
  tm_num :: u8
  tm_current :: u8
  tm_saved :: "nat \<Rightarrow> u32"

definition TaskManager :: "nat option \<Rightarrow> (nat \<Rightarrow> u32) \<Rightarrow> task_manager" where
  "TaskManager junk saved = \<lparr>tm_tasks = replicate 256 junk, tm_num = 0, tm_current = - 1, tm_saved = saved\<rparr>"

definition AddTask :: "nat \<Rightarrow> task_manager \<Rightarrow> bool \<times> task_manager" where
  "AddTask t m =
     (if tm_num m \<ge> 255 then (False, m)
      else (True, m\<lparr>tm_tasks := (tm_tasks m)[unat (tm_num m) := Some t], tm_num := tm_num m + 1\<rparr>))"

text \<open>currentTask is unsigned, so the guard around the saving always holds.\<close>

definition Schedule :: "u32 \<Rightarrow> task_manager \<Rightarrow> (u32 \<times> task_manager) option" where
  "Schedule esp m =
     (if tm_num m \<le> 0 then Some (esp, m)
      else do {
        m \<leftarrow> (if tm_current m \<ge> 0
              then do {
                t \<leftarrow> tm_tasks m ! unat (tm_current m);
                Some (m\<lparr>tm_saved := (tm_saved m)(t := esp)\<rparr>)
              }
              else Some m);
        let cur = tm_current m + 1;
        let cur = (if cur \<ge> tm_num m then 0 else cur);
        t \<leftarrow> tm_tasks m ! unat cur;
        Some (tm_saved m t, m\<lparr>tm_current := cur\<rparr>)
      })"

text \<open>A run of timer interrupts: the stack pointers that come in and those that go out.\<close>

fun schedule_all :: "u32 list \<Rightarrow> task_manager \<Rightarrow> (u32 list \<times> task_manager) option" where
  "schedule_all [] m = Some ([], m)"
| "schedule_all (e # es) m =
     do { (o1, m) \<leftarrow> Schedule e m; (os, m) \<leftarrow> schedule_all es m; Some (o1 # os, m) }"

section \<open>Interrupts\<close>

text \<open>A handler of the table maps the state of its driver and the stack pointer to new ones.\<close>

type_synonym 's handler = "'s \<Rightarrow> u32 \<Rightarrow> (u32 \<times> 's) option"

record gate_descriptor =
  gd_addr_lo :: u16
  gd_selector :: u16
  gd_reserved :: u8
  gd_access :: u8
  gd_addr_hi :: u16

definition idt_gate :: "u16 \<Rightarrow> u32 \<Rightarrow> u8 \<Rightarrow> u8 \<Rightarrow> gate_descriptor" where
  "idt_gate selector handler privilege type_bits =
     \<lparr>gd_addr_lo = ucast (handler AND 0xFFFF), gd_selector = selector, gd_reserved = 0,
      gd_access = 0x80 OR type_bits OR push_bit 5 (privilege AND 3),
      gd_addr_hi = ucast (drop_bit 16 handler AND 0xFFFF)\<rparr>"

text \<open>The table the constructor fills, with the addresses of the five entry points.\<close>

definition interrupt_table :: "u16 \<Rightarrow> u32 \<Rightarrow> (u8 \<Rightarrow> u32) \<Rightarrow> u8 \<Rightarrow> gate_descriptor" where
  "interrupt_table selector ignore request =
     (\<lambda>i. idt_gate selector ignore 0 0xE)
       (0x21 := idt_gate selector (request 0x01) 0 0xE, 0x20 := idt_gate selector (request 0x00) 0 0xE,
        0x2C := idt_gate selector (request 0x0C) 0 0xE, 0x80 := idt_gate selector (request 0x60) 0 0xE)"

record 's interrupt_state =
  is_handlers :: "u8 \<Rightarrow> 's handler option"
  is_driver :: 's
  is_tasks :: task_manager
  is_ticks :: u32
  is_pic :: "(u8 \<times> u8) list"

text \<open>The commands to the two controllers are logged as port and byte.\<close>

definition register_handler :: "u8 \<Rightarrow> 's handler \<Rightarrow> 's interrupt_state \<Rightarrow> 's interrupt_state" where
  "register_handler n h st = st\<lparr>is_handlers := (is_handlers st)(n := Some h)\<rparr>"

definition DoHandleInterrupt :: "u8 \<Rightarrow> u32 \<Rightarrow> 's interrupt_state \<Rightarrow> (u32 \<times> 's interrupt_state) option" where
  "DoHandleInterrupt n esp st =
     do {
       (esp, st) \<leftarrow> (case is_handlers st n of
           Some h \<Rightarrow> do { (esp, d) \<leftarrow> h (is_driver st) esp; Some (esp, st\<lparr>is_driver := d\<rparr>) }
         | None \<Rightarrow> Some (esp, st));
       (esp, st) \<leftarrow> (if n = 0x20
           then do { (esp, tm) \<leftarrow> Schedule esp (is_tasks st);
                     Some (esp, st\<lparr>is_tasks := tm, is_ticks := is_ticks st + 1\<rparr>) }
           else Some (esp, st));
       Some (esp, if 0x20 \<le> n \<and> n < 0x30
                  then st\<lparr>is_pic := is_pic st @ [(0x20, 0x20)] @ (if 0x28 \<le> n then [(0xA0, 0x20)] else [])\<rparr>
                  else st)
     }"

text \<open>The active manager is a pointer, here a number; sti and cli are the returned interrupt flag.\<close>

definition Deactivate :: "nat \<Rightarrow> nat option \<times> bool \<Rightarrow> nat option \<times> bool" where
  "Deactivate self s = (if fst s \<noteq> Some self then (None, False) else s)"

definition Activate :: "nat \<Rightarrow> nat option \<times> bool \<Rightarrow> nat option \<times> bool" where
  "Activate self s =
     (let s = (case fst s of Some a \<Rightarrow> Deactivate a s | None \<Rightarrow> s) in (Some self, True))"

definition handleInterrupt ::
  "nat option \<Rightarrow> u8 \<Rightarrow> u32 \<Rightarrow> (nat \<Rightarrow> 's interrupt_state) \<Rightarrow> (u32 \<times> (nat \<Rightarrow> 's interrupt_state)) option" where
  "handleInterrupt active n esp sts =
     (case active of
        Some a \<Rightarrow> do { (esp, st) \<leftarrow> DoHandleInterrupt n esp (sts a); Some (esp, sts(a := st)) }
      | None \<Rightarrow> Some (esp, sts))"

section \<open>Laws of the scheduler\<close>

text \<open>The states of a manager: a new one, tasks added and timer interrupts taken in any order.\<close>

inductive tm_reach :: "nat option \<Rightarrow> task_manager \<Rightarrow> bool" for junk where
  tm_start: "tm_reach junk (TaskManager junk saved)"
| tm_add: "tm_reach junk m \<Longrightarrow> tm_reach junk (snd (AddTask t m))"
| tm_tick: "tm_reach junk m \<Longrightarrow> Schedule esp m = Some (esp', m') \<Longrightarrow> tm_reach junk m'"

text \<open>The slots in use are the first ones, the last one never is; the first tick has not come yet or a task runs.\<close>

definition tm_ok :: "nat option \<Rightarrow> task_manager \<Rightarrow> bool" where
  "tm_ok junk m \<longleftrightarrow> length (tm_tasks m) = 256 \<and> tm_num m \<le> 255 \<and> tm_tasks m ! 255 = junk \<and>
     (\<forall>i<unat (tm_num m). tm_tasks m ! i \<noteq> None) \<and> (tm_current m = 255 \<or> tm_current m < tm_num m)"

lemma tm_ok_add:
  assumes "tm_ok junk m" shows "tm_ok junk (snd (AddTask t m))"
proof (cases "tm_num m \<ge> 255")
  case False
  have lt: "unat (tm_num m) < 255" using False by (simp add: word_le_nat_alt)
  then have n: "unat (tm_num m + 1) = unat (tm_num m) + 1" by (subst unat_add_nowrap) simp_all
  show ?thesis using assms lt False
    by (auto simp: AddTask_def tm_ok_def n nth_list_update word_le_nat_alt word_less_nat_alt)
qed (use assms in \<open>simp add: AddTask_def\<close>)

lemma Schedule_cases:
  assumes "Schedule esp m = Some (esp', m')"
  obtains "tm_num m = 0" "m' = m" "esp' = esp"
  | t t' cur where "tm_num m \<noteq> 0" "tm_tasks m ! unat (tm_current m) = Some t"
      "cur = (if tm_current m + 1 \<ge> tm_num m then 0 else tm_current m + 1)"
      "tm_tasks m ! unat cur = Some t'" "esp' = ((tm_saved m)(t := esp)) t'"
      "m' = m\<lparr>tm_saved := (tm_saved m)(t := esp), tm_current := cur\<rparr>"
  using assms by (auto simp: Schedule_def Let_def split: if_splits bind_splits)

lemma tm_ok_tick:
  assumes "tm_ok junk m" "Schedule esp m = Some (esp', m')" shows "tm_ok junk m'"
  using assms(2)
proof (cases rule: Schedule_cases)
  case (2 t t' cur)
  have "cur < tm_num m" using 2(1,3) by (auto simp: not_le word_neq_0_conv)
  then show ?thesis using assms(1) 2(6) by (simp add: tm_ok_def)
qed (use assms in simp)

lemma tm_reach_ok: "tm_reach junk m \<Longrightarrow> tm_ok junk m"
proof (induction rule: tm_reach.induct)
  case (tm_start saved)
  show ?case by (simp add: TaskManager_def tm_ok_def)
qed (auto intro: tm_ok_add tm_ok_tick)

text \<open>
  The guard around the saving is meant to keep the first tick from saving anything; unsigned as the
  index is, the first tick with a task stores the stack pointer through the unassigned last slot.
\<close>

lemma first_tick_uses_unassigned_slot:
  assumes "tm_reach junk m" "tm_current m = 255" "tm_num m \<noteq> 0"
  shows "Schedule esp m =
    (case junk of None \<Rightarrow> None
     | Some t \<Rightarrow> Some (((tm_saved m)(t := esp)) (the (tm_tasks m ! 0)), m\<lparr>tm_saved := (tm_saved m)(t := esp), tm_current := 0\<rparr>))"
proof -
  have "0 < unat (tm_num m)" using assms(3) by (simp add: unat_gt_0)
  then obtain t0 where "tm_tasks m ! 0 = Some t0" using tm_reach_ok [OF assms(1)] by (auto simp: tm_ok_def)
  then show ?thesis using tm_reach_ok [OF assms(1)] assms(2,3)
    by (auto simp: Schedule_def tm_ok_def Let_def word_neq_0_conv [symmetric] split: option.splits)
qed

section \<open>Round robin\<close>

lemma schedule_all_snoc:
  "schedule_all (es @ [e]) m =
     do { (os, m) \<leftarrow> schedule_all es m; (o1, m) \<leftarrow> Schedule e m; Some (os @ [o1], m) }"
  by (induction es arbitrary: m) (auto split: bind_splits prod.splits)

text \<open>A tick of a running manager: the task at the index gets its stack pointer saved, the next one goes on.\<close>

lemma Schedule_running:
  assumes "tm_ok junk m" "tm_current m < tm_num m" "n = unat (tm_num m)" "c = unat (tm_current m)"
    "T = (\<lambda>i. the (tm_tasks m ! i))"
  shows "\<exists>m'. Schedule esp m = Some (((tm_saved m)(T c := esp)) (T (Suc c mod n)), m') \<and>
    tm_num m' = tm_num m \<and> tm_tasks m' = tm_tasks m \<and> unat (tm_current m') = Suc c mod n \<and>
    tm_saved m' = (tm_saved m)(T c := esp)"
proof -
  let ?cur = "if tm_current m + 1 \<ge> tm_num m then 0 else tm_current m + 1"
  have c: "c < n" "n \<le> 255" using assms by (simp_all add: tm_ok_def word_less_nat_alt word_le_nat_alt)
  have s: "unat (tm_current m + 1) = Suc c" using c assms(4) by (subst unat_add_nowrap) simp_all
  have cur: "unat ?cur = Suc c mod n"
    using c s assms(3) by (auto simp: word_le_nat_alt mod_if)
  have t: "tm_tasks m ! i = Some (T i)" if "i < n" for i using that assms(1,3,5) by (auto simp: tm_ok_def)
  have "tm_tasks m ! c = Some (T c)" "tm_tasks m ! (Suc c mod n) = Some (T (Suc c mod n))" using t c by simp_all
  moreover have "tm_num m \<noteq> 0" using c assms(3) by auto
  ultimately show ?thesis
    using cur assms(4) by (auto simp: Schedule_def Let_def)
qed

lemma mod_rotate_inj:
  assumes "(c + i) mod n = (c + j) mod n" "i < n" "j < (n :: nat)" shows "i = j"
proof -
  from assms(1) obtain q1 q2 where "c + i + n * q1 = c + j + n * q2" by (auto simp: nat_mod_eq_iff)
  then have "(i + n * q1) mod n = (j + n * q2) mod n" by simp
  then show ?thesis using assms(2,3) by simp
qed

lemma round_robin_prefix:
  assumes ok: "tm_ok junk m" "tm_current m < tm_num m" and n: "n = unat (tm_num m)" and c: "c = unat (tm_current m)"
    and T: "T = (\<lambda>i. the (tm_tasks m ! i))" "inj_on T {..<n}"
    and p: "p = (\<lambda>j. (c + j) mod n)" and len: "length es = n"
  shows "k \<le> n \<Longrightarrow> \<exists>m'. schedule_all (take k es) m
      = Some (map (\<lambda>j. if Suc j < n then tm_saved m (T (p (Suc j))) else es ! 0) [0..<k], m') \<and>
    tm_num m' = tm_num m \<and> tm_tasks m' = tm_tasks m \<and> unat (tm_current m') = p k \<and>
    (\<forall>j<k. tm_saved m' (T (p j)) = es ! j) \<and> (\<forall>j<n. k \<le> j \<longrightarrow> tm_saved m' (T (p j)) = tm_saved m (T (p j)))"
proof (induction k)
  case 0
  then show ?case using ok(2) c n p by (simp add: word_less_nat_alt)
next
  case (Suc k)
  have k: "k < n" and c_n: "c < n" using Suc.prems ok(2) c n by (simp_all add: word_less_nat_alt)
  have pn: "p j < n" for j using c_n p by simp
  have neq: "T (p i) \<noteq> T (p j)" if "i < n" "j < n" "i \<noteq> j" for i j
    using that mod_rotate_inj [of c i n j] inj_onD [OF T(2), of "p i" "p j"] pn p by auto
  from Suc k obtain m1 where m1: "schedule_all (take k es) m
        = Some (map (\<lambda>j. if Suc j < n then tm_saved m (T (p (Suc j))) else es ! 0) [0..<k], m1)"
      "tm_num m1 = tm_num m" "tm_tasks m1 = tm_tasks m" "unat (tm_current m1) = p k"
      "\<And>j. j < k \<Longrightarrow> tm_saved m1 (T (p j)) = es ! j"
      "\<And>j. j < n \<Longrightarrow> k \<le> j \<Longrightarrow> tm_saved m1 (T (p j)) = tm_saved m (T (p j))" by auto
  have lt1: "tm_current m1 < tm_num m1" using m1(2,4) pn n by (simp add: word_less_nat_alt)
  then have "tm_ok junk m1" using ok(1) m1(2,3) by (simp add: tm_ok_def)
  from Schedule_running [OF this lt1, of n "p k" T "es ! k"] obtain m2 where m2:
    "Schedule (es ! k) m1 = Some (((tm_saved m1)(T (p k) := es ! k)) (T (Suc (p k) mod n)), m2)"
    "tm_num m2 = tm_num m" "tm_tasks m2 = tm_tasks m" "unat (tm_current m2) = Suc (p k) mod n"
    "tm_saved m2 = (tm_saved m1)(T (p k) := es ! k)" using m1 n T(1) by auto
  have ps: "Suc (p k) mod n = p (Suc k)" using p by (simp add: mod_Suc_eq)
  have out: "((tm_saved m1)(T (p k) := es ! k)) (T (p (Suc k))) = (if Suc k < n then tm_saved m (T (p (Suc k))) else es ! 0)"
  proof (cases "Suc k < n")
    case True
    then show ?thesis using m1(6) neq [of "Suc k" k] by simp
  next
    case False
    then have "Suc k = n" using k by simp
    then have p0: "p (Suc k) = p 0" using p by simp
    show ?thesis
    proof (cases "k = 0")
      case False
      then show ?thesis using p0 \<open>Suc k = n\<close> m1(5) [of 0] neq [of 0 k] k by simp
    qed (use p0 \<open>Suc k = n\<close> in simp)
  qed
  have "take (Suc k) es = take k es @ [es ! k]" using k len by (simp add: take_Suc_conv_app_nth)
  moreover have "\<forall>j<Suc k. tm_saved m2 (T (p j)) = es ! j"
    using m1(5) neq [OF _ k] k m2(5) by (auto simp: less_Suc_eq)
  moreover have "\<forall>j<n. Suc k \<le> j \<longrightarrow> tm_saved m2 (T (p j)) = tm_saved m (T (p j))"
    using m1(6) neq [OF _ k] m2(5) by auto
  ultimately show ?case using m1(1) m2 out ps by (simp add: schedule_all_snoc)
qed

text \<open>C38: The scheduler is fair. Once a task runs, in any state that adding tasks and timer
  interrupts lead to and in which no task was added twice, as many interrupts as there are tasks
  give each of them one turn, in the order of the table from the one after the interrupted task on,
  each with the stack pointer that was saved for it; the last one goes back to the interrupted task
  with the very stack pointer it was interrupted with.\<close>

theorem schedule_round_robin:
  assumes "tm_reach junk m" "tm_current m < tm_num m" "n = unat (tm_num m)" "c = unat (tm_current m)"
    "distinct (map (\<lambda>i. the (tm_tasks m ! i)) [0..<n])" "length es = n"
  shows "\<exists>m'. schedule_all es m
      = Some (map (\<lambda>j. tm_saved m (the (tm_tasks m ! ((c + Suc j) mod n)))) [0..<n - 1] @ [es ! 0], m') \<and>
    tm_current m' = tm_current m \<and>
    (\<forall>j<n. tm_saved m' (the (tm_tasks m ! ((c + j) mod n))) = es ! j)"
proof -
  let ?T = "\<lambda>i. the (tm_tasks m ! i)" and ?p = "\<lambda>j. (c + j) mod n"
  have c: "c < n" using assms(2-4) by (simp add: word_less_nat_alt)
  have inj: "inj_on ?T {..<n}" using assms(5) by (simp add: distinct_map lessThan_atLeast0)
  from round_robin_prefix [OF tm_reach_ok [OF assms(1)] assms(2-4) refl inj refl assms(6), of n] obtain m' where
    m': "schedule_all (take n es) m = Some (map (\<lambda>j. if Suc j < n then tm_saved m (?T (?p (Suc j))) else es ! 0) [0..<n], m')"
      "unat (tm_current m') = ?p n" "\<forall>j<n. tm_saved m' (?T (?p j)) = es ! j" by auto
  obtain N where N: "n = Suc N" using c by (cases n) simp_all
  have "map (\<lambda>j. if Suc j < n then f j else e) [0..<n] = map f [0..<n - 1] @ [e]" for f :: "nat \<Rightarrow> u32" and e
    unfolding N by simp
  moreover have "tm_current m' = tm_current m" using m'(2) c assms(4) by (intro word_eq_by_unat) simp
  ultimately show ?thesis using m'(1,3) assms(6) by (simp only: take_all) simp
qed

text \<open>Three tasks, the second of them running after two interrupts.\<close>

definition demo_tasks :: task_manager where
  "demo_tasks = snd (AddTask 12 (snd (AddTask 11 (snd (AddTask 10 (TaskManager (Some 7) (\<lambda>t. of_nat (100 + t))))))))"

definition demo_running :: task_manager where
  "demo_running = snd (the (schedule_all [0, 1] demo_tasks))"

lemma schedule_all_reach:
  "schedule_all es m = Some (os, m') \<Longrightarrow> tm_reach junk m \<Longrightarrow> tm_reach junk m'"
  by (induction es arbitrary: m os) (auto split: bind_splits, metis tm_tick)

lemma demo_running_facts:
  "tm_reach (Some 7) demo_running" "tm_num demo_running = 3" "tm_current demo_running = 1"
  "map (\<lambda>i. the (tm_tasks demo_running ! i)) [0..<3] = [10, 11, 12]"
  "map (tm_saved demo_running) [10, 11, 12] = [1, 111, 112]"
proof -
  have "\<not> Option.is_none (schedule_all [0, 1] demo_tasks)" by code_simp
  then obtain os where "schedule_all [0, 1] demo_tasks = Some (os, demo_running)"
    by (auto simp: demo_running_def Option.is_none_def)
  moreover have "tm_reach (Some 7) demo_tasks" unfolding demo_tasks_def by (intro tm_add tm_start)
  ultimately show "tm_reach (Some 7) demo_running" by (rule schedule_all_reach)
  show "tm_num demo_running = 3" "tm_current demo_running = 1" by code_simp+
  show "map (\<lambda>i. the (tm_tasks demo_running ! i)) [0..<3] = [10, 11, 12]" by code_simp
  show "map (tm_saved demo_running) [10, 11, 12] = [1, 111, 112]" by code_simp
qed

lemma schedule_round_robin_witness:
  "\<exists>m'. schedule_all [500, 600, 700] demo_running = Some ([112, 1, 500], m') \<and> tm_current m' = 1"
proof -
  note f = demo_running_facts
  have d: "distinct (map (\<lambda>i. the (tm_tasks demo_running ! i)) [0..<3])" by (simp only: f(4)) simp
  have t: "the (tm_tasks demo_running ! 0) = 10" "the (tm_tasks demo_running ! 2) = 12"
    using f(4) by (simp_all add: upt_rec numeral_2_eq_2)
  have u: "[0..<3 - 1] = [0, 1 :: nat]" by (simp add: upt_rec)
  have "tm_current demo_running < tm_num demo_running" "3 = unat (tm_num demo_running)" "1 = unat (tm_current demo_running)"
    using f(2,3) by simp_all
  from schedule_round_robin [OF f(1) this d, of "[500, 600, 700]"] obtain m' where
    "schedule_all [500, 600, 700] demo_running =
       Some (map (\<lambda>j. tm_saved demo_running (the (tm_tasks demo_running ! ((1 + Suc j) mod 3)))) [0..<3 - 1] @ [500], m')"
    "tm_current m' = tm_current demo_running" by auto
  moreover have "map (\<lambda>j. tm_saved demo_running (the (tm_tasks demo_running ! ((1 + Suc j) mod 3)))) [0..<3 - 1] = [112, 1]"
    unfolding u using t f(5) by (simp add: numeral_2_eq_2)
  ultimately show ?thesis using f(3) by simp
qed

section \<open>The end of an interrupt\<close>

text \<open>The hardware interrupts, and no others, are acknowledged, those of the second controller at both.\<close>

lemma interrupt_acknowledged:
  assumes "DoHandleInterrupt n esp st = Some (esp', st')"
  shows "is_pic st' = is_pic st @
    (if 0x20 \<le> n \<and> n < 0x30 then (0x20, 0x20) # (if 0x28 \<le> n then [(0xA0, 0x20)] else []) else [])"
  using assms by (auto simp: DoHandleInterrupt_def split: bind_splits option.split_asm if_split_asm)

text \<open>
  Deactivate tests the wrong way round: the active manager stays active, and any other one takes
  the active one down.
\<close>

lemma deactivate_inverted:
  "Deactivate a (Some a, True) = (Some a, True)" "b \<noteq> a \<Longrightarrow> Deactivate b (Some a, True) = (None, False)"
  by (simp_all add: Deactivate_def)

end
