(* ===== verification/Keyboard.thy ===== *)
theory Keyboard
  imports Prelude
begin

text \<open>
  The keyboard, drivers/input/keyboard.cpp with the handler of drivers/input/handlers.cpp: scan
  codes become characters, which are echoed and kept in a ring until the shell takes the line.
\<close>

section \<open>The ring\<close>

record keyboard =
  kb_head :: u8
  kb_tail :: u8
  kb_count :: u8
  kb_buf :: bytes
  kb_line_ready :: bool
  kb_shift :: bool
  kb_caps_lock :: bool
  kb_ctrl :: bool
  kb_alt :: bool
  kb_echo :: bytes

abbreviation (input) ch_back :: u8 where "ch_back \<equiv> 8"
abbreviation (input) ch_newline :: u8 where "ch_newline \<equiv> 10"

text \<open>The comparison of tail with -1 is one of ints.\<close>

definition put_buffer :: "u8 \<Rightarrow> keyboard \<Rightarrow> keyboard" where
  "put_buffer c s =
     (if c = ch_back
      then if kb_count s = 0 then s
           else let tail = kb_tail s - 1;
                    tail = (if uint tail = - 1 then 254 else tail)
             in s\<lparr>kb_count := kb_count s - 1, kb_tail := tail\<rparr>
      else if kb_count s < 255
      then let tail = kb_tail s + 1 in
        s\<lparr>kb_count := kb_count s + 1, kb_buf := (kb_buf s)[unat (kb_tail s) := c],
          kb_tail := (if tail = 255 then 0 else tail)\<rparr>
      else s)"

text \<open>The loop of get_buffer; w are the bytes written to the caller's buffer so far.\<close>

function get_loop :: "keyboard \<Rightarrow> bytes \<Rightarrow> u8 \<Rightarrow> keyboard \<times> bytes" where
  "get_loop s w c =
     (if kb_count s > 0 \<and> c \<noteq> ch_newline
      then let head = kb_head s + 1; c = kb_buf s ! unat head in
        get_loop (s\<lparr>kb_count := kb_count s - 1, kb_head := (if head = 255 then 0 else head)\<rparr>) (w @ [c]) c
      else (s, w))"
  by pat_completeness auto
termination
proof (relation "measure (\<lambda>(s, w, c). unat (kb_count s))")
  fix s :: keyboard and w :: bytes and c head c' :: u8
  assume "kb_count s > 0 \<and> c \<noteq> ch_newline"
  then have "unat (kb_count s - 1) < unat (kb_count s)"
    by (simp add: unat_sub_le word_le_nat_alt word_less_nat_alt)
  then show "((s\<lparr>kb_count := kb_count s - 1, kb_head := (if head = 255 then 0 else head)\<rparr>, w @ [c'], c'), s, w, c)
      \<in> measure (\<lambda>(s, w, c). unat (kb_count s))" by simp
qed simp

declare get_loop.simps [simp del]

text \<open>The bytes in the caller's buffer, which is as long as the ring, up to the one that becomes NUL.\<close>

definition get_buffer :: "keyboard \<Rightarrow> bytes \<times> keyboard" where
  "get_buffer s =
     (let c = kb_buf s ! unat (kb_head s) in
      case get_loop s [c] c of (s, w) \<Rightarrow>
        let head = kb_head s + 1 in
        (butlast w @ [0], s\<lparr>kb_count := kb_count s - 1, kb_head := (if head = 255 then 0 else head)\<rparr>))"

definition consume_line_ready :: "keyboard \<Rightarrow> bool \<times> keyboard" where
  "consume_line_ready s = (kb_line_ready s, s\<lparr>kb_line_ready := False\<rparr>)"

section \<open>Scan codes\<close>

definition letter_keys :: "(u8 \<times> u8) list" where
  "letter_keys =
     zip [0x10, 0x11, 0x12, 0x13, 0x14, 0x15, 0x16, 0x17, 0x18, 0x19,
          0x1E, 0x1F, 0x20, 0x21, 0x22, 0x23, 0x24, 0x25, 0x26,
          0x2C, 0x2D, 0x2E, 0x2F, 0x30, 0x31, 0x32]
         (map of_char ''qwertyuiopasdfghjklzxcvbnm'')"

definition symbol_keys :: "(u8 \<times> u8 \<times> u8) list" where
  "symbol_keys =
     zip [0x02, 0x03, 0x04, 0x05, 0x06, 0x07, 0x08, 0x09, 0x0A, 0x0B, 0x0C, 0x0D,
          0x1A, 0x1B, 0x2B, 0x33, 0x34, 0x35, 0x27, 0x29]
         (zip (map of_char ''1234567890-=[]'' @ [92] @ map of_char '',./;'' @ [96])
              (map of_char ''!@#$%^&*()_+{}|<>?:~''))
     @ [(0x28, 39, 34)]"

definition fixed_keys :: "(u8 \<times> u8) list" where
  "fixed_keys = [(0x37, 42), (0x4E, 43), (0x4A, 45), (0x1C, ch_newline), (0x39, 32)]"

definition key_char :: "bool \<Rightarrow> bool \<Rightarrow> u8 \<Rightarrow> u8 option" where
  "key_char shift caps_lock key =
     (case map_of letter_keys key of
        Some c \<Rightarrow> Some (if shift \<or> caps_lock then c - 32 else c)
      | None \<Rightarrow>
          (case map_of symbol_keys key of
             Some (plain, shifted) \<Rightarrow> Some (if shift then shifted else plain)
           | None \<Rightarrow> map_of fixed_keys key))"

text \<open>A key press: into the ring and to the console.\<close>

definition OnKeyDown :: "u8 \<Rightarrow> keyboard \<Rightarrow> keyboard" where
  "OnKeyDown c s = (let s = put_buffer c s in s\<lparr>kb_echo := kb_echo s @ [c]\<rparr>)"

definition hex_digit :: "u8 \<Rightarrow> u8" where
  "hex_digit d = (if d < 10 then 48 + d else 55 + d)"

definition hex_byte :: "u8 \<Rightarrow> bytes" where
  "hex_byte c = [hex_digit (drop_bit 4 c AND 0xF), hex_digit (c AND 0xF)]"

definition keyboard_interrupt :: "u8 \<Rightarrow> keyboard \<Rightarrow> keyboard" where
  "keyboard_interrupt key s =
     (case key_char (kb_shift s) (kb_caps_lock s) key of
        Some c \<Rightarrow> let s = OnKeyDown c s in (if key = 0x1C then s\<lparr>kb_line_ready := True\<rparr> else s)
      | None \<Rightarrow>
          if key = 0x2A \<or> key = 0x36 then s\<lparr>kb_shift := True\<rparr>
          else if key = 0xAA \<or> key = 0xB6 then s\<lparr>kb_shift := False\<rparr>
          else if key = 0x3A then s\<lparr>kb_caps_lock := \<not> kb_caps_lock s\<rparr>
          else if key = 0x1D then s\<lparr>kb_ctrl := True\<rparr>
          else if key = 0x9D then s\<lparr>kb_ctrl := False\<rparr>
          else if key = 0x38 then s\<lparr>kb_alt := True\<rparr>
          else if key = 0xB8 then s\<lparr>kb_alt := False\<rparr>
          else if key = 0x5B then s
          else if key = 0x0E then (if kb_count s > 0 then OnKeyDown ch_back s else s)
          else if key < 0x80 then s\<lparr>kb_echo := kb_echo s @ map of_char '' keyboard 0x'' @ hex_byte key\<rparr>
          else s)"

section \<open>Editing a line\<close>

text \<open>What the typed characters mean: a backspace takes the last one back, if there is one.\<close>

definition edit_line :: "bytes \<Rightarrow> bytes" where
  "edit_line ks = fold (\<lambda>c l. if c = ch_back then butlast l else l @ [c]) ks []"

lemma edit_line_snoc: "edit_line (ks @ [c]) = (if c = ch_back then butlast (edit_line ks) else edit_line ks @ [c])"
  by (simp add: edit_line_def)

lemma length_edit_line: "length (edit_line ks) \<le> length ks"
proof (induction ks rule: rev_induct)
  case (snoc c ks)
  have "length (edit_line ks) - 1 \<le> length (edit_line ks)" by simp
  with snoc have "length (edit_line ks) - 1 \<le> length (ks @ [c])" "length (edit_line ks) + 1 \<le> length (ks @ [c])"
    by (simp_all add: le_SucI)
  then show ?case by (simp add: edit_line_snoc)
qed (simp add: edit_line_def)

lemma edit_line_subset: "set (edit_line ks) \<subseteq> set ks - {ch_back}"
proof (induction ks rule: rev_induct)
  case (snoc c ks)
  then show ?case by (auto simp: edit_line_snoc dest: in_set_butlastD)
qed (simp add: edit_line_def)

text \<open>The ring holds a line from its head on, in one piece.\<close>

definition ring_holds :: "keyboard \<Rightarrow> nat \<Rightarrow> bytes \<Rightarrow> bool" where
  "ring_holds s h l \<longleftrightarrow> unat (kb_head s) = h \<and> unat (kb_tail s) = h + length l \<and> unat (kb_count s) = length l \<and>
     h + length l \<le> 254 \<and> length (kb_buf s) = 256 \<and> take (length l) (drop h (kb_buf s)) = l"

lemma ring_holds_put:
  assumes "ring_holds s h l" "c \<noteq> ch_back" "h + length l < 254"
  shows "ring_holds (put_buffer c s) h (l @ [c])"
proof -
  have n: "unat (kb_count s) = length l" "unat (kb_tail s) = h + length l" "length (kb_buf s) = 256"
    "take (length l) (drop h (kb_buf s)) = l" "unat (kb_head s) = h"
    using assms(1) by (simp_all add: ring_holds_def)
  have lt: "kb_count s < 255" using n assms(3) by (simp add: word_less_nat_alt)
  have t: "unat (kb_tail s + 1) = h + length l + 1" "unat (kb_count s + 1) = length l + 1"
    using n assms(3) by (subst unat_add_nowrap; simp)+
  then have t255: "kb_tail s + 1 \<noteq> 255" using assms(3) by auto
  have "take (Suc (length l)) (drop h ((kb_buf s)[h + length l := c])) = l @ [c]"
    using n assms(3) by (simp add: drop_update_swap take_Suc_conv_app_nth)
  then show ?thesis using assms(2,3) lt n t t255 by (simp add: put_buffer_def Let_def ring_holds_def)
qed

lemma ring_holds_back:
  assumes "ring_holds s h l" shows "ring_holds (put_buffer ch_back s) h (butlast l)"
proof (cases "l = []")
  case True
  then show ?thesis using assms by (simp add: put_buffer_def ring_holds_def unat_eq_zero)
next
  case False
  have n: "unat (kb_count s) = length l" "unat (kb_tail s) = h + length l" "length (kb_buf s) = 256"
    "take (length l) (drop h (kb_buf s)) = l" "unat (kb_head s) = h" "h + length l \<le> 254"
    using assms by (simp_all add: ring_holds_def)
  then have t: "unat (kb_tail s - 1) = h + length l - 1" "unat (kb_count s - 1) = length l - 1"
    using False by (simp_all add: unat_sub_le word_le_nat_alt Suc_le_eq)
  have "uint (kb_tail s - 1) \<noteq> - 1" using uint_ge_0 [of "kb_tail s - 1"] by linarith
  moreover have "take (length l - 1) (drop h (kb_buf s)) = butlast l"
    using n(4) by (metis butlast_conv_take diff_le_self take_take min.absorb1)
  moreover have "kb_count s \<noteq> 0" using n(1) False by auto
  ultimately show ?thesis using n t False by (simp add: put_buffer_def Let_def ring_holds_def Suc_le_eq)
qed

lemma ring_holds_fold:
  "ring_holds s h [] \<Longrightarrow> h + length ks \<le> 254 \<Longrightarrow> ring_holds (fold put_buffer ks s) h (edit_line ks)"
proof (induction ks rule: rev_induct)
  case (snoc c ks)
  then show ?case using length_edit_line [of ks]
    by (auto simp: edit_line_snoc intro: ring_holds_back ring_holds_put)
qed (simp add: edit_line_def)

section \<open>Taking the line\<close>

lemma get_loop_line:
  "unat (kb_count s) = length l + 1 \<Longrightarrow> unat (kb_head s) + length l \<le> 254 \<Longrightarrow> ch_newline \<notin> set l \<Longrightarrow>
   (\<And>i. i < length l + 1 \<Longrightarrow> kb_buf s ! (unat (kb_head s) + i) = (l @ [ch_newline]) ! i) \<Longrightarrow>
   get_loop s w (kb_buf s ! unat (kb_head s))
     = (s\<lparr>kb_head := of_nat (unat (kb_head s) + length l), kb_count := 1\<rparr>, w @ tl (l @ [ch_newline]))"
proof (induction l arbitrary: s w)
  case Nil
  have "kb_buf s ! unat (kb_head s) = ch_newline" using Nil.prems(4) [of 0] by simp
  moreover have "kb_count s = 1" using Nil.prems(1) by (intro word_eq_by_unat) simp
  ultimately show ?case by (subst get_loop.simps) simp
next
  case (Cons a l)
  let ?h = "unat (kb_head s)"
  note nth = Cons.prems(4)
  have a: "kb_buf s ! ?h = a" using nth [of 0] by simp
  have h1: "unat (kb_head s + 1) = ?h + 1" using Cons.prems(2) by (subst unat_add_nowrap) simp_all
  then have h255: "kb_head s + 1 \<noteq> 255" using Cons.prems(2) by auto
  have c1: "unat (kb_count s - 1) = length l + 1" using Cons.prems(1) by (simp add: unat_sub_le word_le_nat_alt)
  have c0: "kb_count s > 0" using Cons.prems(1) by (simp add: word_less_nat_alt)
  let ?s = "s\<lparr>kb_count := kb_count s - 1, kb_head := kb_head s + 1\<rparr>"
  have "kb_buf ?s ! (unat (kb_head ?s) + i) = (l @ [ch_newline]) ! i" if "i < length l + 1" for i
    using nth [of "Suc i"] that h1 by simp
  then have ih: "get_loop ?s (w @ [kb_buf s ! unat (kb_head s + 1)]) (kb_buf ?s ! unat (kb_head ?s))
     = (?s\<lparr>kb_head := of_nat (unat (kb_head ?s) + length l), kb_count := 1\<rparr>,
        (w @ [kb_buf s ! unat (kb_head s + 1)]) @ tl (l @ [ch_newline]))"
    using Cons.prems(2,3) h1 c1 by (intro Cons.IH) simp_all
  have "kb_buf s ! unat (kb_head s + 1) = hd (l @ [ch_newline])"
    using nth [of 1] h1 by (cases l) simp_all
  then have "(w @ [kb_buf s ! unat (kb_head s + 1)]) @ tl (l @ [ch_newline]) = w @ l @ [ch_newline]" by (cases l) simp_all
  with ih have "get_loop ?s (w @ [kb_buf s ! unat (kb_head s + 1)]) (kb_buf s ! unat (kb_head s + 1))
     = (s\<lparr>kb_head := of_nat (?h + length (a # l)), kb_count := 1\<rparr>, w @ l @ [ch_newline])"
    using h1 by simp
  moreover have "a \<noteq> ch_newline" using Cons.prems(3) by auto
  ultimately show ?case using c0 a h255 by (subst get_loop.simps) (simp add: Let_def)
qed

lemma get_buffer_line:
  assumes "ring_holds s h (l @ [ch_newline])" "ch_newline \<notin> set l"
  shows "fst (get_buffer s) = l @ [0]" "ring_holds (snd (get_buffer s)) (h + length l + 1) []"
proof -
  have r: "unat (kb_head s) = h" "unat (kb_tail s) = h + length l + 1" "unat (kb_count s) = length l + 1"
    "h + length l + 1 \<le> 254" "length (kb_buf s) = 256" "take (length l + 1) (drop h (kb_buf s)) = l @ [ch_newline]"
    using assms(1) by (simp_all add: ring_holds_def)
  have nth: "kb_buf s ! (h + i) = (l @ [ch_newline]) ! i" if "i < length l + 1" for i
  proof -
    have "kb_buf s ! (h + i) = take (length l + 1) (drop h (kb_buf s)) ! i" using that r(4,5) by simp
    then show ?thesis by (simp only: r(6))
  qed
  have hd: "[kb_buf s ! h] @ tl (l @ [ch_newline]) = l @ [ch_newline]" using nth [of 0] by (cases l) simp_all
  have loop: "get_loop s [kb_buf s ! unat (kb_head s)] (kb_buf s ! unat (kb_head s))
     = (s\<lparr>kb_head := of_nat (h + length l), kb_count := 1\<rparr>, l @ [ch_newline])"
    using get_loop_line [of s l "[kb_buf s ! h]"] r(1-4) assms(2) hd nth by simp
  have v: "unat (of_nat (h + length l) :: u8) = h + length l" using r(4) by (intro unat_of_nat_fit) simp
  have u: "unat (of_nat (h + length l) + 1 :: u8) = h + length l + 1"
    using r(4) by (subst unat_add_nowrap) (simp_all only: v, simp_all)
  then have "(of_nat (h + length l) + 1 :: u8) \<noteq> 255" using r(4) by auto
  then have g: "get_buffer s = (l @ [0], s\<lparr>kb_head := of_nat (h + length l) + 1, kb_count := 0\<rparr>)"
    unfolding get_buffer_def Let_def loop by simp
  show "fst (get_buffer s) = l @ [0]" using g by simp
  show "ring_holds (snd (get_buffer s)) (h + length l + 1) []" using g u r by (simp add: ring_holds_def)
qed

section \<open>From key presses to the line of the shell\<close>

text \<open>The characters a sequence of scan codes types, under the modifiers; a backspace is one of them.\<close>

fun typed :: "bool \<Rightarrow> bool \<Rightarrow> bytes \<Rightarrow> bytes" where
  "typed shift caps [] = []"
| "typed shift caps (k # ks) =
     (case key_char shift caps k of
        Some c \<Rightarrow> c # typed shift caps ks
      | None \<Rightarrow>
          if k = 0x2A \<or> k = 0x36 then typed True caps ks
          else if k = 0xAA \<or> k = 0xB6 then typed False caps ks
          else if k = 0x3A then typed shift (\<not> caps) ks
          else if k = 0x0E then ch_back # typed shift caps ks
          else typed shift caps ks)"

lemma key_char_range:
  assumes "key_char shift caps k = Some c" shows "c \<noteq> ch_back" "c = ch_newline \<longleftrightarrow> k = 0x1C"
proof -
  have l: "list_all (\<lambda>(k, c). c \<noteq> ch_back \<and> c \<noteq> ch_newline \<and> c - 32 \<noteq> ch_back \<and> c - 32 \<noteq> ch_newline \<and> k \<noteq> 0x1C) letter_keys"
    by code_simp
  have s: "list_all (\<lambda>(k, a, b). a \<noteq> ch_back \<and> b \<noteq> ch_back \<and> a \<noteq> ch_newline \<and> b \<noteq> ch_newline \<and> k \<noteq> 0x1C) symbol_keys"
    by code_simp
  have f: "list_all (\<lambda>(k, c). c \<noteq> ch_back \<and> (c = ch_newline \<longleftrightarrow> k = 0x1C)) fixed_keys" by code_simp
  show "c \<noteq> ch_back" "c = ch_newline \<longleftrightarrow> k = 0x1C"
    using assms l s f by (auto simp: key_char_def list_all_iff dest!: map_of_SomeD split: option.splits if_splits)
qed

lemma typed_facts:
  "length (typed shift caps ks) \<le> length ks" "0x1C \<notin> set ks \<Longrightarrow> ch_newline \<notin> set (typed shift caps ks)"
  by (induction shift caps ks rule: typed.induct) (auto split: option.splits simp: key_char_range(2) le_SucI)

lemma ring_holds_frame:
  "ring_holds (s\<lparr>kb_line_ready := a\<rparr>) h l = ring_holds s h l" "ring_holds (s\<lparr>kb_shift := b\<rparr>) h l = ring_holds s h l"
  "ring_holds (s\<lparr>kb_caps_lock := b\<rparr>) h l = ring_holds s h l" "ring_holds (s\<lparr>kb_ctrl := b\<rparr>) h l = ring_holds s h l"
  "ring_holds (s\<lparr>kb_alt := b\<rparr>) h l = ring_holds s h l" "ring_holds (s\<lparr>kb_echo := e\<rparr>) h l = ring_holds s h l"
  by (simp_all add: ring_holds_def)

lemma put_buffer_modifiers:
  "kb_shift (put_buffer c s) = kb_shift s" "kb_caps_lock (put_buffer c s) = kb_caps_lock s"
  "kb_line_ready (put_buffer c s) = kb_line_ready s"
  by (simp_all add: put_buffer_def Let_def)

lemma keyboard_interrupt_ring:
  "ring_holds s h (edit_line cs) \<Longrightarrow> h + length cs + length ks \<le> 254 \<Longrightarrow>
   ring_holds (fold keyboard_interrupt ks s) h (edit_line (cs @ typed (kb_shift s) (kb_caps_lock s) ks))"
proof (induction ks arbitrary: s cs)
  case (Cons k ks)
  let ?s = "keyboard_interrupt k s"
  note frame = ring_holds_frame put_buffer_modifiers
  have len: "length (edit_line cs) \<le> length cs" by (rule length_edit_line)
  show ?case
  proof (cases "key_char (kb_shift s) (kb_caps_lock s) k")
    case (Some c)
    have "ring_holds (put_buffer c s) h (edit_line (cs @ [c]))"
      using ring_holds_put [OF Cons.prems(1) key_char_range(1) [OF Some]] Cons.prems(2) len key_char_range(1) [OF Some]
      by (simp add: edit_line_snoc)
    then have "ring_holds ?s h (edit_line (cs @ [c]))" using Some by (simp add: keyboard_interrupt_def OnKeyDown_def Let_def frame)
    moreover have "kb_shift ?s = kb_shift s" "kb_caps_lock ?s = kb_caps_lock s"
      using Some by (simp_all add: keyboard_interrupt_def OnKeyDown_def Let_def frame)
    ultimately show ?thesis using Cons.IH [of ?s "cs @ [c]"] Cons.prems(2) Some by simp
  next
    case None
    show ?thesis
    proof (cases "k = 0x0E")
      case True
      have "ring_holds ?s h (edit_line (cs @ [ch_back]))"
      proof (cases "kb_count s > 0")
        case True
        then show ?thesis using ring_holds_back [OF Cons.prems(1)] None \<open>k = 0x0E\<close>
          by (simp add: keyboard_interrupt_def OnKeyDown_def Let_def frame edit_line_snoc)
      next
        case False
        then have "kb_count s = 0" by (simp add: word_neq_0_conv [symmetric])
        then have "edit_line cs = []" using Cons.prems(1) by (simp add: ring_holds_def)
        then show ?thesis using Cons.prems(1) None False \<open>k = 0x0E\<close>
          by (simp add: keyboard_interrupt_def edit_line_snoc)
      qed
      moreover have "kb_shift ?s = kb_shift s" "kb_caps_lock ?s = kb_caps_lock s"
        using None True by (simp_all add: keyboard_interrupt_def OnKeyDown_def Let_def frame)
      ultimately show ?thesis using Cons.IH [of ?s "cs @ [ch_back]"] Cons.prems(2) None True by simp
    next
      case False
      have "ring_holds ?s h (edit_line cs)"
        using Cons.prems(1) None False by (simp add: keyboard_interrupt_def frame)
      then have "ring_holds (fold keyboard_interrupt ks ?s) h (edit_line (cs @ typed (kb_shift ?s) (kb_caps_lock ?s) ks))"
        using Cons.prems(2) by (intro Cons.IH) simp_all
      moreover have "typed (kb_shift s) (kb_caps_lock s) (k # ks) = typed (kb_shift ?s) (kb_caps_lock ?s) ks"
        using None False by (simp add: keyboard_interrupt_def)
      ultimately show ?thesis by simp
    qed
  qed
qed simp


text \<open>Shift, L, shift up, S, S again, backspace, Enter: the line is Ls.\<close>

definition demo_keyboard :: "u8 \<Rightarrow> keyboard" where
  "demo_keyboard h = \<lparr>kb_head = h, kb_tail = h, kb_count = 0, kb_buf = replicate 256 0, kb_line_ready = False, kb_shift = False,
     kb_caps_lock = False, kb_ctrl = False, kb_alt = False, kb_echo = []\<rparr>"


section \<open>The end of the ring\<close>

text \<open>
  A line that runs over the end of the ring loses a character: tail leaves out slot 255, head does
  not, and it skips slot 0 instead. The line abcd typed at slot 253 is read as ab.
\<close>

lemma line_over_the_end:
  "fst (get_buffer (fold put_buffer [97, 98, 99, 100, 10] (demo_keyboard 253))) = [97, 98, 0, 100, 0]"
  by code_simp

text \<open>
  A backspace at slot 0 moves to slot 255, which the comparison with -1 was to prevent. The line ab,
  backspace, c typed at slot 253 is read as abc, and the count of the ring passes below 0.
\<close>

lemma backspace_over_the_end:
  "kb_tail (fold put_buffer [97, 98, 8] (demo_keyboard 253)) = 255"
  "fst (get_buffer (fold put_buffer [97, 98, 8, 99, 10] (demo_keyboard 253))) = [97, 98, 99, 0]"
  "kb_count (snd (get_buffer (fold put_buffer [97, 98, 8, 99, 10] (demo_keyboard 253)))) = 255"
  by code_simp+

end
