(* ===== verification/Mem_Str.thy ===== *)
theory Mem_Str
  imports Prelude
begin

text \<open>
  Memory and strings: lib/memory.c and lib/string.cpp. Memory is a map from addresses to bytes, so
  that regions may overlap; a string is the list of its bytes before the NUL.
\<close>

section \<open>Memory\<close>

type_synonym memory = "nat \<Rightarrow> u8"

definition simple_memset :: "nat \<Rightarrow> int \<Rightarrow> nat \<Rightarrow> memory \<Rightarrow> memory" where
  "simple_memset s c n mem = fold (\<lambda>i m. m(s + i := of_int c)) [0..<n] mem"

text \<open>The loop upwards and the loop downwards.\<close>

definition copy_up :: "nat \<Rightarrow> nat \<Rightarrow> nat \<Rightarrow> memory \<Rightarrow> memory" where
  "copy_up d s n mem = fold (\<lambda>i m. m(d + i := m (s + i))) [0..<n] mem"

definition copy_down :: "nat \<Rightarrow> nat \<Rightarrow> nat \<Rightarrow> memory \<Rightarrow> memory" where
  "copy_down d s n mem = fold (\<lambda>i m. m(d + i := m (s + i))) (rev [0..<n]) mem"

definition simple_memcpy :: "nat \<Rightarrow> nat \<Rightarrow> nat \<Rightarrow> memory \<Rightarrow> memory" where
  "simple_memcpy dest src n mem = copy_up dest src n mem"

fun memcmp_loop :: "bytes \<Rightarrow> bytes \<Rightarrow> int" where
  "memcmp_loop (x # xs) (y # ys) = (if x \<noteq> y then uint x - uint y else memcmp_loop xs ys)"
| "memcmp_loop _ _ = 0"

definition simple_memcmp :: "nat \<Rightarrow> nat \<Rightarrow> nat \<Rightarrow> memory \<Rightarrow> int" where
  "simple_memcmp s1 s2 n mem = memcmp_loop (map (\<lambda>i. mem (s1 + i)) [0..<n]) (map (\<lambda>i. mem (s2 + i)) [0..<n])"

definition simple_memmove :: "nat \<Rightarrow> nat \<Rightarrow> nat \<Rightarrow> memory \<Rightarrow> memory" where
  "simple_memmove dest src n mem =
     (if dest = 0 \<or> src = 0 \<or> n = 0 then mem
      else if dest < src then copy_up dest src n mem else copy_down dest src n mem)"

section \<open>Strings\<close>

text \<open>The difference of the first bytes that differ, the NUL included, as an int8_t.\<close>

fun strcmp :: "bytes \<Rightarrow> bytes \<Rightarrow> u8" where
  "strcmp [] [] = 0"
| "strcmp [] (y # ys) = 0 - y"
| "strcmp (x # xs) [] = x"
| "strcmp (x # xs) (y # ys) = (if x = y then strcmp xs ys else x - y)"

fun strlen :: "bytes \<Rightarrow> nat" where
  "strlen [] = 0"
| "strlen (x # xs) = Suc (strlen xs)"

section \<open>Laws\<close>

text \<open>The bytes at src, moved to dest.\<close>

definition moved :: "nat \<Rightarrow> nat \<Rightarrow> nat \<Rightarrow> memory \<Rightarrow> memory" where
  "moved d s n mem = (\<lambda>a. if d \<le> a \<and> a < d + n then mem (s + (a - d)) else mem a)"

lemma moved_0 [simp]: "moved d s 0 mem = mem"
  by (auto simp: moved_def fun_eq_iff)

lemma moved_last: "(moved d s n mem)(d + n := mem (s + n)) = moved d s (Suc n) mem"
  by (auto simp: moved_def fun_eq_iff)

lemma moved_first: "(moved (Suc d) (Suc s) n mem)(d := mem s) = moved d s (Suc n) mem"
proof
  fix a
  consider "a = d" | "a \<noteq> d" "d \<le> a" | "a < d" by linarith
  then show "((moved (Suc d) (Suc s) n mem)(d := mem s)) a = moved d s (Suc n) mem a"
    by cases (auto simp: moved_def intro!: arg_cong [of _ _ mem])
qed

lemma copy_up_moved: "d \<le> s \<or> s + n \<le> d \<Longrightarrow> copy_up d s n mem = moved d s n mem"
proof (induction n)
  case (Suc n)
  then have "copy_up d s n mem = moved d s n mem" by auto
  then have "copy_up d s (Suc n) mem = (moved d s n mem)(d + n := moved d s n mem (s + n))"
    by (simp add: copy_up_def)
  also have "moved d s n mem (s + n) = mem (s + n)" using Suc.prems by (auto simp: moved_def)
  finally show ?case by (simp only: moved_last)
qed (simp add: copy_up_def)

text \<open>Downwards, the bytes from k on have been moved when k are left.\<close>

lemma copy_down_suffix:
  assumes "s \<le> d" "k \<le> n"
  shows "fold (\<lambda>i m. m(d + i := m (s + i))) (rev [k..<n]) mem = moved (d + k) (s + k) (n - k) mem"
  using assms(2)
proof (induction "n - k" arbitrary: k)
  case (Suc j)
  then have k: "k < n" "Suc k \<le> n" "j = n - Suc k" by auto
  have "rev [k..<n] = rev [Suc k..<n] @ [k]" using k(1) by (simp add: upt_conv_Cons)
  then have "fold (\<lambda>i m. m(d + i := m (s + i))) (rev [k..<n]) mem
      = (moved (Suc (d + k)) (Suc (s + k)) j mem)(d + k := moved (Suc (d + k)) (Suc (s + k)) j mem (s + k))"
    using Suc.hyps(1) [OF k(3,2)] k(3) by simp
  also have "moved (Suc (d + k)) (Suc (s + k)) j mem (s + k) = mem (s + k)" using assms(1) by (simp add: moved_def)
  finally show ?case by (simp only: moved_first Suc.hyps(2))
qed simp

text \<open>simple_memmove moves overlapping regions: whatever the two addresses, afterwards the n
  bytes at dest are those that were at src before, and no other byte has changed.\<close>

theorem memmove_moves:
  assumes "dest \<noteq> 0" "src \<noteq> 0"
  shows "simple_memmove dest src n mem a = (if dest \<le> a \<and> a < dest + n then mem (src + (a - dest)) else mem a)"
proof -
  have "simple_memmove dest src n mem = moved dest src n mem"
  proof (cases "dest < src")
    case True
    then show ?thesis using assms copy_up_moved [of dest src n mem]
      by (auto simp: simple_memmove_def moved_def fun_eq_iff)
  next
    case False
    then have "copy_down dest src n mem = moved dest src n mem"
      using copy_down_suffix [of src dest 0 n mem] by (simp add: copy_down_def)
    then show ?thesis using False assms by (auto simp: simple_memmove_def moved_def fun_eq_iff)
  qed
  then show ?thesis by (simp add: moved_def)
qed

text \<open>Five bytes moved up by two, over themselves.\<close>

lemma memmove_moves_witness:
  "simple_memmove 12 10 5 (\<lambda>a. of_nat a) 14 = 12" "simple_memcpy 12 10 5 (\<lambda>a. of_nat a) 14 = 10"
  using memmove_moves [of 12 10 5 "\<lambda>a. of_nat a" 14] by simp code_simp

text \<open>memcpy is memmove on regions that do not overlap, or that overlap with dest below src.\<close>

lemma memcpy_moves:
  "dest \<le> src \<or> src + n \<le> dest \<Longrightarrow> simple_memcpy dest src n mem = moved dest src n mem"
  by (simp add: simple_memcpy_def copy_up_moved)

lemma memcmp_loop_eq_0: "length xs = length ys \<Longrightarrow> memcmp_loop xs ys = 0 \<longleftrightarrow> xs = ys"
proof (induction xs ys rule: list_induct2)
  case (Cons x xs y ys)
  have "uint x = uint y \<longleftrightarrow> x = y" by (metis word_of_int_uint)
  with Cons show ?case by auto
qed simp

lemma memcmp_equal:
  "simple_memcmp s1 s2 n mem = 0 \<longleftrightarrow> (\<forall>i<n. mem (s1 + i) = mem (s2 + i))"
  by (auto simp: simple_memcmp_def memcmp_loop_eq_0)

lemma strcmp_equal: "0 \<notin> set a \<Longrightarrow> 0 \<notin> set b \<Longrightarrow> strcmp a b = 0 \<longleftrightarrow> a = b"
  by (induction a b rule: strcmp.induct) auto

lemma strlen_length: "strlen s = length s"
  by (induction s) simp_all

end
