(* ===== verification/Shell.thy ===== *)
theory Shell
  imports Keyboard Mem_Str
begin

text \<open>
  The command line, kernel/shell.cpp with the command table of kernel/cmds.cpp: the shell takes a
  line from the keyboard, splits off the command name and runs the handlers of that name. What the
  handlers do is not modelled here: a run is a position of the table with its argument.
\<close>

definition parse_command :: "bytes \<Rightarrow> bytes option \<times> bytes option" where
  "parse_command cmd =
     (let cmd = dropWhile (\<lambda>c. c = 32) cmd in
      if cmd = [] then (None, None)
      else let name = takeWhile (\<lambda>c. c \<noteq> 32) cmd; rest = dropWhile (\<lambda>c. c \<noteq> 32) cmd in
        if rest = [] then (Some name, None)
        else let rest = dropWhile (\<lambda>c. c = 32) (tl rest) in
          (Some name, if rest = [] then None else Some rest))"

text \<open>The names of the table; None is the entry of NULLs behind each of its two parts.\<close>

definition cmd_table :: "bytes option list" where
  "cmd_table =
     map (\<lambda>s. Some (map of_char s))
       [''help'', ''date'', ''pwd'', ''cd'', ''ls'', ''mkdir'', ''touch'', ''echo'', ''cat'', ''find'', ''rm'', ''rmdir'',
        ''df'', ''dumpe2fs''] @ [None] @
     map (\<lambda>s. Some (map of_char s)) [''test_fill'', ''test_read'', ''test_churn'', ''test_mkfiles'', ''test_mkdir_deep''] @ [None]"

text \<open>A search loop from an index on: where it stops and whether it found the name; None behind the table.\<close>

fun cmd_search :: "bytes option list \<Rightarrow> nat \<Rightarrow> bytes \<Rightarrow> (nat \<times> bool) option" where
  "cmd_search [] i name = None"
| "cmd_search (None # es) i name = Some (i, False)"
| "cmd_search (Some e # es) i name = (if strcmp name e = 0 then Some (i, True) else cmd_search es (Suc i) name)"

text \<open>The second loop goes on behind the index at which the first one stopped, found or not.\<close>

definition cmd_run :: "bytes option list \<Rightarrow> bytes \<Rightarrow> nat list option" where
  "cmd_run table name =
     do {
       (i, f) \<leftarrow> cmd_search table 0 name;
       (j, g) \<leftarrow> cmd_search (drop (Suc i) table) (Suc i) name;
       Some ((if f then [i] else []) @ (if g then [j] else []))
     }"

text \<open>The handlers run, the unknown name reported, and the keyboard.\<close>

definition simpleShell :: "keyboard \<Rightarrow> ((nat \<times> bytes option) list \<times> bytes option \<times> keyboard) option" where
  "simpleShell s =
     (case consume_line_ready s of (ready, s) \<Rightarrow>
        if \<not> ready then Some ([], None, s)
        else case get_buffer s of (buf, s) \<Rightarrow>
          (case parse_command (takeWhile (\<lambda>c. c \<noteq> 0) buf) of
             (None, arg) \<Rightarrow> Some ([], None, s)
           | (Some name, arg) \<Rightarrow>
               do { runs \<leftarrow> cmd_run cmd_table name;
                    Some (map (\<lambda>i. (i, arg)) runs, if runs = [] then Some name else None, s) }))"

section \<open>Dispatch\<close>

lemma cmd_search_part:
  assumes "0 \<notin> set name" "\<forall>e\<in>set es. 0 \<notin> set e"
  shows "cmd_search (map Some es @ None # r) i name =
    Some (if name \<in> set es then (i + length (takeWhile (\<lambda>e. e \<noteq> name) es), True) else (i + length es, False))"
  using assms(2) by (induction es arbitrary: i) (auto simp: strcmp_equal [OF assms(1)])

lemma distinct_filter_one: "distinct zs \<Longrightarrow> length (filter (\<lambda>e. e = a) zs) \<le> 1"
  by (induction zs) (auto simp: filter_empty_conv)

lemma filter_positions: "length (filter (\<lambda>i. T ! i = x) [0..<length T]) = length (filter (\<lambda>e. e = x) T)"
proof -
  have "filter (\<lambda>e. e = x) T = map ((!) T) (filter (\<lambda>i. T ! i = x) [0..<length T])"
    by (subst (1) map_nth [symmetric]) (simp add: filter_map comp_def)
  then show ?thesis by simp
qed

text \<open>A table of two parts without a name twice: the two loops run the entry of the name and no other.\<close>

lemma cmd_run_two_parts:
  fixes xs ys name
  defines "T \<equiv> map Some xs @ None # map Some ys @ [None]"
  assumes "0 \<notin> set name" "\<forall>e\<in>set (xs @ ys). 0 \<notin> set e" "distinct (xs @ ys)"
  shows "cmd_run T name = Some (filter (\<lambda>i. T ! i = Some name) [0..<length T])"
proof -
  define pos where "pos = (\<lambda>es. length (takeWhile (\<lambda>e. e \<noteq> name) es))"
  have pos: "pos es < length es \<and> es ! pos es = name" if "name \<in> set es" for es
    using that by (induction es) (auto simp: pos_def)
  have s1: "cmd_search T 0 name = Some (if name \<in> set xs then (pos xs, True) else (length xs, False))"
    using cmd_search_part [OF assms(2), of xs "map Some ys @ [None]" 0] assms(3) by (simp add: T_def pos_def)
  have s2: "cmd_search (drop (Suc (pos xs)) T) (Suc (pos xs)) name = Some (length xs, False)" if "name \<in> set xs"
  proof -
    have "drop (Suc (pos xs)) T = map Some (drop (Suc (pos xs)) xs) @ None # map Some ys @ [None]"
      using pos [OF that] by (simp add: T_def drop_map)
    moreover have "0 < length xs" using that by auto
    moreover have "name \<notin> set (drop (Suc (pos xs)) xs)"
    proof -
      have "xs = take (pos xs) xs @ name # drop (Suc (pos xs)) xs" using pos [OF that] by (metis id_take_nth_drop)
      then have "distinct (take (pos xs) xs @ name # drop (Suc (pos xs)) xs)" using assms(4) by simp
      then show ?thesis by simp
    qed
    moreover have "\<forall>e\<in>set (drop (Suc (pos xs)) xs). 0 \<notin> set e" using assms(3) by (auto dest: in_set_dropD)
    ultimately show ?thesis using cmd_search_part [OF assms(2), of "drop (Suc (pos xs)) xs" "map Some ys @ [None]" "Suc (pos xs)"]
        conjunct1 [OF pos [OF that]] by simp
  qed
  have s3: "cmd_search (drop (Suc (length xs)) T) (Suc (length xs)) name
      = Some (if name \<in> set ys then (Suc (length xs) + pos ys, True) else (Suc (length xs) + length ys, False))"
    using cmd_search_part [OF assms(2), of ys "[]" "Suc (length xs)"] assms(3) by (simp add: T_def pos_def)
  have nth: "T ! i = Some name \<longleftrightarrow> (i < length xs \<and> xs ! i = name) \<or>
      (length xs < i \<and> i < Suc (length xs) + length ys \<and> ys ! (i - Suc (length xs)) = name)" if "i < length T" for i
    using that by (auto simp: T_def nth_append nth_Cons' less_Suc_eq not_less
        length_greater_0_conv [symmetric] simp del: length_greater_0_conv split: if_splits)
  have uniq: "filter (\<lambda>i. T ! i = Some name) [0..<length T] = [k]" if k: "k < length T" "T ! k = Some name" for k
  proof -
    let ?f = "filter (\<lambda>i. T ! i = Some name) [0..<length T]"
    have "length ?f = length (filter (\<lambda>e. e = name) (xs @ ys))"
      unfolding filter_positions by (simp add: T_def filter_map comp_def)
    then have "length ?f \<le> 1" using distinct_filter_one [OF assms(4), of name] by simp
    moreover have "k \<in> set ?f" using k by simp
    ultimately show ?thesis by (cases ?f) auto
  qed
  consider (x) "name \<in> set xs" | (y) "name \<notin> set xs" "name \<in> set ys" | (n) "name \<notin> set xs" "name \<notin> set ys" by blast
  then show ?thesis
  proof cases
    case x
    then have "pos xs < length T" "T ! pos xs = Some name" using pos [OF x] by (simp_all add: T_def nth_append)
    then show ?thesis using x uniq [of "pos xs"] by (simp add: cmd_run_def s1 s2 [OF x])
  next
    case y
    have "Suc (length xs) + pos ys < length T" "T ! (Suc (length xs) + pos ys) = Some name"
      using pos [OF y(2)] by (simp_all add: T_def nth_append)
    then show ?thesis using y uniq [of "Suc (length xs) + pos ys"] by (simp add: cmd_run_def s1 s3)
  next
    case n
    have "filter (\<lambda>i. T ! i = Some name) [0..<length T] = []"
      using n nth by (auto simp: filter_empty_conv in_set_conv_nth)
    then show ?thesis using n by (simp add: cmd_run_def s1 s3)
  qed
qed

section \<open>A line of the shell\<close>

lemma cmd_table_run:
  assumes "0 \<notin> set name"
  shows "cmd_run cmd_table name = Some (filter (\<lambda>i. cmd_table ! i = Some name) [0..<length cmd_table])"
proof -
  define xs :: "bytes list" where "xs = map (map of_char)
       [''help'', ''date'', ''pwd'', ''cd'', ''ls'', ''mkdir'', ''touch'', ''echo'', ''cat'', ''find'', ''rm'', ''rmdir'',
        ''df'', ''dumpe2fs'']"
  define ys :: "bytes list" where "ys = map (map of_char) [''test_fill'', ''test_read'', ''test_churn'', ''test_mkfiles'', ''test_mkdir_deep'']"
  have t: "cmd_table = map Some xs @ None # map Some ys @ [None]"
    by (simp add: cmd_table_def xs_def ys_def)
  have "list_all (\<lambda>e. 0 \<notin> set e) (xs @ ys)" unfolding xs_def ys_def by code_simp
  then have z: "\<forall>e\<in>set (xs @ ys). 0 \<notin> set e" by (simp add: list_all_iff)
  have d: "distinct (xs @ ys)" unfolding xs_def ys_def by code_simp
  show ?thesis unfolding t by (rule cmd_run_two_parts [OF assms z d])
qed

lemma dropWhile_tl_same: "r = dropWhile (\<lambda>c. c \<noteq> a) l \<Longrightarrow> r \<noteq> [] \<Longrightarrow> dropWhile (\<lambda>c. c = a) (tl r) = dropWhile (\<lambda>c. c = a) r"
proof -
  assume r: "r = dropWhile (\<lambda>c. c \<noteq> a) l" "r \<noteq> []"
  then have "hd r = a" using hd_dropWhile [of "\<lambda>c. c \<noteq> a" l] by simp
  then obtain r' where "r = a # r'" using r(2) by (cases r) auto
  then show ?thesis by simp
qed

lemma get_loop_line_ready: "kb_line_ready (fst (get_loop s w c)) = kb_line_ready s"
proof (induction s w c rule: get_loop.induct)
  case (1 s w c)
  then show ?case by (subst get_loop.simps) (simp add: Let_def)
qed

lemma get_buffer_line_ready: "kb_line_ready (snd (get_buffer s)) = kb_line_ready s"
  using get_loop_line_ready [of s "[kb_buf s ! unat (kb_head s)]" "kb_buf s ! unat (kb_head s)"]
  by (cases "get_loop s [kb_buf s ! unat (kb_head s)] (kb_buf s ! unat (kb_head s))") (simp add: get_buffer_def Let_def)

lemma cmd_table_once: "length (filter (\<lambda>i. cmd_table ! i = Some name) [0..<length cmd_table]) \<le> 1"
proof -
  have "distinct (filter (\<lambda>e. e \<noteq> None) cmd_table)" by code_simp
  then have "length (filter (\<lambda>e. e = Some name) (filter (\<lambda>e. e \<noteq> None) cmd_table)) \<le> 1" by (rule distinct_filter_one)
  then show ?thesis by (simp add: filter_positions conj_commute cong: conj_cong)
qed

text \<open>C36: The shell runs the command that was typed. On a line that is ready, the handlers that run are
  exactly those of the entries of the table whose name is the first word of the line, in either
  part of the table, and there is at most one; the argument is the rest of the line from its
  second word on, NULL when there is none; a first word that no entry has is reported, an empty
  line is not; the ring is empty again.\<close>

theorem shell_runs_command:
  assumes "ring_holds s h (l @ [10])" "10 \<notin> set l" "0 \<notin> set l" "kb_line_ready s"
    and "name = takeWhile (\<lambda>c. c \<noteq> 32) (dropWhile (\<lambda>c. c = 32) l)"
    and "rest = dropWhile (\<lambda>c. c = 32) (dropWhile (\<lambda>c. c \<noteq> 32) (dropWhile (\<lambda>c. c = 32) l))"
  shows "\<exists>s'. simpleShell s =
      Some (map (\<lambda>i. (i, if rest = [] then None else Some rest)) (filter (\<lambda>i. cmd_table ! i = Some name) [0..<length cmd_table]),
            if name = [] \<or> Some name \<in> set cmd_table then None else Some name, s') \<and>
      length (filter (\<lambda>i. cmd_table ! i = Some name) [0..<length cmd_table]) \<le> 1 \<and>
      ring_holds s' (h + length l + 1) [] \<and> \<not> kb_line_ready s'"
proof -
  let ?f = "filter (\<lambda>i. cmd_table ! i = Some name) [0..<length cmd_table]"
  let ?s = "s\<lparr>kb_line_ready := False\<rparr>"
  have r: "ring_holds ?s h (l @ [10])" using assms(1) by (simp add: ring_holds_frame)
  obtain s' where g: "get_buffer ?s = (l @ [0], s')" "ring_holds s' (h + length l + 1) []"
    using get_buffer_line [OF r assms(2)] by (cases "get_buffer ?s") simp
  have ready: "\<not> kb_line_ready s'" using get_buffer_line_ready [of ?s] g(1) by simp
  have str: "takeWhile (\<lambda>c. c \<noteq> 0) (l @ [0]) = l" using assms(3) by (subst takeWhile_append2) auto
  have shell: "simpleShell s = (case parse_command l of
       (None, arg) \<Rightarrow> Some ([], None, s')
     | (Some name, arg) \<Rightarrow>
         do { runs \<leftarrow> cmd_run cmd_table name; Some (map (\<lambda>i. (i, arg)) runs, if runs = [] then Some name else None, s') })"
    using assms(4) g(1) str by (simp add: simpleShell_def consume_line_ready_def)
  let ?l = "dropWhile (\<lambda>c. c = 32) l"
  have "simpleShell s = Some (map (\<lambda>i. (i, if rest = [] then None else Some rest)) ?f,
      if name = [] \<or> Some name \<in> set cmd_table then None else Some name, s')"
  proof (cases "?l = []")
    case True
    have "list_all (\<lambda>e. e \<noteq> Some []) cmd_table" by code_simp
    moreover have n: "name = []" using True assms(5) by (simp only: takeWhile.simps)
    ultimately have "?f = []" by (simp add: filter_empty_conv list_all_length)
    then show ?thesis using True n by (simp add: shell parse_command_def)
  next
    case False
    then have "hd ?l \<noteq> 32" using hd_dropWhile [of "\<lambda>c. c = 32" l] by simp
    then have ne: "name \<noteq> []" using False assms(5) by (cases ?l) auto
    have parse: "parse_command l = (Some name, if rest = [] then None else Some rest)"
    proof (cases "dropWhile (\<lambda>c. c \<noteq> 32) ?l = []")
      case True
      then have "rest = []" unfolding assms(6) by (simp only: dropWhile.simps)
      with False True show ?thesis unfolding parse_command_def Let_def assms(5) by (simp only: if_True if_False simp_thms)
    next
      case r: False
      have "dropWhile (\<lambda>c. c = 32) (tl (dropWhile (\<lambda>c. c \<noteq> 32) ?l)) = rest"
        unfolding assms(6) by (rule dropWhile_tl_same [OF refl r])
      with False r show ?thesis unfolding parse_command_def Let_def assms(5) by (simp only: if_False)
    qed
    have "0 \<notin> set name" using assms(3,5) by (auto dest!: set_takeWhileD set_dropWhileD)
    from cmd_table_run [OF this] have run: "cmd_run cmd_table name = Some ?f" .
    have "?f = [] \<longleftrightarrow> Some name \<notin> set cmd_table" by (auto simp: filter_empty_conv in_set_conv_nth)
    then show ?thesis using ne by (simp add: shell parse run)
  qed
  then show ?thesis using g(2) ready cmd_table_once [of name] by blast
qed

text \<open>The line  ls -l  runs entry 4 with the argument -l; the line test_read f runs entry 16.\<close>

definition demo_line :: "bytes \<Rightarrow> keyboard" where
  "demo_line l = (fold put_buffer (l @ [10]) (demo_keyboard 0))\<lparr>kb_line_ready := True\<rparr>"

lemma shell_runs_command_witness:
  "\<exists>s'. simpleShell (demo_line (map of_char '' ls -l'')) = Some ([(4, Some (map of_char ''-l''))], None, s')"
proof -
  have r: "ring_holds (demo_line (map of_char '' ls -l'')) 0 (map of_char '' ls -l'' @ [10])" by code_simp
  have t: "filter (\<lambda>i. cmd_table ! i = Some (map of_char ''ls'')) [0..<length cmd_table] = [4]"
    "Some (map of_char ''ls'') \<in> set cmd_table" by code_simp+
  have "kb_line_ready (demo_line (map of_char '' ls -l''))" by (simp add: demo_line_def)
  from shell_runs_command [OF r _ _ this refl refl] show ?thesis using t by auto
qed

end
