(* ===== verification/Console.thy ===== *)
theory Console
  imports Prelude
begin

text \<open>
  The text console, lib/printf.cpp on the VGA text memory: the path taken when no frame buffer is
  active. The memory of the screen has 25 rows of 80 cells of 16 bits; an access outside of it is
  None. x and y are int8_t and never get near the ends of that type.
\<close>

record console =
  cn_video :: "u16 list"
  cn_x :: int
  cn_y :: int

text \<open>Cells by their index; a loop runs its body on one index after the other.\<close>

definition vm_read :: "int \<Rightarrow> u16 list \<Rightarrow> u16 option" where
  "vm_read i v = (if 0 \<le> i \<and> i < 80 * 25 then Some (v ! nat i) else None)"

definition vm_write :: "int \<Rightarrow> u16 \<Rightarrow> u16 list \<Rightarrow> u16 list option" where
  "vm_write i c v = (if 0 \<le> i \<and> i < 80 * 25 then Some (v[nat i := c]) else None)"

fun vm_each :: "(int \<Rightarrow> u16 list \<Rightarrow> u16 list option) \<Rightarrow> nat list \<Rightarrow> u16 list \<Rightarrow> u16 list option" where
  "vm_each f [] v = Some v"
| "vm_each f (i # is) v = Option.bind (f (int i) v) (vm_each f is)"

text \<open>A read-modify-write of the cell at the cursor.\<close>

definition cell_update :: "(u16 \<Rightarrow> u16) \<Rightarrow> console \<Rightarrow> console option" where
  "cell_update f s =
     do {
       let i = 80 * cn_y s + cn_x s;
       c \<leftarrow> vm_read i (cn_video s);
       v \<leftarrow> vm_write i (f c) (cn_video s);
       Some (s\<lparr>cn_video := v\<rparr>)
     }"

text \<open>Rows 1 to 24 move up, the last one is cleared.\<close>

definition scroll_up :: "console \<Rightarrow> console option" where
  "scroll_up s =
     do {
       v \<leftarrow> vm_each (\<lambda>row. vm_each (\<lambda>col v. do {
              c \<leftarrow> vm_read (80 * (row + 1) + col) v;
              vm_write (80 * row + col) c v
            }) [0..<80]) [0..<24] (cn_video s);
       v \<leftarrow> vm_each (\<lambda>col. vm_write (80 * 24 + col) 0x0700) [0..<80] v;
       Some (s\<lparr>cn_video := v, cn_y := 24\<rparr>)
     }"

definition put_char :: "u8 \<Rightarrow> console \<Rightarrow> console option" where
  "put_char c s =
     do {
       s \<leftarrow> (if c = 10 then Some (s\<lparr>cn_y := cn_y s + 1, cn_x := 0\<rparr>)
            else do { s \<leftarrow> cell_update (\<lambda>v. (v AND 0xFF00) OR scast c) s; Some (s\<lparr>cn_x := cn_x s + 1\<rparr>) });
       let s = (if cn_x s \<ge> 80 then s\<lparr>cn_y := cn_y s + 1, cn_x := 0\<rparr> else s);
       (if cn_y s \<ge> 25 then scroll_up s else Some s)
     }"

fun put_string :: "bytes \<Rightarrow> console \<Rightarrow> console option" where
  "put_string [] s = Some s"
| "put_string (c # cs) s = Option.bind (put_char c s) (put_string cs)"

definition vga_printf :: "bytes \<Rightarrow> console \<Rightarrow> console option" where
  "vga_printf str s =
     do {
       s \<leftarrow> cell_update (\<lambda>v. (v AND 0x00FF) OR 0x0700) s;
       if str \<noteq> [] \<and> hd str = 8
       then do {
         let s = s\<lparr>cn_x := cn_x s - 1\<rparr>;
         let s = (if cn_x s < 0 then s\<lparr>cn_x := 0\<rparr> else s);
         s \<leftarrow> cell_update (\<lambda>v. 0x0700) s;
         cell_update (\<lambda>v. (v AND 0x00FF) OR 0x7000) s
       }
       else do {
         s \<leftarrow> put_string str s;
         cell_update (\<lambda>v. (v AND 0x00FF) OR 0x7000) s
       }
     }"

definition hex_char :: "u8 \<Rightarrow> u8" where
  "hex_char d = map of_char ''0123456789ABCDEF'' ! unat d"

definition printfHex :: "u8 \<Rightarrow> console \<Rightarrow> console option" where
  "printfHex num s = vga_printf [hex_char (drop_bit 4 num AND 0xF), hex_char (num AND 0xF)] s"

text \<open>Where printing starts: in row 15 of the screen as the boot loader left it.\<close>

definition console_start :: "u16 list \<Rightarrow> console" where
  "console_start video = \<lparr>cn_video = video, cn_x = 0, cn_y = 14\<rparr>"

section \<open>Staying on the screen\<close>

definition on_screen :: "console \<Rightarrow> bool" where
  "on_screen s \<longleftrightarrow> length (cn_video s) = 2000 \<and> 0 \<le> cn_x s \<and> cn_x s < 80 \<and> 0 \<le> cn_y s \<and> cn_y s < 25"

definition cell :: "console \<Rightarrow> nat \<Rightarrow> nat \<Rightarrow> u16" where
  "cell s row col = cn_video s ! (80 * row + col)"

lemma cell_update_some:
  assumes "on_screen s"
  shows "cell_update f s = Some (s\<lparr>cn_video := (cn_video s)[nat (80 * cn_y s + cn_x s) := f (cn_video s ! nat (80 * cn_y s + cn_x s))]\<rparr>)"
  using assms by (auto simp: cell_update_def vm_read_def vm_write_def Let_def on_screen_def)

lemma vm_each_fold:
  assumes "\<And>i v. i \<in> set is \<Longrightarrow> length v = 2000 \<Longrightarrow> f (int i) v = Some (g i v) \<and> length (g i v) = 2000"
  shows "length v = 2000 \<Longrightarrow> vm_each f is v = Some (fold g is v) \<and> length (fold g is v) = 2000"
  using assms by (induction "is" arbitrary: v) simp_all

definition copy_row :: "nat \<Rightarrow> nat \<Rightarrow> u16 list \<Rightarrow> u16 list" where
  "copy_row n row = fold (\<lambda>col v. v[80 * row + col := v ! (80 * Suc row + col)]) [0..<n]"

definition blank_row :: "nat \<Rightarrow> u16 list \<Rightarrow> u16 list" where
  "blank_row n = fold (\<lambda>col v. v[80 * 24 + col := 0x0700]) [0..<n]"

text \<open>Every access of the scrolling loops is on the screen.\<close>

lemma scroll_up_some:
  assumes "length (cn_video s) = 2000"
  defines "v \<equiv> blank_row 80 (fold (copy_row 80) [0..<24] (cn_video s))"
  shows "scroll_up s = Some (s\<lparr>cn_video := v, cn_y := 24\<rparr>)" and "length v = 2000"
proof -
  have row: "vm_each (\<lambda>col v. Option.bind (vm_read (80 * (int row + 1) + col) v) (\<lambda>c. vm_write (80 * int row + col) c v)) [0..<80] u
      = Some (copy_row 80 row u) \<and> length (copy_row 80 row u) = 2000"
    if "row \<in> set [0..<24]" "length u = 2000" for row u
    unfolding copy_row_def
  proof (rule vm_each_fold [OF _ that(2)])
    fix col and w :: "u16 list" assume c: "col \<in> set [0..<80]" "length w = 2000"
    then have "80 * Suc row + col < 2000" using that(1) by auto
    moreover have "nat (80 * (int row + 1) + int col) = 80 * Suc row + col" "nat (80 * int row + int col) = 80 * row + col"
      by (simp_all add: nat_eq_iff)
    ultimately show "Option.bind (vm_read (80 * (int row + 1) + int col) w) (\<lambda>c. vm_write (80 * int row + int col) c w)
        = Some (w[80 * row + col := w ! (80 * Suc row + col)]) \<and> length (w[80 * row + col := w ! (80 * Suc row + col)]) = 2000"
      using c(2) unfolding vm_read_def vm_write_def by simp
  qed
  have 1: "vm_each (\<lambda>row. vm_each (\<lambda>col v. Option.bind (vm_read (80 * (row + 1) + col) v) (\<lambda>c. vm_write (80 * row + col) c v)) [0..<80])
      [0..<24] (cn_video s) = Some (fold (copy_row 80) [0..<24] (cn_video s)) \<and> length (fold (copy_row 80) [0..<24] (cn_video s)) = 2000"
    by (rule vm_each_fold [OF _ assms(1)]) (rule row)
  have 2: "vm_each (\<lambda>col. vm_write (80 * 24 + col) 0x0700) [0..<80] u = Some (blank_row 80 u) \<and> length (blank_row 80 u) = 2000"
    if "length u = 2000" for u
    unfolding blank_row_def
  proof (rule vm_each_fold [OF _ that])
    fix col and w :: "u16 list" assume "col \<in> set [0..<80]" "length w = 2000"
    then show "vm_write (80 * 24 + int col) 0x0700 w = Some (w[80 * 24 + col := 0x0700]) \<and> length (w[80 * 24 + col := 0x0700]) = 2000"
      by (auto simp: vm_write_def nat_add_distrib)
  qed
  show "scroll_up s = Some (s\<lparr>cn_video := v, cn_y := 24\<rparr>)" "length v = 2000"
    using 1 2 [of "fold (copy_row 80) [0..<24] (cn_video s)"] unfolding scroll_up_def v_def by simp_all
qed

lemma on_screen_video: "on_screen s \<Longrightarrow> length v = 2000 \<Longrightarrow> on_screen (s\<lparr>cn_video := v\<rparr>)"
  by (simp add: on_screen_def)

lemma put_char_on_screen:
  assumes "on_screen s" shows "\<exists>s'. put_char c s = Some s' \<and> on_screen s'"
  using assms cell_update_some [OF assms, of "\<lambda>v. (v AND 0xFF00) OR scast c"]
  by (auto simp: put_char_def Let_def on_screen_def scroll_up_some)

lemma put_string_on_screen: "on_screen s \<Longrightarrow> \<exists>s'. put_string cs s = Some s' \<and> on_screen s'"
proof (induction cs arbitrary: s)
  case (Cons c cs)
  from put_char_on_screen [OF Cons.prems, of c] obtain s1 where "put_char c s = Some s1" "on_screen s1" by auto
  then show ?case using Cons.IH [of s1] by auto
qed simp

lemma vga_printf_on_screen:
  assumes "on_screen s" shows "\<exists>s'. vga_printf str s = Some s' \<and> on_screen s'"
proof -
  obtain s1 where s1: "cell_update (\<lambda>v. (v AND 0x00FF) OR 0x0700) s = Some s1" "on_screen s1"
    using assms by (simp add: cell_update_some on_screen_video on_screen_def)
  show ?thesis
  proof (cases "str \<noteq> [] \<and> hd str = 8")
    case True
    let ?s = "if cn_x s1 - 1 < 0 then s1\<lparr>cn_x := 0\<rparr> else s1\<lparr>cn_x := cn_x s1 - 1\<rparr>"
    have o: "on_screen ?s" using s1(2) by (auto simp: on_screen_def)
    obtain s2 where s2: "cell_update (\<lambda>v. 0x0700) ?s = Some s2" "on_screen s2"
      using o cell_update_some [OF o] by (simp add: on_screen_def)
    obtain s3 where "cell_update (\<lambda>v. (v AND 0x00FF) OR 0x7000) s2 = Some s3" "on_screen s3"
      using s2(2) cell_update_some [OF s2(2)] by (simp add: on_screen_def)
    then show ?thesis using True s1 s2 by (auto simp: vga_printf_def Let_def split: if_splits)
  next
    case False
    obtain s2 where s2: "put_string str s1 = Some s2" "on_screen s2" using put_string_on_screen [OF s1(2)] by auto
    obtain s3 where "cell_update (\<lambda>v. (v AND 0x00FF) OR 0x7000) s2 = Some s3" "on_screen s3"
      using s2(2) cell_update_some [OF s2(2)] by (simp add: on_screen_def)
    then show ?thesis using False s1 s2 by (auto simp: vga_printf_def)
  qed
qed

text \<open>C40: Printing never leaves the screen. From a cursor on the screen, and so from the start on,
  whatever bytes are printed, each access of vga_printf is to one of the 2000 cells of the text
  memory, and the cursor is on the screen again.\<close>

theorem printf_stays_on_screen:
  assumes "on_screen s" shows "\<exists>s'. vga_printf str s = Some s' \<and> on_screen s'"
  using assms by (rule vga_printf_on_screen)

lemma printf_stays_on_screen_witness:
  "\<exists>s'. vga_printf [72, 105, 10] (console_start (replicate 2000 0)) = Some s' \<and> on_screen s'"
  by (rule printf_stays_on_screen) (simp add: on_screen_def console_start_def)

section \<open>Scrolling\<close>

lemma same_cell: "c < 80 \<Longrightarrow> n < 80 \<Longrightarrow> 80 * r + c = 80 * row + n \<longleftrightarrow> r = row \<and> c = (n :: nat)"
proof -
  assume "c < 80" "n < 80"
  then have "(80 * r + c) div 80 = r" "(80 * r + c) mod 80 = c" "(80 * row + n) div 80 = row" "(80 * row + n) mod 80 = n"
    by simp_all
  then show ?thesis by metis
qed

lemma nth_copy_row:
  assumes "n \<le> 80" "80 * row + 160 \<le> length v" "c < 80" "80 * r + c < length v"
  shows "copy_row n row v ! (80 * r + c) = (if r = row \<and> c < n then v ! (80 * Suc row + c) else v ! (80 * r + c)) \<and>
    length (copy_row n row v) = length v"
  using assms
proof (induction n arbitrary: r c)
  case (Suc n)
  let ?u = "copy_row n row v"
  have n: "n \<le> 80" "n < 80" "80 * Suc row + n < length v" using Suc.prems(1,2) by simp_all
  note new = Suc.IH [OF n(1) Suc.prems(2) n(2,3)] and old = Suc.IH [OF n(1) Suc.prems(2,3,4)]
  have step: "copy_row (Suc n) row v = ?u[80 * row + n := v ! (80 * Suc row + n)]"
    using new by (simp add: copy_row_def)
  show ?case
  proof (cases "r = row \<and> c = n")
    case True
    have "80 * row + n < length ?u" using new n(3) by simp
    then show ?thesis using True new unfolding step by simp
  next
    case False
    then have "80 * r + c \<noteq> 80 * row + n" using same_cell [OF Suc.prems(3) n(2)] by blast
    moreover have "r = row \<and> c < Suc n \<longleftrightarrow> r = row \<and> c < n" using False by (auto simp: less_Suc_eq)
    ultimately show ?thesis using old unfolding step by (simp only: nth_list_update_neq length_list_update simp_thms)
  qed
qed (simp add: copy_row_def)

lemma nth_copy_rows:
  assumes "k \<le> 24" "length v = 2000" "c < 80" "r < 25"
  shows "fold (copy_row 80) [0..<k] v ! (80 * r + c) = (if r < k then v ! (80 * Suc r + c) else v ! (80 * r + c)) \<and>
    length (fold (copy_row 80) [0..<k] v) = 2000"
  using assms
proof (induction k arbitrary: r)
  case (Suc k)
  let ?u = "fold (copy_row 80) [0..<k] v"
  have "length ?u = 2000" "?u ! (80 * Suc k + c) = v ! (80 * Suc k + c)"
    using Suc.IH [of "Suc k"] Suc.prems by simp_all
  with nth_copy_row [of 80 k ?u c r] Suc.IH [of r] Suc.prems show ?case by (auto simp: less_Suc_eq)
qed simp

lemma nth_blank_row:
  "i < length v \<Longrightarrow> blank_row n v ! i = (if 1920 \<le> i \<and> i < 1920 + n then 0x0700 else v ! i) \<and> length (blank_row n v) = length v"
proof (induction n)
  case (Suc n)
  have "blank_row (Suc n) v = (blank_row n v)[1920 + n := 0x0700]" by (simp add: blank_row_def)
  then show ?case using Suc by (cases "i = 1920 + n") auto
qed (auto simp: blank_row_def)

text \<open>After scrolling, each row holds what the row below it held, the last one is blank.\<close>

lemma scroll_up_cells:
  assumes "length (cn_video s) = 2000" "row < 25" "col < 80"
  shows "\<exists>s'. scroll_up s = Some s' \<and> cell s' row col = (if row < 24 then cell s (Suc row) col else 0x0700)"
proof -
  let ?u = "fold (copy_row 80) [0..<24] (cn_video s)"
  have u: "?u ! (80 * row + col) = (if row < 24 then cn_video s ! (80 * Suc row + col) else cn_video s ! (80 * row + col))"
    "length ?u = 2000" using nth_copy_rows [of 24 "cn_video s" col row] assms by simp_all
  have i: "80 * row + col < 2000" "1920 \<le> 80 * row + col \<longleftrightarrow> \<not> row < 24" using assms by linarith+
  from nth_blank_row [of "80 * row + col" ?u 80] u i
  have "blank_row 80 ?u ! (80 * row + col) = (if row < 24 then cn_video s ! (80 * Suc row + col) else 0x0700)" by auto
  then show ?thesis using scroll_up_some(1) [OF assms(1)] by (simp add: cell_def)
qed

end
