(* ===== verification/Machine.thy ===== *)
theory Machine
  imports Prelude
begin

text \<open>
  Segment descriptors, mm/gdt.cpp, and the interval timer, drivers/pit.cpp.
\<close>

section \<open>Segment descriptors\<close>

text \<open>The eight bytes of a descriptor in the order of memory.\<close>

definition segment_descriptor :: "u32 \<Rightarrow> u32 \<Rightarrow> u8 \<Rightarrow> bytes" where
  "segment_descriptor base limit type_bits =
     (let flags = (if limit \<le> 65536 then 0x40 else 0xC0) :: u8;
          limit = (if limit \<le> 65536 then limit
                   else if limit AND 0xFFF \<noteq> 0xFFF then drop_bit 12 limit - 1 else drop_bit 12 limit)
      in [ucast (limit AND 0xFF), ucast (drop_bit 8 limit AND 0xFF), ucast (base AND 0xFF), ucast (drop_bit 8 base AND 0xFF),
          ucast (drop_bit 16 base AND 0xFF), type_bits, flags OR ucast (drop_bit 16 limit AND 0xFF),
          ucast (drop_bit 24 base AND 0xFF)])"

definition descriptor_base :: "bytes \<Rightarrow> u32" where
  "descriptor_base t =
     (let result = ucast (t ! 7);
          result = push_bit 8 result + ucast (t ! 4);
          result = push_bit 8 result + ucast (t ! 3);
          result = push_bit 8 result + ucast (t ! 2)
      in if t ! 6 AND 0xC0 = 0xC0 then push_bit 12 result OR 0xFFF else result)"

definition descriptor_limit :: "bytes \<Rightarrow> u32" where
  "descriptor_limit t =
     (let result = ucast (t ! 6 AND 0xF);
          result = push_bit 8 result + ucast (t ! 1);
          result = push_bit 8 result + ucast (t ! 0)
      in if t ! 6 AND 0xC0 = 0xC0 then push_bit 12 result OR 0xFFF else result)"

text \<open>The table: two null descriptors, code and data of 64 MiB from 0; a selector is an offset.\<close>

definition gdt_table :: "bytes list" where
  "gdt_table = [segment_descriptor 0 0 0, segment_descriptor 0 0 0,
     segment_descriptor 0 (64 * 1024 * 1024) 0x9A, segment_descriptor 0 (64 * 1024 * 1024) 0x92]"

definition CodeSegmentSelector :: u16 where "CodeSegmentSelector = 2 * 8"
definition DataSegmentSelector :: u16 where "DataSegmentSelector = 3 * 8"

section \<open>The interval timer\<close>

record pit =
  g_pit_ticks :: u32
  g_pit_hz :: u32

text \<open>The bytes written to the command port and to channel 0.\<close>

definition pit_init :: "u32 \<Rightarrow> pit \<Rightarrow> bytes \<times> pit" where
  "pit_init hz p =
     (let hz = (if hz = 0 then 1000 else hz);
          hz = (if hz > 1193182 then 1193182 else hz);
          divisor = 1193182 div hz;
          divisor = (if divisor = 0 then 1 else divisor)
      in ([0x34, ucast (divisor AND 0xFF), ucast (drop_bit 8 divisor AND 0xFF)], p\<lparr>g_pit_hz := 1193182 div divisor\<rparr>))"

definition pit_on_irq_tick :: "pit \<Rightarrow> pit" where
  "pit_on_irq_tick p = p\<lparr>g_pit_ticks := g_pit_ticks p + 1\<rparr>"

definition pit_get_millis_in_second :: "pit \<Rightarrow> u32" where
  "pit_get_millis_in_second p =
     (if g_pit_hz p = 0 then 0
      else let rem = g_pit_ticks p mod g_pit_hz p in (rem * 1000) div g_pit_hz p)"

section \<open>Laws of descriptors\<close>

lemma unat_shift_byte:
  fixes a :: u32 and b :: u8
  assumes "unat a < 2 ^ 24" shows "unat (push_bit 8 a + ucast b) = 256 * unat a + unat b"
proof -
  have p: "unat (push_bit 8 a) = 256 * unat a"
    using assms by (simp add: push_bit_eq_mult unat_mult_nowrap)
  have b: "unat (ucast b :: u32) = unat b" using unat_u8_bound [of b] by (simp add: unat_ucast_fit)
  show ?thesis using assms p b unat_u8_bound [of b] by (subst unat_add_nowrap) simp_all
qed

lemma unat_drop: "unat (drop_bit k (x :: u32)) = unat x div 2 ^ k"
proof -
  have "unat x mod 4294967296 = unat x" using unat_u32_bound [of x] by simp
  then show ?thesis by (simp only: unsigned_drop_bit_eq drop_bit_nat_def take_bit_nat_def) simp
qed

lemma unat_byte_of: "unat (ucast (drop_bit k x AND 0xFF) :: u8) = (unat (x :: u32) div 2 ^ k) mod 256"
proof -
  have m: "y AND 0xFF = take_bit 8 y" for y :: u32 using take_bit_eq_mask [of 8 y] by (simp add: mask_eq_exp_minus_1)
  have "unat (drop_bit k x AND 0xFF) = (unat x div 2 ^ k) mod 256"
    unfolding m by (simp only: unsigned_take_bit_eq unat_drop take_bit_nat_def) simp
  then show ?thesis by (subst unat_ucast_fit) simp_all
qed

lemmas unat_low_byte = unat_byte_of [of 0, simplified]

lemma flag_bits:
  assumes "unat (b :: u8) < 16"
  shows "(0x40 OR b) AND 0xF = b" "(0xC0 OR b) AND 0xF = b" "(0x40 OR b) AND 0xC0 = 0x40" "(0xC0 OR b) AND 0xC0 = 0xC0"
proof -
  have "\<forall>n\<in>set [0..<16]. (0x40 OR of_nat n) AND 0xF = (of_nat n :: u8) \<and> (0xC0 OR of_nat n) AND 0xF = (of_nat n :: u8) \<and>
      (0x40 OR of_nat n) AND 0xC0 = (0x40 :: u8) \<and> (0xC0 OR of_nat n) AND 0xC0 = (0xC0 :: u8)" by code_simp
  moreover have "unat b \<in> set [0..<16]" using assms by simp
  ultimately have "(0x40 OR of_nat (unat b)) AND 0xF = (of_nat (unat b) :: u8) \<and> (0xC0 OR of_nat (unat b)) AND 0xF = (of_nat (unat b) :: u8) \<and>
      (0x40 OR of_nat (unat b)) AND 0xC0 = (0x40 :: u8) \<and> (0xC0 OR of_nat (unat b)) AND 0xC0 = (0xC0 :: u8)" by blast
  then show "(0x40 OR b) AND 0xF = b" "(0xC0 OR b) AND 0xF = b" "(0x40 OR b) AND 0xC0 = 0x40" "(0xC0 OR b) AND 0xC0 = 0xC0"
    by simp_all
qed

lemma push_12_or:
  assumes "unat (r :: u32) < 2 ^ 20" shows "unat (push_bit 12 r OR 0xFFF) = 4096 * unat r + 4095"
proof -
  have "push_bit 12 r + mask 12 = push_bit 12 r OR mask 12"
    by (rule disjunctive_add) (auto simp: bit_push_bit_iff bit_mask_iff)
  then have "push_bit 12 r OR 0xFFF = push_bit 12 r + 0xFFF" by (simp add: mask_eq_exp_minus_1)
  moreover have p: "unat (push_bit 12 r) = 4096 * unat r" using assms by (simp add: push_bit_eq_mult unat_mult_nowrap)
  ultimately show ?thesis using assms by (simp add: unat_add_nowrap)
qed

text \<open>The three parts of a 20-bit limit are put together again.\<close>

lemma limit_bytes:
  fixes l :: u32 and b :: u8
  assumes "unat l < 2 ^ 20" "b = ucast (drop_bit 16 l AND 0xFF)"
  shows "unat b < 16" "unat (push_bit 8 (push_bit 8 (ucast b) + ucast (ucast (drop_bit 8 l AND 0xFF) :: u8)) + ucast (ucast (l AND 0xFF) :: u8) :: u32) = unat l"
proof -
  have "unat l div 65536 < 16" using assms(1) by (simp add: div_less_iff_less_mult)
  then have b: "unat b = unat l div 65536" using unat_byte_of [of 16 l] assms(2) by simp
  then show b16: "unat b < 16" using \<open>unat l div 65536 < 16\<close> by simp
  let ?r1 = "push_bit 8 (ucast b) + ucast (ucast (drop_bit 8 l AND 0xFF) :: u8) :: u32"
  have u: "unat (ucast b :: u32) = unat b" using b16 by (simp add: unat_ucast_fit)
  have r1: "unat ?r1 = 256 * unat b + (unat l div 256) mod 256"
    using unat_shift_byte [of "ucast b" "ucast (drop_bit 8 l AND 0xFF)"] u b16 unat_byte_of [of 8 l] by simp
  then have "unat ?r1 = unat l div 256"
    using b mult_div_mod_eq [of 256 "unat l div 256"] by (simp add: div_mult2_eq [symmetric])
  moreover have "unat ?r1 < 16777216"
    using r1 b16 mod_less_divisor [of 256 "unat l div 256"] by linarith
  ultimately show "unat (push_bit 8 ?r1 + ucast (ucast (l AND 0xFF) :: u8)) = unat l"
    using unat_shift_byte [of ?r1 "ucast (l AND 0xFF)"] unat_low_byte [of l] by simp
qed

text \<open>The limit of a segment. Limit() gives back the limit a descriptor was made with up to 64 KiB,
  above that the largest limit not beyond it that ends a page of 4 KiB, whatever base and type.\<close>

theorem descriptor_keeps_limit:
  "unat (descriptor_limit (segment_descriptor base limit type_bits)) =
     (if unat limit \<le> 65536 then unat limit else unat limit - (unat limit + 1) mod 4096)"
proof (cases "limit \<le> 65536")
  case True
  then have u: "unat limit \<le> 65536" by (simp add: word_le_nat_alt)
  then have "unat limit < 2 ^ 20" by simp
  note b = limit_bytes [OF this refl]
  show ?thesis using True u b(2) by (simp add: segment_descriptor_def descriptor_limit_def Let_def flag_bits [OF b(1)])
next
  case False
  then have u: "unat limit > 65536" by (simp add: word_le_nat_alt not_le)
  have low: "limit AND 0xFFF = take_bit 12 limit" using take_bit_eq_mask [of 12 limit] by (simp add: mask_eq_exp_minus_1)
  have m: "unat (limit AND 0xFFF) = unat limit mod 4096"
    unfolding low by (simp only: unsigned_take_bit_eq take_bit_nat_def) simp
  have d: "unat (drop_bit 12 limit) = unat limit div 4096" using unat_drop [of 12 limit] by simp
  have "drop_bit 12 limit \<ge> 1" using d u by (simp add: word_le_nat_alt)
  then have d1: "unat (drop_bit 12 limit - 1) = unat limit div 4096 - 1" using d by (simp add: unat_sub_le)
  let ?l = "if limit AND 0xFFF \<noteq> 0xFFF then drop_bit 12 limit - 1 else drop_bit 12 limit"
  have full: "limit AND 0xFFF = 0xFFF \<longleftrightarrow> unat limit mod 4096 = 4095"
  proof
    assume "unat limit mod 4096 = 4095"
    then show "limit AND 0xFFF = 0xFFF" using m by (intro word_eq_by_unat) simp
  qed (use m in simp)
  let ?n = "unat limit"
  have l: "4096 * unat ?l + 4095 = ?n - (?n + 1) mod 4096"
  proof (cases "?n mod 4096 = 4095")
    case True
    then have "(?n + 1) mod 4096 = 0" by (simp add: mod_Suc)
    moreover have "4096 * (?n div 4096) + 4095 = ?n" using True mult_div_mod_eq [of 4096 ?n] by simp
    ultimately show ?thesis using True full d by simp
  next
    case False
    then have "(?n + 1) mod 4096 = ?n mod 4096 + 1" by (simp add: mod_Suc)
    moreover have "unat ?l = ?n div 4096 - 1" using False full d1 by simp
    moreover have "1 \<le> ?n div 4096" using u by linarith
    then have "4096 * (?n div 4096 - 1) + 4096 = 4096 * (?n div 4096)" by (cases "?n div 4096") simp_all
    ultimately show ?thesis using mult_div_mod_eq [of 4096 ?n] by linarith
  qed
  define L where "L = ?l"
  have "unat L < 2 ^ 20" using d d1 unat_less_pow [of limit] by (auto simp: L_def)
  note b = limit_bytes [OF this refl]
  let ?r = "push_bit 8 (push_bit 8 (ucast (ucast (drop_bit 16 L AND 0xFF) :: u8)) + ucast (ucast (drop_bit 8 L AND 0xFF) :: u8))
      + ucast (ucast (L AND 0xFF) :: u8) :: u32"
  have "segment_descriptor base limit type_bits =
      [ucast (L AND 0xFF), ucast (drop_bit 8 L AND 0xFF), ucast (base AND 0xFF), ucast (drop_bit 8 base AND 0xFF),
       ucast (drop_bit 16 base AND 0xFF), type_bits, 0xC0 OR ucast (drop_bit 16 L AND 0xFF), ucast (drop_bit 24 base AND 0xFF)]"
    unfolding segment_descriptor_def Let_def L_def using False by (simp only: if_False)
  then have "descriptor_limit (segment_descriptor base limit type_bits) = push_bit 12 ?r OR 0xFFF"
    by (simp add: descriptor_limit_def flag_bits [OF b(1)])
  moreover have "unat ?r < 2 ^ 20" using b(2) \<open>unat L < 2 ^ 20\<close> by simp
  ultimately have "unat (descriptor_limit (segment_descriptor base limit type_bits)) = 4096 * unat L + 4095"
    using push_12_or [of ?r] b(2) by simp
  then show ?thesis using l u by (simp add: L_def)
qed

text \<open>
  Base() gives back the base of a descriptor of at most 64 KiB; of a larger one it shifts the base
  like a limit, so that it reports the last byte of the first page for the code segment at 0.
\<close>

lemma base_of_code_segment: "map descriptor_base gdt_table = [0, 0, 0xFFF, 0xFFF]"
  by code_simp

section \<open>Laws of the timer\<close>

text \<open>From 19 Hz on the two bytes are the divisor; below they are its low 16 bits, while the rate kept is not.\<close>

lemma pit_divisor:
  assumes "19 \<le> unat hz" "unat hz \<le> 1193182"
  shows "\<exists>lo hi. fst (pit_init hz p) = [0x34, lo, hi] \<and> 256 * unat hi + unat lo = 1193182 div unat hz \<and>
    unat (g_pit_hz (snd (pit_init hz p))) = 1193182 div (1193182 div unat hz)"
proof -
  let ?d = "1193182 div hz :: u32"
  have hz: "hz \<noteq> 0" "\<not> hz > 1193182" using assms by (auto simp: word_less_nat_alt)
  have d: "unat ?d = 1193182 div unat hz" by (simp add: unat_div_distrib)
  have "1193182 div unat hz \<le> 1193182 div 19" using assms by (intro div_le_mono2) simp_all
  then have lt: "1193182 div unat hz < 65536" by simp
  have "0 < 1193182 div unat hz" using assms by (intro div_greater_zero_iff [THEN iffD2]) simp
  then have d0: "?d \<noteq> 0" using d by auto
  have "256 * ((1193182 div unat hz) div 256 mod 256) + (1193182 div unat hz) mod 256 = 1193182 div unat hz"
    using lt by (simp add: div_less_iff_less_mult mod_less)
  then show ?thesis using hz d d0 unat_byte_of [of 8 ?d] unat_low_byte [of ?d]
    by (simp add: pit_init_def Let_def unat_div_distrib)
qed

lemma pit_divisor_truncated:
  "pit_init 10 p = ([0x34, 0x16, 0xD2], p\<lparr>g_pit_hz := 10\<rparr>)"
  by (simp add: pit_init_def) 

text \<open>The milliseconds are those of the second under way, and below 1000, for every rate pit_init sets.\<close>

lemma pit_millis:
  assumes "0 < unat (g_pit_hz p)" "unat (g_pit_hz p) \<le> 1193182"
  shows "unat (pit_get_millis_in_second p) = (unat (g_pit_ticks p) mod unat (g_pit_hz p)) * 1000 div unat (g_pit_hz p)"
    "unat (pit_get_millis_in_second p) < 1000"
proof -
  let ?r = "unat (g_pit_ticks p) mod unat (g_pit_hz p)"
  have r: "?r < unat (g_pit_hz p)" using assms(1) by simp
  have "unat (g_pit_ticks p mod g_pit_hz p * 1000) = ?r * 1000"
    using r assms(2) by (subst unat_mult_nowrap) (simp_all add: unat_mod_distrib)
  then show m: "unat (pit_get_millis_in_second p) = ?r * 1000 div unat (g_pit_hz p)"
    using assms(1) by (auto simp: pit_get_millis_in_second_def Let_def unat_div_distrib)
  show "unat (pit_get_millis_in_second p) < 1000" unfolding m using r assms(1) by (simp add: div_less_iff_less_mult)
qed

end
