(* ===== verification/Ata.thy ===== *)
theory Ata
  imports Blkdev
begin

text \<open>
  The ATA driver, drivers/ata/ata.cpp. The machine behind the ports is a parameter: a record of what
  an instruction on a port does to a state of any type. The delay loops between polls are left out,
  the number of polls is that of the code.
\<close>

section \<open>Ports\<close>

text \<open>
  put_prd is the table entry in memory together with the bytes the buffer holds, mem what the buffer
  at an address holds after a transfer; the address of the table is prd_addr.
\<close>

record 'm ports =
  p_inb :: "u16 \<Rightarrow> 'm \<Rightarrow> u8 \<times> 'm"
  p_outb :: "u16 \<Rightarrow> u8 \<Rightarrow> 'm \<Rightarrow> 'm"
  p_inw :: "u16 \<Rightarrow> 'm \<Rightarrow> u16 \<times> 'm"
  p_outw :: "u16 \<Rightarrow> u16 \<Rightarrow> 'm \<Rightarrow> 'm"
  p_inl :: "u16 \<Rightarrow> 'm \<Rightarrow> u32 \<times> 'm"
  p_outl :: "u16 \<Rightarrow> u32 \<Rightarrow> 'm \<Rightarrow> 'm"
  p_put_prd :: "u32 \<times> u16 \<times> u16 \<Rightarrow> bytes \<Rightarrow> 'm \<Rightarrow> 'm"
  p_mem :: "u32 \<Rightarrow> nat \<Rightarrow> 'm \<Rightarrow> bytes"
  p_prd_addr :: u32

record ata_driver =
  g_ata_dma_available :: bool
  g_ata_bmide_base :: u16

section \<open>Waiting\<close>

text \<open>At most so many reads of a status; the answer decides whether and how to stop.\<close>

fun wait_loop :: "nat \<Rightarrow> (u8 \<Rightarrow> bool option) \<Rightarrow> ('m \<Rightarrow> u8 \<times> 'm) \<Rightarrow> 'm \<Rightarrow> bool \<times> 'm" where
  "wait_loop 0 stop rd m = (False, m)"
| "wait_loop (Suc k) stop rd m =
     (case rd m of (st, m) \<Rightarrow> (case stop st of Some b \<Rightarrow> (b, m) | None \<Rightarrow> wait_loop k stop rd m))"

definition ata_wait_bsy :: "'m ports \<Rightarrow> 'm \<Rightarrow> bool \<times> 'm" where
  "ata_wait_bsy hw m = wait_loop 30000 (\<lambda>st. if st AND 0x80 = 0 then Some True else None) (p_inb hw 0x1F7) m"

definition ata_wait_drq :: "'m ports \<Rightarrow> 'm \<Rightarrow> bool \<times> 'm" where
  "ata_wait_drq hw m =
     wait_loop 30000 (\<lambda>st. if st AND 0x08 \<noteq> 0 then Some True else if st AND 0x01 \<noteq> 0 then Some False else None)
       (p_inb hw 0x1F7) m"

definition ata_wait_dma_done :: "'m ports \<Rightarrow> u16 \<Rightarrow> 'm \<Rightarrow> bool \<times> 'm" where
  "ata_wait_dma_done hw base m =
     wait_loop 30000 (\<lambda>st. if st AND 0x01 = 0 then Some (st AND 0x02 = 0) else None) (p_inb hw (base + 2)) m"

section \<open>The PCI bus\<close>

definition pci_addr :: "u8 \<Rightarrow> u8 \<Rightarrow> u8 \<Rightarrow> u8 \<Rightarrow> u32" where
  "pci_addr bus dev func off =
     0x80000000 OR push_bit 16 (ucast bus) OR push_bit 11 (ucast dev) OR push_bit 8 (ucast func) OR (ucast off AND 0xFC)"

definition pci_read_config32 :: "'m ports \<Rightarrow> u8 \<Rightarrow> u8 \<Rightarrow> u8 \<Rightarrow> u8 \<Rightarrow> 'm \<Rightarrow> u32 \<times> 'm" where
  "pci_read_config32 hw bus dev func off m = p_inl hw 0xCFC (p_outl hw 0xCF8 (pci_addr bus dev func off) m)"

definition pci_write_config32 :: "'m ports \<Rightarrow> u8 \<Rightarrow> u8 \<Rightarrow> u8 \<Rightarrow> u8 \<Rightarrow> u32 \<Rightarrow> 'm \<Rightarrow> 'm" where
  "pci_write_config32 hw bus dev func off v m = p_outl hw 0xCFC v (p_outl hw 0xCF8 (pci_addr bus dev func off) m)"

text \<open>The loop over the functions of a device and the loop over the devices.\<close>

fun probe_funcs :: "'m ports \<Rightarrow> u8 \<Rightarrow> u8 list \<Rightarrow> 'm \<Rightarrow> u16 option \<times> 'm" where
  "probe_funcs hw d [] m = (None, m)"
| "probe_funcs hw d (f # fs) m =
     (case pci_read_config32 hw 0 d f 0 m of (dev_id, m) \<Rightarrow>
        if dev_id AND 0xFFFF = 0xFFFF then probe_funcs hw d fs m
        else case pci_read_config32 hw 0 d f 0x08 m of (class_rev, m) \<Rightarrow>
          if ucast (drop_bit 24 class_rev AND 0xFF) \<noteq> (0x01 :: u8) \<or> ucast (drop_bit 16 class_rev AND 0xFF) \<noteq> (0x01 :: u8)
          then probe_funcs hw d fs m
          else case pci_read_config32 hw 0 d f 0x20 m of (bar4, m) \<Rightarrow>
            if bar4 AND 1 = 0 then probe_funcs hw d fs m
            else let io_base = ucast (bar4 AND 0xFFFC) :: u16 in
              if io_base = 0 then probe_funcs hw d fs m
              else case pci_read_config32 hw 0 d f 0x04 m of (cmdstat, m) \<Rightarrow>
                let cmd = ucast (cmdstat AND 0xFFFF) OR 0x0005 :: u16 in
                (Some io_base, pci_write_config32 hw 0 d f 0x04 ((cmdstat AND 0xFFFF0000) OR ucast cmd) m))"

fun probe_devices :: "'m ports \<Rightarrow> u8 list \<Rightarrow> 'm \<Rightarrow> u16 \<times> 'm" where
  "probe_devices hw [] m = (0, m)"
| "probe_devices hw (d # ds) m =
     (case pci_read_config32 hw 0 d 0 0 m of (id0, m) \<Rightarrow>
        if id0 AND 0xFFFF = 0xFFFF then probe_devices hw ds m
        else case pci_read_config32 hw 0 d 0 0x0C m of (hdr_dw, m) \<Rightarrow>
          let hdr_type = ucast (drop_bit 16 hdr_dw AND 0xFF) :: u8;
              max_func = (if hdr_type AND 0x80 \<noteq> 0 then 8 else 1) in
          (case probe_funcs hw d (map of_nat [0..<max_func]) m of
             (Some io_base, m) \<Rightarrow> (io_base, m)
           | (None, m) \<Rightarrow> probe_devices hw ds m))"

definition ata_pci_probe_bmide_primary :: "'m ports \<Rightarrow> 'm \<Rightarrow> u16 \<times> 'm" where
  "ata_pci_probe_bmide_primary hw m = probe_devices hw (map of_nat [0..<32]) m"

section \<open>Transfers\<close>

text \<open>Drive, count and sector number into the registers; only 28 bits of the number get there.\<close>

definition set_taskfile :: "'m ports \<Rightarrow> u32 \<Rightarrow> u8 \<Rightarrow> 'm \<Rightarrow> 'm" where
  "set_taskfile hw lba count m =
     (let m = p_outb hw 0x1F6 (ucast (0xE0 OR (drop_bit 24 lba AND 0x0F))) m;
          m = p_outb hw 0x1F2 count m;
          m = p_outb hw 0x1F3 (ucast (lba AND 0xFF)) m;
          m = p_outb hw 0x1F4 (ucast (drop_bit 8 lba AND 0xFF)) m
      in p_outb hw 0x1F5 (ucast (drop_bit 16 lba AND 0xFF)) m)"

text \<open>A transfer by the bus master; data are the bytes in the buffer at addr.\<close>

definition ata_dma_rw :: "'m ports \<Rightarrow> ata_driver \<Rightarrow> u32 \<Rightarrow> u8 \<Rightarrow> u32 \<Rightarrow> bytes \<Rightarrow> bool \<Rightarrow> 'm \<Rightarrow> bool \<times> 'm" where
  "ata_dma_rw hw drv lba count addr data is_read m =
     (let base = g_ata_bmide_base drv; total_bytes = ucast count * 512 :: u32 in
      if \<not> g_ata_dma_available drv \<or> base = 0 \<or> addr = 0 \<or> count = 0 then (False, m)
      else if total_bytes > 65536 then (False, m)
      else case ata_wait_bsy hw m of
        (False, m) \<Rightarrow> (False, m)
      | (True, m) \<Rightarrow>
          let m = p_put_prd hw (addr, if total_bytes = 65536 then 0 else ucast total_bytes, 0x8000) data m;
              m = p_outb hw base 0x00 m;
              m = p_outb hw (base + 2) (0x04 OR 0x02) m;
              m = p_outl hw (base + 4) (p_prd_addr hw) m;
              cmdv = (if is_read then 0x08 else 0x00);
              m = p_outb hw base cmdv m;
              m = set_taskfile hw lba count m;
              m = p_outb hw 0x1F7 (if is_read then 0xC8 else 0xCA) m;
              m = p_outb hw base (cmdv OR 0x01) m
          in (case ata_wait_dma_done hw base m of
                (False, m) \<Rightarrow> (False, p_outb hw base cmdv m)
              | (True, m) \<Rightarrow>
                  let m = p_outb hw base cmdv m in
                  (case p_inb hw 0x1F7 m of (st, m) \<Rightarrow> (st AND 0x01 = 0, m))))"

text \<open>One word after the other through the data port, least significant byte first.\<close>

fun read_words :: "'m ports \<Rightarrow> nat \<Rightarrow> 'm \<Rightarrow> bytes \<times> 'm" where
  "read_words hw 0 m = ([], m)"
| "read_words hw (Suc k) m =
     (case p_inw hw 0x1F0 m of (w, m) \<Rightarrow> (case read_words hw k m of (r, m) \<Rightarrow> (enc16 w @ r, m)))"

fun write_words :: "'m ports \<Rightarrow> nat \<Rightarrow> bytes \<Rightarrow> 'm \<Rightarrow> 'm" where
  "write_words hw 0 buf m = m"
| "write_words hw (Suc k) buf m = write_words hw k (drop 2 buf) (p_outw hw 0x1F0 (dec16 (take 2 buf)) m)"

text \<open>The loops over the sectors. A read returns the bytes it moved before it stopped.\<close>

fun read_sector_loop :: "'m ports \<Rightarrow> nat \<Rightarrow> 'm \<Rightarrow> (bool \<times> bytes) \<times> 'm" where
  "read_sector_loop hw 0 m = ((True, []), m)"
| "read_sector_loop hw (Suc n) m =
     (case ata_wait_drq hw m of
        (False, m) \<Rightarrow> ((False, []), m)
      | (True, m) \<Rightarrow>
          (case read_words hw 256 m of (b, m) \<Rightarrow>
             (case read_sector_loop hw n m of ((ok, r), m) \<Rightarrow> ((ok, b @ r), m))))"

fun write_sector_loop :: "'m ports \<Rightarrow> nat \<Rightarrow> bytes \<Rightarrow> 'm \<Rightarrow> bool \<times> 'm" where
  "write_sector_loop hw 0 buf m = (True, m)"
| "write_sector_loop hw (Suc n) buf m =
     (case ata_wait_drq hw m of
        (False, m) \<Rightarrow> (False, m)
      | (True, m) \<Rightarrow>
          (case ata_wait_bsy hw (write_words hw 256 buf m) of
             (False, m) \<Rightarrow> (False, m)
           | (True, m) \<Rightarrow> write_sector_loop hw n (drop 512 buf) m))"

text \<open>ata_read_sectors and ata_write_sectors of the driver: by the bus master, else through the data port.\<close>

definition ata_read_sectors_io :: "'m ports \<Rightarrow> ata_driver \<Rightarrow> u32 \<Rightarrow> u8 \<Rightarrow> u32 \<Rightarrow> bytes \<Rightarrow> 'm \<Rightarrow> (bool \<times> bytes) \<times> 'm" where
  "ata_read_sectors_io hw drv lba count addr data m =
     (case ata_dma_rw hw drv lba count addr data True m of
        (True, m) \<Rightarrow> ((True, p_mem hw addr (512 * unat count) m), m)
      | (False, m) \<Rightarrow>
          if addr = 0 \<or> count = 0 then ((False, []), m)
          else case ata_wait_bsy hw m of
            (False, m) \<Rightarrow> ((False, []), m)
          | (True, m) \<Rightarrow> read_sector_loop hw (unat count) (p_outb hw 0x1F7 0x20 (set_taskfile hw lba count m)))"

definition ata_write_sectors_io :: "'m ports \<Rightarrow> ata_driver \<Rightarrow> u32 \<Rightarrow> u8 \<Rightarrow> u32 \<Rightarrow> bytes \<Rightarrow> 'm \<Rightarrow> bool \<times> 'm" where
  "ata_write_sectors_io hw drv lba count addr buf m =
     (case ata_dma_rw hw drv lba count addr buf False m of
        (True, m) \<Rightarrow> (True, m)
      | (False, m) \<Rightarrow>
          if addr = 0 \<or> count = 0 then (False, m)
          else case ata_wait_bsy hw m of
            (False, m) \<Rightarrow> (False, m)
          | (True, m) \<Rightarrow> write_sector_loop hw (unat count) buf (p_outb hw 0x1F7 0x30 (set_taskfile hw lba count m)))"

section \<open>Start and size\<close>

definition ata_init :: "'m ports \<Rightarrow> ata_driver \<Rightarrow> 'm \<Rightarrow> int \<times> ata_driver \<times> 'm" where
  "ata_init hw drv m =
     (let m = p_outb hw 0x3F6 0x04 m; m = p_outb hw 0x3F6 0x00 m in
      case ata_wait_bsy hw m of
        (False, m) \<Rightarrow> (- 1, drv, m)
      | (True, m) \<Rightarrow>
          (case p_inb hw 0x1F7 m of (status, m) \<Rightarrow>
             if status = 0xFF then (- 1, drv, m)
             else case ata_pci_probe_bmide_primary hw m of (base, m) \<Rightarrow>
               (0, drv\<lparr>g_ata_bmide_base := base, g_ata_dma_available := (base \<noteq> 0)\<rparr>, m)))"

definition ata_get_total_sectors :: "'m ports \<Rightarrow> 'm \<Rightarrow> u32 \<times> 'm" where
  "ata_get_total_sectors hw m =
     (case ata_wait_bsy hw m of
        (False, m) \<Rightarrow> (0, m)
      | (True, m) \<Rightarrow>
          let m = p_outb hw 0x1F6 0xA0 m; m = p_outb hw 0x1F2 0 m; m = p_outb hw 0x1F3 0 m;
              m = p_outb hw 0x1F4 0 m; m = p_outb hw 0x1F5 0 m; m = p_outb hw 0x1F7 0xEC m
          in (case p_inb hw 0x1F7 m of (status, m) \<Rightarrow>
                if status = 0 then (0, m)
                else case ata_wait_drq hw m of
                  (False, m) \<Rightarrow> (0, m)
                | (True, m) \<Rightarrow>
                    (case read_words hw 256 m of (b, m) \<Rightarrow>
                       (push_bit 16 (ucast (dec16 (bslice (2 * 61) 2 b))) OR ucast (dec16 (bslice (2 * 60) 2 b)), m))))"

end
