(* ===== verification/Ata_Pio.thy ===== *)
theory Ata_Pio
  imports Ata
begin

text \<open>
  The driver and the disk. What the driver relies on in the drive is stated as ata_hw: the registers
  and the transfer protocol of the programmed transfers of the ATA standard, seen through a view of
  the machine. On every machine that keeps it, the driver without the bus master does to the disk what
  the disk of Blkdev does, and reports what it reports, except that it misses the error of a last
  sector that comes after the data. The file system above may be understood over that disk as long
  as no write fails in this way.
\<close>

section \<open>The drive\<close>

text \<open>
  Data_In l n w: word w of sector l is next to be read, the first of n sectors. Data_Out l n b: the
  bytes b of sector l have come. Refused: the drive has given the command up.
\<close>

datatype ata_phase = Ready | Data_In u32 nat nat | Data_Out u32 nat bytes | Refused

record ata_view =
  av_device :: u8
  av_count :: u8
  av_low :: u8
  av_mid :: u8
  av_high :: u8
  av_phase :: ata_phase
  av_disk :: ata_disk
  av_late :: "u32 \<Rightarrow> bool"

definition in_transfer :: "ata_view \<Rightarrow> bool" where
  "in_transfer v = (case av_phase v of Data_In _ _ _ \<Rightarrow> True | Data_Out _ _ _ \<Rightarrow> True | _ \<Rightarrow> False)"

definition view_lba :: "ata_view \<Rightarrow> u32" where
  "view_lba v = push_bit 24 (ucast (av_device v AND 0x0F)) OR push_bit 16 (ucast (av_high v)) OR
     push_bit 8 (ucast (av_mid v)) OR ucast (av_low v)"

definition begin_in :: "ata_disk \<Rightarrow> u32 \<Rightarrow> nat \<Rightarrow> ata_phase" where
  "begin_in d l n = (if n = 0 then Ready else if ad_bad d l then Refused else Data_In l n 0)"

text \<open>
  A write of a bad sector fails before its data are asked for or, when av_late holds of it, after they
  have been taken, as most errors of a medium do.
\<close>

definition begin_out :: "ata_disk \<Rightarrow> (u32 \<Rightarrow> bool) \<Rightarrow> u32 \<Rightarrow> nat \<Rightarrow> ata_phase" where
  "begin_out d late l n = (if n = 0 then Ready else if ad_bad d l \<and> \<not> late l then Refused else Data_Out l n [])"

text \<open>A word taken out, a word put in.\<close>

definition word_in :: "ata_view \<Rightarrow> u32 \<Rightarrow> nat \<Rightarrow> nat \<Rightarrow> ata_view" where
  "word_in v l n w = v\<lparr>av_phase := (if w = 255 then begin_in (av_disk v) (l + 1) (n - 1) else Data_In l n (w + 1))\<rparr>"

definition word_out :: "ata_view \<Rightarrow> u32 \<Rightarrow> nat \<Rightarrow> bytes \<Rightarrow> u16 \<Rightarrow> ata_view" where
  "word_out v l n b w =
     (let b' = b @ enc16 w in
      if length b' = 512
      then if ad_bad (av_disk v) l then v\<lparr>av_phase := Refused\<rparr>
        else let d = (av_disk v)\<lparr>ad_sector := (ad_sector (av_disk v))(l := b')\<rparr> in
          v\<lparr>av_disk := d, av_phase := begin_out d (av_late v) (l + 1) (n - 1)\<rparr>
      else v\<lparr>av_phase := Data_Out l n b'\<rparr>)"

text \<open>
  busy is the number of polls that still find the drive busy; it is less than the patience of the
  driver. While it is busy, the drive shows neither data nor an error. Registers and commands are
  written and words moved when it is not.
\<close>

definition hw_status :: "'m ports \<Rightarrow> ('m \<Rightarrow> ata_view) \<Rightarrow> ('m \<Rightarrow> nat) \<Rightarrow> bool" where
  "hw_status hw view busy \<longleftrightarrow> (\<forall>m. busy m < 30000 \<and>
     (case p_inb hw 0x1F7 m of (st, m') \<Rightarrow> view m' = view m \<and>
        (if busy m = 0
         then busy m' = 0 \<and> st AND 0x80 = 0 \<and> (st AND 0x08 \<noteq> 0 \<longleftrightarrow> in_transfer (view m)) \<and>
              (st AND 0x01 \<noteq> 0 \<longleftrightarrow> av_phase (view m) = Refused)
         else busy m' < busy m \<and> st AND 0x80 \<noteq> 0 \<and> st AND 0x08 = 0 \<and> st AND 0x01 = 0)))"

definition hw_registers :: "'m ports \<Rightarrow> ('m \<Rightarrow> ata_view) \<Rightarrow> ('m \<Rightarrow> nat) \<Rightarrow> bool" where
  "hw_registers hw view busy \<longleftrightarrow> (\<forall>m x. busy m = 0 \<longrightarrow> \<not> in_transfer (view m) \<longrightarrow>
     view (p_outb hw 0x1F6 x m) = (view m)\<lparr>av_device := x\<rparr> \<and> busy (p_outb hw 0x1F6 x m) = 0 \<and>
     view (p_outb hw 0x1F2 x m) = (view m)\<lparr>av_count := x\<rparr> \<and> busy (p_outb hw 0x1F2 x m) = 0 \<and>
     view (p_outb hw 0x1F3 x m) = (view m)\<lparr>av_low := x\<rparr> \<and> busy (p_outb hw 0x1F3 x m) = 0 \<and>
     view (p_outb hw 0x1F4 x m) = (view m)\<lparr>av_mid := x\<rparr> \<and> busy (p_outb hw 0x1F4 x m) = 0 \<and>
     view (p_outb hw 0x1F5 x m) = (view m)\<lparr>av_high := x\<rparr> \<and> busy (p_outb hw 0x1F5 x m) = 0)"

definition hw_commands :: "'m ports \<Rightarrow> ('m \<Rightarrow> ata_view) \<Rightarrow> ('m \<Rightarrow> nat) \<Rightarrow> bool" where
  "hw_commands hw view busy \<longleftrightarrow> (\<forall>m. busy m = 0 \<longrightarrow> \<not> in_transfer (view m) \<longrightarrow> av_count (view m) \<noteq> 0 \<longrightarrow>
     view (p_outb hw 0x1F7 0x20 m)
       = (view m)\<lparr>av_phase := begin_in (av_disk (view m)) (view_lba (view m)) (unat (av_count (view m)))\<rparr> \<and>
     view (p_outb hw 0x1F7 0x30 m)
       = (view m)\<lparr>av_phase := begin_out (av_disk (view m)) (av_late (view m)) (view_lba (view m)) (unat (av_count (view m)))\<rparr>)"

definition hw_data :: "'m ports \<Rightarrow> ('m \<Rightarrow> ata_view) \<Rightarrow> ('m \<Rightarrow> nat) \<Rightarrow> bool" where
  "hw_data hw view busy \<longleftrightarrow>
     (\<forall>m l n w. busy m = 0 \<longrightarrow> av_phase (view m) = Data_In l n w \<longrightarrow>
        (case p_inw hw 0x1F0 m of (x, m') \<Rightarrow>
           x = dec16 (bslice (2 * w) 2 (ad_sector (av_disk (view m)) l)) \<and> view m' = word_in (view m) l n w \<and>
           (w < 255 \<longrightarrow> busy m' = 0))) \<and>
     (\<forall>m l n b x. busy m = 0 \<longrightarrow> av_phase (view m) = Data_Out l n b \<longrightarrow>
        view (p_outw hw 0x1F0 x m) = word_out (view m) l n b x \<and>
        (length b < 510 \<longrightarrow> busy (p_outw hw 0x1F0 x m) = 0))"

definition ata_hw :: "'m ports \<Rightarrow> ('m \<Rightarrow> ata_view) \<Rightarrow> ('m \<Rightarrow> nat) \<Rightarrow> bool" where
  "ata_hw hw view busy \<longleftrightarrow> hw_status hw view busy \<and> hw_registers hw view busy \<and> hw_commands hw view busy \<and> hw_data hw view busy"

section \<open>Waiting ends\<close>

lemma hw_poll:
  assumes "hw_status hw view busy" "p_inb hw 0x1F7 m = (st, m')"
  shows "view m' = view m"
    "busy m = 0 \<Longrightarrow> busy m' = 0 \<and> st AND 0x80 = 0 \<and> (st AND 0x08 \<noteq> 0 \<longleftrightarrow> in_transfer (view m)) \<and>
       (st AND 0x01 \<noteq> 0 \<longleftrightarrow> av_phase (view m) = Refused)"
    "busy m \<noteq> 0 \<Longrightarrow> busy m' < busy m \<and> st AND 0x80 \<noteq> 0 \<and> st AND 0x08 = 0 \<and> st AND 0x01 = 0"
  using assms(1) [unfolded hw_status_def, THEN spec, of m] assms(2) by (auto split: if_splits)

lemma wait_loop_ends:
  assumes hw: "hw_status hw view busy"
    and free: "\<And>st. st AND 0x80 = 0 \<Longrightarrow> (st AND 0x08 \<noteq> 0 \<longleftrightarrow> in_transfer v) \<Longrightarrow> (st AND 0x01 \<noteq> 0 \<longleftrightarrow> av_phase v = Refused) \<Longrightarrow>
      stop st = Some b"
    and wait: "\<And>st. st AND 0x80 \<noteq> 0 \<Longrightarrow> st AND 0x08 = 0 \<Longrightarrow> st AND 0x01 = 0 \<Longrightarrow> stop st = None"
  shows "view m = v \<Longrightarrow> busy m < k \<Longrightarrow>
    \<exists>m'. wait_loop k stop (p_inb hw 0x1F7) m = (b, m') \<and> view m' = v \<and> busy m' = 0"
proof (induction k arbitrary: m)
  case (Suc k)
  obtain st m' where p: "p_inb hw 0x1F7 m = (st, m')" by fastforce
  note h = hw_poll [OF hw p]
  show ?case
  proof (cases "busy m = 0")
    case True
    then have "stop st = Some b" using h(2) Suc.prems(1) free by auto
    then show ?thesis using h(1,2) True p Suc.prems(1) by simp
  next
    case False
    then have "stop st = None" using h(3) wait by auto
    then show ?thesis using h(1,3) False p Suc.prems Suc.IH [of m'] by auto
  qed
qed simp

lemma wait_bsy_ends:
  assumes "ata_hw hw view busy"
  obtains m' where "ata_wait_bsy hw m = (True, m')" "view m' = view m" "busy m' = 0"
proof -
  have hw: "hw_status hw view busy" "busy m < 30000" using assms by (auto simp: ata_hw_def hw_status_def)
  have "\<exists>m'. wait_loop 30000 (\<lambda>st. if st AND 0x80 = 0 then Some True else None) (p_inb hw 0x1F7) m = (True, m') \<and>
      view m' = view m \<and> busy m' = 0"
    by (rule wait_loop_ends [OF hw(1)]) (use hw(2) in auto)
  then show ?thesis using that by (auto simp: ata_wait_bsy_def)
qed

text \<open>Waiting for data ends with the answer of the drive, if there is data or an error.\<close>

lemma wait_drq_ends:
  assumes "ata_hw hw view busy" "in_transfer (view m) \<or> av_phase (view m) = Refused"
  obtains m' where "ata_wait_drq hw m = (in_transfer (view m), m')" "view m' = view m" "busy m' = 0"
proof -
  have hw: "hw_status hw view busy" "busy m < 30000" using assms by (auto simp: ata_hw_def hw_status_def)
  have x: "in_transfer (view m) \<longleftrightarrow> av_phase (view m) \<noteq> Refused" using assms(2) by (auto simp: in_transfer_def)
  have "\<exists>m'. wait_loop 30000 (\<lambda>st. if st AND 0x08 \<noteq> 0 then Some True else if st AND 0x01 \<noteq> 0 then Some False else None)
      (p_inb hw 0x1F7) m = (in_transfer (view m), m') \<and> view m' = view m \<and> busy m' = 0"
    by (rule wait_loop_ends [OF hw(1)]) (use hw(2) x in auto)
  then show ?thesis using that by (auto simp: ata_wait_drq_def)
qed

section \<open>Setting up a command\<close>

lemma take_bit_split:
  "take_bit (k + n) (x :: 'a::len word) = push_bit n (take_bit k (drop_bit n x)) OR take_bit n x"
  by (rule bit_word_eqI) (auto simp: bit_simps)

lemma byte_there_and_back: "ucast (ucast (x AND 0xFF) :: u8) = take_bit 8 (x :: u32)"
proof -
  have "x AND 0xFF = take_bit 8 x" using take_bit_eq_mask [of 8 x] by (simp add: mask_eq_exp_minus_1)
  then show ?thesis by (intro bit_word_eqI) (auto simp: bit_simps)
qed

lemma nibble_there_and_back:
  "ucast (ucast (0xE0 OR (x AND 0x0F)) AND 0x0F :: u8) = take_bit 4 (x :: u32)"
proof -
  have x: "x AND 0x0F = take_bit 4 x" using take_bit_eq_mask [of 4 x] by (simp add: mask_eq_exp_minus_1)
  have "\<forall>n\<in>set [0..<16]. ucast (ucast (0xE0 OR of_nat n :: u32) AND 0x0F :: u8) = (of_nat n :: u32)" by code_simp
  moreover have "unat (take_bit 4 x) \<in> set [0..<16]" by (simp add: unsigned_take_bit_eq take_bit_nat_def)
  ultimately have "ucast (ucast (0xE0 OR of_nat (unat (take_bit 4 x)) :: u32) AND 0x0F :: u8) = (of_nat (unat (take_bit 4 x)) :: u32)"
    by blast
  moreover have "of_nat (unat (take_bit 4 x)) = take_bit 4 x" by (rule word_eq_by_unat) (simp only: unat_of_nat_fit unat_less_pow)
  ultimately show ?thesis unfolding x by (simp only:)
qed

lemma lba_bytes:
  "push_bit 24 (ucast (ucast (0xE0 OR (drop_bit 24 lba AND 0x0F)) AND 0x0F :: u8)) OR
   push_bit 16 (ucast (ucast (drop_bit 16 lba AND 0xFF) :: u8)) OR
   push_bit 8 (ucast (ucast (drop_bit 8 lba AND 0xFF) :: u8)) OR ucast (ucast (lba AND 0xFF) :: u8) = ata_lba28 (lba :: u32)"
proof -
  have "ata_lba28 lba = take_bit 28 lba"
    unfolding ata_lba28_def using take_bit_eq_mask [of 28 lba] by (simp add: mask_eq_exp_minus_1)
  also have "\<dots> = push_bit 24 (take_bit 4 (drop_bit 24 lba)) OR push_bit 16 (take_bit 8 (drop_bit 16 lba)) OR
      push_bit 8 (take_bit 8 (drop_bit 8 lba)) OR take_bit 8 lba"
    using take_bit_split [of 4 24 lba] take_bit_split [of 8 16 lba] take_bit_split [of 8 8 lba] by (simp add: or.assoc)
  finally show ?thesis by (simp only: byte_there_and_back nibble_there_and_back)
qed

lemma set_taskfile_view:
  assumes hw: "ata_hw hw view busy" and m: "busy m = 0" "\<not> in_transfer (view m)"
  shows "busy (set_taskfile hw lba count m) = 0 \<and> view_lba (view (set_taskfile hw lba count m)) = ata_lba28 lba \<and>
    av_count (view (set_taskfile hw lba count m)) = count \<and> av_disk (view (set_taskfile hw lba count m)) = av_disk (view m) \<and>
    av_late (view (set_taskfile hw lba count m)) = av_late (view m) \<and>
    av_phase (view (set_taskfile hw lba count m)) = av_phase (view m)"
proof -
  have r: "busy x = 0 \<Longrightarrow> \<not> in_transfer (view x) \<Longrightarrow>
      view (p_outb hw 0x1F6 v x) = (view x)\<lparr>av_device := v\<rparr> \<and> busy (p_outb hw 0x1F6 v x) = 0 \<and>
      view (p_outb hw 0x1F2 v x) = (view x)\<lparr>av_count := v\<rparr> \<and> busy (p_outb hw 0x1F2 v x) = 0 \<and>
      view (p_outb hw 0x1F3 v x) = (view x)\<lparr>av_low := v\<rparr> \<and> busy (p_outb hw 0x1F3 v x) = 0 \<and>
      view (p_outb hw 0x1F4 v x) = (view x)\<lparr>av_mid := v\<rparr> \<and> busy (p_outb hw 0x1F4 v x) = 0 \<and>
      view (p_outb hw 0x1F5 v x) = (view x)\<lparr>av_high := v\<rparr> \<and> busy (p_outb hw 0x1F5 v x) = 0" for x v
    using hw by (simp add: ata_hw_def hw_registers_def)
  have t: "in_transfer (v\<lparr>av_device := a\<rparr>) = in_transfer v" "in_transfer (v\<lparr>av_count := a\<rparr>) = in_transfer v"
    "in_transfer (v\<lparr>av_low := a\<rparr>) = in_transfer v" "in_transfer (v\<lparr>av_mid := a\<rparr>) = in_transfer v" for v a
    by (simp_all add: in_transfer_def)
  define m1 where "m1 = p_outb hw 0x1F6 (ucast (0xE0 OR (drop_bit 24 lba AND 0x0F))) m"
  define m2 where "m2 = p_outb hw 0x1F2 count m1"
  define m3 where "m3 = p_outb hw 0x1F3 (ucast (lba AND 0xFF)) m2"
  define m4 where "m4 = p_outb hw 0x1F4 (ucast (drop_bit 8 lba AND 0xFF)) m3"
  define m5 where "m5 = p_outb hw 0x1F5 (ucast (drop_bit 16 lba AND 0xFF)) m4"
  have 1: "view m1 = (view m)\<lparr>av_device := ucast (0xE0 OR (drop_bit 24 lba AND 0x0F))\<rparr>" "busy m1 = 0" "\<not> in_transfer (view m1)"
    using r [OF m] m(2) by (simp_all add: m1_def t)
  have 2: "view m2 = (view m1)\<lparr>av_count := count\<rparr>" "busy m2 = 0" "\<not> in_transfer (view m2)"
    using r [OF 1(2,3)] 1(3) by (simp_all add: m2_def t)
  have 3: "view m3 = (view m2)\<lparr>av_low := ucast (lba AND 0xFF)\<rparr>" "busy m3 = 0" "\<not> in_transfer (view m3)"
    using r [OF 2(2,3)] 2(3) by (simp_all add: m3_def t)
  have 4: "view m4 = (view m3)\<lparr>av_mid := ucast (drop_bit 8 lba AND 0xFF)\<rparr>" "busy m4 = 0" "\<not> in_transfer (view m4)"
    using r [OF 3(2,3)] 3(3) by (simp_all add: m4_def t)
  have 5: "view m5 = (view m4)\<lparr>av_high := ucast (drop_bit 16 lba AND 0xFF)\<rparr>" "busy m5 = 0"
    using r [OF 4(2,3)] by (simp_all add: m5_def)
  have "set_taskfile hw lba count m = m5"
    unfolding set_taskfile_def Let_def m1_def m2_def m3_def m4_def m5_def ..
  moreover have "view_lba (view m5) = ata_lba28 lba" unfolding 5 4 3 2 1 view_lba_def lba_bytes [symmetric] by simp
  ultimately show ?thesis using 1(1) 2(1) 3(1) 4(1) 5 by simp
qed

section \<open>Reading\<close>

lemma read_words_view:
  assumes hw: "ata_hw hw view busy"
  shows "k + w = 256 \<Longrightarrow> 0 < k \<Longrightarrow> busy m = 0 \<Longrightarrow> av_phase (view m) = Data_In l n w \<Longrightarrow>
    length (ad_sector (av_disk (view m)) l) = 512 \<Longrightarrow>
    \<exists>m'. read_words hw k m = (drop (2 * w) (ad_sector (av_disk (view m)) l), m') \<and>
      view m' = (view m)\<lparr>av_phase := begin_in (av_disk (view m)) (l + 1) (n - 1)\<rparr>"
proof (induction k arbitrary: w m)
  case (Suc k)
  let ?s = "ad_sector (av_disk (view m)) l"
  obtain x m1 where p: "p_inw hw 0x1F0 m = (x, m1)" by fastforce
  have "case p_inw hw 0x1F0 m of (x, m') \<Rightarrow> x = dec16 (bslice (2 * w) 2 ?s) \<and> view m' = word_in (view m) l n w \<and> (w < 255 \<longrightarrow> busy m' = 0)"
    using hw Suc.prems(3,4) by (simp add: ata_hw_def hw_data_def)
  then have h: "x = dec16 (bslice (2 * w) 2 ?s)" "view m1 = word_in (view m) l n w" "w < 255 \<Longrightarrow> busy m1 = 0"
    using p by simp_all
  have x: "enc16 x = bslice (2 * w) 2 ?s"
    unfolding h(1) using Suc.prems(1,5) by (intro enc16_dec16) simp
  have d: "drop (2 * w) ?s = bslice (2 * w) 2 ?s @ drop (2 * Suc w) ?s"
    by (simp add: bslice_def) (metis add_2_eq_Suc' append_take_drop_id drop_drop add.commute)
  show ?case
  proof (cases "k = 0")
    case True
    then have w: "w = 255" using Suc.prems(1) by simp
    then have "drop (2 * Suc w) ?s = []" using Suc.prems(5) by simp
    then show ?thesis using True w p x d h(2) by (simp add: word_in_def)
  next
    case False
    then have w: "w < 255" using Suc.prems(1) by simp
    have v1: "view m1 = (view m)\<lparr>av_phase := Data_In l n (Suc w)\<rparr>" using h(2) w by (simp add: word_in_def)
    obtain m' where m': "read_words hw k m1 = (drop (2 * Suc w) (ad_sector (av_disk (view m1)) l), m')"
        "view m' = (view m1)\<lparr>av_phase := begin_in (av_disk (view m1)) (l + 1) (n - 1)\<rparr>"
      using Suc.IH [of "Suc w" m1] Suc.prems(1,5) False h(3) [OF w] v1 by auto
    then show ?thesis using p x d v1 by simp
  qed
qed simp

lemma read_sector_loop_view:
  assumes hw: "ata_hw hw view busy"
  shows "av_phase (view m) = begin_in (av_disk (view m)) l n \<Longrightarrow> disk_ok (av_disk (view m)) \<Longrightarrow>
    \<exists>m'. read_sector_loop hw n m = (ata_pio_read (av_disk (view m)) l n, m') \<and>
      av_disk (view m') = av_disk (view m) \<and> \<not> in_transfer (view m')"
proof (induction n arbitrary: l m)
  case 0
  then show ?case by (simp add: begin_in_def in_transfer_def)
next
  case (Suc n)
  let ?d = "av_disk (view m)"
  have ph: "av_phase (view m) = (if ad_bad ?d l then Refused else Data_In l (Suc n) 0)"
    using Suc.prems(1) by (simp add: begin_in_def)
  then have "in_transfer (view m) \<or> av_phase (view m) = Refused" by (simp add: in_transfer_def)
  from wait_drq_ends [OF hw this] obtain m1 where
    m1: "ata_wait_drq hw m = (in_transfer (view m), m1)" "view m1 = view m" "busy m1 = 0" .
  show ?case
  proof (cases "ad_bad ?d l")
    case True
    then show ?thesis using ph m1 by (simp add: in_transfer_def)
  next
    case False
    have len: "length (ad_sector (av_disk (view m1)) l) = 512" using Suc.prems(2) m1(2) by (simp add: disk_ok_def)
    obtain m2 where m2: "read_words hw 256 m1 = (ad_sector ?d l, m2)"
        "view m2 = (view m)\<lparr>av_phase := begin_in ?d (l + 1) n\<rparr>"
      using read_words_view [OF hw, of 256 0 m1 l "Suc n"] m1(2,3) ph False len by auto
    then obtain m3 where "read_sector_loop hw n m2 = (ata_pio_read ?d (l + 1) n, m3)"
        "av_disk (view m3) = ?d" "\<not> in_transfer (view m3)"
      using Suc.IH [of m2 "l + 1"] Suc.prems(2) by auto
    then show ?thesis using False ph m1(1) m2(1) by (auto simp: in_transfer_def split: prod.split)
  qed
qed

section \<open>Writing\<close>

definition put_sector :: "ata_disk \<Rightarrow> u32 \<Rightarrow> bytes \<Rightarrow> ata_disk" where
  "put_sector d l b = d\<lparr>ad_sector := (ad_sector d)(l := b)\<rparr>"

text \<open>What the drive makes of the last word of a sector.\<close>

definition sector_done :: "ata_view \<Rightarrow> u32 \<Rightarrow> nat \<Rightarrow> bytes \<Rightarrow> ata_view" where
  "sector_done v l n b =
     (if ad_bad (av_disk v) l then v\<lparr>av_phase := Refused\<rparr>
      else v\<lparr>av_disk := put_sector (av_disk v) l b, av_phase := begin_out (put_sector (av_disk v) l b) (av_late v) (l + 1) (n - 1)\<rparr>)"

lemma write_words_view:
  assumes hw: "ata_hw hw view busy"
  shows "2 * k + length b = 512 \<Longrightarrow> 0 < k \<Longrightarrow> 2 * k \<le> length buf \<Longrightarrow> busy m = 0 \<Longrightarrow> av_phase (view m) = Data_Out l n b \<Longrightarrow>
    view (write_words hw k buf m) = sector_done (view m) l n (b @ take (2 * k) buf)"
proof (induction k arbitrary: b buf m)
  case (Suc k)
  let ?x = "dec16 (take 2 buf)"
  let ?m = "p_outw hw 0x1F0 ?x m"
  have h: "view ?m = word_out (view m) l n b ?x" "length b < 510 \<Longrightarrow> busy ?m = 0"
    using hw Suc.prems(4,5) by (auto simp: ata_hw_def hw_data_def)
  have x: "enc16 ?x = take 2 buf" using Suc.prems(3) by (intro enc16_dec16) simp
  show ?case
  proof (cases "k = 0")
    case True
    then have "length (b @ take 2 buf) = 512" using Suc.prems(1,3) by simp
    then show ?thesis using True h(1) x by (simp add: word_out_def sector_done_def Let_def put_sector_def)
  next
    case False
    then have lt: "length b < 510" "length (b @ take 2 buf) \<noteq> 512" using Suc.prems(1,3) by auto
    then have v: "view ?m = (view m)\<lparr>av_phase := Data_Out l n (b @ take 2 buf)\<rparr>"
      using h(1) x by (simp add: word_out_def Let_def)
    have split: "(b @ take 2 buf) @ take (2 * k) (drop 2 buf) = b @ take (2 * Suc k) buf"
      by (simp add: take_add [of 2 "2 * k" buf, simplified])
    have "view (write_words hw k (drop 2 buf) ?m) = sector_done (view ?m) l n ((b @ take 2 buf) @ take (2 * k) (drop 2 buf))"
      using Suc.prems(1,3) False h(2) [OF lt(1)] v by (intro Suc.IH) simp_all
    then show ?thesis unfolding split using v by (simp add: sector_done_def)
  qed
qed simp

text \<open>The status of the driver: a bad sector shows, unless it is the last one and fails after its data.\<close>

fun reported :: "ata_disk \<Rightarrow> (u32 \<Rightarrow> bool) \<Rightarrow> u32 \<Rightarrow> nat \<Rightarrow> bool" where
  "reported d late l 0 = True"
| "reported d late l (Suc n) = (if ad_bad d l then late l \<and> n = 0 else reported d late (l + 1) n)"

lemma reported_put [simp]: "reported (put_sector d k b) late l n = reported d late l n"
  by (induction n arbitrary: l) (simp_all add: put_sector_def)

lemma reported_iff:
  "reported d late l n \<longleftrightarrow> (\<forall>j < n. ad_bad d (l + of_nat j) \<longrightarrow> late (l + of_nat j) \<and> Suc j = n)"
proof (induction n arbitrary: l)
  case (Suc n)
  have "(\<forall>j < Suc n. ad_bad d (l + of_nat j) \<longrightarrow> late (l + of_nat j) \<and> Suc j = Suc n) \<longleftrightarrow>
      (ad_bad d l \<longrightarrow> late l \<and> n = 0) \<and> (\<forall>j < n. ad_bad d (l + 1 + of_nat j) \<longrightarrow> late (l + 1 + of_nat j) \<and> Suc j = n)"
    by (auto simp: less_Suc_eq_0_disj add.assoc)
  then show ?case using Suc.IH [of "l + 1"] by (cases "n = 0") auto
qed simp

lemma write_sector_loop_view:
  assumes hw: "ata_hw hw view busy"
  shows "av_phase (view m) = begin_out (av_disk (view m)) (av_late (view m)) l n \<Longrightarrow> 512 * n \<le> length buf \<Longrightarrow>
    \<exists>m'. write_sector_loop hw n buf m = (reported (av_disk (view m)) (av_late (view m)) l n, m') \<and>
      av_disk (view m') = snd (ata_pio_write (av_disk (view m)) l n buf) \<and> \<not> in_transfer (view m')"
proof (induction n arbitrary: l m buf)
  case 0
  then show ?case by (simp add: begin_out_def in_transfer_def)
next
  case (Suc n)
  let ?d = "av_disk (view m)" and ?late = "av_late (view m)"
  let ?d' = "put_sector ?d l (take 512 buf)"
  have ph: "av_phase (view m) = (if ad_bad ?d l \<and> \<not> ?late l then Refused else Data_Out l (Suc n) [])"
    using Suc.prems(1) by (simp add: begin_out_def)
  then have "in_transfer (view m) \<or> av_phase (view m) = Refused" by (simp add: in_transfer_def)
  from wait_drq_ends [OF hw this] obtain m1 where
    m1: "ata_wait_drq hw m = (in_transfer (view m), m1)" "view m1 = view m" "busy m1 = 0" .
  show ?case
  proof (cases "ad_bad ?d l \<and> \<not> ?late l")
    case True
    then show ?thesis using ph m1 by (simp add: in_transfer_def)
  next
    case False
    have v2: "view (write_words hw 256 buf m1) = sector_done (view m) l (Suc n) (take 512 buf)"
      using write_words_view [OF hw, of 256 "[]" buf m1 l "Suc n"] m1(2,3) ph False Suc.prems(2) by simp
    obtain m3 where m3: "ata_wait_bsy hw (write_words hw 256 buf m1) = (True, m3)"
        "view m3 = view (write_words hw 256 buf m1)" using wait_bsy_ends [OF hw] by blast
    have step: "write_sector_loop hw (Suc n) buf m = write_sector_loop hw n (drop 512 buf) m3"
      using m1(1) m3(1) ph False by (simp add: in_transfer_def)
    show ?thesis
    proof (cases "ad_bad ?d l")
      case bad: True
      then have v3: "view m3 = (view m)\<lparr>av_phase := Refused\<rparr>" using v2 m3(2) by (simp add: sector_done_def)
      have "\<exists>m'. write_sector_loop hw n (drop 512 buf) m3 = (n = 0, m') \<and> view m' = view m3"
      proof (cases n)
        case (Suc k)
        obtain m4 where "ata_wait_drq hw m3 = (in_transfer (view m3), m4)" "view m4 = view m3"
          using wait_drq_ends [OF hw, of m3] v3 by auto
        then show ?thesis using Suc v3 by (simp add: in_transfer_def)
      qed simp
      then show ?thesis using step bad False v3 by (auto simp: in_transfer_def)
    next
      case good: False
      then have v3: "view m3 = (view m)\<lparr>av_disk := ?d', av_phase := begin_out ?d' ?late (l + 1) n\<rparr>"
        using v2 m3(2) by (simp add: sector_done_def)
      have "\<exists>m'. write_sector_loop hw n (drop 512 buf) m3 = (reported (av_disk (view m3)) (av_late (view m3)) (l + 1) n, m') \<and>
          av_disk (view m') = snd (ata_pio_write (av_disk (view m3)) (l + 1) n (drop 512 buf)) \<and> \<not> in_transfer (view m')"
        using v3 Suc.prems(2) by (intro Suc.IH) simp_all
      moreover have "ata_pio_write ?d l (Suc n) buf = ata_pio_write ?d' (l + 1) n (drop 512 buf)"
        using good by (simp add: put_sector_def)
      ultimately show ?thesis using good step v3 by simp
    qed
  qed
qed

section \<open>The driver is the disk\<close>

lemma no_dma: "\<not> g_ata_dma_available drv \<Longrightarrow> ata_dma_rw hw drv lba count addr data is_read m = (False, m)"
  by (simp add: ata_dma_rw_def Let_def)

lemma begin_transfer:
  assumes hw: "ata_hw hw view busy" and m: "\<not> in_transfer (view m)" and c: "count \<noteq> 0"
  obtains m1 where "ata_wait_bsy hw m = (True, m1)"
    "view (p_outb hw 0x1F7 0x20 (set_taskfile hw lba count m1))
       = (view (set_taskfile hw lba count m1))\<lparr>av_phase := begin_in (av_disk (view m)) (ata_lba28 lba) (unat count)\<rparr>"
    "view (p_outb hw 0x1F7 0x30 (set_taskfile hw lba count m1))
       = (view (set_taskfile hw lba count m1))\<lparr>av_phase := begin_out (av_disk (view m)) (av_late (view m)) (ata_lba28 lba) (unat count)\<rparr>"
    "av_disk (view (set_taskfile hw lba count m1)) = av_disk (view m)"
    "av_late (view (set_taskfile hw lba count m1)) = av_late (view m)"
proof -
  obtain m1 where m1: "ata_wait_bsy hw m = (True, m1)" "view m1 = view m" "busy m1 = 0" by (rule wait_bsy_ends [OF hw])
  let ?t = "set_taskfile hw lba count m1"
  have t: "busy ?t = 0" "view_lba (view ?t) = ata_lba28 lba" "av_count (view ?t) = count" "av_disk (view ?t) = av_disk (view m)"
    "av_phase (view ?t) = av_phase (view m)" "av_late (view ?t) = av_late (view m)" using set_taskfile_view [OF hw m1(3)] m m1(2) by simp_all
  have "\<not> in_transfer (view ?t)" using t(5) m by (simp add: in_transfer_def)
  then have "view (p_outb hw 0x1F7 0x20 ?t) = (view ?t)\<lparr>av_phase := begin_in (av_disk (view m)) (ata_lba28 lba) (unat count)\<rparr>"
    "view (p_outb hw 0x1F7 0x30 ?t) = (view ?t)\<lparr>av_phase := begin_out (av_disk (view m)) (av_late (view m)) (ata_lba28 lba) (unat count)\<rparr>"
    using hw t c by (simp_all add: ata_hw_def hw_commands_def)
  then show ?thesis using that m1(1) t(4,6) by blast
qed

text \<open>C23: Reading sectors through the ports is reading them from the disk. On every machine whose drive
  keeps the protocol, the read of the driver without the bus master returns the status and the
  bytes that the disk below the block devices gives for the 28 bits of the sector number, whichever
  sectors are bad; it leaves the disk as it is and the drive ready for the next command.\<close>

theorem driver_read_is_disk_read:
  assumes "ata_hw hw view busy" "\<not> in_transfer (view m)" "disk_ok (av_disk (view m))"
    and "\<not> g_ata_dma_available drv" "addr \<noteq> 0"
  shows "\<exists>m'. ata_read_sectors_io hw drv lba count addr data m = (ata_read_sectors (av_disk (view m)) lba count, m') \<and>
    av_disk (view m') = av_disk (view m) \<and> \<not> in_transfer (view m')"
proof (cases "count = 0")
  case False
  from begin_transfer [OF assms(1,2) this] obtain m1 where m1: "ata_wait_bsy hw m = (True, m1)"
    "view (p_outb hw 0x1F7 0x20 (set_taskfile hw lba count m1))
       = (view (set_taskfile hw lba count m1))\<lparr>av_phase := begin_in (av_disk (view m)) (ata_lba28 lba) (unat count)\<rparr>"
    "av_disk (view (set_taskfile hw lba count m1)) = av_disk (view m)" .
  from read_sector_loop_view [OF assms(1), of "p_outb hw 0x1F7 0x20 (set_taskfile hw lba count m1)" "ata_lba28 lba" "unat count"]
  show ?thesis using m1 assms(3-5) False by (simp add: ata_read_sectors_io_def no_dma ata_read_sectors_def)
qed (use assms in \<open>simp add: ata_read_sectors_io_def no_dma ata_read_sectors_def\<close>)

text \<open>C24: A write through the ports leaves on the drive exactly the disk that the write of the disk
  leaves: the sectors before a bad one are written and no others. The status is reported as success
  if and only if every sector was written, or only the last one was not and failed after its data:
  that error the driver does not see.\<close>

theorem driver_write_is_disk_write:
  assumes "ata_hw hw view busy" "\<not> in_transfer (view m)" "512 * unat count \<le> length buf"
    and "\<not> g_ata_dma_available drv" "addr \<noteq> 0"
  shows "\<exists>ok m'. ata_write_sectors_io hw drv lba count addr buf m = (ok, m') \<and>
    av_disk (view m') = snd (ata_write_sectors (av_disk (view m)) lba count buf) \<and> \<not> in_transfer (view m') \<and>
    (ok \<longleftrightarrow> count \<noteq> 0 \<and> (\<forall>j < unat count. ad_bad (av_disk (view m)) (ata_lba28 lba + of_nat j) \<longrightarrow>
       av_late (view m) (ata_lba28 lba + of_nat j) \<and> Suc j = unat count))"
proof (cases "count = 0")
  case False
  from begin_transfer [OF assms(1,2) this] obtain m1 where m1: "ata_wait_bsy hw m = (True, m1)"
    "view (p_outb hw 0x1F7 0x30 (set_taskfile hw lba count m1)) = (view (set_taskfile hw lba count m1))
       \<lparr>av_phase := begin_out (av_disk (view m)) (av_late (view m)) (ata_lba28 lba) (unat count)\<rparr>"
    "av_disk (view (set_taskfile hw lba count m1)) = av_disk (view m)"
    "av_late (view (set_taskfile hw lba count m1)) = av_late (view m)" .
  from write_sector_loop_view [OF assms(1), of "p_outb hw 0x1F7 0x30 (set_taskfile hw lba count m1)" "ata_lba28 lba" "unat count" buf]
  show ?thesis using m1 assms(3-5) False
    by (auto simp: ata_write_sectors_io_def no_dma ata_write_sectors_def reported_iff [symmetric])
next
  case True
  then have "ata_write_sectors_io hw drv lba count addr buf m = (False, m)"
    "ata_write_sectors (av_disk (view m)) lba count buf = (False, av_disk (view m))"
    using assms(4) by (simp_all add: ata_write_sectors_io_def no_dma ata_write_sectors_def)
  then show ?thesis using assms(2) True by (intro exI [of _ False] exI [of _ m]) simp
qed

section \<open>A drive\<close>

text \<open>A drive that keeps the protocol and is never busy: its state is its view.\<close>

definition plain_drive :: "ata_view ports" where
  "plain_drive =
     \<lparr>p_inb = (\<lambda>port v. (if in_transfer v then 0x58 else if av_phase v = Refused then 0x51 else 0x50, v)),
      p_outb = (\<lambda>port x v.
        if port = 0x1F2 then v\<lparr>av_count := x\<rparr> else if port = 0x1F3 then v\<lparr>av_low := x\<rparr>
        else if port = 0x1F4 then v\<lparr>av_mid := x\<rparr> else if port = 0x1F5 then v\<lparr>av_high := x\<rparr>
        else if port = 0x1F6 then v\<lparr>av_device := x\<rparr>
        else if port = 0x1F7 \<and> x = 0x20 then v\<lparr>av_phase := begin_in (av_disk v) (view_lba v) (unat (av_count v))\<rparr>
        else if port = 0x1F7 \<and> x = 0x30 then v\<lparr>av_phase := begin_out (av_disk v) (av_late v) (view_lba v) (unat (av_count v))\<rparr>
        else v),
      p_inw = (\<lambda>port v. case av_phase v of
        Data_In l n w \<Rightarrow> (dec16 (bslice (2 * w) 2 (ad_sector (av_disk v) l)), word_in v l n w) | _ \<Rightarrow> (0, v)),
      p_outw = (\<lambda>port x v. case av_phase v of Data_Out l n b \<Rightarrow> word_out v l n b x | _ \<Rightarrow> v),
      p_inl = (\<lambda>port v. (0xFFFFFFFF, v)), p_outl = (\<lambda>port x v. v),
      p_put_prd = (\<lambda>prd data v. v), p_mem = (\<lambda>addr n v. replicate n 0), p_prd_addr = 0x1000\<rparr>"

lemma plain_drive_hw: "ata_hw plain_drive (\<lambda>v. v) (\<lambda>v. 0)"
  unfolding ata_hw_def hw_status_def hw_registers_def hw_commands_def hw_data_def
  by (auto simp: plain_drive_def in_transfer_def split: ata_phase.splits)

definition demo_drive :: ata_view where
  "demo_drive = \<lparr>av_device = 0, av_count = 0, av_low = 0, av_mid = 0, av_high = 0, av_phase = Ready,
     av_disk = \<lparr>ad_sector = (\<lambda>i. replicate 512 (ucast i)), ad_bad = (\<lambda>i. i = 9)\<rparr>, av_late = (\<lambda>i. i = 9)\<rparr>"

definition pio_only :: ata_driver where
  "pio_only = \<lparr>g_ata_dma_available = False, g_ata_bmide_base = 0\<rparr>"

text \<open>Sectors 7 and 8 are read; a read of 7 to 9 stops at the bad one with the first two.\<close>

lemma driver_read_is_disk_read_witness:
  "fst (ata_read_sectors_io plain_drive pio_only 7 2 0x8000 [] demo_drive) = (True, replicate 512 7 @ replicate 512 8) \<and>
   fst (ata_read_sectors_io plain_drive pio_only 7 3 0x8000 [] demo_drive) = (False, replicate 512 7 @ replicate 512 8)"
proof -
  have d: "\<not> in_transfer demo_drive" "disk_ok (av_disk demo_drive)" "\<not> g_ata_dma_available pio_only" "(0x8000 :: u32) \<noteq> 0"
    by (simp_all add: demo_drive_def pio_only_def in_transfer_def disk_ok_def)
  note r = driver_read_is_disk_read [OF plain_drive_hw d]
  have "fst (ata_read_sectors_io plain_drive pio_only 7 c 0x8000 [] demo_drive) = ata_read_sectors (av_disk demo_drive) 7 c" for c
    using r [of 7 c "[]"] by auto
  moreover have "ata_lba28 7 = 7" by (simp add: ata_lba28_def)
  moreover have "unat (2 :: u8) = Suc (Suc 0)" "unat (3 :: u8) = Suc (Suc (Suc 0))" "(2 :: u8) \<noteq> 0" "(3 :: u8) \<noteq> 0"
    by simp_all
  moreover have "ata_pio_read (av_disk demo_drive) 7 (Suc (Suc 0)) = (True, replicate 512 7 @ replicate 512 8)"
    "ata_pio_read (av_disk demo_drive) 7 (Suc (Suc (Suc 0))) = (False, replicate 512 7 @ replicate 512 8)"
    by (simp_all add: demo_drive_def)
  ultimately show ?thesis by (simp only: ata_read_sectors_def if_False)
qed

text \<open>Sector 5 is written. The error of sector 9 comes after its data: success, and nothing written.\<close>

lemma driver_write_is_disk_write_witness:
  "fst (ata_write_sectors_io plain_drive pio_only 5 1 0x8000 (replicate 512 1) demo_drive) \<and>
   ad_sector (av_disk (snd (ata_write_sectors_io plain_drive pio_only 5 1 0x8000 (replicate 512 1) demo_drive))) 5 = replicate 512 1 \<and>
   fst (ata_write_sectors_io plain_drive pio_only 9 1 0x8000 (replicate 512 1) demo_drive) \<and>
   ad_sector (av_disk (snd (ata_write_sectors_io plain_drive pio_only 9 1 0x8000 (replicate 512 1) demo_drive))) 9 = replicate 512 9"
proof -
  have d: "\<not> in_transfer demo_drive" "512 * unat (1 :: u8) \<le> length (replicate 512 (1 :: u8))" "\<not> g_ata_dma_available pio_only"
    "(0x8000 :: u32) \<noteq> 0" by (simp_all add: demo_drive_def pio_only_def in_transfer_def)
  have l: "ata_lba28 5 = 5" "ata_lba28 9 = 9" by (simp_all add: ata_lba28_def)
  note w = driver_write_is_disk_write [OF plain_drive_hw d]
  show ?thesis using w [of 5] w [of 9] l by (auto simp: ata_write_sectors_def demo_drive_def)
qed

end
