(* ===== verification/Syscalls.thy ===== *)
theory Syscalls
  imports Vfs_Open Clock Console Tasks
begin

text \<open>
  System calls: the dispatch of kernel/syscall.cpp on the registers of the caller, and the functions
  of lib/syscall.cpp that load the registers. Memory is read through parameters, str for the string
  at an address, None for a null pointer, and mem for a number of bytes; what a call stores is
  returned.
\<close>

section \<open>The handler\<close>

datatype user_store = Store_Bytes u32 bytes | Store_Stat u32 kstat

record sys_state =
  sy_vfs :: vfs
  sy_console :: console

type_synonym user_memory = "(u32 \<Rightarrow> bytes option) \<times> (u32 \<Rightarrow> nat \<Rightarrow> bytes)"

text \<open>A result in eax with the new state of the file system, and without any store.\<close>

definition ret_int :: "cpu_state \<Rightarrow> sys_state \<Rightarrow> (int \<times> vfs) option \<Rightarrow> (cpu_state \<times> user_store list \<times> sys_state) option" where
  "ret_int cpu s r = map_option (\<lambda>(i, v). (cpu\<lparr>cs_eax := of_int i\<rparr>, [], s\<lparr>sy_vfs := v\<rparr>)) r"

definition print_time :: "(nat \<Rightarrow> u8 \<Rightarrow> u8) \<Rightarrow> console \<Rightarrow> console option" where
  "print_time rd c =
     (case rtc_read_time rd of (hour, minute, second) \<Rightarrow>
        do { c \<leftarrow> printfHex hour c; c \<leftarrow> vga_printf [58] c; c \<leftarrow> printfHex minute c; c \<leftarrow> vga_printf [58] c;
             c \<leftarrow> printfHex second c; vga_printf [10] c })"

definition syscall_interrupt ::
  "user_memory \<Rightarrow> (nat \<Rightarrow> u8 \<Rightarrow> u8) \<Rightarrow> ext4_extent option \<Rightarrow> cpu_state \<Rightarrow> sys_state \<Rightarrow>
   (cpu_state \<times> user_store list \<times> sys_state) option" where
  "syscall_interrupt um rd stale cpu s =
     (let str = fst um; mem = snd um; a = cs_eax cpu; b = cs_ebx cpu; c = cs_ecx cpu; d = cs_edx cpu; v = sy_vfs s in
      if a = 0
      then do { t \<leftarrow> str b; con \<leftarrow> vga_printf t (sy_console s); Some (cpu, [], s\<lparr>sy_console := con\<rparr>) }
      else if a = 1
      then do { con \<leftarrow> print_time rd (sy_console s); Some (cpu, [], s\<lparr>sy_console := con\<rparr>) }
      else if a = 4 then ret_int cpu s (vfs_chdir (str b) v)
      else if a = 3 then ret_int cpu s (vfs_mkdir (str b) 0x1ED v)
      else if a = 2 then ret_int cpu s (vfs_open (str b) c d v)
      else if a = 5 then ret_int cpu s (vfs_close (sint b) v)
      else if a = 6
      then do { (i, buf, v) \<leftarrow> vfs_getdents (sint b) (mem c (unat d)) d v;
                Some (cpu\<lparr>cs_eax := of_int i\<rparr>, [Store_Bytes c buf], s\<lparr>sy_vfs := v\<rparr>) }
      else if a = 7
      then (if b = 0 then Some (cpu\<lparr>cs_eax := of_int EINVAL_neg\<rparr>, [], s)
            else case vfs_getcwd (sint c) v of
              (Inl e, v) \<Rightarrow> Some (cpu\<lparr>cs_eax := of_int e\<rparr>, [], s\<lparr>sy_vfs := v\<rparr>)
            | (Inr path, v) \<Rightarrow> Some (cpu\<lparr>cs_eax := 0\<rparr>, [Store_Bytes b (path @ [0])], s\<lparr>sy_vfs := v\<rparr>))
      else if a = 8 then ret_int cpu s (vfs_write (sint b) (mem c (unat d)) v)
      else if a = 9
      then do { (r, v) \<leftarrow> vfs_read stale (sint b) d v;
                Some (case r of
                        Inl e \<Rightarrow> (cpu\<lparr>cs_eax := of_int e\<rparr>, [], s\<lparr>sy_vfs := v\<rparr>)
                      | Inr xs \<Rightarrow> (cpu\<lparr>cs_eax := of_nat (length xs)\<rparr>, [Store_Bytes c xs], s\<lparr>sy_vfs := v\<rparr>)) }
      else if a = 10 then ret_int cpu s (vfs_unlink (str b) v)
      else if a = 12 then ret_int cpu s (vfs_rmdir (str b) v)
      else if a = 11
      then (if c = 0 then Some (cpu\<lparr>cs_eax := of_int EINVAL_neg\<rparr>, [], s)
            else do { (r, v) \<leftarrow> vfs_stat (str b) v;
                      Some (case r of
                              Inl e \<Rightarrow> (cpu\<lparr>cs_eax := of_int e\<rparr>, [], s\<lparr>sy_vfs := v\<rparr>)
                            | Inr st \<Rightarrow> (cpu\<lparr>cs_eax := 0\<rparr>, [Store_Stat c st], s\<lparr>sy_vfs := v\<rparr>)) })
      else Some (cpu, [], s))"

section \<open>The callers\<close>

text \<open>
  int 0x80 with the given registers: the value the caller finds in eax, what was stored, the new
  state. The functions differ in the number and in the registers they load.
\<close>

definition int80 ::
  "user_memory \<Rightarrow> (nat \<Rightarrow> u8 \<Rightarrow> u8) \<Rightarrow> ext4_extent option \<Rightarrow> cpu_state \<Rightarrow> u32 \<Rightarrow> u32 \<Rightarrow> u32 \<Rightarrow> u32 \<Rightarrow> sys_state \<Rightarrow>
   (int \<times> user_store list \<times> sys_state) option" where
  "int80 um rd stale cpu a b c d s =
     map_option (\<lambda>(cpu, out, s). (sint (cs_eax cpu), out, s))
       (syscall_interrupt um rd stale (cpu\<lparr>cs_eax := a, cs_ebx := b, cs_ecx := c, cs_edx := d\<rparr>) s)"

text \<open>Registers a function does not load keep what they held.\<close>

definition sysPrintf where "sysPrintf um rd stale cpu str s = int80 um rd stale cpu 0 str (cs_ecx cpu) (cs_edx cpu) s"
definition sysTime where "sysTime um rd stale cpu s = int80 um rd stale cpu 1 (cs_ebx cpu) (cs_ecx cpu) (cs_edx cpu) s"
definition sysOpen where "sysOpen um rd stale cpu path flags mode s = int80 um rd stale cpu 2 path flags mode s"
definition sysMkdir where "sysMkdir um rd stale cpu path s = int80 um rd stale cpu 3 path (cs_ecx cpu) (cs_edx cpu) s"
definition sysChdir where "sysChdir um rd stale cpu path s = int80 um rd stale cpu 4 path (cs_ecx cpu) (cs_edx cpu) s"
definition sysClose where "sysClose um rd stale cpu fd s = int80 um rd stale cpu 5 fd (cs_ecx cpu) (cs_edx cpu) s"
definition sysGetdents where "sysGetdents um rd stale cpu fd dirent cnt s = int80 um rd stale cpu 6 fd dirent cnt s"
definition sysGetcwd where "sysGetcwd um rd stale cpu buf sz s = int80 um rd stale cpu 7 buf sz (cs_edx cpu) s"
definition sysFileWrite where "sysFileWrite um rd stale cpu fd buf cnt s = int80 um rd stale cpu 8 fd buf cnt s"
definition sysFileRead where "sysFileRead um rd stale cpu fd buf cnt s = int80 um rd stale cpu 9 fd buf cnt s"
definition sysUnlink where "sysUnlink um rd stale cpu path s = int80 um rd stale cpu 10 path (cs_ecx cpu) (cs_edx cpu) s"
definition sysStat where "sysStat um rd stale cpu path st s = int80 um rd stale cpu 11 path st (cs_edx cpu) s"
definition sysRmdir where "sysRmdir um rd stale cpu path s = int80 um rd stale cpu 12 path (cs_ecx cpu) (cs_edx cpu) s"

lemmas sys_defs = sysPrintf_def sysTime_def sysOpen_def sysMkdir_def sysChdir_def sysClose_def sysGetdents_def
  sysGetcwd_def sysFileWrite_def sysFileRead_def sysUnlink_def sysStat_def sysRmdir_def

section \<open>A call reaches its function\<close>

text \<open>
  The number and the registers of each caller are those its case of the handler takes: the caller
  gets the result of the function of the file system for the arguments it gave, cut to 32 bits.
\<close>

lemma sys_calls_reach:
  "sysOpen um rd stale cpu path flags mode s =
     map_option (\<lambda>(i, v). (sint (of_int i :: u32), [], s\<lparr>sy_vfs := v\<rparr>)) (vfs_open (fst um path) flags mode (sy_vfs s))"
  "sysMkdir um rd stale cpu path s =
     map_option (\<lambda>(i, v). (sint (of_int i :: u32), [], s\<lparr>sy_vfs := v\<rparr>)) (vfs_mkdir (fst um path) 0x1ED (sy_vfs s))"
  "sysChdir um rd stale cpu path s =
     map_option (\<lambda>(i, v). (sint (of_int i :: u32), [], s\<lparr>sy_vfs := v\<rparr>)) (vfs_chdir (fst um path) (sy_vfs s))"
  "sysUnlink um rd stale cpu path s =
     map_option (\<lambda>(i, v). (sint (of_int i :: u32), [], s\<lparr>sy_vfs := v\<rparr>)) (vfs_unlink (fst um path) (sy_vfs s))"
  "sysRmdir um rd stale cpu path s =
     map_option (\<lambda>(i, v). (sint (of_int i :: u32), [], s\<lparr>sy_vfs := v\<rparr>)) (vfs_rmdir (fst um path) (sy_vfs s))"
  "sysClose um rd stale cpu fd s =
     map_option (\<lambda>(i, v). (sint (of_int i :: u32), [], s\<lparr>sy_vfs := v\<rparr>)) (vfs_close (sint fd) (sy_vfs s))"
  "sysFileWrite um rd stale cpu fd buf cnt s =
     map_option (\<lambda>(i, v). (sint (of_int i :: u32), [], s\<lparr>sy_vfs := v\<rparr>)) (vfs_write (sint fd) (snd um buf (unat cnt)) (sy_vfs s))"
  by (simp_all add: sys_defs int80_def syscall_interrupt_def ret_int_def Let_def option.map_comp comp_def case_prod_unfold)

lemma sys_read_reaches:
  "vfs_read stale (sint fd) cnt (sy_vfs s) = Some (r, v) \<Longrightarrow>
   sysFileRead um rd stale cpu fd buf cnt s = Some (case r of
       Inl e \<Rightarrow> (sint (of_int e :: u32), [], s\<lparr>sy_vfs := v\<rparr>)
     | Inr xs \<Rightarrow> (sint (of_nat (length xs) :: u32), [Store_Bytes buf xs], s\<lparr>sy_vfs := v\<rparr>))"
  by (simp add: sys_defs int80_def syscall_interrupt_def Let_def split: sum.splits)

lemma sys_getcwd_reaches:
  "buf \<noteq> 0 \<Longrightarrow> sysGetcwd um rd stale cpu buf sz s = Some (case vfs_getcwd (sint sz) (sy_vfs s) of
       (Inl e, v) \<Rightarrow> (sint (of_int e :: u32), [], s\<lparr>sy_vfs := v\<rparr>)
     | (Inr path, v) \<Rightarrow> (0, [Store_Bytes buf (path @ [0])], s\<lparr>sy_vfs := v\<rparr>))"
  by (simp add: sys_defs int80_def syscall_interrupt_def Let_def split: sum.splits prod.splits)

text \<open>Printing through the system call cannot leave the screen.\<close>

lemma sys_print_on_screen:
  assumes "on_screen (sy_console s)" "fst um str = Some t"
  obtains r s' where "sysPrintf um rd stale cpu str s = Some (r, [], s')" "on_screen (sy_console s')" "sy_vfs s' = sy_vfs s"
proof -
  obtain con where "vga_printf t (sy_console s) = Some con" "on_screen con"
    using vga_printf_on_screen [OF assms(1)] by blast
  then show ?thesis using that assms(2) by (simp add: sys_defs int80_def syscall_interrupt_def Let_def)
qed

end
