(* ===== verification/Spec2Isabelle.thy ===== *)
theory Spec2Isabelle
  imports Io_Props Balloc_Reach Ialloc_Props Extents_Props Dir_Props Inode_Props Inode_Free Vfs_Props Mount_Props File_Props File_Total Vfs_Calls Vfs_Files
    Numfmt_Props Shell_Paths Clock_Props Tasks Keyboard Mem_Str Shell Console Machine Ata_Pio
    Syscalls
begin

text \<open>
  MiniExt4 is a small x86 kernel built around an ext4 file system. This development models its
  storage stack, from the sectors of the ATA disk to the calls user programs make, and the parts of
  the kernel around it: clock, keyboard, console, scheduler, command line. It proves what the layers
  promise each other.

  \<^bold>\<open>The program.\<close> A call of fs/dir.c or fs/open.c resolves its path (fs/namei.c) through the dentry
  cache (fs/dcache.c); a name that is not cached is looked up by the directory code of ext4. The
  inode operations (fs/ext4/inode.c) take numbers from the inode allocator (ialloc.c), blocks from
  the block allocator (balloc.c), enter names into directories (dir.c, htree.c) and store inodes
  (super.c). Files (file.c) reach their blocks through direct and indirect pointers or extent trees
  (extents.c). Blocks are runs of sectors (io.c) of the default block device (block/blkdev.c), the
  ATA disk (drivers/ata). Mounting (fs/super.c, ext4/super.c) reads the superblock, formatting an
  empty disk first. Interrupts (kernel/interrupts) drive the scheduler and the keyboard, whose ring
  hands the shell (kernel/shell.cpp) the line it runs a command of kernel/cmds.cpp for.

  \<^bold>\<open>Theories and code.\<close> Each theory names its source file at its head.
  \<^item> Prelude, Layout: integer types, byte buffers, little-endian structures of ext4.h, the static
    buffer pools that stand for malloc. The locale packed gives the laws of a structure in a buffer.
  \<^item> Blkdev, Ext4_Io, Io_Props: sectors, chunked transfers, blocks. The locale block_store states that
    blocks are cells; it is interpreted on ext4_read_block and ext4_write_block.
  \<^item> Ata, Ata_Pio: ata.cpp over the ports of a machine that is a parameter. On every drive that keeps
    the transfer protocol, ata_hw, the driver without the bus master is the disk of Blkdev.
  \<^item> Fs_State: the record kfs, with the disk, the mounted superblock and the static variables.
  \<^item> Group_Desc, Balloc, then Balloc_Scan, Balloc_Inv, Balloc_Steps, Balloc_Alloc, Balloc_Free,
    Balloc_Props, Balloc_Reach: descriptors and the block allocator with its bitmap cache. The scan
    finds a longest run; each step keeps alloc_ok; the locale block_allocator is the client's view, a
    set of used blocks.
  \<^item> Ialloc, Ialloc_Steps, Ialloc_Props: the inode allocator.
  \<^item> Inode_State, Inode_Disk, Inode_Store, Inode_Props: inode objects and their place on disk.
  \<^item> Extents, Extents_Leaf, Extents_Insert, Extents_Split, Extents_Props: extent trees. A leaf is a
    finite map; search, insertion with merging and splitting are lookups and updates of it.
  \<^item> Dir_Map, Htree, Htree_Leaf, Dir, Dir_Add: directories. Dir_Block, Dir_Edit, Dir_Props: one block is
    an association list. Dir_Whole, Dir_Listing: so is a directory; the locale dir_map states what the
    loops rely on in the block map and is interpreted on its three forms.
  \<^item> Inode_Free, Inode_Ops: release of blocks; lookup, create, mkdir, unlink, rmdir.
  \<^item> File, File_Read, File_Write, File_Props, File_Total: files. The locales file_map and file_map_rw
    state what reading and overwriting rely on in a block map; reading ends on every disk.
  \<^item> Dcache, Namei, Vfs_Dir, Vfs_Open: dentries, paths, calls. Dcache_Refs, Vfs_Props: reference counts.
    Vfs_Calls, Vfs_Files: buffers of getdents, the table of descriptors, the current directory.
  \<^item> Mkfs, Mount, Mount_Props: formatting and mounting; a mounted superblock is well-typed.
  \<^item> Mem_Str, Numfmt, Numfmt_Props: memory.c, string.cpp, numfmt.cpp. memmove on overlapping regions; a
    printed 64-bit number is parsed back.
  \<^item> Clock, Clock_Props: rtc.cpp and time.cpp, date and seconds as inverses.
  \<^item> Tasks: the scheduler of multitasking.cpp with round robin, the dispatch of interrupts.cpp.
  \<^item> Keyboard, Shell, Shell_Paths: from scan codes to the command that runs; patterns of find.
  \<^item> Console, Machine: printf.cpp on the screen memory; gdt.cpp and pit.cpp.
  \<^item> Syscalls: the dispatch of kernel/syscall.cpp and the callers of lib/syscall.cpp; each call reaches
    its function with the arguments given.
  \<^item> Demo_State: a small concrete file system at which the theorems are applied.

  \<^bold>\<open>How the code is modelled.\<close> State is passed explicitly. A C integer is a word of its width, so
  arithmetic wraps as it does there; offsets within a buffer are natural numbers. A structure that is
  cast onto a buffer is read and written at its byte offset. A failed operation returns the value of
  the code, mostly an option or a boolean; where C has undefined behaviour, a division by 0 or a null
  dereference, the function returns None outside of that. Pointers to objects of a static pool are
  indices. Inodes are passed as values and handed back by the operations that change them; the VFS
  stores them under their slot. The superblock is the single static one of fs/super.c.

  \<^bold>\<open>Loops.\<close> Every function is total. Loops over the entries of a block end because the code rejects
  records of length 0; loops over blocks with a 32-bit counter that may never find an unmapped block
  return None when the counter wraps around. The recursion of dput ends because each release cuts a
  parent link. The walk that frees an extent tree counts its levels down from the number of
  buffers of inode.c, which is enough because every level holds one of them. unlink_type is a partial
  function over a list that may be cyclic.

  \<^bold>\<open>Not modelled.\<close> The bodies of the commands of kernel/cmds.cpp call the file system and print; what
  they call is modelled, what they print is not. kernel.cpp constructs the objects in order. The frame
  buffer console draws glyphs; the mouse is never started. Printed messages are left out everywhere but in the console
  itself. The clock read for time stamps is the field rtc_unix_time of the state. The index of
  directories in memory, dir_index, is switched off in the source and left out. Fields the code
  stores and never reads are left out of the records.
\<close>

end
